(* ===== verification/Tiny_Prelude.thy ===== *)
theory Tiny_Prelude
  imports Main "HOL-Library.Char_ord" "HOL-Library.List_Lexorder" "HOL-Library.AList"
    "HOL-Library.Sublist" "HOL-Library.Word"
begin

section \<open>Shared vocabulary of the model\<close>

text \<open>
  What the components share: Go strings as byte lists with the functions of the \<open>strings\<close>
  and \<open>strconv\<close> packages the sources call, Go maps as association lists, and the lemmas on
  them that the component proofs use. A Go \<open>string\<close> or \<open>[]byte\<close> is an Isabelle
  \<^typ>\<open>string\<close>: both are sequences of bytes, and the order of \<open>HOL-Library.List_Lexorder\<close> over
  \<open>HOL-Library.Char_ord\<close> is Go's bytewise string order. A Go map is a list of pairs, read with
  \<^const>\<open>map_of\<close> and written with \<^const>\<open>AList.update\<close> and \<^const>\<open>AList.delete\<close>.
\<close>

named_theorems wire_simps \<open>evaluation of strings, keys and headers\<close>
named_theorems go_map_simps \<open>lookups in Go maps\<close>

type_synonym bytes = string
type_synonym 'v gomap = "(string \<times> 'v) list"

subsection \<open>Package strings\<close>

definition has_prefix :: "string \<Rightarrow> string \<Rightarrow> bool" where
  "has_prefix s p = (take (length p) s = p)"

definition has_suffix :: "string \<Rightarrow> string \<Rightarrow> bool" where
  "has_suffix s q = (length q \<le> length s \<and> drop (length s - length q) s = q)"

definition trim_prefix :: "string \<Rightarrow> string \<Rightarrow> string" where
  "trim_prefix s p = (if has_prefix s p then drop (length p) s else s)"

fun contains_str :: "string \<Rightarrow> string \<Rightarrow> bool" where
  "contains_str [] q = (q = [])"
| "contains_str (c # s) q = (has_prefix (c # s) q \<or> contains_str s q)"

text \<open>\<open>strings.Index\<close>: what stands before the first occurrence.\<close>

fun before_str :: "string \<Rightarrow> string \<Rightarrow> string option" where
  "before_str pat [] = (if pat = [] then Some [] else None)"
| "before_str pat (c # cs) = (if take (length pat) (c # cs) = pat then Some [] else map_option ((#) c) (before_str pat cs))"

lemma before_str_Some: "before_str pat s = Some b \<Longrightarrow> \<exists>t. s = b @ pat @ t"
proof (induction pat s arbitrary: b rule: before_str.induct)
  case (1 pat)
  then show ?case by (simp split: if_splits)
next
  case (2 pat c cs)
  show ?case
  proof (cases "take (length pat) (c # cs) = pat")
    case True
    then have "c # cs = pat @ drop (length pat) (c # cs)" by (metis append_take_drop_id)
    with 2 True show ?thesis by auto
  next
    case False
    with 2 obtain b' where "b = c # b'" "before_str pat cs = Some b'" by auto
    with 2 False show ?thesis by auto
  qed
qed

lemma before_str_length: "before_str pat s = Some b \<Longrightarrow> length b + length pat \<le> length s"
  by (drule before_str_Some) auto

text \<open>\<open>strings.Split\<close> at a one-byte separator: never empty, one part more than separators.\<close>

fun split_char :: "char \<Rightarrow> string \<Rightarrow> string list" where
  "split_char d [] = [[]]"
| "split_char d (c # s) =
     (if c = d then [] # split_char d s
      else (case split_char d s of [] \<Rightarrow> [[c]] | p # ps \<Rightarrow> (c # p) # ps))"

text \<open>\<open>strings.SplitN\<close> at a one-byte separator, for a positive bound.\<close>

fun split_char_n :: "nat \<Rightarrow> char \<Rightarrow> string \<Rightarrow> string list" where
  "split_char_n 0 d s = []"
| "split_char_n (Suc 0) d s = [s]"
| "split_char_n (Suc (Suc n)) d s =
     (if d \<in> set s
      then takeWhile (\<lambda>c. c \<noteq> d) s # split_char_n (Suc n) d (tl (dropWhile (\<lambda>c. c \<noteq> d) s))
      else [s])"

text \<open>\<open>strings.Cut\<close>: the part before the separator.\<close>

definition cut_before :: "char \<Rightarrow> string \<Rightarrow> string" where
  "cut_before d s = takeWhile (\<lambda>c. c \<noteq> d) s"

text \<open>\<open>strings.Join\<close>.\<close>

fun join_str :: "string \<Rightarrow> string list \<Rightarrow> string" where
  "join_str sep [] = []"
| "join_str sep [s] = s"
| "join_str sep (s # t # ss) = s @ sep @ join_str sep (t # ss)"

text \<open>
  The number of bytes of the first rune of a non-empty string, as \<open>utf8.DecodeRuneInString\<close> splits
  it: a byte that does not start a valid sequence is a rune of its own.
\<close>

definition byte_in :: "nat \<Rightarrow> nat \<Rightarrow> char \<Rightarrow> bool" where
  "byte_in lo hi c = (lo \<le> of_char c \<and> of_char c \<le> hi)"

fun rune_width :: "string \<Rightarrow> nat" where
  "rune_width (a # b # c # d # s) =
     (if byte_in 0xC2 0xDF a \<and> byte_in 0x80 0xBF b then 2
      else if (a = CHR 0xE0 \<and> byte_in 0xA0 0xBF b \<or> a = CHR 0xED \<and> byte_in 0x80 0x9F b
          \<or> (byte_in 0xE1 0xEF a \<and> a \<noteq> CHR 0xED) \<and> byte_in 0x80 0xBF b)
          \<and> byte_in 0x80 0xBF c then 3
      else if (a = CHR 0xF0 \<and> byte_in 0x90 0xBF b \<or> a = CHR 0xF4 \<and> byte_in 0x80 0x8F b
          \<or> byte_in 0xF1 0xF3 a \<and> byte_in 0x80 0xBF b)
          \<and> byte_in 0x80 0xBF c \<and> byte_in 0x80 0xBF d then 4
      else 1)"
| "rune_width [a, b, c] =
     (if byte_in 0xC2 0xDF a \<and> byte_in 0x80 0xBF b then 2
      else if (a = CHR 0xE0 \<and> byte_in 0xA0 0xBF b \<or> a = CHR 0xED \<and> byte_in 0x80 0x9F b
          \<or> (byte_in 0xE1 0xEF a \<and> a \<noteq> CHR 0xED) \<and> byte_in 0x80 0xBF b)
          \<and> byte_in 0x80 0xBF c then 3
      else 1)"
| "rune_width [a, b] = (if byte_in 0xC2 0xDF a \<and> byte_in 0x80 0xBF b then 2 else 1)"
| "rune_width _ = 1"

definition is_upper_ascii :: "char \<Rightarrow> bool" where
  "is_upper_ascii c = (CHR ''A'' \<le> c \<and> c \<le> CHR ''Z'')"

definition lower_char :: "char \<Rightarrow> char" where
  "lower_char c = (if is_upper_ascii c then char_of (of_char c + 32 :: nat) else c)"

text \<open>
  \<open>strings.ToLower\<close>: ASCII letters, and the two code points above ASCII whose lower case is
  ASCII, U+0130 (bytes C4 B0, i) and U+212A (bytes E2 84 AA, k). Other code points above ASCII
  are left alone.
\<close>

fun to_lower :: "string \<Rightarrow> string" where
  "to_lower [] = []"
| "to_lower (c # s) =
     (case s of
        b # r \<Rightarrow>
          if c = CHR 0xC4 \<and> b = CHR 0xB0 then CHR ''i'' # to_lower r
          else if c = CHR 0xE2 \<and> b = CHR 0x84 \<and> r \<noteq> [] \<and> hd r = CHR 0xAA
            then CHR ''k'' # to_lower (tl r)
          else lower_char c # to_lower s
      | [] \<Rightarrow> [lower_char c])"

text \<open>
  Simple case folding towards ASCII, as \<open>strings.EqualFold\<close> and a regular expression with
  \<open>(?i)\<close> apply it: ASCII letters fold to lower case, and of the code points above ASCII only
  U+017F (bytes C5 BF, folds to s) and U+212A (bytes E2 84 AA, folds to k) fold to ASCII.
\<close>

fun fold_case :: "string \<Rightarrow> string" where
  "fold_case [] = []"
| "fold_case (c # s) =
     (case s of
        b # r \<Rightarrow>
          if c = CHR 0xC5 \<and> b = CHR 0xBF then CHR ''s'' # fold_case r
          else if c = CHR 0xE2 \<and> b = CHR 0x84 \<and> r \<noteq> [] \<and> hd r = CHR 0xAA
            then CHR ''k'' # fold_case (tl r)
          else lower_char c # fold_case s
      | [] \<Rightarrow> [lower_char c])"

definition equal_fold :: "string \<Rightarrow> string \<Rightarrow> bool" where
  "equal_fold s t = (fold_case s = fold_case t)"

text \<open>
  \<open>strings.TrimSpace\<close>: the encodings of the white-space code points of \<open>unicode.IsSpace\<close>, removed from
  both ends. The encoding of a code point ends a string exactly when its last rune is that code point.
\<close>

definition space_runes :: "string list" where
  "space_runes =
     ['' '', [CHR 0x09], [CHR 0x0A], [CHR 0x0B], [CHR 0x0C], [CHR 0x0D], [CHR 0xC2, CHR 0x85], [CHR 0xC2, CHR 0xA0],
      [CHR 0xE1, CHR 0x9A, CHR 0x80], [CHR 0xE2, CHR 0x81, CHR 0x9F], [CHR 0xE3, CHR 0x80, CHR 0x80]]
     @ map (\<lambda>c. [CHR 0xE2, CHR 0x80, c])
         ([CHR 0xA8, CHR 0xA9, CHR 0xAF] @ map (\<lambda>i. char_of (0x80 + i :: nat)) [0..<11])"

function trim_left :: "string list \<Rightarrow> string \<Rightarrow> string" where
  "trim_left cs s =
     (case find (\<lambda>p. p \<noteq> [] \<and> has_prefix s p) cs of
        None \<Rightarrow> s
      | Some p \<Rightarrow> trim_left cs (drop (length p) s))"
  by pat_completeness auto
termination
proof (relation "measure (length \<circ> snd)")
  fix cs :: "string list" and s p
  assume "find (\<lambda>p. p \<noteq> [] \<and> has_prefix s p) cs = Some p"
  then have "p \<noteq> []" "s = p @ drop (length p) s"
    by (auto simp: find_Some_iff has_prefix_def) (metis append_take_drop_id)
  then show "((cs, drop (length p) s), cs, s) \<in> measure (length \<circ> snd)" by (cases s) auto
qed simp

declare trim_left.simps [simp del]

definition trim_space :: "string \<Rightarrow> string" where
  "trim_space s = rev (trim_left (map rev space_runes) (rev (trim_left space_runes s)))"

definition is_digit :: "char \<Rightarrow> bool" where
  "is_digit c = (CHR ''0'' \<le> c \<and> c \<le> CHR ''9'')"

definition is_alnum :: "char \<Rightarrow> bool" where
  "is_alnum c = ((CHR ''a'' \<le> c \<and> c \<le> CHR ''z'') \<or> (CHR ''A'' \<le> c \<and> c \<le> CHR ''Z'') \<or> is_digit c)"

subsection \<open>Package strconv and fmt\<close>

definition digit_char :: "nat \<Rightarrow> char" where
  "digit_char d = char_of (48 + d)"

fun nat_dec :: "nat \<Rightarrow> string" where
  "nat_dec n = (if n < 10 then [digit_char n] else nat_dec (n div 10) @ [digit_char (n mod 10)])"

definition itoa :: "int \<Rightarrow> string" where
  "itoa i = (if i < 0 then CHR ''-'' # nat_dec (nat (- i)) else nat_dec (nat i))"

definition dec_nat :: "string \<Rightarrow> nat" where
  "dec_nat s = foldl (\<lambda>a c. 10 * a + (of_char c - 48)) 0 s"

definition max_int64 :: int where "max_int64 = 2 ^ 63 - 1"

text \<open>The value of an integer expression of Go type \<open>int64\<close>: arithmetic wraps around.\<close>

definition wrap64 :: "int \<Rightarrow> int" where
  "wrap64 i = (i + 2 ^ 63) mod 2 ^ 64 - 2 ^ 63"

text \<open>
  \<open>strconv.Atoi\<close> and \<open>strconv.ParseInt\<close> with base 10 and 64 bits: an optional sign, then at
  least one digit. The result is the value and whether there was no error; a value out of range
  is clamped and reported as an error, a syntax error yields 0.
\<close>

definition atoi :: "string \<Rightarrow> int \<times> bool" where
  "atoi s =
     (let (neg, ds) = (case s of
            [] \<Rightarrow> (False, [])
          | c # r \<Rightarrow> if c = CHR ''-'' then (True, r) else if c = CHR ''+'' then (False, r)
                      else (False, s))
      in if ds = [] \<or> \<not> list_all is_digit ds then (0, False)
         else let v = (if neg then - int (dec_nat ds) else int (dec_nat ds))
              in if v > max_int64 then (max_int64, False)
                 else if v < - max_int64 - 1 then (- max_int64 - 1, False)
                 else (v, True))"

definition hex_digit :: "nat \<Rightarrow> char" where
  "hex_digit d = (if d < 10 then char_of (48 + d) else char_of (87 + d))"

text \<open>\<open>%016x\<close> of an unsigned 64-bit integer.\<close>

text \<open>The verb \<open>%q\<close>; code points above ASCII are printed as they are.\<close>

definition quoted_char :: "char \<Rightarrow> string" where
  "quoted_char c =
     (if c = CHR 0x22 \<or> c = CHR 0x5C then [CHR 0x5C, c]
      else case map_of [(CHR 0x07, CHR ''a''), (CHR 0x08, CHR ''b''), (CHR 0x0C, CHR ''f''), (CHR 0x0A, CHR ''n''),
                        (CHR 0x0D, CHR ''r''), (CHR 0x09, CHR ''t''), (CHR 0x0B, CHR ''v'')] c of
             Some e \<Rightarrow> [CHR 0x5C, e]
           | None \<Rightarrow>
             if of_char c < (32::nat) \<or> c = CHR 0x7F
             then [CHR 0x5C, CHR ''x'', hex_digit (of_char c div 16), hex_digit (of_char c mod 16)]
             else [c])"

definition quoted :: "string \<Rightarrow> string" where
  "quoted s = [CHR 0x22] @ concat (map quoted_char s) @ [CHR 0x22]"

text \<open>A dash and an ellipsis, as bytes of the messages.\<close>

definition emdash :: string where "emdash = [CHR 0xE2, CHR 0x80, CHR 0x94]"
definition ellipsis :: string where "ellipsis = [CHR 0xE2, CHR 0x80, CHR 0xA6]"

definition hex16 :: "64 word \<Rightarrow> string" where
  "hex16 w = map (\<lambda>i. hex_digit (unat w div 16 ^ (15 - i) mod 16)) [0..<16]"

subsection \<open>Lemmas on strings\<close>

declare nat_dec.simps [simp del]

lemma has_prefix_iff_prefix: "has_prefix s p \<longleftrightarrow> prefix p s"
  by (metis append_take_drop_id has_prefix_def prefix_def take_is_prefix append_eq_conv_conj)

lemma has_prefix_append [simp, intro]: "has_prefix (p @ s) p"
  by (simp add: has_prefix_def)

lemma has_prefix_Nil [simp]: "has_prefix s []"
  by (simp add: has_prefix_def)

lemma has_prefixE: "has_prefix s p \<Longrightarrow> (\<And>r. s = p @ r \<Longrightarrow> thesis) \<Longrightarrow> thesis"
  by (auto simp: has_prefix_iff_prefix prefix_def)

lemma trim_prefix_append [simp]: "trim_prefix (p @ s) p = s"
  by (simp add: trim_prefix_def)

lemma has_suffix_append [simp, intro]: "has_suffix (s @ q) q"
  by (simp add: has_suffix_def)

lemma split_char_not_Nil [simp]: "split_char d s \<noteq> []"
  by (induction s) (auto split: list.splits)

lemma split_char_no_sep [simp]: "d \<notin> set s \<Longrightarrow> split_char d s = [s]"
  by (induction s) auto

lemma split_char_append_sep:
  "d \<notin> set p \<Longrightarrow> split_char d (p @ d # s) = p # split_char d s"
  by (induction p) auto

lemma length_split_char: "length (split_char d s) = Suc (count_list s d)"
  by (induction s) (auto split: list.splits)

lemma split_char_n_step:
  assumes "d \<notin> set p"
  shows "split_char_n (Suc (Suc n)) d (p @ d # s) = p # split_char_n (Suc n) d s"
proof -
  have "takeWhile (\<lambda>c. c \<noteq> d) (p @ d # s) = p" and "dropWhile (\<lambda>c. c \<noteq> d) (p @ d # s) = d # s"
    using assms by (simp_all add: takeWhile_append dropWhile_append)
  then show ?thesis by simp
qed

lemma digit_char_of_char: "d < 10 \<Longrightarrow> of_char (digit_char d) = 48 + d"
  by (simp add: digit_char_def)

lemma is_digit_digit_char: "d < 10 \<Longrightarrow> is_digit (digit_char d)"
  by (simp add: is_digit_def less_eq_char_def digit_char_of_char)

lemma is_digit_nat_dec: "c \<in> set (nat_dec n) \<Longrightarrow> is_digit c"
proof (induction n rule: nat_dec.induct)
  case (1 n)
  then show ?case
    by (subst (asm) (2) nat_dec.simps) (auto simp: is_digit_digit_char split: if_splits)
qed

lemma nat_dec_not_Nil [simp]: "nat_dec n \<noteq> []"
  by (subst nat_dec.simps) simp

lemma dec_nat_snoc: "dec_nat (s @ [c]) = 10 * dec_nat s + (of_char c - 48)"
  by (simp add: dec_nat_def)

lemma dec_nat_nat_dec: "dec_nat (nat_dec n) = n"
proof (induction n rule: nat_dec.induct)
  case (1 n)
  show ?case
  proof (cases "n < 10")
    case True
    then show ?thesis by (subst nat_dec.simps) (simp add: dec_nat_def digit_char_of_char)
  next
    case False
    then have "dec_nat (nat_dec (n div 10) @ [digit_char (n mod 10)]) = n"
      using 1 by (simp add: dec_nat_snoc digit_char_of_char)
    with False show ?thesis by (subst nat_dec.simps) simp
  qed
qed

lemma nat_dec_inject [simp]: "nat_dec m = nat_dec n \<longleftrightarrow> m = n"
  by (metis dec_nat_nat_dec)

lemma hd_nat_dec_digit: "is_digit (hd (nat_dec n))"
  by (rule is_digit_nat_dec [of _ n]) simp

lemma not_digit_minus: "\<not> is_digit (CHR ''-'')" and not_digit_plus: "\<not> is_digit (CHR ''+'')"
  by (simp_all add: is_digit_def less_eq_char_def)

lemma itoa_inject [simp]: "itoa i = itoa j \<longleftrightarrow> i = j"
proof
  assume eq: "itoa i = itoa j"
  have neg: "CHR ''-'' # s \<noteq> nat_dec n" for s n
    using hd_nat_dec_digit [of n] not_digit_minus by (metis list.sel(1))
  show "i = j"
    using eq neg neg [symmetric] by (auto simp: itoa_def split: if_splits)
qed simp

text \<open>\<open>Atoi\<close> reads back what \<open>Itoa\<close> wrote, for every 64-bit value.\<close>

lemma atoi_itoa:
  assumes "- max_int64 - 1 \<le> i" and "i \<le> max_int64"
  shows "atoi (itoa i) = (i, True)"
proof -
  have digits: "list_all is_digit (nat_dec n)" for n
    by (auto simp: list_all_iff intro: is_digit_nat_dec)
  show ?thesis
  proof (cases "i < 0")
    case True
    then show ?thesis using assms digits by (simp add: atoi_def itoa_def dec_nat_nat_dec)
  next
    case False
    obtain c r where cr: "nat_dec (nat i) = c # r" by (cases "nat_dec (nat i)") auto
    with hd_nat_dec_digit [of "nat i"] have "is_digit c" by simp
    then have "c \<noteq> CHR ''-''" "c \<noteq> CHR ''+''" using not_digit_minus not_digit_plus by auto
    then show ?thesis
      using False assms digits [of "nat i"] dec_nat_nat_dec [of "nat i"] cr
      by (simp add: atoi_def itoa_def)
  qed
qed

lemma rune_width_pos: "0 < rune_width s"
  by (induction s rule: rune_width.induct) auto

lemma rune_width_ascii: "of_char c < (128::nat) \<Longrightarrow> rune_width (c # s) = 1"
proof -
  assume "of_char c < (128::nat)"
  then have "\<not> byte_in 0xC2 0xDF c" "\<not> byte_in 0xE1 0xEF c" "\<not> byte_in 0xF1 0xF3 c"
    "c \<noteq> CHR 0xE0" "c \<noteq> CHR 0xED" "c \<noteq> CHR 0xF0" "c \<noteq> CHR 0xF4"
    by (auto simp: byte_in_def)
  then show ?thesis by (cases "c # s" rule: rune_width.cases) simp_all
qed

lemma wrap64_id: "- (2 ^ 63) \<le> i \<Longrightarrow> i < 2 ^ 63 \<Longrightarrow> wrap64 i = i"
  by (simp add: wrap64_def)

lemma length_hex16 [simp]: "length (hex16 w) = 16"
  by (simp add: hex16_def)

end
