(* ===== verification/Error_Contract.thy ===== *)
theory Error_Contract
  imports Tiny_Prelude
begin

section \<open>Errors, retryability and handler results\<close>

text \<open>
  The error vocabulary of \<open>src/pkg/errors/errors.go\<close> and \<open>src/module/errors.go\<close>, and the
  \<open>Result\<close> of \<open>src/module/result.go\<close>. An error value is a tree of wrappers: the constructors are
  the wrapper types of the sources, errors made by \<open>errors.New\<close>, \<open>fmt.Errorf\<close> with \<open>%w\<close> and
  \<open>errors.Join\<close>, the context sentinels, and errors of a type defined in a module, of which the
  runtime sees the message, what \<open>Retryable()\<close> answers if the type has it, and \<open>Unwrap\<close>.
  A Go \<open>error\<close> that may be \<open>nil\<close> is an \<open>option\<close>.
\<close>

datatype go_error =
    ErrNew string
  | PermanentError go_error
  | CodedError string "go_error option"
  | RetryError go_error bool
  | WrapError string go_error
  | JoinError "go_error list"
  | ForeignError string "bool option" "go_error option"
  | CtxCanceled
  | CtxDeadlineExceeded

fun err_msg :: "go_error \<Rightarrow> string" where
  "err_msg (ErrNew m) = m"
| "err_msg (PermanentError e) = err_msg e"
| "err_msg (CodedError c None) = c"
| "err_msg (CodedError c (Some e)) = c @ '': '' @ err_msg e"
| "err_msg (RetryError e r) = err_msg e"
| "err_msg (WrapError p e) = p @ err_msg e"
| "err_msg (JoinError es) = join_str [CHR 0x0A] (map err_msg es)"
| "err_msg (ForeignError m r u) = m"
| "err_msg CtxCanceled = ''context canceled''"
| "err_msg CtxDeadlineExceeded = ''context deadline exceeded''"

text \<open>\<open>errors.As\<close> visits the tree in pre-order and takes the first match.\<close>

fun err_chain :: "go_error \<Rightarrow> go_error list" where
  "err_chain (PermanentError e) = PermanentError e # err_chain e"
| "err_chain (CodedError c (Some e)) = CodedError c (Some e) # err_chain e"
| "err_chain (RetryError e r) = RetryError e r # err_chain e"
| "err_chain (WrapError p e) = WrapError p e # err_chain e"
| "err_chain (JoinError es) = JoinError es # concat (map err_chain es)"
| "err_chain (ForeignError m r (Some e)) = ForeignError m r (Some e) # err_chain e"
| "err_chain e = [e]"

fun as_permanent :: "go_error \<Rightarrow> bool" where
  "as_permanent (PermanentError e) = True"
| "as_permanent _ = False"

fun as_code :: "go_error \<Rightarrow> string option" where
  "as_code (CodedError c e) = Some c"
| "as_code _ = None"

fun as_retryable :: "go_error \<Rightarrow> bool option" where
  "as_retryable (RetryError e r) = Some r"
| "as_retryable (ForeignError m r u) = r"
| "as_retryable _ = None"

text \<open>The first answer along a chain.\<close>

fun first_some :: "('a \<Rightarrow> 'b option) \<Rightarrow> 'a list \<Rightarrow> 'b option" where
  "first_some f [] = None"
| "first_some f (x # xs) = (case f x of Some y \<Rightarrow> Some y | None \<Rightarrow> first_some f xs)"

subsection \<open>pkg/errors\<close>

definition NewPermanentError :: "go_error option \<Rightarrow> go_error option" where
  "NewPermanentError e = map_option PermanentError e"

definition IsPermanent :: "go_error option \<Rightarrow> bool" where
  "IsPermanent e = (case e of None \<Rightarrow> False | Some x \<Rightarrow> list_ex as_permanent (err_chain x))"

definition NonRetryable :: "string \<Rightarrow> go_error option \<Rightarrow> go_error option" where
  "NonRetryable code e = (case e of None \<Rightarrow> None | Some x \<Rightarrow> Some (CodedError code (Some x)))"

definition ErrorCode :: "go_error option \<Rightarrow> string" where
  "ErrorCode e = (case e of None \<Rightarrow> []
     | Some x \<Rightarrow> (case first_some as_code (err_chain x) of Some c \<Rightarrow> c | None \<Rightarrow> []))"

subsection \<open>module/errors.go\<close>

definition Retryable :: "go_error option \<Rightarrow> go_error option" where
  "Retryable e = map_option (\<lambda>x. RetryError x True) e"

definition Permanent :: "go_error option \<Rightarrow> go_error option" where
  "Permanent e = map_option (\<lambda>x. RetryError x False) e"

definition IsRetryable :: "go_error option \<Rightarrow> bool" where
  "IsRetryable e = (case e of None \<Rightarrow> False
     | Some x \<Rightarrow> (case first_some as_retryable (err_chain x) of Some r \<Rightarrow> r | None \<Rightarrow> False))"

definition ShouldRetry :: "go_error option \<Rightarrow> bool" where
  "ShouldRetry e =
     (if e = None then False else if IsPermanent e then False else IsRetryable e)"

record 'v error_message =
  em_context :: 'v
  em_error :: string
  em_retryable :: bool

definition NewError :: "'v \<Rightarrow> go_error option \<Rightarrow> 'v error_message" where
  "NewError ctx e =
     \<lparr>em_context = ctx, em_error = (case e of None \<Rightarrow> [] | Some x \<Rightarrow> err_msg x),
      em_retryable = IsRetryable e\<rparr>"

subsection \<open>module/result.go\<close>

text \<open>
  The dynamic content of an \<open>any\<close>: nothing, a value whose type implements \<open>error\<close>, or another
  value.
\<close>

datatype 'v any = ANil | AErr go_error | AVal 'v

datatype 'v result = Result (inner: "'v any")

definition Ok :: "'v any \<Rightarrow> 'v result" where
  "Ok v = Result v"

definition Fail :: "go_error option \<Rightarrow> 'v result" where
  "Fail e = (case e of None \<Rightarrow> Result ANil | Some x \<Rightarrow> Result (AErr x))"

definition result_Err :: "'v result \<Rightarrow> go_error option" where
  "result_Err r = (case inner r of AErr e \<Rightarrow> Some e | _ \<Rightarrow> None)"

definition result_Value :: "'v result \<Rightarrow> 'v any" where
  "result_Value r = (case inner r of AErr e \<Rightarrow> ANil | v \<Rightarrow> v)"

definition result_IsErr :: "'v result \<Rightarrow> bool" where
  "result_IsErr r = (case inner r of AErr e \<Rightarrow> True | _ \<Rightarrow> False)"

subsection \<open>Lemmas\<close>

lemma first_some_append:
  "first_some f (xs @ ys) = (case first_some f xs of Some y \<Rightarrow> Some y | None \<Rightarrow> first_some f ys)"
  by (induction xs) (auto split: option.splits)

lemma first_some_None_iff: "first_some f xs = None \<longleftrightarrow> (\<forall>x \<in> set xs. f x = None)"
  by (induction xs) (auto split: option.splits)

lemma first_some_Some_iff:
  "first_some f xs = Some y \<longleftrightarrow>
     (\<exists>pre x post. xs = pre @ x # post \<and> f x = Some y \<and> (\<forall>z \<in> set pre. f z = None))"
proof (induction xs)
  case (Cons a xs)
  show ?case
  proof (cases "f a")
    case None
    then have "first_some f (a # xs) = Some y \<longleftrightarrow> first_some f xs = Some y" by simp
    also have "\<dots> \<longleftrightarrow> (\<exists>pre x post. a # xs = pre @ x # post \<and> f x = Some y \<and> (\<forall>z \<in> set pre. f z = None))"
      (is "_ \<longleftrightarrow> ?R")
    proof
      assume "first_some f xs = Some y"
      then obtain pre x post where "xs = pre @ x # post" "f x = Some y" "\<forall>z \<in> set pre. f z = None"
        using Cons.IH by auto
      then show ?R using None by (intro exI [of _ "a # pre"] exI [of _ x] exI [of _ post]) auto
    next
      assume ?R
      then obtain pre x post where d: "a # xs = pre @ x # post" "f x = Some y" "\<forall>z \<in> set pre. f z = None"
        by blast
      then obtain pre' where "pre = a # pre'" using None by (cases pre) auto
      then show "first_some f xs = Some y" using d Cons.IH by auto
    qed
    finally show ?thesis .
  next
    case (Some b)
    then show ?thesis by (force simp: Cons_eq_append_conv)
  qed
qed simp

lemma err_chain_hd: "\<exists>rest. err_chain e = e # rest"
  by (cases e rule: err_chain.cases) auto

lemma ShouldRetry_None [simp]: "\<not> ShouldRetry None"
  by (simp add: ShouldRetry_def)

lemma ShouldRetry_WrapError [simp]: "ShouldRetry (Some (WrapError p e)) = ShouldRetry (Some e)"
  by (simp add: ShouldRetry_def IsPermanent_def IsRetryable_def)

lemma ShouldRetry_Coded [simp]: "ShouldRetry (Some (CodedError c (Some e))) = ShouldRetry (Some e)"
  by (simp add: ShouldRetry_def IsPermanent_def IsRetryable_def)

lemma ShouldRetry_ErrNew [simp]: "\<not> ShouldRetry (Some (ErrNew m))"
  by (simp add: ShouldRetry_def IsPermanent_def IsRetryable_def)

lemma ShouldRetry_PermanentError [simp]: "\<not> ShouldRetry (Some (PermanentError e))"
  by (simp add: ShouldRetry_def IsPermanent_def)

lemma ErrorCode_Coded [simp]: "ErrorCode (Some (CodedError c e)) = c"
  by (cases e) (simp_all add: ErrorCode_def)

lemma result_simps [simp]:
  "result_Err (Ok ANil) = None" "result_Err (Ok (AVal v)) = None" "result_Err (Ok (AErr e)) = Some e"
  "result_Err (Fail x) = x" "result_Value (Ok (AVal v)) = AVal v" "result_Value (Ok ANil) = ANil"
  "result_Value (Fail x) = ANil"
  by (auto simp: result_Err_def result_Value_def Ok_def Fail_def split: option.splits)

subsection \<open>Properties\<close>

text \<open>The one retry predicate. A failure is re-attempted exactly when no error of its tree is
  a \<open>PermanentError\<close> and the first error, in the order \<open>errors.As\<close> visits them, that answers
  \<open>Retryable()\<close> answers true. An unmarked failure is therefore never re-attempted, and a permanent
  marking anywhere wins over every retryable one.\<close>

theorem ShouldRetry_spec:
  "ShouldRetry (Some e) \<longleftrightarrow>
     list_all (\<lambda>x. \<not> as_permanent x) (err_chain e) \<and>
     (\<exists>pre x post. err_chain e = pre @ x # post \<and> as_retryable x = Some True \<and>
        list_all (\<lambda>y. as_retryable y = None) pre)"
proof -
  have "ShouldRetry (Some e) \<longleftrightarrow>
      list_all (\<lambda>x. \<not> as_permanent x) (err_chain e) \<and> first_some as_retryable (err_chain e) = Some True"
    by (auto simp: ShouldRetry_def IsPermanent_def IsRetryable_def list_ex_iff list_all_iff
        split: option.splits)
  then show ?thesis by (simp add: first_some_Some_iff list_all_iff)
qed

text \<open>\<open>NonRetryable\<close> attaches a code and does not forbid the retry: the predicate answers for the
  coded error what it answers for the wrapped one, while \<open>ErrorCode\<close> reads the code back. Only an
  edge policy that lists the code stops the re-attempt.\<close>

theorem NonRetryable_transparent:
  "ShouldRetry (NonRetryable code e) = ShouldRetry e \<and>
   (e = None \<longleftrightarrow> NonRetryable code e = None) \<and>
   ErrorCode (NonRetryable code (Some x)) = code \<and>
   \<not> ShouldRetry (NewPermanentError e)"
  by (cases e) (simp_all add: NonRetryable_def NewPermanentError_def)

end
