(* ===== verification/Json_Values.thy ===== *)
theory Json_Values
  imports Tiny_Prelude
begin

section \<open>Decoded JSON documents\<close>

text \<open>
  A document as \<open>encoding/json\<close> decodes it into \<open>interface{}\<close>: \<open>nil\<close>, \<open>bool\<close>, a number, a
  string, \<open>[]any\<close> or \<open>map[string]any\<close>. A number is kept as its literal text, which is what a
  decoder with \<open>UseNumber\<close> yields; no operation of the model computes with numbers. An object is
  a list of members, whose order stands for one iteration order of the Go map; a decoded object
  has each key once (\<open>wf_json\<close>), and facts that hold for every order are stated as such.
\<close>

datatype json =
    JNull
  | JBool bool
  | JNum string
  | JStr string
  | JArr "json list"
  | JObj "(string \<times> json) list"

lemma json_member_size [termination_simp]:
  "(k, v) \<in> set ms \<Longrightarrow> size v < Suc (size_list (size_prod (\<lambda>x. 0) size) ms)"
  by (induction ms) auto

lemma json_member_size' [termination_simp]:
  "(k, v) \<in> set ms \<Longrightarrow> size v < Suc (size_list (size_prod size size) ms)"
  by (induction ms) auto

lemma json_member_size_snd [termination_simp]:
  "m \<in> set ms \<Longrightarrow> size (snd m) < Suc (size_list (size_prod (\<lambda>x. 0) size) ms)"
  by (induction ms) auto

text \<open>Two documents describe the same value when they differ only in the order of members.\<close>

fun wf_json :: "json \<Rightarrow> bool" where
  "wf_json (JArr vs) = list_all wf_json vs"
| "wf_json (JObj ms) = (distinct (map fst ms) \<and> list_all (\<lambda>m. wf_json (snd m)) ms)"
| "wf_json _ = True"

fun json_object :: "json \<Rightarrow> json gomap option" where
  "json_object (JObj ms) = Some ms"
| "json_object _ = None"

fun json_string :: "json \<Rightarrow> string option" where
  "json_string (JStr s) = Some s"
| "json_string _ = None"

fun json_bool :: "json \<Rightarrow> bool option" where
  "json_bool (JBool b) = Some b"
| "json_bool _ = None"

fun json_array :: "json \<Rightarrow> json list option" where
  "json_array (JArr vs) = Some vs"
| "json_array _ = None"

text \<open>
  Every string of a document with the key it sits under. An element of a list inherits the key
  of the list, and the root sits under the key it is given.
\<close>

fun keyed_strings :: "string \<Rightarrow> json \<Rightarrow> (string \<times> string) set" where
  "keyed_strings k (JStr s) = {(k, s)}"
| "keyed_strings k (JArr vs) = (\<Union>v \<in> set vs. keyed_strings k v)"
| "keyed_strings k (JObj ms) = (\<Union>m \<in> set ms. keyed_strings (fst m) (snd m))"
| "keyed_strings k _ = {}"

text \<open>The shape of a document: everything but the contents of its strings.\<close>

fun json_shape :: "json \<Rightarrow> json" where
  "json_shape (JStr s) = JStr []"
| "json_shape (JArr vs) = JArr (map json_shape vs)"
| "json_shape (JObj ms) = JObj (map (\<lambda>m. (fst m, json_shape (snd m))) ms)"
| "json_shape v = v"

text \<open>
  A rewriting of the strings of a document by the key they sit under. Both redaction passes are
  instances of it, so what they keep of a document is proved once here.
\<close>

fun map_strings :: "(string \<Rightarrow> string \<Rightarrow> string) \<Rightarrow> string \<Rightarrow> json \<Rightarrow> json" where
  "map_strings f k (JStr s) = JStr (f k s)"
| "map_strings f k (JArr vs) = JArr (map (map_strings f k) vs)"
| "map_strings f k (JObj ms) = JObj (map (\<lambda>m. (fst m, map_strings f (fst m) (snd m))) ms)"
| "map_strings f k v = v"

lemma map_strings_shape: "json_shape (map_strings f k v) = json_shape v"
  by (induction f k v rule: map_strings.induct) auto

lemma map_strings_keyed:
  "keyed_strings k (map_strings f k v) = (\<lambda>(k, s). (k, f k s)) ` keyed_strings k v"
  by (induction f k v rule: map_strings.induct) (auto simp: image_UN)

lemma map_strings_id:
  "(\<And>k' s. (k', s) \<in> keyed_strings k v \<Longrightarrow> f k' s = s) \<Longrightarrow> map_strings f k v = v"
proof (induction f k v rule: map_strings.induct)
  case (2 f k vs)
  then show ?case by (auto intro!: map_idI)
next
  case (3 f k ms)
  have "map_strings f (fst m) (snd m) = snd m" if "m \<in> set ms" for m
    using that by (intro "3.IH") (auto intro!: "3.prems")
  then show ?case by (auto intro!: map_idI)
qed auto

lemma map_strings_comp:
  "map_strings f k (map_strings g k v) = map_strings (\<lambda>k s. f k (g k s)) k v"
  by (induction g k v rule: map_strings.induct) auto

lemma map_strings_wf: "wf_json v \<Longrightarrow> wf_json (map_strings f k v)"
  by (induction f k v rule: map_strings.induct) (auto simp: list_all_iff comp_def)

end
