(* ===== verification/Node_Model.thy ===== *)
theory Node_Model
  imports Tiny_Prelude
begin

section \<open>Nodes, ports and edges\<close>

text \<open>
  The custom resource of a node (\<open>src/api/v1alpha1/tinynode_types.go\<close>) and the operations on its
  port names, edges and port configurations in \<open>src/pkg/utils\<close>: \<open>port.go\<close>, \<open>edge.go\<close> and
  \<open>edges.go\<close>. An operation that mutates a node in place returns the new node. A nil map or slice
  that the code tells from an empty one is an \<open>option\<close>.
\<close>

record retry_policy =
  rp_MaxAttempts :: int
  rp_InitialDelayMs :: int
  rp_BackoffCoefficient :: string
  rp_MaxDelayMs :: int
  rp_NonRetryableErrorCodes :: "string list"
  rp_TimeoutMs :: int

record tiny_edge =
  ed_ID :: string
  ed_Port :: string
  ed_To :: string
  ed_FlowID :: string
  ed_RetryPolicy :: "retry_policy option"

record port_config =
  pc_From :: string
  pc_Port :: string
  pc_Schema :: bytes
  pc_Configuration :: bytes
  pc_FlowID :: string

record port_status =
  ps_Name :: string
  ps_Label :: string
  ps_Position :: int
  ps_Source :: bool
  ps_Schema :: "bytes option"
  ps_Configuration :: "bytes option"

record component_status =
  cs_Description :: string
  cs_Info :: string
  cs_Tags :: "string list"

record node_status =
  ns_Component :: component_status
  ns_Ports :: "port_status list"
  ns_Status :: string
  ns_Metadata :: "string gomap option"
  ns_Error :: bool

record tiny_node =
  tn_Name :: string
  tn_Namespace :: string
  tn_Labels :: "string gomap"
  tn_Module :: string
  tn_Component :: string
  tn_Ports :: "port_config list"
  tn_Edges :: "tiny_edge list"
  tn_Status :: node_status

definition FlowNameLabel :: string where "FlowNameLabel = ''tinysystems.io/flow-name''"
definition ProjectNameLabel :: string where "ProjectNameLabel = ''tinysystems.io/project-name''"
definition ExecutionModeLabel :: string where "ExecutionModeLabel = ''tinysystems.io/execution-mode''"
definition ExecutionModeDurable :: string where "ExecutionModeDurable = ''durable''"

definition ReconcilePort :: string where "ReconcilePort = ''_reconcile''"
definition ControlPort :: string where "ControlPort = ''_control''"
definition SettingsPort :: string where "SettingsPort = ''_settings''"
definition ClientPort :: string where "ClientPort = ''_client''"
definition IdentityPort :: string where "IdentityPort = ''_identity''"

lemmas system_ports = ReconcilePort_def ControlPort_def SettingsPort_def ClientPort_def IdentityPort_def

text \<open>Reading a label or another string from a Go map: a missing key reads as the empty string.\<close>

definition get_label :: "string gomap \<Rightarrow> string \<Rightarrow> string" where
  "get_label m k = (case map_of m k of None \<Rightarrow> [] | Some v \<Rightarrow> v)"

subsection \<open>Port names\<close>

definition GetPortFullName :: "string \<Rightarrow> string \<Rightarrow> string" where
  "GetPortFullName nodeID portName =
     (if nodeID = [] \<and> portName = [] then [] else nodeID @ '':'' @ portName)"

definition ParseFullPortName :: "string \<Rightarrow> string \<times> string" where
  "ParseFullPortName name =
     (case split_char (CHR '':'') name of
        [port] \<Rightarrow> ([], port)
      | [node, port] \<Rightarrow> (node, port)
      | _ \<Rightarrow> ([], []))"

subsection \<open>Edges and port configurations\<close>

definition NewEdgeWithID :: "string \<Rightarrow> string \<Rightarrow> string \<Rightarrow> string \<Rightarrow> string \<Rightarrow> tiny_edge" where
  "NewEdgeWithID i sourcePort targetNode targetPort flowID =
     \<lparr>ed_ID = i, ed_Port = sourcePort, ed_To = GetPortFullName targetNode targetPort,
      ed_FlowID = flowID, ed_RetryPolicy = None\<rparr>"

text \<open>\<open>NewEdge\<close> takes its identifier from a fresh UUID, the argument \<open>uuid\<close>.\<close>

definition NewEdge :: "string \<Rightarrow> string \<Rightarrow> string \<Rightarrow> string \<Rightarrow> string \<Rightarrow> tiny_edge" where
  "NewEdge uuid sourcePort targetNode targetPort flowID =
     NewEdgeWithID uuid sourcePort targetNode targetPort flowID"

definition NewPortConfigWithSchema ::
  "string \<Rightarrow> string \<Rightarrow> string \<Rightarrow> string \<Rightarrow> bytes \<Rightarrow> bytes \<Rightarrow> port_config" where
  "NewPortConfigWithSchema sourcePort targetNode targetPort flowID configuration schema =
     \<lparr>pc_From = GetPortFullName targetNode targetPort, pc_Port = sourcePort, pc_Schema = schema,
      pc_Configuration = configuration, pc_FlowID = flowID\<rparr>"

definition NewPortConfig :: "string \<Rightarrow> string \<Rightarrow> string \<Rightarrow> string \<Rightarrow> bytes \<Rightarrow> port_config" where
  "NewPortConfig sourcePort targetNode targetPort flowID configuration =
     NewPortConfigWithSchema sourcePort targetNode targetPort flowID configuration []"

definition AddEdgeToNode ::
  "string \<Rightarrow> tiny_node \<Rightarrow> string \<Rightarrow> string \<Rightarrow> string \<Rightarrow> string \<Rightarrow> tiny_edge \<times> tiny_node" where
  "AddEdgeToNode uuid node sourcePort targetNode targetPort flowID =
     (let e = NewEdge uuid sourcePort targetNode targetPort flowID
      in (e, node\<lparr>tn_Edges := tn_Edges node @ [e]\<rparr>))"

fun remove_edges :: "string \<Rightarrow> tiny_edge list \<Rightarrow> string \<Rightarrow> tiny_edge list \<Rightarrow> string \<times> tiny_edge list" where
  "remove_edges edgeID [] targetTo acc = (targetTo, acc)"
| "remove_edges edgeID (e # es) targetTo acc =
     (if ed_ID e = edgeID then remove_edges edgeID es (ed_To e) acc
      else remove_edges edgeID es targetTo (acc @ [e]))"

definition RemoveEdgeFromNode :: "tiny_node \<Rightarrow> string \<Rightarrow> string \<times> tiny_node" where
  "RemoveEdgeFromNode node edgeID =
     (let (targetTo, es) = remove_edges edgeID (tn_Edges node) [] []
      in (targetTo, node\<lparr>tn_Edges := es\<rparr>))"

definition RemovePortConfigByFrom :: "tiny_node \<Rightarrow> string \<Rightarrow> tiny_node" where
  "RemovePortConfigByFrom node from =
     (if from = [] then node
      else node\<lparr>tn_Ports := filter (\<lambda>pc. pc_From pc \<noteq> from) (tn_Ports node)\<rparr>)"

definition DisconnectEdge :: "tiny_node \<Rightarrow> string \<Rightarrow> tiny_node" where
  "DisconnectEdge node edgeID =
     (let (targetTo, node') = RemoveEdgeFromNode node edgeID
      in RemovePortConfigByFrom node' targetTo)"

definition ReplaceFlowEdges ::
  "tiny_edge list \<Rightarrow> (string \<Rightarrow> bool) \<Rightarrow> tiny_edge list \<Rightarrow> tiny_edge list" where
  "ReplaceFlowEdges existing flowIDs newEdges =
     filter (\<lambda>e. \<not> flowIDs (ed_FlowID e)) existing @ newEdges"

definition ReplaceFlowPortConfigs ::
  "port_config list \<Rightarrow> (string \<Rightarrow> bool) \<Rightarrow> port_config list \<Rightarrow> port_config list" where
  "ReplaceFlowPortConfigs existing flowIDs newConfigs =
     filter (\<lambda>pc. pc_From pc = [] \<or> \<not> flowIDs (pc_FlowID pc)) existing @ newConfigs"

definition edge_targets :: "string \<Rightarrow> tiny_edge \<Rightarrow> bool" where
  "edge_targets name e = (fst (ParseFullPortName (ed_To e)) = name)"

definition config_from :: "string \<Rightarrow> port_config \<Rightarrow> bool" where
  "config_from name pc = (pc_From pc \<noteq> [] \<and> fst (ParseFullPortName (pc_From pc)) = name)"

definition RemoveNodeReferences :: "tiny_node \<Rightarrow> string \<Rightarrow> bool \<times> tiny_node" where
  "RemoveNodeReferences node deleted =
     (let changed = (list_ex (edge_targets deleted) (tn_Edges node) \<or>
                     list_ex (config_from deleted) (tn_Ports node));
          cleanEdges = filter (\<lambda>e. \<not> edge_targets deleted e) (tn_Edges node);
          cleanPorts = filter (\<lambda>pc. \<not> config_from deleted pc) (tn_Ports node)
      in (changed, if changed then node\<lparr>tn_Edges := cleanEdges, tn_Ports := cleanPorts\<rparr> else node))"

subsection \<open>Lemmas\<close>

lemma ParseFullPortName_pair:
  "CHR '':'' \<notin> set n \<Longrightarrow> CHR '':'' \<notin> set p \<Longrightarrow> ParseFullPortName (n @ CHR '':'' # p) = (n, p)"
  by (simp add: ParseFullPortName_def split_char_append_sep)

lemma ParseFullPortName_bare: "CHR '':'' \<notin> set p \<Longrightarrow> ParseFullPortName p = ([], p)"
  by (simp add: ParseFullPortName_def)

lemma ParseFullPortName_many:
  "1 < count_list name (CHR '':'') \<Longrightarrow> ParseFullPortName name = ([], [])"
  using length_split_char [of "CHR '':''" name]
  by (auto simp: ParseFullPortName_def split: list.splits)

lemma remove_edges_spec:
  "snd (remove_edges i es t acc) = acc @ filter (\<lambda>e. ed_ID e \<noteq> i) es"
  by (induction es arbitrary: t acc) auto

lemma case_append_last:
  "(case xs @ [y] of [] \<Rightarrow> a | z # _ \<Rightarrow> f z) = (case xs of [] \<Rightarrow> f y | z # _ \<Rightarrow> f z)"
  by (cases xs) auto

lemma remove_edges_target:
  "fst (remove_edges i es t acc) =
     (case rev (filter (\<lambda>e. ed_ID e = i) es) of [] \<Rightarrow> t | e # _ \<Rightarrow> ed_To e)"
  by (induction es arbitrary: t acc) (simp_all add: case_append_last)

subsection \<open>Properties\<close>

text \<open>Port names round-trip. For a node and a port name without a colon, parsing the full name
  gives both back; a name with no colon is a bare port; a name with two or more colons parses to
  nothing, so a message addressed to it is refused as having no port.\<close>

theorem port_name_roundtrip:
  "(CHR '':'' \<notin> set n \<and> CHR '':'' \<notin> set p \<longrightarrow> ParseFullPortName (GetPortFullName n p) = (n, p)) \<and>
   (CHR '':'' \<notin> set p \<longrightarrow> ParseFullPortName p = ([], p)) \<and>
   (1 < count_list q (CHR '':'') \<longrightarrow> ParseFullPortName q = ([], []))"
  by (auto simp: GetPortFullName_def ParseFullPortName_pair ParseFullPortName_bare
      ParseFullPortName_many)

theorem port_name_roundtrip_witness:
  "CHR '':'' \<notin> set ''flow.http.srv'' \<and> CHR '':'' \<notin> set ''in'' \<and>
   ParseFullPortName (GetPortFullName ''flow.http.srv'' ''in'') = (''flow.http.srv'', ''in'') \<and>
   1 < count_list ''a:b:c'' (CHR '':'') \<and> ParseFullPortName ''a:b:c'' = ([], [])"
proof -
  have h: "CHR '':'' \<notin> set ''flow.http.srv''" "CHR '':'' \<notin> set ''in''"
    "1 < count_list ''a:b:c'' (CHR '':'')" by simp_all
  show ?thesis
    using h port_name_roundtrip [where n = "''flow.http.srv''" and p = "''in''" and q = "''a:b:c''"]
    by blast
qed

text \<open>Deleting a node leaves no dangling reference. After \<open>RemoveNodeReferences\<close> no edge of the
  node targets the deleted node and no port configuration comes from it, everything else stays in
  order, the returned flag says exactly whether something was removed, and repeating the call
  changes nothing.\<close>

theorem RemoveNodeReferences_clean:
  assumes "RemoveNodeReferences node d = (changed, node')"
  shows "\<not> list_ex (edge_targets d) (tn_Edges node') \<and> \<not> list_ex (config_from d) (tn_Ports node') \<and>
     tn_Edges node' = filter (\<lambda>e. \<not> edge_targets d e) (tn_Edges node) \<and>
     tn_Ports node' = filter (\<lambda>pc. \<not> config_from d pc) (tn_Ports node) \<and>
     (changed \<longleftrightarrow> node' \<noteq> node) \<and> RemoveNodeReferences node' d = (False, node')"
proof -
  let ?C = "list_ex (edge_targets d) (tn_Edges node) \<or> list_ex (config_from d) (tn_Ports node)"
  have ch: "changed \<longleftrightarrow> ?C" and n': "node' = (if ?C then node\<lparr>tn_Edges := filter (\<lambda>e. \<not> edge_targets d e) (tn_Edges node),
      tn_Ports := filter (\<lambda>pc. \<not> config_from d pc) (tn_Ports node)\<rparr> else node)"
    using assms by (auto simp: RemoveNodeReferences_def Let_def)
  have es: "tn_Edges node' = filter (\<lambda>e. \<not> edge_targets d e) (tn_Edges node)"
    and ps: "tn_Ports node' = filter (\<lambda>pc. \<not> config_from d pc) (tn_Ports node)"
    unfolding n' by (auto simp: list_ex_iff filter_id_conv)
  have clean: "\<not> list_ex (edge_targets d) (tn_Edges node')" "\<not> list_ex (config_from d) (tn_Ports node')"
    by (simp_all add: es ps list_ex_iff)
  have iff: "changed \<longleftrightarrow> node' \<noteq> node"
  proof
    assume "changed" then show "node' \<noteq> node" using ch clean by auto
  next
    assume "node' \<noteq> node" then show "changed" using ch n' by presburger
  qed
  have "RemoveNodeReferences node' d = (False, node')"
    using clean by (simp add: RemoveNodeReferences_def)
  with es ps clean iff show ?thesis by blast
qed

definition sample_status :: node_status where
  "sample_status = \<lparr>ns_Component = \<lparr>cs_Description = [], cs_Info = [], cs_Tags = []\<rparr>, ns_Ports = [],
     ns_Status = [], ns_Metadata = None, ns_Error = False\<rparr>"

definition sample_node :: tiny_node where
  "sample_node = \<lparr>tn_Name = ''f.mod.a'', tn_Namespace = ''ns'', tn_Labels = [], tn_Module = ''mod'',
     tn_Component = ''echo'', tn_Ports = [NewPortConfig ''in'' ''f.mod.b'' ''out'' ''f'' ''{}''],
     tn_Edges = [NewEdge ''e1'' ''out'' ''f.mod.b'' ''in'' ''f'', NewEdge ''e2'' ''out'' ''f.mod.c'' ''in'' ''f''],
     tn_Status = sample_status\<rparr>"

theorem RemoveNodeReferences_clean_witness:
  "tn_Edges (snd (RemoveNodeReferences sample_node ''f.mod.b'')) =
     [NewEdge ''e2'' ''out'' ''f.mod.c'' ''in'' ''f''] \<and>
   \<not> list_ex (edge_targets ''f.mod.b'') (tn_Edges (snd (RemoveNodeReferences sample_node ''f.mod.b'')))"
proof -
  have h: "RemoveNodeReferences sample_node ''f.mod.b'' =
      (fst (RemoveNodeReferences sample_node ''f.mod.b''), snd (RemoveNodeReferences sample_node ''f.mod.b''))"
    by simp
  have e: "filter (\<lambda>e. \<not> edge_targets ''f.mod.b'' e) (tn_Edges sample_node) =
      [NewEdge ''e2'' ''out'' ''f.mod.c'' ''in'' ''f'']"
    by (simp add: sample_node_def edge_targets_def NewEdge_def NewEdgeWithID_def GetPortFullName_def
        ParseFullPortName_def)
  show ?thesis using RemoveNodeReferences_clean [OF h] unfolding e by blast
qed

text \<open>Disconnecting an edge removes exactly the edges with its identifier and exactly the port
  configurations whose sender is the target of the removed edge; an unknown identifier leaves the
  node as it was.\<close>

theorem DisconnectEdge_spec:
  "tn_Edges (DisconnectEdge node i) = filter (\<lambda>e. ed_ID e \<noteq> i) (tn_Edges node) \<and>
   tn_Ports (DisconnectEdge node i) =
     (case rev (filter (\<lambda>e. ed_ID e = i) (tn_Edges node)) of
        [] \<Rightarrow> tn_Ports node
      | e # _ \<Rightarrow> filter (\<lambda>pc. ed_To e = [] \<or> pc_From pc \<noteq> ed_To e) (tn_Ports node))"
proof -
  let ?m = "filter (\<lambda>e. ed_ID e = i) (tn_Edges node)"
  let ?t = "fst (remove_edges i (tn_Edges node) [] [])"
  have t: "?t = (case rev ?m of [] \<Rightarrow> [] | e # _ \<Rightarrow> ed_To e)"
    by (rule remove_edges_target)
  have "tn_Edges (DisconnectEdge node i) = filter (\<lambda>e. ed_ID e \<noteq> i) (tn_Edges node)"
    using remove_edges_spec [of i "tn_Edges node" "[]" "[]"]
    by (simp add: DisconnectEdge_def RemoveEdgeFromNode_def RemovePortConfigByFrom_def Let_def
        case_prod_unfold)
  moreover have "tn_Ports (DisconnectEdge node i) =
      (if ?t = [] then tn_Ports node else filter (\<lambda>pc. pc_From pc \<noteq> ?t) (tn_Ports node))"
    by (simp add: DisconnectEdge_def RemoveEdgeFromNode_def RemovePortConfigByFrom_def Let_def
        case_prod_unfold)
  ultimately show ?thesis using t by (auto split: list.splits)
qed

text \<open>Importing a flow again is idempotent. Replacing the edges, or the edge-level port
  configurations, of a set of flows by new ones of those flows a second time gives the same lists,
  and what belongs to other flows, and every handle-level configuration, is kept.\<close>

theorem ReplaceFlow_idempotent:
  assumes "list_all (\<lambda>e. fl (ed_FlowID e)) es"
    and "list_all (\<lambda>pc. pc_From pc \<noteq> [] \<and> fl (pc_FlowID pc)) pcs"
  shows "ReplaceFlowEdges (ReplaceFlowEdges old fl es) fl es = ReplaceFlowEdges old fl es \<and>
     ReplaceFlowPortConfigs (ReplaceFlowPortConfigs oldp fl pcs) fl pcs = ReplaceFlowPortConfigs oldp fl pcs \<and>
     filter (\<lambda>e. \<not> fl (ed_FlowID e)) (ReplaceFlowEdges old fl es) = filter (\<lambda>e. \<not> fl (ed_FlowID e)) old \<and>
     filter (\<lambda>pc. pc_From pc = []) (ReplaceFlowPortConfigs oldp fl pcs) = filter (\<lambda>pc. pc_From pc = []) oldp"
  using assms
  by (auto simp: ReplaceFlowEdges_def ReplaceFlowPortConfigs_def list_all_iff filter_empty_conv
      intro: filter_cong)

theorem ReplaceFlow_idempotent_witness:
  "ReplaceFlowEdges (ReplaceFlowEdges (tn_Edges sample_node) (\<lambda>x. x = ''f'') (take 1 (tn_Edges sample_node)))
     (\<lambda>x. x = ''f'') (take 1 (tn_Edges sample_node)) =
   ReplaceFlowEdges (tn_Edges sample_node) (\<lambda>x. x = ''f'') (take 1 (tn_Edges sample_node))"
proof -
  have "list_all (\<lambda>e. ed_FlowID e = ''f'') (take 1 (tn_Edges sample_node))"
    and "list_all (\<lambda>pc. pc_From pc \<noteq> [] \<and> pc_FlowID pc = ''f'') (tn_Ports sample_node)"
    by (simp_all add: sample_node_def NewEdge_def NewEdgeWithID_def NewPortConfig_def
        NewPortConfigWithSchema_def GetPortFullName_def)
  then show ?thesis
    using ReplaceFlow_idempotent [of "\<lambda>x. x = ''f''"] by blast
qed

end
