(* ===== verification/Naming.thy ===== *)
theory Naming
  imports Tiny_Prelude
begin

section \<open>Names of modules, nodes and resources\<close>

text \<open>
  \<open>src/module/info.go\<close> and \<open>src/pkg/utils/naming.go\<close> (full node names),
  \<open>src/module/naming_match.go\<close> (which module a name found on a resource identifies) and
  \<open>src/pkg/utils/sanitize.go\<close> (Kubernetes resource names). The MD5 hash that prefixes a node name
  is the parameter \<open>md5hex\<close>.
\<close>

definition ParseFullName :: "string \<Rightarrow> (string \<times> string) option" where
  "ParseFullName fullName =
     (let parts = split_char (CHR ''.'') fullName
      in if length parts < 3 then None else Some (parts ! 1, parts ! 2))"

definition GetNodeFullName :: "string \<Rightarrow> string \<Rightarrow> string \<Rightarrow> string" where
  "GetNodeFullName pfx moduleName componentName = pfx @ ''.'' @ moduleName @ ''.'' @ componentName"

fun replace_char :: "char \<Rightarrow> char \<Rightarrow> string \<Rightarrow> string" where
  "replace_char a b [] = []"
| "replace_char a b (c # s) = (if c = a then b else c) # replace_char a b s"

definition normalizeModuleSeparators :: "string \<Rightarrow> string" where
  "normalizeModuleSeparators s = to_lower (replace_char (CHR ''/'') (CHR ''-'') s)"

definition NameMatches :: "string \<Rightarrow> string \<Rightarrow> bool" where
  "NameMatches found running =
     (let f = normalizeModuleSeparators found; r = normalizeModuleSeparators running
      in if f = [] \<or> r = [] then False
         else if f = r then True
         else if has_suffix r (''-'' @ f) then True
         else has_suffix f (''-'' @ r))"

subsection \<open>Resource names\<close>

text \<open>\<open>regexp.MustCompile("[^A-Za-z0-9]+").ReplaceAllString(s, "-")\<close>; the flag says that the last
  byte read belongs to a run already replaced.\<close>

fun collapse :: "bool \<Rightarrow> string \<Rightarrow> string" where
  "collapse inrun [] = []"
| "collapse inrun (c # s) =
     (if is_alnum c then c # collapse False s
      else if inrun then collapse True s
      else CHR ''-'' # collapse True s)"

definition limitKeepSuffix :: "string \<Rightarrow> nat \<Rightarrow> string" where
  "limitKeepSuffix s n = (if length s \<le> n then s else drop (length s - n) s)"

definition trim_char :: "char \<Rightarrow> string \<Rightarrow> string" where
  "trim_char d s = rev (dropWhile (\<lambda>c. c = d) (rev (dropWhile (\<lambda>c. c = d) s)))"

definition SanitizeResourceName :: "string \<Rightarrow> string" where
  "SanitizeResourceName s = trim_char (CHR ''-'') (limitKeepSuffix (collapse False (to_lower s)) 48)"

definition SanitizeIdentity :: "string \<Rightarrow> string" where
  "SanitizeIdentity s = collapse False (to_lower s)"

definition GetFlowHashPrefix :: "(string \<Rightarrow> string) \<Rightarrow> string \<Rightarrow> string \<Rightarrow> string" where
  "GetFlowHashPrefix md5hex projectName flowName = take 8 (md5hex (projectName @ flowName))"

definition GetNodeGenerateName ::
  "(string \<Rightarrow> string) \<Rightarrow> string \<Rightarrow> string \<Rightarrow> string \<Rightarrow> string \<Rightarrow> string" where
  "GetNodeGenerateName md5hex projectName flowName moduleName componentName =
     GetNodeFullName (GetFlowHashPrefix md5hex projectName flowName)
       (SanitizeResourceName moduleName) (SanitizeResourceName componentName) @ ''-''"

subsection \<open>Lemmas\<close>

text \<open>A character of a resource name.\<close>

definition is_lower_alnum :: "char \<Rightarrow> bool" where
  "is_lower_alnum c = ((CHR ''a'' \<le> c \<and> c \<le> CHR ''z'') \<or> is_digit c)"

text \<open>No two adjacent separators; this and the alphabet are what the collapse establishes.\<close>

fun no_double :: "string \<Rightarrow> bool" where
  "no_double (c # d # s) = (\<not> (c = CHR ''-'' \<and> d = CHR ''-'') \<and> no_double (d # s))"
| "no_double _ = True"

definition resource_chars :: "string \<Rightarrow> bool" where
  "resource_chars s = list_all (\<lambda>c. is_lower_alnum c \<or> c = CHR ''-'') s"

lemma is_lower_alnum_facts:
  "is_lower_alnum c \<Longrightarrow> is_alnum c" "is_lower_alnum c \<Longrightarrow> c \<noteq> CHR ''-''"
  "is_alnum c \<Longrightarrow> is_upper_ascii c \<or> is_lower_alnum c"
  by (auto simp: is_lower_alnum_def is_alnum_def is_digit_def is_upper_ascii_def less_eq_char_def)

lemma is_alnum_dash: "\<not> is_alnum (CHR ''-'')"
  by (simp add: is_alnum_def is_digit_def less_eq_char_def)

lemma lower_char_not_upper: "\<not> is_upper_ascii (lower_char c)"
  by (auto simp: lower_char_def is_upper_ascii_def less_eq_char_def)

lemma to_lower_Cons_cases:
  obtains "to_lower (c # s) = lower_char c # to_lower s"
  | r where "s = CHR 0xB0 # r" "c = CHR 0xC4" "to_lower (c # s) = CHR ''i'' # to_lower r"
  | r where "s = CHR 0x84 # CHR 0xAA # r" "c = CHR 0xE2" "to_lower (c # s) = CHR ''k'' # to_lower r"
proof (cases s)
  case Nil
  then show ?thesis using that(1) by simp
next
  case (Cons b r)
  show ?thesis
  proof (cases "c = CHR 0xC4 \<and> b = CHR 0xB0")
    case True
    then show ?thesis using that(2) [of r] Cons by (simp add: to_lower.simps(2) [of c s])
  next
    case F: False
    show ?thesis
    proof (cases "c = CHR 0xE2 \<and> b = CHR 0x84 \<and> r \<noteq> [] \<and> hd r = CHR 0xAA")
      case True
      then obtain q where "r = CHR 0xAA # q" by (cases r) auto
      with True Cons show ?thesis using that(3) [of q] by (simp add: to_lower.simps(2) [of c s])
    next
      case False
      have "to_lower (c # b # r) = lower_char c # to_lower (b # r)"
        unfolding to_lower.simps(2) [of c "b # r"] list.case if_not_P [OF F] if_not_P [OF False] ..
      then show ?thesis using that(1) Cons by blast
    qed
  qed
qed

lemma to_lower_no_upper: "c \<in> set (to_lower s) \<Longrightarrow> \<not> is_upper_ascii c"
proof (induction s rule: length_induct)
  case (1 s)
  then have IH: "length t < length s \<Longrightarrow> c \<in> set (to_lower t) \<Longrightarrow> \<not> is_upper_ascii c" for t by blast
  have iu: "\<not> is_upper_ascii (CHR ''i'')" "\<not> is_upper_ascii (CHR ''k'')"
    by (simp_all add: is_upper_ascii_def less_eq_char_def)
  show ?case
  proof (cases s)
    case (Cons a t)
    have len: "t = x # r \<Longrightarrow> length r < length s" "t = x # y # q \<Longrightarrow> length q < length s" for x y r q
      using Cons by simp_all
    have mem: "c \<in> set (to_lower (a # t))" using 1 Cons by simp
    show ?thesis
    proof (cases rule: to_lower_Cons_cases [of a t])
      case 1
      then show ?thesis using IH [of t] mem lower_char_not_upper [of a] Cons by auto
    next
      case (2 r)
      then show ?thesis using IH [of r] mem iu len by auto
    next
      case (3 r)
      then show ?thesis using IH [of r] mem iu len by auto
    qed
  qed (use 1 in simp)
qed

lemma collapse_chars:
  "(\<And>c. c \<in> set s \<Longrightarrow> \<not> is_upper_ascii c) \<Longrightarrow> resource_chars (collapse b s)"
  by (induction b s rule: collapse.induct)
    (auto simp: resource_chars_def dest: is_lower_alnum_facts(3))

lemma no_double_Cons: "c \<noteq> CHR ''-'' \<or> s = [] \<or> hd s \<noteq> CHR ''-'' \<Longrightarrow> no_double (c # s) = no_double s"
  by (cases s) auto

lemma collapse_no_double:
  "no_double (collapse b s) \<and> (b \<longrightarrow> (case collapse b s of c # _ \<Rightarrow> c \<noteq> CHR ''-'' | [] \<Rightarrow> True))"
proof (induction b s rule: collapse.induct)
  case (2 b c s)
  show ?case
  proof (cases "is_alnum c")
    case True
    then have "c \<noteq> CHR ''-''" using is_alnum_dash by auto
    with True 2 show ?thesis by (simp add: no_double_Cons)
  next
    case False
    with 2 have "no_double (collapse True s)" "collapse True s = [] \<or> hd (collapse True s) \<noteq> CHR ''-''"
      by (cases b; cases "collapse True s"; simp)+
    with False 2 show ?thesis by (auto simp: no_double_Cons split: list.splits)
  qed
qed simp

lemma no_double_drop: "no_double s \<Longrightarrow> no_double (drop n s)"
  by (induction s arbitrary: n rule: no_double.induct) (auto simp: drop_Cons split: nat.splits)

lemma no_double_append: "no_double (s @ t) \<Longrightarrow> no_double s"
  by (induction s rule: no_double.induct) auto

lemma no_double_suffix: "suffix t s \<Longrightarrow> no_double s \<Longrightarrow> no_double t"
  by (metis no_double_drop append_eq_conv_conj suffix_def)

lemma trim_char_parts:
  "\<exists>pre post. s = pre @ trim_char d s @ post \<and> set pre \<subseteq> {d} \<and> set post \<subseteq> {d}"
proof -
  let ?u = "dropWhile (\<lambda>c. c = d) s"
  have "s = takeWhile (\<lambda>c. c = d) s @ ?u" by simp
  moreover have "?u = trim_char d s @ rev (takeWhile (\<lambda>c. c = d) (rev ?u))"
    unfolding trim_char_def
    by (metis rev_append rev_rev_ident takeWhile_dropWhile_id)
  moreover have "set (takeWhile (\<lambda>c. c = d) x) \<subseteq> {d}" for x
    by (auto dest: set_takeWhileD)
  ultimately show ?thesis by (metis set_rev)
qed

lemma hd_dropWhile_eq: "dropWhile (\<lambda>c. c = d) s \<noteq> [] \<Longrightarrow> hd (dropWhile (\<lambda>c. c = d) s) \<noteq> d"
  by (induction s) auto

lemma trim_char_last: "trim_char d s \<noteq> [] \<Longrightarrow> last (trim_char d s) \<noteq> d"
  by (simp add: trim_char_def last_rev hd_dropWhile_eq del: dropWhile_eq_Nil_conv)

lemma trim_char_hd: "trim_char d s \<noteq> [] \<Longrightarrow> hd (trim_char d s) \<noteq> d"
proof -
  let ?u = "dropWhile (\<lambda>c. c = d) s"
  assume ne: "trim_char d s \<noteq> []"
  have u: "?u = trim_char d s @ rev (takeWhile (\<lambda>c. c = d) (rev ?u))"
    unfolding trim_char_def by (metis rev_append rev_rev_ident takeWhile_dropWhile_id)
  have "hd ?u = hd (trim_char d s)" by (subst u) (simp add: ne)
  moreover have "?u \<noteq> []" using u ne by (metis append_is_Nil_conv)
  ultimately show ?thesis using hd_dropWhile_eq by metis
qed

lemma trim_char_id: "s = [] \<or> (hd s \<noteq> d \<and> last s \<noteq> d) \<Longrightarrow> trim_char d s = s"
proof (cases s rule: rev_cases)
  case (snoc t z)
  assume a: "s = [] \<or> (hd s \<noteq> d \<and> last s \<noteq> d)"
  have "dropWhile (\<lambda>c. c = d) s = s" using a by (cases s) auto
  with a snoc show ?thesis by (simp add: trim_char_def)
qed (simp add: trim_char_def)

lemma to_lower_id: "list_all (\<lambda>c. \<not> is_upper_ascii c \<and> of_char c < (128::nat)) s \<Longrightarrow> to_lower s = s"
proof (induction s)
  case (Cons c s)
  then have "lower_char c = c" and "c \<noteq> CHR 0xC4" and "c \<noteq> CHR 0xE2"
    by (auto simp: lower_char_def)
  then have "to_lower (c # s) = c # to_lower s" by (cases rule: to_lower_Cons_cases [of c s]) simp_all
  with Cons show ?case by simp
qed simp

lemma resource_char_ascii:
  "is_lower_alnum c \<or> c = CHR ''-'' \<Longrightarrow> \<not> is_upper_ascii c \<and> of_char c < (128::nat)"
  by (auto simp: is_lower_alnum_def is_digit_def is_upper_ascii_def less_eq_char_def)

lemma collapse_id:
  "resource_chars s \<Longrightarrow> no_double s \<Longrightarrow> (b \<longrightarrow> s = [] \<or> hd s \<noteq> CHR ''-'') \<Longrightarrow> collapse b s = s"
proof (induction b s rule: collapse.induct)
  case (2 b c s)
  have nd: "no_double s" using 2(5) by (cases s) auto
  show ?case
  proof (cases "c = CHR ''-''")
    case True
    then have "s = [] \<or> hd s \<noteq> CHR ''-''" using 2(5) by (cases s) auto
    with True 2 nd show ?thesis by (auto simp: is_alnum_dash resource_chars_def)
  next
    case False
    with 2 nd show ?thesis by (auto simp: resource_chars_def dest: is_lower_alnum_facts(1))
  qed
qed simp

lemma SanitizeResourceName_facts:
  fixes s defines "n \<equiv> SanitizeResourceName s"
  shows "resource_chars n \<and> no_double n \<and> length n \<le> 48 \<and>
     (n = [] \<or> hd n \<noteq> CHR ''-'' \<and> last n \<noteq> CHR ''-'')"
proof -
  let ?c = "collapse False (to_lower s)"
  let ?l = "limitKeepSuffix ?c 48"
  have "resource_chars ?c" by (rule collapse_chars) (rule to_lower_no_upper)
  then have l: "resource_chars ?l" "no_double ?l" "length ?l \<le> 48"
    using collapse_no_double [of False "to_lower s"]
    by (auto simp: limitKeepSuffix_def resource_chars_def list_all_iff no_double_drop dest: in_set_dropD)
  obtain pre post where p: "?l = pre @ n @ post"
    using trim_char_parts [of ?l "CHR ''-''"] by (auto simp: n_def SanitizeResourceName_def)
  have "no_double (n @ post)" using l(2) p no_double_suffix by (metis suffixI)
  then have "no_double n" by (rule no_double_append)
  moreover have "resource_chars n" "length n \<le> 48"
    using l p by (auto simp: resource_chars_def list_all_iff)
  ultimately show ?thesis
    using trim_char_hd trim_char_last by (auto simp: n_def SanitizeResourceName_def)
qed

lemma split_full_name:
  "CHR ''.'' \<notin> set p \<Longrightarrow> CHR ''.'' \<notin> set m \<Longrightarrow>
   split_char (CHR ''.'') (p @ CHR ''.'' # m @ CHR ''.'' # c) = p # m # split_char (CHR ''.'') c"
  by (simp add: split_char_append_sep)

subsection \<open>Properties\<close>

text \<open>C24: a sanitised resource name is a valid RFC 1123 label or empty. It holds only lower-case
  ASCII letters, digits and hyphens, has at most 48 characters, neither starts nor ends with a
  hyphen, holds no two adjacent hyphens, and sanitising it again changes nothing.\<close>

theorem SanitizeResourceName_valid:
  "resource_chars (SanitizeResourceName s) \<and> length (SanitizeResourceName s) \<le> 48 \<and>
   no_double (SanitizeResourceName s) \<and>
   (SanitizeResourceName s = [] \<or>
      hd (SanitizeResourceName s) \<noteq> CHR ''-'' \<and> last (SanitizeResourceName s) \<noteq> CHR ''-'') \<and>
   SanitizeResourceName (SanitizeResourceName s) = SanitizeResourceName s"
proof -
  let ?n = "SanitizeResourceName s"
  note f = SanitizeResourceName_facts [of s]
  have "to_lower ?n = ?n"
  proof (rule to_lower_id)
    have "list_all (\<lambda>c. is_lower_alnum c \<or> c = CHR ''-'') ?n" using f by (simp add: resource_chars_def)
    then show "list_all (\<lambda>c. \<not> is_upper_ascii c \<and> of_char c < (128::nat)) ?n"
      by (rule list.pred_mono_strong) (rule resource_char_ascii)
  qed
  moreover have "collapse False ?n = ?n" using f by (intro collapse_id) auto
  ultimately have "SanitizeResourceName ?n = trim_char (CHR ''-'') ?n"
    using f by (simp add: SanitizeResourceName_def [of ?n] limitKeepSuffix_def)
  also have "\<dots> = ?n" using f by (intro trim_char_id) auto
  finally show ?thesis using f by blast
qed

text \<open>A module name matches itself whatever separator it is written with, matching is symmetric,
  and a publisher prefix is optional in both directions: a name matches any other that prepends
  a publisher and a hyphen or a slash to it.\<close>

theorem NameMatches_symmetric_and_publisher:
  "NameMatches a b = NameMatches b a \<and>
   (normalizeModuleSeparators m \<noteq> [] \<longrightarrow> NameMatches m m) \<and>
   (normalizeModuleSeparators m \<noteq> [] \<and>
      normalizeModuleSeparators q = normalizeModuleSeparators pub @ ''-'' @ normalizeModuleSeparators m
      \<longrightarrow> NameMatches m q \<and> NameMatches q m)"
proof -
  have suffix: "has_suffix (p @ CHR ''-'' # x) (CHR ''-'' # x)" for p x
    by (rule has_suffix_append)
  show ?thesis using suffix by (auto simp: NameMatches_def Let_def)
qed

theorem NameMatches_symmetric_and_publisher_witness:
  "normalizeModuleSeparators ''http-module-v0'' \<noteq> [] \<and>
   NameMatches ''http-module-v0'' ''TinySystems/http-module-v0'' \<and>
   NameMatches ''TinySystems/http-module-v0'' ''http-module-v0''"
proof -
  have h: "normalizeModuleSeparators ''http-module-v0'' \<noteq> []"
    "normalizeModuleSeparators ''TinySystems/http-module-v0'' =
       normalizeModuleSeparators ''TinySystems'' @ ''-'' @ normalizeModuleSeparators ''http-module-v0''"
    by code_simp+
  show ?thesis
    using h NameMatches_symmetric_and_publisher [where m = "''http-module-v0''"
        and q = "''TinySystems/http-module-v0''" and pub = "''TinySystems''"] by blast
qed

text \<open>The generated name of a node routes to its module. For a project hash without dots, the
  full name built from a sanitised module and component parses back to exactly that module, so
  the sender publishes to the subject of the module the node was created for.\<close>

theorem node_name_roundtrip:
  assumes "CHR ''.'' \<notin> set (md5hex (project @ flow))"
  shows "ParseFullName (GetNodeGenerateName md5hex project flow m c @ r) =
     Some (SanitizeResourceName m, hd (split_char (CHR ''.'') (SanitizeResourceName c @ ''-'' @ r)))"
proof -
  have "CHR ''.'' \<notin> set (GetFlowHashPrefix md5hex project flow)"
    using assms by (auto simp: GetFlowHashPrefix_def dest: in_set_takeD)
  moreover have "CHR ''.'' \<notin> set (SanitizeResourceName m)"
    using SanitizeResourceName_facts [of m]
    by (auto simp: resource_chars_def list_all_iff is_lower_alnum_def is_digit_def less_eq_char_def)
  ultimately show ?thesis
    by (cases "split_char (CHR ''.'') (SanitizeResourceName c @ CHR ''-'' # r)")
      (simp_all add: ParseFullName_def GetNodeGenerateName_def GetNodeFullName_def split_full_name)
qed

theorem node_name_roundtrip_witness:
  "ParseFullName (GetNodeGenerateName (\<lambda>_. ''0a1b2c3d4e5f'') ''p'' ''f'' ''Http Module'' ''Server'' @ ''x7k2'') =
     Some (SanitizeResourceName ''Http Module'',
       hd (split_char (CHR ''.'') (SanitizeResourceName ''Server'' @ ''-'' @ ''x7k2'')))"
  by (rule node_name_roundtrip) simp

end
