(* ===== verification/Flow_Elements.thy ===== *)
theory Flow_Elements
  imports Error_Contract Json_Values Node_Model Naming "HOL-Library.Multiset"
begin

section \<open>Elements of a flow\<close>

text \<open>
  \<open>src/pkg/utils/elements.go\<close>: the nodes and edges of the editor as decoded JSON objects, their names, and how a saved
  flow becomes the edges and port configurations of its nodes.

  An element is the list of members of an object; a missing member and \<open>null\<close> both read as \<open>JNull\<close>, as a nil
  interface does. \<open>num\<close> turns the text of a number into the integer \<open>int(x)\<close> of its \<open>float64\<close>. \<open>marshal\<close> is
  the JSON encoder, and \<open>hash\<close> the hash the port configurations are ordered by. The maps the code ranges over are
  lists whose order is the order of the iteration; elements the code changes in place are returned.
\<close>

type_synonym element = "json gomap"

definition TinyNodeType :: string where "TinyNodeType = ''tinyNode''"
definition TinyEdgeType :: string where "TinyEdgeType = ''tinyEdge''"

definition field :: "element \<Rightarrow> string \<Rightarrow> json" where
  "field e k = (case map_of e k of None \<Rightarrow> JNull | Some v \<Rightarrow> v)"

definition set_field :: "string \<Rightarrow> json \<Rightarrow> element \<Rightarrow> element" where
  "set_field k v e = AList.update k v e"

lemma field_set_field [simp]: "field (set_field k v e) k' = (if k' = k then v else field e k')"
  by (simp add: field_def set_field_def update_conv')

definition GetStr :: "json \<Rightarrow> string" where
  "GetStr v = (case json_string v of None \<Rightarrow> [] | Some s \<Rightarrow> s)"

lemma GetStr_simps [simp]: "GetStr (JStr s) = s" "GetStr JNull = []"
  by (simp_all add: GetStr_def)

fun GetInt :: "(string \<Rightarrow> int) \<Rightarrow> json \<Rightarrow> int" where
  "GetInt num (JNum t) = num t"
| "GetInt num _ = 0"

fun GetBool :: "json \<Rightarrow> bool" where
  "GetBool (JBool b) = b"
| "GetBool _ = False"

definition IsNode :: "element \<Rightarrow> json gomap option" where
  "IsNode n = (if field n ''data'' = JNull \<or> field n ''type'' \<noteq> JStr TinyNodeType then None else json_object (field n ''data''))"

definition IsEdge :: "element \<Rightarrow> bool" where
  "IsEdge n =
     (field n ''type'' = JStr TinyEdgeType \<and> field n ''source'' \<noteq> JNull \<and> field n ''target'' \<noteq> JNull \<and>
      field n ''targetHandle'' \<noteq> JNull \<and> field n ''sourceHandle'' \<noteq> JNull)"

definition ContainsStr :: "string \<Rightarrow> string list \<Rightarrow> bool" where
  "ContainsStr str sl = list_ex (\<lambda>s. str = s) sl"

definition ResolveSharedFlows :: "string \<Rightarrow> string gomap \<Rightarrow> string" where
  "ResolveSharedFlows sharedWith flowNameMap =
     join_str '','' (map (\<lambda>f. let f = trim_space f
                          in case map_of flowNameMap f of Some mapped \<Rightarrow> if mapped \<noteq> [] then mapped else f | None \<Rightarrow> f)
                   (split_char (CHR '','') sharedWith))"

subsection \<open>Names\<close>

definition GetFlowElementName :: "(string \<Rightarrow> string) \<Rightarrow> string \<Rightarrow> string \<Rightarrow> string \<Rightarrow> string" where
  "GetFlowElementName md5hex projectName flowName elem =
     (if elem = [] then []
      else (let hashPrefix = GetFlowHashPrefix md5hex projectName flowName
            in if length elem > 9 \<and> elem ! 8 = CHR ''.'' then hashPrefix @ ''.'' @ drop 9 elem
               else hashPrefix @ ''.'' @ elem))"

definition GenerateEdgeID :: "string \<Rightarrow> string \<Rightarrow> string \<Rightarrow> string \<Rightarrow> string" where
  "GenerateEdgeID source sourceHandle target targetHandle = source @ ''_'' @ sourceHandle @ ''-'' @ target @ ''_'' @ targetHandle"

text \<open>A string before and after its last occurrence of a byte, as \<open>strings.LastIndex\<close> cuts it.\<close>

definition cut_last :: "char \<Rightarrow> string \<Rightarrow> (string \<times> string) option" where
  "cut_last d s =
     (if d \<in> set s then Some (rev (tl (dropWhile (\<lambda>c. c \<noteq> d) (rev s))), rev (takeWhile (\<lambda>c. c \<noteq> d) (rev s))) else None)"

definition ParseEdgeID :: "string \<Rightarrow> go_error + string \<times> string \<times> string \<times> string" where
  "ParseEdgeID edgeID =
     (case split_char_n 2 (CHR ''-'') edgeID of
        [a, b] \<Rightarrow>
          (case cut_last (CHR ''_'') a of
             None \<Rightarrow> Inl (ErrNew (''invalid edge ID format: missing source handle separator in '' @ edgeID))
           | Some (source, sourceHandle) \<Rightarrow>
             (case cut_last (CHR ''_'') b of
                None \<Rightarrow> Inl (ErrNew (''invalid edge ID format: missing target handle separator in '' @ edgeID))
              | Some (target, targetHandle) \<Rightarrow> Inr (source, sourceHandle, target, targetHandle)))
      | _ \<Rightarrow> Inl (ErrNew (''invalid edge ID format: '' @ edgeID)))"

definition IsEdgeID :: "string \<Rightarrow> bool" where
  "IsEdgeID edgeID =
     (if \<not> contains_str edgeID ''_'' \<or> \<not> contains_str edgeID ''-'' then False
      else (case ParseEdgeID edgeID of Inl _ \<Rightarrow> False | Inr _ \<Rightarrow> True))"

subsection \<open>A saved flow\<close>

text \<open>
  An element of the request with the edges that leave it; only nodes have such a list. The passes rename the nodes
  that are not shared with the flow and the ends of the edges, give every edge its identifier, and hang the edges on
  their sources.
\<close>

record request_element =
  re_elem :: element
  re_ports :: "element list option"

type_synonym request_map = "request_element gomap"

definition prepare_node ::
  "(string \<Rightarrow> string) \<Rightarrow> string \<Rightarrow> string \<Rightarrow> element \<Rightarrow> element \<times> (string \<times> bool) option" where
  "prepare_node md5hex projectName flowName vv =
     (if field vv ''id'' = JNull then (vv, None)
      else (case IsNode vv of
              None \<Rightarrow> (vv, None)
            | Some nodeData \<Rightarrow>
              if ContainsStr flowName (split_char (CHR '','') (GetStr (field nodeData ''shared_with_flows'')))
              then (vv, Some (GetStr (field vv ''id''), True))
              else (let name = GetFlowElementName md5hex projectName flowName (GetStr (field vv ''id''))
                    in (set_field ''id'' (JStr name) vv, Some (name, False)))))"

definition rename_end :: "(string \<Rightarrow> string) \<Rightarrow> string \<Rightarrow> string \<Rightarrow> string list \<Rightarrow> string \<Rightarrow> string" where
  "rename_end md5hex projectName flowName shared name =
     (if name \<in> set shared then name else GetFlowElementName md5hex projectName flowName name)"

definition prepare_edge :: "(string \<Rightarrow> string) \<Rightarrow> string \<Rightarrow> string \<Rightarrow> string list \<Rightarrow> element \<Rightarrow> element \<times> bool" where
  "prepare_edge md5hex projectName flowName shared vv =
     (if field vv ''id'' = JNull \<or> \<not> IsEdge vv then (vv, False)
      else
        (let target = rename_end md5hex projectName flowName shared (GetStr (field vv ''target''));
             source = rename_end md5hex projectName flowName shared (GetStr (field vv ''source''));
             v1 = (if GetStr (field vv ''target'') \<in> set shared then vv else set_field ''target'' (JStr target) vv);
             v2 = (if GetStr (field vv ''source'') \<in> set shared then v1 else set_field ''source'' (JStr source) v1)
         in (set_field ''id'' (JStr (GenerateEdgeID source (GetStr (field vv ''sourceHandle'')) target (GetStr (field vv ''targetHandle'')))) v2,
             True)))"

definition hang_edge :: "(string \<Rightarrow> string) \<Rightarrow> string \<Rightarrow> string \<Rightarrow> string list \<Rightarrow> element \<Rightarrow> request_map \<Rightarrow> request_map" where
  "hang_edge md5hex projectName flowName shared vv r =
     (if \<not> IsEdge vv then r
      else
        (let sourceName = rename_end md5hex projectName flowName shared (GetStr (field vv ''source''))
         in case map_of r sourceName of
              None \<Rightarrow> r
            | Some src \<Rightarrow>
              (case re_ports src of
                 None \<Rightarrow> r
               | Some ports \<Rightarrow> AList.update sourceName (src\<lparr>re_ports := Some (ports @ [vv])\<rparr>) r)))"

definition BuildRequestElementsMapFromSlice ::
  "(string \<Rightarrow> string) \<Rightarrow> string \<Rightarrow> string \<Rightarrow> element list option \<Rightarrow> go_error + request_map" where
  "BuildRequestElementsMapFromSlice md5hex projectName flowName elements =
     (case elements of
        None \<Rightarrow> Inl (ErrNew ''data is invalid: nil elements'')
      | Some es \<Rightarrow>
        (let prepared = map (prepare_node md5hex projectName flowName) es;
             shared = map fst (filter snd (List.map_filter snd prepared));
             nodes = fold (\<lambda>(e, out) r. case out of
                 None \<Rightarrow> r | Some (name, _) \<Rightarrow> AList.update name \<lparr>re_elem = e, re_ports = Some []\<rparr> r) prepared [];
             edged = map (prepare_edge md5hex projectName flowName shared) (map fst prepared);
             all = fold (\<lambda>(e, isEdge) r.
                 if isEdge then AList.update (GetStr (field e ''id'')) \<lparr>re_elem = e, re_ports = None\<rparr> r else r) edged nodes
         in Inr (fold (hang_edge md5hex projectName flowName shared) (map fst edged) all)))"

subsection \<open>Edges and port configurations of a node\<close>

fun policy_int :: "(string \<Rightarrow> int) \<Rightarrow> json \<Rightarrow> int" where
  "policy_int num (JNum t) = num t"
| "policy_int num _ = 0"

fun policy_codes :: "json \<Rightarrow> string list" where
  "policy_codes (JArr cs) = filter (\<lambda>s. s \<noteq> []) (List.map_filter json_string cs)"
| "policy_codes _ = []"

definition parseEdgeRetryPolicyFromRequest :: "(string \<Rightarrow> int) \<Rightarrow> element \<Rightarrow> retry_policy option" where
  "parseEdgeRetryPolicyFromRequest num edge =
     (case json_object (field edge ''data'') of
        None \<Rightarrow> None
      | Some data \<Rightarrow>
        (case json_object (field data ''retryPolicy'') of
           None \<Rightarrow> None
         | Some raw \<Rightarrow>
           if raw = [] then None
           else
             (let out = \<lparr>rp_MaxAttempts = policy_int num (field raw ''maxAttempts''),
                         rp_InitialDelayMs = policy_int num (field raw ''initialDelayMs''),
                         rp_BackoffCoefficient = GetStr (field raw ''backoffCoefficient''),
                         rp_MaxDelayMs = policy_int num (field raw ''maxDelayMs''),
                         rp_NonRetryableErrorCodes = policy_codes (field raw ''nonRetryableErrorCodes''),
                         rp_TimeoutMs = policy_int num (field raw ''timeoutMs'')\<rparr>
              in if (rp_MaxAttempts out = 0 \<or> rp_MaxAttempts out = 1) \<and> rp_InitialDelayMs out = 0 \<and>
                    rp_BackoffCoefficient out = [] \<and> rp_MaxDelayMs out = 0 \<and> rp_TimeoutMs out = 0 \<and> rp_NonRetryableErrorCodes out = []
                 then None else Some out)))"

text \<open>Keeping the first of the edges with the same identifier, as the map of duplicates does.\<close>

fun first_edges :: "string list \<Rightarrow> tiny_edge list \<Rightarrow> tiny_edge list" where
  "first_edges seen [] = []"
| "first_edges seen (e # es) = (if ed_ID e \<in> set seen then first_edges seen es else e # first_edges (ed_ID e # seen) es)"

definition request_edge :: "(string \<Rightarrow> int) \<Rightarrow> string \<Rightarrow> element \<Rightarrow> tiny_edge" where
  "request_edge num flowID v =
     \<lparr>ed_ID = GetStr (field v ''id''), ed_Port = GetStr (field v ''sourceHandle''),
      ed_To = GetStr (field v ''target'') @ '':'' @ GetStr (field v ''targetHandle''), ed_FlowID = flowID,
      ed_RetryPolicy = parseEdgeRetryPolicyFromRequest num v\<rparr>"

definition request_ids :: "element list \<Rightarrow> string list" where
  "request_ids ports = filter (\<lambda>i. i \<noteq> []) (map (\<lambda>v. GetStr (field v ''id'')) ports)"

definition kept_edge :: "string \<Rightarrow> element list \<Rightarrow> tiny_edge \<Rightarrow> bool" where
  "kept_edge flowID ports edge = (ed_FlowID edge \<noteq> flowID \<and> \<not> (ed_FlowID edge = [] \<and> ed_ID edge \<in> set (request_ids ports)))"

definition UpdateEdgesFromRequest ::
  "(string \<Rightarrow> int) \<Rightarrow> tiny_edge list \<Rightarrow> string \<Rightarrow> string \<Rightarrow> request_map \<Rightarrow> go_error + tiny_edge list" where
  "UpdateEdgesFromRequest num edges flowID nodeID requestMap =
     (case map_of requestMap nodeID of
        None \<Rightarrow> Inl (ErrNew (''element '' @ nodeID @ '' not found in request''))
      | Some sourceNode \<Rightarrow>
        (case re_ports sourceNode of
           None \<Rightarrow> Inl (ErrNew (''source element '' @ nodeID @ '' contains no _ports''))
         | Some ports \<Rightarrow>
           Inr (sort_key ed_ID
             (first_edges [] (filter (kept_edge flowID ports) edges @
                map (request_edge num flowID) (filter (\<lambda>v. GetStr (field v ''id'') \<noteq> []) ports))))))"

definition cleanLegacyPortConfigs :: "port_config list \<Rightarrow> port_config list" where
  "cleanLegacyPortConfigs configs = filter (\<lambda>pc. pc_FlowID pc \<noteq> []) configs"

definition config_key :: "string \<Rightarrow> string \<Rightarrow> string" where
  "config_key from name = from @ ''->'' @ name"

text \<open>The configuration to fall back on: one of the current flow, else a legacy one, else the last of the others.\<close>

definition prefer_config :: "string \<Rightarrow> port_config \<Rightarrow> port_config gomap \<Rightarrow> port_config gomap" where
  "prefer_config flowID pc existing =
     (if pc_From pc = [] then existing
      else
        (let key = config_key (pc_From pc) (pc_Port pc)
         in case map_of existing key of
              None \<Rightarrow> AList.update key pc existing
            | Some old \<Rightarrow>
              if pc_FlowID old = flowID then existing
              else if pc_FlowID pc = flowID then AList.update key pc existing
              else if pc_FlowID old = [] then existing
              else AList.update key pc existing))"

definition existing_configs :: "string \<Rightarrow> port_config list \<Rightarrow> port_config gomap" where
  "existing_configs flowID ports = fold (prefer_config flowID) ports []"

text \<open>\<open>PortConfig\<close>: what the request says about a port; \<open>json.Marshal\<close> of a decoded value gives its bytes.\<close>

record handle_port =
  hp_From :: string
  hp_Name :: string
  hp_Source :: bool
  hp_Schema :: bytes
  hp_Configuration :: bytes

definition settings_handle :: "(json \<Rightarrow> bytes) \<Rightarrow> json \<Rightarrow> handle_port option" where
  "settings_handle marshal handle =
     (case json_object handle of
        None \<Rightarrow> None
      | Some h \<Rightarrow>
        if GetStr (field h ''id'') \<noteq> SettingsPort \<or> field h ''configuration'' = JNull then None
        else Some \<lparr>hp_From = [], hp_Name = SettingsPort, hp_Source = (GetStr (field h ''type'') = ''source''),
                   hp_Schema = marshal (field h ''schema''), hp_Configuration = marshal (field h ''configuration'')\<rparr>)"

definition marshal_field :: "(json \<Rightarrow> bytes) \<Rightarrow> json gomap option \<Rightarrow> string \<Rightarrow> bytes" where
  "marshal_field marshal data k =
     (case data of None \<Rightarrow> [] | Some d \<Rightarrow> if field d k = JNull then [] else marshal (field d k))"

definition edge_handle :: "(json \<Rightarrow> bytes) \<Rightarrow> string \<Rightarrow> element \<Rightarrow> handle_port option" where
  "edge_handle marshal nodeID edge =
     (if \<not> IsEdge edge \<or> GetStr (field edge ''source'') = nodeID \<or> GetStr (field edge ''target'') \<noteq> nodeID then None
      else Some \<lparr>hp_From = GetPortFullName (GetStr (field edge ''source'')) (GetStr (field edge ''sourceHandle'')),
                 hp_Name = GetStr (field edge ''targetHandle''), hp_Source = False,
                 hp_Schema = marshal_field marshal (json_object (field edge ''data'')) ''schema'',
                 hp_Configuration = marshal_field marshal (json_object (field edge ''data'')) ''configuration''\<rparr>)"

definition config_of :: "string \<Rightarrow> port_config gomap \<Rightarrow> handle_port \<Rightarrow> port_config option" where
  "config_of flowID existing hp =
     (if hp_From hp = [] \<and> hp_Source hp then None
      else
        (let pc = \<lparr>pc_From = hp_From hp, pc_Port = hp_Name hp, pc_Schema = hp_Schema hp, pc_Configuration = hp_Configuration hp,
                   pc_FlowID = flowID\<rparr>;
             pc' = (if hp_Configuration hp = [] \<and> hp_Schema hp = []
                    then (case map_of existing (config_key (hp_From hp) (hp_Name hp)) of
                            None \<Rightarrow> pc
                          | Some old \<Rightarrow> pc\<lparr>pc_Configuration := pc_Configuration old, pc_Schema := pc_Schema old\<rparr>)
                    else pc)
         in if pc_Configuration pc' = [] \<and> pc_Schema pc' = [] then None else Some pc'))"

definition UpdatePortConfigsFromRequest ::
  "(json \<Rightarrow> bytes) \<Rightarrow> (port_config \<Rightarrow> nat) \<Rightarrow> port_config list \<Rightarrow> string \<Rightarrow> string \<Rightarrow> request_map \<Rightarrow> port_config list" where
  "UpdatePortConfigsFromRequest marshal hash ports flowID nodeID requestMap =
     (case map_of requestMap nodeID of
        None \<Rightarrow> ports
      | Some elem \<Rightarrow>
        (case json_object (field (re_elem elem) ''data'') of
           None \<Rightarrow> ports
         | Some data \<Rightarrow>
           (let handles = (case json_array (field data ''handles'') of None \<Rightarrow> [] | Some hs \<Rightarrow> List.map_filter (settings_handle marshal) hs);
                edges = List.map_filter (\<lambda>(_, e). edge_handle marshal nodeID (re_elem e)) requestMap
            in sort_key hash
                 (cleanLegacyPortConfigs
                   (filter (\<lambda>pc. pc_FlowID pc \<noteq> flowID) ports @
                    List.map_filter (config_of flowID (existing_configs flowID ports)) (handles @ edges))))))"

subsection \<open>Properties\<close>

lemma GetFlowElementName_idem:
  assumes "length (md5hex (projectName @ flowName)) \<ge> 8"
  shows "GetFlowElementName md5hex projectName flowName (GetFlowElementName md5hex projectName flowName e) =
    GetFlowElementName md5hex projectName flowName e"
proof -
  have "length (GetFlowHashPrefix md5hex projectName flowName) = 8" using assms by (simp add: GetFlowHashPrefix_def)
  then show ?thesis by (auto simp: GetFlowElementName_def Let_def nth_append)
qed

lemma cut_last_append: "d \<notin> set t \<Longrightarrow> cut_last d (s @ d # t) = Some (s, t)"
  by (simp add: cut_last_def takeWhile_append dropWhile_append)

lemma cut_last_Some:
  assumes "cut_last d s = Some (a, b)"
  shows "s = a @ d # b" and "d \<notin> set b"
proof -
  have d: "d \<in> set s" and a: "rev a = tl (dropWhile (\<lambda>c. c \<noteq> d) (rev s))" and b: "rev b = takeWhile (\<lambda>c. c \<noteq> d) (rev s)"
    using assms by (auto simp: cut_last_def split: if_splits)
  from d have "dropWhile (\<lambda>c. c \<noteq> d) (rev s) = d # rev a"
    unfolding a by (metis (mono_tags, lifting) dropWhile_eq_Nil_conv hd_dropWhile list.collapse set_rev)
  then have "rev s = rev b @ d # rev a" by (metis b takeWhile_dropWhile_id)
  then show "s = a @ d # b" by (metis rev.simps(2) rev_append rev_rev_ident append.assoc append_Cons append_Nil)
  show "d \<notin> set b" by (metis (mono_tags, lifting) b set_rev set_takeWhileD)
qed

lemma split_first:
  "split_char_n 2 d s = (if d \<in> set s then [takeWhile (\<lambda>c. c \<noteq> d) s, tl (dropWhile (\<lambda>c. c \<noteq> d) s)] else [s])"
  by (simp add: numeral_2_eq_2)

lemma split_first_append: "d \<notin> set a \<Longrightarrow> split_char_n 2 d (a @ d # b) = [a, b]"
  by (induction a) (auto simp: split_first)

text \<open>C27: an edge identifier gives back its parts exactly when neither the source nor its handle contains a hyphen and
  neither handle contains an underscore. The identifier is cut at its first hyphen and each half at its last underscore,
  so for a source with a hyphen, as every node of a module with one in its name has, and for a handle such as
  \<open>_control\<close>, parsing gives other parts or an error.\<close>

theorem edge_id_roundtrip:
  "ParseEdgeID (GenerateEdgeID source sourceHandle target targetHandle) = Inr (source, sourceHandle, target, targetHandle) \<longleftrightarrow>
     CHR ''-'' \<notin> set source \<and> CHR ''-'' \<notin> set sourceHandle \<and> CHR ''_'' \<notin> set sourceHandle \<and> CHR ''_'' \<notin> set targetHandle"
proof
  let ?id = "GenerateEdgeID source sourceHandle target targetHandle"
  let ?a = "takeWhile (\<lambda>c. c \<noteq> CHR ''-'') ?id"
  assume p: "ParseEdgeID ?id = Inr (source, sourceHandle, target, targetHandle)"
  have "CHR ''-'' \<in> set ?id" by (simp add: GenerateEdgeID_def)
  then have c: "cut_last (CHR ''_'') ?a = Some (source, sourceHandle)"
    and t: "cut_last (CHR ''_'') (tl (dropWhile (\<lambda>c. c \<noteq> CHR ''-'') ?id)) = Some (target, targetHandle)"
    using p by (auto simp: ParseEdgeID_def split_first split: option.splits)
  have "?a = source @ CHR ''_'' # sourceHandle" by (rule cut_last_Some(1) [OF c])
  moreover have "CHR ''-'' \<notin> set ?a" by (metis (mono_tags, lifting) set_takeWhileD)
  ultimately show "CHR ''-'' \<notin> set source \<and> CHR ''-'' \<notin> set sourceHandle \<and>
      CHR ''_'' \<notin> set sourceHandle \<and> CHR ''_'' \<notin> set targetHandle"
    using cut_last_Some(2) [OF c] cut_last_Some(2) [OF t] by simp
next
  assume n: "CHR ''-'' \<notin> set source \<and> CHR ''-'' \<notin> set sourceHandle \<and>
    CHR ''_'' \<notin> set sourceHandle \<and> CHR ''_'' \<notin> set targetHandle"
  let ?s = "source @ CHR ''_'' # sourceHandle" and ?t = "target @ CHR ''_'' # targetHandle"
  have "GenerateEdgeID source sourceHandle target targetHandle = ?s @ CHR ''-'' # ?t" by (simp add: GenerateEdgeID_def)
  moreover have "CHR ''-'' \<notin> set ?s" using n by simp
  ultimately have "split_char_n 2 (CHR ''-'') (GenerateEdgeID source sourceHandle target targetHandle) = [?s, ?t]"
    by (metis split_first_append)
  then show "ParseEdgeID (GenerateEdgeID source sourceHandle target targetHandle) = Inr (source, sourceHandle, target, targetHandle)"
    using n by (simp add: ParseEdgeID_def cut_last_append)
qed

theorem edge_id_roundtrip_witness:
  "ParseEdgeID (GenerateEdgeID ''ab12.http.n'' ''out'' ''cd34.my-mod.k'' ''in'') = Inr (''ab12.http.n'', ''out'', ''cd34.my-mod.k'', ''in'') \<and>
   ParseEdgeID (GenerateEdgeID ''cd34.my-mod.k'' ''out'' ''ab12.http.n'' ''in'') \<noteq> Inr (''cd34.my-mod.k'', ''out'', ''ab12.http.n'', ''in'') \<and>
   ParseEdgeID (GenerateEdgeID ''ab12.http.n'' ''out'' ''cd34.k'' ''_control'') \<noteq> Inr (''ab12.http.n'', ''out'', ''cd34.k'', ''_control'')"
  using edge_id_roundtrip [of "''ab12.http.n''" "''out''" "''cd34.my-mod.k''" "''in''"]
    edge_id_roundtrip [of "''cd34.my-mod.k''" "''out''" "''ab12.http.n''" "''in''"]
    edge_id_roundtrip [of "''ab12.http.n''" "''out''" "''cd34.k''" "''_control''"] by simp

lemma first_edges_ids: "ed_ID ` set (first_edges seen es) = ed_ID ` set es - set seen"
  by (induction seen es rule: first_edges.induct) auto

lemma first_edges_distinct: "distinct (map ed_ID (first_edges seen es)) \<and> set (map ed_ID (first_edges seen es)) \<inter> set seen = {}"
  by (induction seen es rule: first_edges.induct) (auto simp: first_edges_ids)

lemma first_edges_subset: "set (first_edges seen es) \<subseteq> set es"
  by (induction seen es rule: first_edges.induct) auto

lemma first_edges_all: "distinct (map ed_ID es) \<Longrightarrow> set (map ed_ID es) \<inter> set seen = {} \<Longrightarrow> first_edges seen es = es"
  by (induction seen es rule: first_edges.induct) auto

lemma first_edges_append: "first_edges seen (xs @ ys) = first_edges seen xs @ first_edges (rev (map ed_ID (first_edges seen xs)) @ seen) ys"
  by (induction seen xs rule: first_edges.induct) simp_all

lemma first_edges_cong: "set seen = set seen' \<Longrightarrow> first_edges seen es = first_edges seen' es"
  by (induction seen es arbitrary: seen' rule: first_edges.induct) auto

lemma UpdateEdges_shape:
  assumes "UpdateEdgesFromRequest num edges flowID nodeID r = Inr es"
  obtains n ports where "map_of r nodeID = Some n" "re_ports n = Some ports"
    "es = sort_key ed_ID (first_edges [] (filter (kept_edge flowID ports) edges @
       map (request_edge num flowID) (filter (\<lambda>v. GetStr (field v ''id'') \<noteq> []) ports)))"
  using assms by (auto simp: UpdateEdgesFromRequest_def split: option.splits)

lemma request_edge_ids:
  "ed_ID ` request_edge num flowID ` {v \<in> set ports. GetStr (field v ''id'') \<noteq> []} = set (request_ids ports)"
  by (force simp: request_ids_def request_edge_def)

lemma distinct_ids_sort: "distinct (map ed_ID es) \<Longrightarrow> distinct (map ed_ID (sort_key ed_ID es))"
  by (simp add: distinct_map)

lemma sorted_edges_unique:
  assumes "set es = set es'" "distinct (map ed_ID es)" "distinct (map ed_ID es')"
  shows "sort_key ed_ID es = sort_key ed_ID es'"
proof (rule map_sorted_distinct_set_unique [where f = ed_ID])
  show "inj_on ed_ID (set (sort_key ed_ID es) \<union> set (sort_key ed_ID es'))" using assms by (simp add: distinct_map)
qed (use assms in \<open>simp_all add: distinct_ids_sort\<close>)

text \<open>Saving again what was saved: the edges kept and the edges of the request are the same.\<close>

lemma UpdateEdges_again:
  fixes num flowID ports
  defines "R \<equiv> map (request_edge num flowID) (filter (\<lambda>v. GetStr (field v ''id'') \<noteq> []) ports)"
  defines "L \<equiv> \<lambda>es. first_edges [] (filter (kept_edge flowID ports) es @ R)"
  shows "sort_key ed_ID (L (sort_key ed_ID (L edges))) = sort_key ed_ID (L edges)"
proof -
  let ?K = "first_edges [] (filter (kept_edge flowID ports) edges)"
  let ?K' = "filter (kept_edge flowID ports) (sort_key ed_ID (L edges))"
  have split: "L es = first_edges [] (filter (kept_edge flowID ports) es) @
      first_edges (rev (map ed_ID (first_edges [] (filter (kept_edge flowID ports) es)))) R" for es
    by (simp add: L_def first_edges_append)
  have new: "\<not> kept_edge flowID ports e" if "e \<in> set (first_edges seen R)" for e seen
    using that first_edges_subset [of seen R] by (auto simp: R_def kept_edge_def request_edge_def)
  have "set ?K \<subseteq> set (filter (kept_edge flowID ports) edges)" by (rule first_edges_subset)
  then have old: "kept_edge flowID ports e" if "e \<in> set ?K" for e
    using that by (simp only: set_filter) blast
  have "set (L edges) = set ?K \<union> set (first_edges (rev (map ed_ID ?K)) R)" by (simp only: split set_append)
  then have "set ?K' = {e \<in> set ?K \<union> set (first_edges (rev (map ed_ID ?K)) R). kept_edge flowID ports e}"
    by (simp only: set_filter set_sort)
  then have K': "set ?K' = set ?K" using new old by blast
  have dK': "distinct (map ed_ID ?K')"
    by (intro distinct_map_filter distinct_ids_sort) (simp add: L_def first_edges_distinct)
  then have fK': "first_edges [] ?K' = ?K'" by (simp add: first_edges_all)
  have fR: "first_edges (rev (map ed_ID ?K')) R = first_edges (rev (map ed_ID ?K)) R"
    by (rule first_edges_cong) (simp only: set_rev set_map K')
  have "set (L (sort_key ed_ID (L edges))) = set ?K' \<union> set (first_edges (rev (map ed_ID ?K')) R)"
    by (subst split) (simp only: fK' set_append)
  also have "\<dots> = set ?K \<union> set (first_edges (rev (map ed_ID ?K)) R)" by (simp only: K' fR)
  also have "\<dots> = set (L edges)" by (subst split) (simp only: set_append)
  finally have "set (L (sort_key ed_ID (L edges))) = set (L edges)" .
  then show ?thesis by (rule sorted_edges_unique) (simp_all add: L_def first_edges_distinct)
qed

text \<open>Saving a flow replaces the edges of that flow at a node and nothing else. Afterwards every edge identifier occurs once and the
  edges are in order; the identifiers are those of the request and of the edges of other flows, and a legacy edge
  survives when the request does not name it; an edge of the flow is one of the request, any other edge is one
  that was there before; and saving the same request again changes nothing.\<close>

theorem flow_edges_replaced:
  assumes "UpdateEdgesFromRequest num edges flowID nodeID r = Inr es"
    and "map_of r nodeID = Some n" and "re_ports n = Some ports"
  shows "distinct (map ed_ID es) \<and> sorted (map ed_ID es) \<and>
    ed_ID ` set es = ed_ID ` {e \<in> set edges. kept_edge flowID ports e} \<union> set (request_ids ports) \<and>
    (\<forall>e \<in> set es. e \<in> (if ed_FlowID e = flowID then request_edge num flowID ` set ports else set edges)) \<and>
    UpdateEdgesFromRequest num es flowID nodeID r = Inr es"
proof -
  let ?R = "map (request_edge num flowID) (filter (\<lambda>v. GetStr (field v ''id'') \<noteq> []) ports)"
  let ?L = "first_edges [] (filter (kept_edge flowID ports) edges @ ?R)"
  have es: "es = sort_key ed_ID ?L" using assms by (auto elim: UpdateEdges_shape)
  have "distinct (map ed_ID es) \<and> sorted (map ed_ID es)" by (simp add: es distinct_ids_sort first_edges_distinct)
  moreover have "ed_ID ` set es = ed_ID ` {e \<in> set edges. kept_edge flowID ports e} \<union> set (request_ids ports)"
    by (simp add: es first_edges_ids image_Un flip: request_edge_ids [of num flowID])
  moreover have "e \<in> (if ed_FlowID e = flowID then request_edge num flowID ` set ports else set edges)" if "e \<in> set es" for e
  proof -
    have "e \<in> set (filter (kept_edge flowID ports) edges @ ?R)" using that first_edges_subset by (fastforce simp: es)
    then show ?thesis by (auto simp: kept_edge_def request_edge_def)
  qed
  moreover have "UpdateEdgesFromRequest num es flowID nodeID r = Inr es"
    using assms(2,3) UpdateEdges_again [where flowID = flowID and ports = ports and num = num and edges = edges] by (simp add: UpdateEdgesFromRequest_def es)
  ultimately show ?thesis by blast
qed

definition key_of :: "port_config \<Rightarrow> string" where
  "key_of pc = config_key (pc_From pc) (pc_Port pc)"

lemma existing_configs_in:
  "map_of (existing_configs flowID ports) k = Some old \<Longrightarrow> old \<in> set ports \<and> key_of old = k"
proof (induction ports arbitrary: k old rule: rev_induct)
  case (snoc p ps)
  then show ?case
    by (auto simp: existing_configs_def prefer_config_def key_of_def Let_def update_conv' split: option.splits if_splits)
qed (simp add: existing_configs_def)

lemma existing_configs_current:
  assumes "p \<in> set ports" "pc_From p \<noteq> []" "pc_FlowID p = flowID"
  shows "\<exists>old. map_of (existing_configs flowID ports) (key_of p) = Some old \<and> pc_FlowID old = flowID"
  using assms
proof (induction ports rule: rev_induct)
  case (snoc q ps)
  show ?case
  proof (cases "p \<in> set ps")
    case True
    then show ?thesis using snoc
      by (auto simp: existing_configs_def prefer_config_def key_of_def Let_def update_conv' split: option.split)
  next
    case False
    then show ?thesis using snoc
      by (auto simp: existing_configs_def prefer_config_def key_of_def Let_def update_conv' split: option.split)
  qed
qed simp

lemma config_of_flow: "config_of flowID existing hp = Some pc \<Longrightarrow> pc_FlowID pc = flowID"
  by (auto simp: config_of_def Let_def split: if_splits option.splits)

lemma filter_map_filter_none: "(\<And>x y. f x = Some y \<Longrightarrow> \<not> P y) \<Longrightarrow> filter P (List.map_filter f xs) = []"
  by (induction xs) (auto simp: map_filter_simps split: option.split)

text \<open>Saving a flow leaves the port configurations of other flows alone and drops legacy ones, and moving a node does not
  lose the configuration of an edge. When the request has an edge into the node with neither configuration nor
  schema, and the node has a configuration of this flow for that edge, the result still has one for the same
  port with the configuration and schema that were there.\<close>

theorem flow_port_configs_replaced:
  fixes marshal :: "json \<Rightarrow> bytes" and hash :: "port_config \<Rightarrow> nat"
  assumes node: "map_of r nodeID = Some n" "json_object (field (re_elem n) ''data'') = Some data" and flow: "flowID \<noteq> []"
    and moved: "(i, e) \<in> set r" "edge_handle marshal nodeID (re_elem e) = Some hp" "hp_Configuration hp = []" "hp_Schema hp = []"
    and old: "p \<in> set ports" "pc_From p = hp_From hp" "pc_Port p = hp_Name hp" "pc_From p \<noteq> []" "pc_FlowID p = flowID"
    and set: "\<And>q. q \<in> set ports \<Longrightarrow> pc_Configuration q \<noteq> []"
  shows "mset (filter (\<lambda>pc. pc_FlowID pc \<noteq> flowID) (UpdatePortConfigsFromRequest marshal hash ports flowID nodeID r)) =
      mset (filter (\<lambda>pc. pc_FlowID pc \<noteq> flowID \<and> pc_FlowID pc \<noteq> []) ports) \<and>
    (\<forall>pc \<in> set (UpdatePortConfigsFromRequest marshal hash ports flowID nodeID r). pc_FlowID pc \<noteq> []) \<and>
    (\<exists>pc \<in> set (UpdatePortConfigsFromRequest marshal hash ports flowID nodeID r). \<exists>q \<in> set ports. key_of q = key_of p \<and>
       pc_FlowID q = flowID \<and> pc_From pc = hp_From hp \<and> pc_Port pc = hp_Name hp \<and>
       pc_Configuration pc = pc_Configuration q \<and> pc_Schema pc = pc_Schema q)"
proof -
  let ?ex = "existing_configs flowID ports"
  define hs where "hs = (case json_array (field data ''handles'') of None \<Rightarrow> [] | Some hs \<Rightarrow> List.map_filter (settings_handle marshal) hs) @
      List.map_filter (\<lambda>(_, e). edge_handle marshal nodeID (re_elem e)) r"
  have u: "UpdatePortConfigsFromRequest marshal hash ports flowID nodeID r =
      sort_key hash (cleanLegacyPortConfigs (filter (\<lambda>pc. pc_FlowID pc \<noteq> flowID) ports @ List.map_filter (config_of flowID ?ex) hs))"
    using node by (simp add: UpdatePortConfigsFromRequest_def hs_def)
  have "filter (\<lambda>pc. pc_FlowID pc \<noteq> flowID \<and> pc_FlowID pc \<noteq> []) (List.map_filter (config_of flowID ?ex) hs) = []"
    by (rule filter_map_filter_none) (simp add: config_of_flow)
  then have "filter (\<lambda>pc. pc_FlowID pc \<noteq> flowID) (cleanLegacyPortConfigs
        (filter (\<lambda>pc. pc_FlowID pc \<noteq> flowID) ports @ List.map_filter (config_of flowID ?ex) hs)) =
      filter (\<lambda>pc. pc_FlowID pc \<noteq> flowID \<and> pc_FlowID pc \<noteq> []) ports"
    by (simp add: cleanLegacyPortConfigs_def conj_ac)
  then have "mset (filter (\<lambda>pc. pc_FlowID pc \<noteq> flowID) (UpdatePortConfigsFromRequest marshal hash ports flowID nodeID r)) =
      mset (filter (\<lambda>pc. pc_FlowID pc \<noteq> flowID \<and> pc_FlowID pc \<noteq> []) ports)"
    by (simp only: u filter_sort mset_sort)
  moreover have "hp \<in> set hs" using moved(1,2) by (force simp: hs_def map_filter_def)
  obtain q where q: "map_of ?ex (key_of p) = Some q" "pc_FlowID q = flowID"
    using existing_configs_current [OF old(1,4,5)] by blast
  have q': "q \<in> set ports" "key_of q = key_of p" using existing_configs_in [OF q(1)] by auto
  let ?pc = "\<lparr>pc_From = hp_From hp, pc_Port = hp_Name hp, pc_Schema = pc_Schema q,
      pc_Configuration = pc_Configuration q, pc_FlowID = flowID\<rparr>"
  have "config_of flowID ?ex hp = Some ?pc"
    using moved(3,4) old(2-4) q(1) set [OF q'(1)] by (simp add: config_of_def key_of_def Let_def)
  with \<open>hp \<in> set hs\<close> have "?pc \<in> set (UpdatePortConfigsFromRequest marshal hash ports flowID nodeID r)"
    using flow by (force simp: u cleanLegacyPortConfigs_def map_filter_def)
  moreover have "\<forall>pc \<in> set (UpdatePortConfigsFromRequest marshal hash ports flowID nodeID r). pc_FlowID pc \<noteq> []"
    by (auto simp: u cleanLegacyPortConfigs_def)
  moreover have "key_of q = key_of p \<and> pc_FlowID q = flowID \<and> pc_From ?pc = hp_From hp \<and> pc_Port ?pc = hp_Name hp \<and>
      pc_Configuration ?pc = pc_Configuration q \<and> pc_Schema ?pc = pc_Schema q" using q q' by simp
  ultimately show ?thesis using q'(1) by blast
qed

subsection \<open>Examples\<close>

definition sample_flow :: "element list" where
  "sample_flow =
     [[(''id'', JStr ''a''), (''type'', JStr ''tinyNode''), (''data'', JObj [])],
      [(''id'', JStr ''b''), (''type'', JStr ''tinyNode''), (''data'', JObj [])],
      [(''id'', JStr ''x''), (''type'', JStr ''tinyEdge''), (''source'', JStr ''a''), (''sourceHandle'', JStr ''out''),
       (''target'', JStr ''b''), (''targetHandle'', JStr ''in'')]]"

definition sample_request :: request_map where
  "sample_request =
     (case BuildRequestElementsMapFromSlice (\<lambda>_. ''0123456789abcdef'') ''p'' ''f'' (Some sample_flow) of Inl _ \<Rightarrow> [] | Inr r \<Rightarrow> r)"

definition other_edge :: tiny_edge where
  "other_edge = \<lparr>ed_ID = ''z'', ed_Port = ''out'', ed_To = ''01234567.b:in'', ed_FlowID = ''g'', ed_RetryPolicy = None\<rparr>"

definition saved_config :: port_config where
  "saved_config = \<lparr>pc_From = ''01234567.a:out'', pc_Port = ''in'', pc_Schema = [], pc_Configuration = ''{}'', pc_FlowID = ''f''\<rparr>"

theorem flow_edges_replaced_witness:
  "\<exists>es. UpdateEdgesFromRequest (\<lambda>_. 0) [other_edge] ''f'' ''01234567.a'' sample_request = Inr es \<and>
     map ed_ID es = [''01234567.a_out-01234567.b_in'', ''z''] \<and>
     UpdateEdgesFromRequest (\<lambda>_. 0) es ''f'' ''01234567.a'' sample_request = Inr es"
proof -
  have "map_of sample_request ''01234567.a'' \<noteq> None" "re_ports (the (map_of sample_request ''01234567.a'')) \<noteq> None" by code_simp+
  then obtain n ports where n: "map_of sample_request ''01234567.a'' = Some n" "re_ports n = Some ports" by auto
  have u: "UpdateEdgesFromRequest (\<lambda>_. 0) [other_edge] ''f'' ''01234567.a'' sample_request =
      Inr [\<lparr>ed_ID = ''01234567.a_out-01234567.b_in'', ed_Port = ''out'', ed_To = ''01234567.b:in'', ed_FlowID = ''f'', ed_RetryPolicy = None\<rparr>,
           other_edge]" by code_simp
  from flow_edges_replaced [OF u n] u show ?thesis by (auto simp: other_edge_def)
qed

theorem flow_port_configs_replaced_witness:
  "\<exists>pc \<in> set (UpdatePortConfigsFromRequest (\<lambda>_. []) (\<lambda>_. 0) [saved_config] ''f'' ''01234567.b'' sample_request). pc_Configuration pc = ''{}''"
proof -
  have "map_of sample_request ''01234567.b'' \<noteq> None"
    "json_object (field (re_elem (the (map_of sample_request ''01234567.b''))) ''data'') \<noteq> None"
    "map_of sample_request ''01234567.a_out-01234567.b_in'' \<noteq> None" by code_simp+
  then obtain n data e where n: "map_of sample_request ''01234567.b'' = Some n" "json_object (field (re_elem n) ''data'') = Some data"
    and e: "map_of sample_request ''01234567.a_out-01234567.b_in'' = Some e" by auto
  have "edge_handle (\<lambda>_. []) ''01234567.b'' (re_elem (the (map_of sample_request ''01234567.a_out-01234567.b_in''))) =
      Some \<lparr>hp_From = ''01234567.a:out'', hp_Name = ''in'', hp_Source = False, hp_Schema = [], hp_Configuration = []\<rparr>" by code_simp
  then have h: "edge_handle (\<lambda>_. []) ''01234567.b'' (re_elem e) =
      Some \<lparr>hp_From = ''01234567.a:out'', hp_Name = ''in'', hp_Source = False, hp_Schema = [], hp_Configuration = []\<rparr>" by (simp add: e)
  show ?thesis
    using flow_port_configs_replaced [OF n _ map_of_SomeD [OF e] h, of "''f''" saved_config "[saved_config]" "\<lambda>_. 0"]
    by (auto simp: saved_config_def)
qed

end
