(* ===== verification/Redaction.thy ===== *)
theory Redaction
  imports Json_Values Node_Model
begin

section \<open>Redaction by name\<close>

text \<open>
  \<open>src/pkg/redact/redact.go\<close> and \<open>authored.go\<close>, \<open>src/pkg/utils/secret_placeholder.go\<close>, and the two
  passes of \<open>runner.go\<close> that publish a payload (\<open>redactPortConfiguration\<close>, \<open>redactPayload\<close>).
  The JSON library is the argument \<open>codec\<close>: a decoder and an encoder of byte strings, of which the
  properties assume that decoding gives back what was encoded. A Go map of names to \<open>true\<close> is the
  list of its keys. The regular expression for credential names is case-insensitive: a name
  matches when its case-folded form contains one of the words.
\<close>

record json_codec =
  jc_decode :: "bytes \<Rightarrow> json option"
  jc_encode :: "json \<Rightarrow> bytes option"

definition Value :: string where "Value = ''<redacted>''"

definition secret_words :: "string list" where
  "secret_words =
     [''apikey'', ''api_key'', ''api-key'', ''secret'', ''token'', ''passw'', ''authorization'', ''bearer'',
      ''credential'', ''privatekey'', ''private_key'', ''private-key'', ''accesskey'', ''access_key'',
      ''access-key'']"

definition secretKeyRe :: "string \<Rightarrow> bool" where
  "secretKeyRe key = list_ex (contains_str (fold_case key)) secret_words"

definition IsSecretKey :: "string \<Rightarrow> bool" where
  "IsSecretKey key = (key \<noteq> [] \<and> secretKeyRe key)"

definition IsExpression :: "string \<Rightarrow> bool" where
  "IsExpression s = contains_str s ''{{''"

subsection \<open>By conventional name\<close>

fun redact_value :: "string \<Rightarrow> json \<Rightarrow> json" where
  "redact_value key (JObj ms) = JObj (map (\<lambda>m. (fst m, redact_value (fst m) (snd m))) ms)"
| "redact_value key (JArr vs) = JArr (map (redact_value key) vs)"
| "redact_value key (JStr x) =
     (if x \<noteq> [] \<and> \<not> IsExpression x \<and> IsSecretKey key then JStr Value else JStr x)"
| "redact_value key v = v"

definition Secrets :: "json \<Rightarrow> json" where
  "Secrets v = redact_value [] v"

subsection \<open>By the names an authored schema declares\<close>

definition flag_or_word :: "json gomap \<Rightarrow> string \<Rightarrow> bool" where
  "flag_or_word def k =
     (case map_of def k of
        Some (JBool b) \<Rightarrow> b
      | Some (JStr s) \<Rightarrow> equal_fold s ''true''
      | _ \<Rightarrow> False)"

definition declaresSecret :: "json gomap \<Rightarrow> bool" where
  "declaresSecret def =
     ((case map_of def ''format'' of Some (JStr s) \<Rightarrow> equal_fold s ''password'' | _ \<Rightarrow> False)
      \<or> flag_or_word def ''writeOnly'' \<or> flag_or_word def ''secret'')"

definition declared_props :: "json gomap \<Rightarrow> string list" where
  "declared_props n =
     (case map_of n ''properties'' of
        Some (JObj props) \<Rightarrow>
          map fst (filter (\<lambda>p. case snd p of JObj d \<Rightarrow> declaresSecret d | _ \<Rightarrow> False) props)
      | _ \<Rightarrow> [])"

fun collectSecretNames :: "json \<Rightarrow> string list" where
  "collectSecretNames (JObj n) = declared_props n @ concat (map (\<lambda>m. collectSecretNames (snd m)) n)"
| "collectSecretNames (JArr vs) = concat (map collectSecretNames vs)"
| "collectSecretNames _ = []"

definition AuthoredSecretNames :: "json_codec \<Rightarrow> bytes \<Rightarrow> string list" where
  "AuthoredSecretNames codec schema =
     (if schema = [] then []
      else case jc_decode codec schema of None \<Rightarrow> [] | Some doc \<Rightarrow> collectSecretNames doc)"

text \<open>\<open>byName\<close> copies a container only when something under it changed; the flag says whether.\<close>

fun byName :: "string \<Rightarrow> json \<Rightarrow> string list \<Rightarrow> json \<times> bool" where
  "byName key (JStr n) names =
     (if key \<notin> set names \<or> n = [] \<or> IsExpression n then (JStr n, False) else (JStr Value, True))"
| "byName key (JObj ms) names =
     (if list_ex (\<lambda>m. snd (byName (fst m) (snd m) names)) ms
      then (JObj (map (\<lambda>m. case byName (fst m) (snd m) names of
              (nv, changed) \<Rightarrow> if changed then (fst m, nv) else m) ms), True)
      else (JObj ms, False))"
| "byName key (JArr vs) names =
     (if list_ex (\<lambda>v. snd (byName key v names)) vs
      then (JArr (map (\<lambda>v. case byName key v names of (nv, changed) \<Rightarrow> if changed then nv else v) vs), True)
      else (JArr vs, False))"
| "byName key v names = (v, False)"

definition ByName :: "json \<Rightarrow> string list \<Rightarrow> json \<times> bool" where
  "ByName v names =
     (if names = [] \<or> v = JNull then (v, False)
      else (let (out, changed) = byName [] v names in if changed then (out, True) else (v, False)))"

subsection \<open>The passes of the runner\<close>

definition declaredSecretNames :: "json_codec \<Rightarrow> tiny_node \<Rightarrow> string list" where
  "declaredSecretNames codec node =
     concat (map (\<lambda>p. AuthoredSecretNames codec (pc_Schema p)) (tn_Ports node))"

definition redactPortConfiguration :: "json_codec \<Rightarrow> bytes \<Rightarrow> bytes option" where
  "redactPortConfiguration codec data =
     (if data = [] then Some data
      else case jc_decode codec data of
        None \<Rightarrow> None
      | Some decoded \<Rightarrow>
        (let redacted = Secrets decoded
         in if decoded = redacted then Some data else jc_encode codec redacted))"

definition redactPayload :: "json_codec \<Rightarrow> string list \<Rightarrow> bytes \<Rightarrow> bytes option" where
  "redactPayload codec declared data =
     (if data = [] then Some data
      else case jc_decode codec data of
        None \<Rightarrow> None
      | Some decoded \<Rightarrow> jc_encode codec (Secrets (fst (ByName decoded declared))))"

subsection \<open>Placeholders in simulation\<close>

definition simulatedSecretPlaceholder :: string where
  "simulatedSecretPlaceholder = ''(supplied at runtime)''"

fun placeholderForAbsentSecrets :: "json \<Rightarrow> json" where
  "placeholderForAbsentSecrets (JObj ms) =
     JObj (map (\<lambda>m. (fst m,
       if snd m = JNull \<and> secretKeyRe (fst m) then JStr simulatedSecretPlaceholder
       else placeholderForAbsentSecrets (snd m))) ms)"
| "placeholderForAbsentSecrets (JArr vs) = JArr (map placeholderForAbsentSecrets vs)"
| "placeholderForAbsentSecrets v = v"

subsection \<open>Lemmas\<close>

definition mask_conventional :: "string \<Rightarrow> string \<Rightarrow> string" where
  "mask_conventional k s = (if s \<noteq> [] \<and> \<not> IsExpression s \<and> IsSecretKey k then Value else s)"

definition mask_declared :: "string list \<Rightarrow> string \<Rightarrow> string \<Rightarrow> string" where
  "mask_declared names k s = (if k \<in> set names \<and> s \<noteq> [] \<and> \<not> IsExpression s then Value else s)"

lemma redact_value_map_strings: "redact_value k v = map_strings mask_conventional k v"
  by (induction k v rule: redact_value.induct) (auto simp: mask_conventional_def)

lemma byName_map_strings:
  "fst (byName k v names) = map_strings (mask_declared names) k v \<and>
   (\<not> snd (byName k v names) \<longrightarrow> fst (byName k v names) = v)"
proof (induction k v names rule: byName.induct)
  case (2 key ms names)
  have m: "(case byName (fst m) (snd m) names of (nv, changed) \<Rightarrow> if changed then (fst m, nv) else m) =
      (fst m, map_strings (mask_declared names) (fst m) (snd m))" if "m \<in> set ms" for m
    using 2(1) [OF that] by (cases "byName (fst m) (snd m) names") (auto split: if_splits)
  show ?case
  proof (cases "list_ex (\<lambda>m. snd (byName (fst m) (snd m) names)) ms")
    case True
    then show ?thesis using m by simp
  next
    case False
    then have "(fst m, map_strings (mask_declared names) (fst m) (snd m)) = m" if "m \<in> set ms" for m
      using 2(1) [OF that] that by (auto simp: list_ex_iff prod_eq_iff)
    then have "map (\<lambda>m. (fst m, map_strings (mask_declared names) (fst m) (snd m))) ms = ms"
      by (intro map_idI) auto
    then show ?thesis using False by simp
  qed
next
  case (3 key vs names)
  have m: "(case byName key v names of (nv, changed) \<Rightarrow> if changed then nv else v) =
      map_strings (mask_declared names) key v" if "v \<in> set vs" for v
    using 3(1) [OF that] by (cases "byName key v names") (auto split: if_splits)
  show ?case
  proof (cases "list_ex (\<lambda>v. snd (byName key v names)) vs")
    case True
    then show ?thesis using m by simp
  next
    case False
    then have "map_strings (mask_declared names) key v = v" if "v \<in> set vs" for v
      using 3(1) [OF that] that by (auto simp: list_ex_iff)
    then have "map (map_strings (mask_declared names) key) vs = vs" by (intro map_idI)
    then show ?thesis using False by simp
  qed
qed (auto simp: mask_declared_def)

lemma ByName_map_strings: "fst (ByName v names) = map_strings (mask_declared names) [] v"
proof (cases "names = [] \<or> v = JNull")
  case True
  then have "map_strings (mask_declared names) [] v = v"
    by (auto intro!: map_strings_id simp: mask_declared_def)
  with True show ?thesis by (auto simp: ByName_def)
next
  case False
  then show ?thesis using byName_map_strings [of "[]" v names]
    by (auto simp: ByName_def case_prod_unfold Let_def)
qed

text \<open>A string is safe to publish under a key.\<close>

definition hidden :: "string list \<Rightarrow> string \<times> string \<Rightarrow> bool" where
  "hidden names ks = (case ks of (k, s) \<Rightarrow>
     IsSecretKey k \<or> k \<in> set names \<longrightarrow> s = [] \<or> IsExpression s \<or> s = Value)"

lemma Value_plain: "Value \<noteq> []" "\<not> IsExpression Value"
  by (simp_all add: Value_def IsExpression_def has_prefix_def)

lemma masked_hidden: "hidden names (k, mask_conventional k (mask_declared names k s))"
  by (auto simp: hidden_def mask_conventional_def mask_declared_def)

lemma masks_idem:
  "mask_conventional k (mask_declared names k (mask_conventional k (mask_declared names k s))) =
     mask_conventional k (mask_declared names k s)"
  by (auto simp: mask_conventional_def mask_declared_def Value_plain)

lemma redaction_map_strings:
  "Secrets (fst (ByName v names)) =
     map_strings (\<lambda>k s. mask_conventional k (mask_declared names k s)) [] v"
  by (simp add: Secrets_def redact_value_map_strings ByName_map_strings map_strings_comp)

text \<open>Every sub-document of a document, itself included.\<close>

fun subdocs :: "json \<Rightarrow> json set" where
  "subdocs (JObj ms) = insert (JObj ms) (\<Union>m \<in> set ms. subdocs (snd m))"
| "subdocs (JArr vs) = insert (JArr vs) (\<Union>v \<in> set vs. subdocs v)"
| "subdocs v = {v}"

lemma collectSecretNames_subdocs:
  "set (collectSecretNames doc) = (\<Union>n \<in> {n. JObj n \<in> subdocs doc}. set (declared_props n))"
  by (induction doc rule: collectSecretNames.induct) auto

definition codec_lawful :: "json_codec \<Rightarrow> bool" where
  "codec_lawful codec = (\<forall>v b. jc_encode codec v = Some b \<longrightarrow> jc_decode codec b = Some v)"

text \<open>Null members under a credential name.\<close>

fun absent_secrets :: "json \<Rightarrow> string list" where
  "absent_secrets (JObj ms) =
     map fst (filter (\<lambda>m. snd m = JNull \<and> secretKeyRe (fst m)) ms) @ concat (map (\<lambda>m. absent_secrets (snd m)) ms)"
| "absent_secrets (JArr vs) = concat (map absent_secrets vs)"
| "absent_secrets _ = []"

lemma placeholder_id: "absent_secrets v = [] \<Longrightarrow> placeholderForAbsentSecrets v = v"
  by (induction v rule: placeholderForAbsentSecrets.induct)
    (auto simp: filter_empty_conv intro!: map_idI)

lemma placeholder_not_null: "placeholderForAbsentSecrets v = JNull \<longleftrightarrow> v = JNull"
  by (cases v) auto

lemma placeholder_fills: "absent_secrets (placeholderForAbsentSecrets v) = []"
  by (induction v rule: placeholderForAbsentSecrets.induct)
    (auto simp: filter_empty_conv placeholder_not_null)

subsection \<open>Properties\<close>

text \<open>No declared or conventionally named credential leaves in a span payload. Whenever
  \<open>redactPayload\<close> returns bytes for a payload, they decode to a document of the same shape in which
  every string under a name that the node's schemas declare secret, or that is conventionally a
  credential, is empty, an expression or the marker; every other string is unchanged; and a payload
  that does not parse is withheld.\<close>

theorem redactPayload_safe:
  assumes "codec_lawful codec" and "data \<noteq> []" and "redactPayload codec names data = Some out"
  shows "\<exists>doc safe. jc_decode codec data = Some doc \<and> jc_decode codec out = Some safe \<and>
     json_shape safe = json_shape doc \<and> keyed_strings [] safe \<subseteq> {ks. hidden names ks} \<and>
     {(k, s) \<in> keyed_strings [] doc. \<not> IsSecretKey k \<and> k \<notin> set names} \<subseteq> keyed_strings [] safe"
proof -
  obtain doc where doc: "jc_decode codec data = Some doc"
    "jc_encode codec (Secrets (fst (ByName doc names))) = Some out"
    using assms(2,3) by (auto simp: redactPayload_def split: option.splits)
  let ?f = "\<lambda>k s. mask_conventional k (mask_declared names k s)"
  let ?safe = "map_strings ?f [] doc"
  have "jc_decode codec out = Some ?safe"
    using assms(1) doc(2) by (simp add: codec_lawful_def redaction_map_strings)
  moreover have "json_shape ?safe = json_shape doc" by (rule map_strings_shape)
  moreover have "keyed_strings [] ?safe \<subseteq> {ks. hidden names ks}"
    unfolding map_strings_keyed by (auto simp: masked_hidden)
  moreover have "{(k, s) \<in> keyed_strings [] doc. \<not> IsSecretKey k \<and> k \<notin> set names} \<subseteq> keyed_strings [] ?safe"
    unfolding map_strings_keyed by (force simp: mask_conventional_def mask_declared_def)
  ultimately show ?thesis using doc(1) by blast
qed

definition sample_doc :: json where
  "sample_doc = JObj [(''apiKey'', JStr ''s3cr3t''), (''pin'', JStr ''1234''), (''n'', JNum ''1'')]"

definition sample_codec :: json_codec where
  "sample_codec = \<lparr>jc_decode = (\<lambda>b. if b = ''in'' then Some sample_doc
       else if b = ''out'' then Some (Secrets (fst (ByName sample_doc [''pin'']))) else None),
     jc_encode = (\<lambda>v. if v = Secrets (fst (ByName sample_doc [''pin''])) then Some ''out'' else None)\<rparr>"

theorem redactPayload_safe_witness:
  "\<exists>doc safe. jc_decode sample_codec ''in'' = Some doc \<and> jc_decode sample_codec ''out'' = Some safe \<and>
     json_shape safe = json_shape doc \<and> keyed_strings [] safe \<subseteq> {ks. hidden [''pin''] ks} \<and>
     {(k, s) \<in> keyed_strings [] doc. \<not> IsSecretKey k \<and> k \<notin> set [''pin'']} \<subseteq> keyed_strings [] safe"
proof (rule redactPayload_safe)
  show "codec_lawful sample_codec" by (simp add: codec_lawful_def sample_codec_def)
  show "redactPayload sample_codec [''pin''] ''in'' = Some ''out''"
    by (simp add: redactPayload_def sample_codec_def)
qed simp

text \<open>What the node status shows of a port configuration. The published bytes are the very bytes
  given unless a conventionally named credential sits in them; in that case they decode to the masked
  document; and bytes that do not parse are never published.\<close>

theorem redactPortConfiguration_cases:
  "redactPortConfiguration codec data =
     (if data = [] then Some []
      else case jc_decode codec data of
        None \<Rightarrow> None
      | Some doc \<Rightarrow>
        if keyed_strings [] doc \<subseteq> {ks. hidden [] ks} then Some data
        else jc_encode codec (map_strings mask_conventional [] doc))"
proof -
  have "doc = Secrets doc \<longleftrightarrow> keyed_strings [] doc \<subseteq> {ks. hidden [] ks}" for doc
  proof
    assume "doc = Secrets doc"
    then have "keyed_strings [] doc = (\<lambda>(k, s). (k, mask_conventional k s)) ` keyed_strings [] doc"
      by (metis Secrets_def redact_value_map_strings map_strings_keyed)
    moreover have "(\<lambda>(k, s). (k, mask_conventional k s)) ` keyed_strings [] doc \<subseteq> {ks. hidden [] ks}"
      by (auto simp: mask_conventional_def hidden_def)
    ultimately show "keyed_strings [] doc \<subseteq> {ks. hidden [] ks}" by (rule ssubst)
  next
    assume "keyed_strings [] doc \<subseteq> {ks. hidden [] ks}"
    then have "map_strings mask_conventional [] doc = doc"
      by (intro map_strings_id) (auto simp: mask_conventional_def hidden_def)
    then show "doc = Secrets doc" by (simp add: Secrets_def redact_value_map_strings)
  qed
  then show ?thesis
    by (simp add: redactPortConfiguration_def Let_def Secrets_def redact_value_map_strings split: option.split)
qed

text \<open>A declaration counts wherever it sits. The names an authored schema declares secret are
  exactly those that some object of the document, at any depth, lists under its properties with a
  definition that declares a secret.\<close>

theorem AuthoredSecretNames_complete:
  "set (AuthoredSecretNames codec schema) =
     (if schema = [] then {}
      else case jc_decode codec schema of
        None \<Rightarrow> {}
      | Some doc \<Rightarrow> {name. \<exists>n. JObj n \<in> subdocs doc \<and> name \<in> set (declared_props n)})"
  by (auto simp: AuthoredSecretNames_def collectSecretNames_subdocs split: option.split)

end
