(* ===== verification/Scenario_Scaffold.thy ===== *)
theory Scenario_Scaffold
  imports Flow_Elements Redaction
begin

section \<open>Sample data written for a flow\<close>

text \<open>
  \<open>src/pkg/tools/build_flow_scenarios.go\<close> and \<open>scenario_scaffold_live.go\<close>: the sample a port gets when its schema leaves fields
  without a shape, so that the expressions of the edges leaving it can be checked. The paths an edge refers to are collected from its
  configuration and a placeholder is written at each of them.

  The JSON library is the codec of the redaction theory. The store of scenarios is a record of functions over its state. A Go map the
  code ranges over is a list in the order of the iteration; the paths of an edge pass through an argument \<open>order\<close>, which stands
  for the order the map of paths is read in. The objects of a sample are values: a sample shares no object with another.
\<close>

subsection \<open>Expressions and paths\<close>

definition word_char :: "char \<Rightarrow> bool" where "word_char c = (is_alnum c \<or> c = CHR ''_'')"
definition word_start :: "char \<Rightarrow> bool" where "word_start c = (word_char c \<and> \<not> is_digit c)"

text \<open>The match of \<open>expressionRe\<close> at the head of a string: the text between the braces and the rest.\<close>

definition expression_here :: "string \<Rightarrow> (string \<times> string) option" where
  "expression_here s =
     (if has_prefix s ''{{'' then
        (let body = takeWhile (\<lambda>c. c \<noteq> CHR ''}'') (drop 2 s); rest = dropWhile (\<lambda>c. c \<noteq> CHR ''}'') (drop 2 s)
         in if body \<noteq> [] \<and> has_prefix rest ''}}'' then Some (body, drop 2 rest) else None)
      else None)"

text \<open>An index or a star in brackets at the head of a string.\<close>

definition bracket_here :: "string \<Rightarrow> (string \<times> string) option" where
  "bracket_here s =
     (case s of
        [] \<Rightarrow> None
      | c # r \<Rightarrow>
        if c \<noteq> CHR ''['' then None
        else if has_prefix r ''*]'' then Some (''[*]'', drop 2 r)
        else
          (let ds = takeWhile is_digit r; rest = dropWhile is_digit r
           in if ds \<noteq> [] \<and> has_prefix rest '']'' then Some (CHR ''['' # ds @ '']'', tl rest) else None))"

text \<open>One segment of a path after its dot, and a whole path from its dollar sign on.\<close>

definition segment_here :: "string \<Rightarrow> (string \<times> string) option" where
  "segment_here s =
     (case s of
        [] \<Rightarrow> None
      | c # r \<Rightarrow>
        if \<not> word_start c then None
        else
          (let name = c # takeWhile word_char r; rest = dropWhile word_char r
           in case bracket_here rest of None \<Rightarrow> Some (name, rest) | Some (b, rest') \<Rightarrow> Some (name @ b, rest')))"

lemma bracket_here_split: "bracket_here s = Some (b, r) \<Longrightarrow> s = b @ r"
proof -
  have star: "drop 2 t = t'" "t = ''*]'' @ drop 2 t" if "t = ''*]'' @ t'" for t t' using that by simp_all
  show "bracket_here s = Some (b, r) \<Longrightarrow> s = b @ r"
    by (auto simp: bracket_here_def Let_def split: list.splits if_splits elim!: has_prefixE dest: sym [of "dropWhile _ _"])
      (metis append_Cons append_Nil takeWhile_dropWhile_id list.sel(3))
qed

lemma segment_here_split: "segment_here s = Some (seg, r) \<Longrightarrow> s = seg @ r \<and> seg \<noteq> []"
  by (auto simp: segment_here_def Let_def split: list.splits if_splits option.splits dest!: bracket_here_split)
    (metis append_assoc takeWhile_dropWhile_id)

function segments_here :: "string \<Rightarrow> string list \<times> string" where
  "segments_here s =
     (case s of
        [] \<Rightarrow> ([], [])
      | c # r \<Rightarrow>
        if c \<noteq> CHR ''.'' then ([], s)
        else
          (case segment_here r of
             None \<Rightarrow> ([], s)
           | Some (seg, rest) \<Rightarrow> (case segments_here rest of (segs, rest') \<Rightarrow> (seg # segs, rest'))))"
  by pat_completeness auto
termination by (relation "measure length") (auto dest: segment_here_split)

declare segments_here.simps [simp del]

lemma segments_here_split: "segments_here s = (segs, rest) \<Longrightarrow> s = concat (map (Cons (CHR ''.'')) segs) @ rest"
proof (induction s arbitrary: segs rest rule: segments_here.induct)
  case (1 s)
  show ?case
  proof (cases "\<exists>r seg rest'. s = CHR ''.'' # r \<and> segment_here r = Some (seg, rest')")
    case True
    then obtain r seg rest' where s: "s = CHR ''.'' # r" "segment_here r = Some (seg, rest')" by blast
    moreover obtain segs' rest'' where t: "segments_here rest' = (segs', rest'')" by fastforce
    ultimately have "segs = seg # segs'" "rest = rest''" using 1(2) by (simp_all add: segments_here.simps [of "CHR ''.'' # r"])
    moreover have "rest' = concat (map (Cons (CHR ''.'')) segs') @ rest''" using 1(1) s t by blast
    ultimately show ?thesis using s segment_here_split [OF s(2)] by simp
  next
    case False
    then have "segs = [] \<and> rest = s" using 1(2) by (auto simp: segments_here.simps [of s] split: list.splits if_splits option.splits)
    then show ?thesis by simp
  qed
qed

lemma segments_here_length: "length (snd (segments_here s)) \<le> length s"
  using segments_here_split [of s "fst (segments_here s)" "snd (segments_here s)"] by (metis le_add2 length_append prod.collapse)

text \<open>Every path in the text of an expression, without the leading dollar sign and dot.\<close>

function jsonPaths :: "string \<Rightarrow> string list" where
  "jsonPaths s =
     (case s of
        [] \<Rightarrow> []
      | c # r \<Rightarrow>
        if c = CHR ''$'' \<and> fst (segments_here r) \<noteq> [] then join_str ''.'' (fst (segments_here r)) # jsonPaths (snd (segments_here r))
        else jsonPaths r)"
  by pat_completeness auto
termination by (relation "measure length") (auto simp: less_Suc_eq_le segments_here_length)

declare jsonPaths.simps [simp del]

lemma expression_here_length: "expression_here s = Some (b, r) \<Longrightarrow> length r < length s"
proof -
  assume e: "expression_here s = Some (b, r)"
  then have "r = drop 2 (dropWhile (\<lambda>c. c \<noteq> CHR ''}'') (drop 2 s))" "s \<noteq> []"
    by (auto simp: expression_here_def Let_def has_prefix_def split: if_splits)
  then show ?thesis using length_dropWhile_le [of "\<lambda>c. c \<noteq> CHR ''}''" "drop 2 s"] by (cases s) auto
qed

function all_expressions :: "string \<Rightarrow> string list" where
  "all_expressions s =
     (case s of
        [] \<Rightarrow> []
      | c # r \<Rightarrow>
        (case expression_here s of
           Some (body, rest) \<Rightarrow> body # all_expressions rest
         | None \<Rightarrow> all_expressions r))"
  by pat_completeness auto
termination by (relation "measure length") (auto dest: expression_here_length)

declare all_expressions.simps [simp del]

text \<open>A string that is one expression and nothing else.\<close>

definition whole_expression :: "string \<Rightarrow> string option" where
  "whole_expression s = (case expression_here s of Some (body, rest) \<Rightarrow> if rest = [] then Some body else None | None \<Rightarrow> None)"

text \<open>The key of a segment and whether it has an index.\<close>

definition segmentRe :: "string \<Rightarrow> (string \<times> bool) option" where
  "segmentRe raw =
     (case raw of
        [] \<Rightarrow> None
      | c # r \<Rightarrow>
        if \<not> word_start c then None
        else if dropWhile word_char r = [] then Some (raw, False)
        else
          (case bracket_here (dropWhile word_char r) of
             Some (_, rest) \<Rightarrow> if rest = [] then Some (c # takeWhile word_char r, True) else None
           | None \<Rightarrow> None))"

fun collectExpressions :: "json \<Rightarrow> string list" where
  "collectExpressions (JStr x) = concat (map jsonPaths (all_expressions x))"
| "collectExpressions (JObj x) = concat (map (\<lambda>m. collectExpressions (snd m)) x)"
| "collectExpressions (JArr x) = concat (map collectExpressions x)"
| "collectExpressions v = []"

definition extractPathsFromConfig :: "(string list \<Rightarrow> string list) \<Rightarrow> json \<Rightarrow> string list" where
  "extractPathsFromConfig order v = order (remdups (collectExpressions v))"

definition pathsUnderFields :: "string list \<Rightarrow> string list \<Rightarrow> string list" where
  "pathsUnderFields paths flds =
     filter (\<lambda>p. let first = cut_before (CHR ''.'') p
             in (case segmentRe first of Some (key, _) \<Rightarrow> key | None \<Rightarrow> first) \<in> set flds) paths"

definition placeholderFor :: "string \<Rightarrow> string" where
  "placeholderFor path =
     (let leaf = last (split_char (CHR ''.'') path)
      in ''<'' @ (case segmentRe leaf of Some (key, _) \<Rightarrow> key | None \<Rightarrow> leaf) @ ''>'')"

subsection \<open>Reading and writing a path\<close>

text \<open>The object and the non-empty list a value is, or a new one.\<close>

definition object_of :: "json \<Rightarrow> json gomap" where
  "object_of v = (case v of JObj m \<Rightarrow> m | _ \<Rightarrow> [])"

definition array_of :: "json \<Rightarrow> json list" where
  "array_of v = (case v of JArr (x # xs) \<Rightarrow> x # xs | _ \<Rightarrow> [JObj []])"

text \<open>The rest of the loop of \<open>setPath\<close> from an object on. A segment that is not readable ends the walk; what was created on the way stays.\<close>

fun set_parts :: "string list \<Rightarrow> json \<Rightarrow> json gomap \<Rightarrow> json gomap" where
  "set_parts [] v obj = obj"
| "set_parts (raw # rest) v obj =
     (case segmentRe raw of
        None \<Rightarrow> obj
      | Some (key, isArray) \<Rightarrow>
        if \<not> isArray then
          if rest = [] then (if field obj key = JNull then set_field key v obj else obj)
          else set_field key (JObj (set_parts rest v (object_of (field obj key)))) obj
        else
          (let arr = array_of (field obj key)
           in set_field key
                (if rest = [] then JArr arr
                 else JArr (JObj (set_parts rest v (object_of (hd arr))) # tl arr)) obj))"

definition setPath :: "string \<Rightarrow> json \<Rightarrow> json gomap \<Rightarrow> json gomap" where
  "setPath path v dst = set_parts (split_char (CHR ''.'') path) v dst"

text \<open>\<open>walkExample\<close> of \<open>schema_required.go\<close> reads a path: null stands for nothing there.\<close>

fun walk_parts :: "string list \<Rightarrow> json \<Rightarrow> json" where
  "walk_parts [] cur = cur"
| "walk_parts (raw # rest) cur =
     (case (segmentRe raw, cur) of
        (Some (key, isArray), JObj obj) \<Rightarrow>
          if \<not> isArray then (if map_of obj key = None then JNull else walk_parts rest (field obj key))
          else (case field obj key of JArr (x # xs) \<Rightarrow> walk_parts rest x | _ \<Rightarrow> JNull)
      | _ \<Rightarrow> JNull)"

definition walkExample :: "json gomap \<Rightarrow> string \<Rightarrow> json" where
  "walkExample example path = walk_parts (split_char (CHR ''.'') path) (JObj example)"

subsection \<open>Schemas\<close>

text \<open>Decoding into a map: \<open>null\<close> leaves the map nil.\<close>

definition decode_map :: "json_codec \<Rightarrow> bytes \<Rightarrow> json gomap option" where
  "decode_map codec b = (case jc_decode codec b of Some (JObj m) \<Rightarrow> Some m | Some JNull \<Rightarrow> Some [] | _ \<Rightarrow> None)"

definition asSlice :: "json \<Rightarrow> json list" where
  "asSlice v = (case v of JArr s \<Rightarrow> s | _ \<Rightarrow> [])"

definition verifiable_type :: "json gomap \<Rightarrow> bool" where
  "verifiable_type def = (GetStr (field def ''type'') \<noteq> [] \<and> GetStr (field def ''type'') \<noteq> ''object'')"

definition shapeless_def :: "json \<Rightarrow> string option" where
  "shapeless_def raw =
     (case raw of
        JObj def \<Rightarrow>
          (let path = GetStr (field def ''path''); fld = trim_prefix path ''$.''
           in if \<not> has_prefix path ''$.'' \<or> CHR ''.'' \<in> set fld \<or> CHR ''['' \<in> set fld then None
              else if GetBool (field def ''configurable'') then Some fld
              else if field def ''properties'' \<noteq> JNull \<or> field def ''items'' \<noteq> JNull \<or> field def ''additionalProperties'' \<noteq> JNull then None
              else if verifiable_type def then None
              else Some fld)
      | _ \<Rightarrow> None)"

definition shapeless_prop :: "string \<times> json \<Rightarrow> string option" where
  "shapeless_prop m =
     (case snd m of
        JObj prop \<Rightarrow>
          if field prop ''$ref'' \<noteq> JNull \<or> field prop ''properties'' \<noteq> JNull \<or> field prop ''items'' \<noteq> JNull \<or>
             field prop ''additionalProperties'' \<noteq> JNull \<or> field prop ''enum'' \<noteq> JNull then None
          else if verifiable_type prop then None
          else Some (fst m)
      | _ \<Rightarrow> None)"

definition root_props :: "json \<Rightarrow> json gomap" where
  "root_props raw =
     (case raw of JObj def \<Rightarrow> if GetStr (field def ''path'') \<noteq> ''$'' then [] else object_of (field def ''properties'') | _ \<Rightarrow> [])"

definition shapelessFieldsIn :: "json_codec \<Rightarrow> bytes \<Rightarrow> string list" where
  "shapelessFieldsIn codec schemaBytes =
     (if schemaBytes = [] then []
      else
        (case decode_map codec schemaBytes of
           None \<Rightarrow> []
         | Some root \<Rightarrow>
           (let defs = object_of (field root ''$defs'')
            in fold (\<lambda>f out. if f \<in> set out then out else out @ [f])
                 (List.map_filter shapeless_prop (concat (map (\<lambda>d. root_props (snd d)) defs)))
                 (List.map_filter (\<lambda>d. shapeless_def (snd d)) defs))))"

text \<open>One reference into the definitions. \<open>resolveSchemaNode\<close> keeps a node whose reference leads nowhere, \<open>deref\<close> drops it.\<close>

definition resolveSchemaNode :: "json gomap \<Rightarrow> json gomap \<Rightarrow> json gomap" where
  "resolveSchemaNode root node =
     (let ref = GetStr (field node ''$ref'')
      in if \<not> has_prefix ref ''#/$defs/'' then node
         else (case field (object_of (field root ''$defs'')) (trim_prefix ref ''#/$defs/'') of JObj target \<Rightarrow> target | _ \<Rightarrow> node))"

definition deref_node :: "json gomap \<Rightarrow> json gomap \<Rightarrow> json gomap option" where
  "deref_node node defs =
     (let ref = GetStr (field node ''$ref''); name = trim_prefix ref ''#/$defs/''
      in if ref = [] then Some node else if name = ref then None else json_object (field defs name))"

definition typed_leaf :: "string \<Rightarrow> json gomap \<Rightarrow> json" where
  "typed_leaf leaf node =
     (let t = GetStr (field node ''type'')
      in if t = ''integer'' \<or> t = ''number'' then JNum ''0''
         else if t = ''boolean'' then JBool False
         else if t = ''array'' then JArr []
         else if t = ''object'' then JObj []
         else JStr (''<'' @ leaf @ ''>''))"

fun typed_walk :: "json gomap \<Rightarrow> json gomap \<Rightarrow> string list \<Rightarrow> json option" where
  "typed_walk defs cur [] = None"
| "typed_walk defs cur (raw # rest) =
     (case segmentRe raw of
        None \<Rightarrow> None
      | Some (key, isArray) \<Rightarrow>
        (case field (object_of (field cur ''properties'')) key of
           JObj prop \<Rightarrow>
             (case deref_node prop defs of
                None \<Rightarrow> None
              | Some node \<Rightarrow>
                (case (if isArray then (case field node ''items'' of JObj items \<Rightarrow> deref_node items defs | _ \<Rightarrow> None) else Some node) of
                   None \<Rightarrow> None
                 | Some node' \<Rightarrow> if rest = [] then Some (typed_leaf key node') else typed_walk defs node' rest))
         | _ \<Rightarrow> None))"

definition root_def :: "json gomap \<Rightarrow> json gomap option" where
  "root_def defs =
     (case filter (\<lambda>d. case snd d of JObj def \<Rightarrow> GetStr (field def ''path'') = ''$'' | _ \<Rightarrow> False) defs of
        [] \<Rightarrow> None
      | d # _ \<Rightarrow> json_object (snd d))"

definition typedPlaceholder :: "json_codec \<Rightarrow> bytes \<Rightarrow> string \<Rightarrow> json option" where
  "typedPlaceholder codec schemaBytes path =
     (if schemaBytes = [] then None
      else
        (case decode_map codec schemaBytes of
           None \<Rightarrow> None
         | Some root \<Rightarrow>
           (let defs = object_of (field root ''$defs'')
            in case (case root_def defs of Some def \<Rightarrow> Some def | None \<Rightarrow> deref_node root defs) of
                 None \<Rightarrow> None
               | Some cur \<Rightarrow> typed_walk defs cur (split_char (CHR ''.'') path))))"

subsection \<open>Placeholders\<close>

text \<open>The scalar members of an object; \<open>placeholder\<close> is the recursive call for one of them.\<close>

definition objectPlaceholder :: "(json gomap \<Rightarrow> string \<Rightarrow> json option) \<Rightarrow> json gomap \<Rightarrow> json gomap \<Rightarrow> json gomap" where
  "objectPlaceholder placeholder root node =
     List.map_filter
       (\<lambda>(k, raw). case raw of
          JObj child0 \<Rightarrow>
            (let child = resolveSchemaNode root child0
             in if asSlice (field child ''enum'') = [] \<and> field child ''const'' = JNull \<and>
                   GetStr (field child ''type'') \<notin> {''string'', ''integer'', ''number'', ''boolean''} then None
                else map_option (Pair k) (placeholder child (''<'' @ k @ ''>'')))
        | _ \<Rightarrow> None) (object_of (field node ''properties''))"

definition declared_type :: "json gomap \<Rightarrow> string" where
  "declared_type node =
     (let t = GetStr (field node ''type'')
      in if t \<noteq> [] then t
         else if field node ''items'' \<noteq> JNull then ''array''
         else if field node ''properties'' \<noteq> JNull then ''object''
         else [])"

function placeholderForSchema :: "json gomap \<Rightarrow> json gomap option \<Rightarrow> string \<Rightarrow> nat \<Rightarrow> json option" where
  "placeholderForSchema root node0 marker depth =
     (case map_option (resolveSchemaNode root) node0 of
        None \<Rightarrow> None
      | Some node \<Rightarrow>
        if 5 < depth then None
        else if asSlice (field node ''enum'') \<noteq> [] then Some (hd (asSlice (field node ''enum'')))
        else if field node ''const'' \<noteq> JNull then Some (field node ''const'')
        else
          (let t = declared_type node
           in if t = ''string'' then Some (JStr marker)
              else if t = ''integer'' \<or> t = ''number'' then Some (JNum ''0'')
              else if t = ''boolean'' then Some (JBool False)
              else if t = ''array'' then
                Some (JArr [case placeholderForSchema root (json_object (field node ''items'')) marker (depth + 1) of Some elem \<Rightarrow> elem | None \<Rightarrow> JObj []])
              else if t = ''object'' then
                Some (JObj (objectPlaceholder (\<lambda>child m. placeholderForSchema root (Some child) m (depth + 1)) root node))
              else None))"
  by pat_completeness auto
termination by (relation "measure (\<lambda>(_, _, _, depth). 6 - depth)") auto

declare placeholderForSchema.simps [simp del]

text \<open>The walk of a configuration along a schema: \<open>leaf\<close> looks at a string of the configuration with the schema of its place.\<close>

fun schema_walk :: "json gomap \<Rightarrow> (string \<Rightarrow> json gomap \<Rightarrow> json gomap) \<Rightarrow> json \<Rightarrow> json gomap option \<Rightarrow> json gomap" where
  "schema_walk root leaf (JObj c) schema0 =
     concat (map (\<lambda>m. schema_walk root leaf (snd m)
       (case map_option (resolveSchemaNode root) schema0 of
          None \<Rightarrow> None
        | Some schema \<Rightarrow> json_object (field (object_of (field schema ''properties'')) (fst m)))) c)"
| "schema_walk root leaf (JArr c) schema0 =
     concat (map (\<lambda>v. schema_walk root leaf v
       (case map_option (resolveSchemaNode root) schema0 of None \<Rightarrow> None | Some schema \<Rightarrow> json_object (field schema ''items''))) c)"
| "schema_walk root leaf (JStr c) schema0 = (case map_option (resolveSchemaNode root) schema0 of None \<Rightarrow> [] | Some schema \<Rightarrow> leaf c schema)"
| "schema_walk root leaf v schema0 = []"

text \<open>The map such a walk fills: a later write of a path replaces an earlier one.\<close>

definition filled :: "json gomap \<Rightarrow> json gomap" where
  "filled writes = fold (\<lambda>(p, v). AList.update p v) writes []"

definition whole_paths :: "string \<Rightarrow> string list" where
  "whole_paths c = (case whole_expression c of None \<Rightarrow> [] | Some body \<Rightarrow> jsonPaths body)"

definition declared_leaf :: "json gomap \<Rightarrow> string \<Rightarrow> json gomap \<Rightarrow> json gomap" where
  "declared_leaf root c schema =
     List.map_filter (\<lambda>path. map_option (Pair path) (placeholderForSchema root (Some schema) (placeholderFor path) 0)) (whole_paths c)"

definition targetSchemaPlaceholders :: "json_codec \<Rightarrow> json gomap \<Rightarrow> bytes \<Rightarrow> json gomap" where
  "targetSchemaPlaceholders codec config targetSchema =
     (if targetSchema = [] then []
      else
        (case decode_map codec targetSchema of
           None \<Rightarrow> []
         | Some root \<Rightarrow> filled (schema_walk root (declared_leaf root) (JObj config) (Some root))))"

definition constrained_value :: "json gomap \<Rightarrow> json option" where
  "constrained_value schema =
     (let t = GetStr (field schema ''type'')
      in if asSlice (field schema ''enum'') \<noteq> [] then Some (hd (asSlice (field schema ''enum'')))
         else if field schema ''const'' \<noteq> JNull then Some (field schema ''const'')
         else if t = ''integer'' \<or> t = ''number'' then Some (JNum ''0'')
         else if t = ''boolean'' then Some (JBool False)
         else None)"

definition constrained_leaf :: "string \<Rightarrow> json gomap \<Rightarrow> json gomap" where
  "constrained_leaf c schema =
     (case constrained_value schema of None \<Rightarrow> [] | Some v \<Rightarrow> map (\<lambda>path. (path, v)) (whole_paths c))"

definition targetConstrainedValues :: "json_codec \<Rightarrow> json gomap \<Rightarrow> bytes \<Rightarrow> json gomap" where
  "targetConstrainedValues codec config targetSchema =
     (if targetSchema = [] then []
      else
        (case decode_map codec targetSchema of
           None \<Rightarrow> []
         | Some root \<Rightarrow> filled (schema_walk root constrained_leaf (JObj config) (Some root))))"

fun example_walk :: "json \<Rightarrow> json \<Rightarrow> json gomap" where
  "example_walk (JObj c) ex = concat (map (\<lambda>m. example_walk (snd m) (field (object_of ex) (fst m))) c)"
| "example_walk (JArr c) ex = concat (map (\<lambda>v. example_walk v (case ex of JArr (x # xs) \<Rightarrow> x | _ \<Rightarrow> JNull)) c)"
| "example_walk (JStr c) ex = (if ex = JNull then [] else map (\<lambda>path. (path, ex)) (whole_paths c))"
| "example_walk v ex = []"

definition targetExampleTypes :: "json gomap \<Rightarrow> json gomap \<Rightarrow> json gomap" where
  "targetExampleTypes config toSettings = filled (example_walk (JObj config) (JObj toSettings))"

definition shapelessPlaceholder :: "string \<Rightarrow> json \<Rightarrow> json" where
  "shapelessPlaceholder path targetExample =
     (case targetExample of
        JArr _ \<Rightarrow> JArr []
      | JObj _ \<Rightarrow> JObj []
      | JNum _ \<Rightarrow> JNum ''0''
      | JBool _ \<Rightarrow> JBool False
      | _ \<Rightarrow> JStr (placeholderFor path))"

subsection \<open>The sample of a port\<close>

text \<open>What one edge writes: the value of each path it refers to. The build pass has no constrained values.\<close>

definition edge_value ::
  "json_codec \<Rightarrow> json gomap \<Rightarrow> string list \<Rightarrow> json gomap \<Rightarrow> json gomap \<Rightarrow> bytes \<Rightarrow> string \<Rightarrow> json option" where
  "edge_value codec constrained shapelessPaths declared targetTypes schemaBytes p =
     (case map_of constrained p of
        Some v \<Rightarrow> Some v
      | None \<Rightarrow>
        if p \<in> set shapelessPaths then
          (case map_of declared p of Some v \<Rightarrow> Some v | None \<Rightarrow> Some (shapelessPlaceholder p (field targetTypes p)))
        else typedPlaceholder codec schemaBytes p)"

definition edge_writes ::
  "json_codec \<Rightarrow> (string list \<Rightarrow> string list) \<Rightarrow> bool \<Rightarrow> bytes \<Rightarrow> json gomap \<Rightarrow> json gomap \<Rightarrow> bytes \<Rightarrow> (string \<times> json) list" where
  "edge_writes codec order live schemaBytes config toSettings toSchema =
     (let shapeless = shapelessFieldsIn codec schemaBytes; paths = extractPathsFromConfig order (JObj config)
      in if shapeless = [] \<or> pathsUnderFields paths shapeless = [] then []
         else
           List.map_filter
             (\<lambda>p. map_option (Pair p)
                (edge_value codec (if live then targetConstrainedValues codec config toSchema else []) (pathsUnderFields paths shapeless)
                  (targetSchemaPlaceholders codec config toSchema) (targetExampleTypes config toSettings) schemaBytes p)) paths)"

type_synonym samples = "json gomap gomap"

definition write_sample :: "string \<Rightarrow> (string \<times> json) list \<Rightarrow> samples \<Rightarrow> samples" where
  "write_sample port writes portData =
     AList.update port (fold (\<lambda>(p, v). setPath p v) writes (case map_of portData port of None \<Rightarrow> [] | Some mock \<Rightarrow> mock)) portData"

subsection \<open>The two passes\<close>

record port_detail =
  pd_Name :: string
  pd_Schema :: bytes

text \<open>Of a component of the catalogue, its name and its ports.\<close>

record component_info =
  ci_Name :: string
  ci_InputPortDetails :: "port_detail list"
  ci_OutputPortDetails :: "port_detail list"

definition portSchemaBytes :: "component_info option \<Rightarrow> string \<Rightarrow> bool \<Rightarrow> bytes" where
  "portSchemaBytes component portName isInput =
     (case component of
        None \<Rightarrow> []
      | Some ci \<Rightarrow>
        (case find (\<lambda>p. pd_Name p = portName) (if isInput then ci_InputPortDetails ci else ci_OutputPortDetails ci) of
           None \<Rightarrow> []
         | Some p \<Rightarrow> pd_Schema p))"

record scaffold_edge =
  se_FromAlias :: string
  se_FromPort :: string
  se_Configuration :: "json gomap"
  se_ToSettings :: "json gomap"
  se_ToSchema :: bytes

record 's scenario_manager =
  sm_ListScenarios :: "string \<Rightarrow> 's \<Rightarrow> go_error + (string \<times> string) list"
  sm_CreateEmptyScenario :: "string \<Rightarrow> string \<Rightarrow> 's \<Rightarrow> 's \<times> (go_error + string)"
  sm_UpdateScenarioPort :: "string \<Rightarrow> string \<Rightarrow> string \<Rightarrow> bytes \<Rightarrow> 's \<Rightarrow> 's \<times> go_error option"

definition ScaffoldScenarioName :: string where "ScaffoldScenarioName = ''auto-scaffold''"

text \<open>The scenario both passes write to: the first one of that name, or a new one.\<close>

definition scaffold_resource :: "string \<Rightarrow> 's scenario_manager \<Rightarrow> string \<Rightarrow> 's \<Rightarrow> 's \<times> (string + string)" where
  "scaffold_resource note M projectName st =
     (case sm_ListScenarios M projectName st of
        Inl err \<Rightarrow> (st, Inl (''scaffold: list scenarios failed ('' @ err_msg err @ '')'' @ note))
      | Inr scenarios \<Rightarrow>
        (case find (\<lambda>sc. fst sc = ScaffoldScenarioName) scenarios of
           Some (_, resource) \<Rightarrow> if resource \<noteq> [] then (st, Inr resource)
             else map_prod (\<lambda>s. s) (map_sum (\<lambda>err. ''scaffold: create scenario failed ('' @ err_msg err @ '')'') (\<lambda>r. r))
               (sm_CreateEmptyScenario M projectName ScaffoldScenarioName st)
         | None \<Rightarrow> map_prod (\<lambda>s. s) (map_sum (\<lambda>err. ''scaffold: create scenario failed ('' @ err_msg err @ '')'') (\<lambda>r. r))
             (sm_CreateEmptyScenario M projectName ScaffoldScenarioName st)))"

text \<open>Writing the samples: the number of ports written and the warnings.\<close>

fun write_ports :: "(json \<Rightarrow> go_error + bytes) \<Rightarrow> 's scenario_manager \<Rightarrow> string \<Rightarrow> string \<Rightarrow> samples \<Rightarrow> 's \<Rightarrow> 's \<times> nat \<times> string list" where
  "write_ports marshal M projectName resource [] st = (st, 0, [])"
| "write_ports marshal M projectName resource ((port, mock) # rest) st =
     (case marshal (JObj mock) of
        Inl err \<Rightarrow>
          (case write_ports marshal M projectName resource rest st of
             (st', n, ws) \<Rightarrow> (st', n, (''scaffold: marshal '' @ port @ '' failed ('' @ err_msg err @ '')'') # ws))
      | Inr data \<Rightarrow>
        (case sm_UpdateScenarioPort M projectName resource port data st of
           (st1, Some err) \<Rightarrow>
             (case write_ports marshal M projectName resource rest st1 of
                (st', n, ws) \<Rightarrow> (st', n, (''scaffold: write '' @ port @ '' failed ('' @ err_msg err @ '')'') # ws))
         | (st1, None) \<Rightarrow> (case write_ports marshal M projectName resource rest st1 of (st', n, ws) \<Rightarrow> (st', Suc n, ws))))"

definition build_sample ::
  "json_codec \<Rightarrow> (string list \<Rightarrow> string list) \<Rightarrow> string gomap \<Rightarrow> component_info gomap \<Rightarrow> scaffold_edge \<Rightarrow> samples \<Rightarrow> samples" where
  "build_sample codec order createdNodes componentByAlias e portData =
     (let writes = edge_writes codec order False (portSchemaBytes (map_of componentByAlias (se_FromAlias e)) (se_FromPort e) False)
                     (se_Configuration e) (se_ToSettings e) (se_ToSchema e)
      in case map_of createdNodes (se_FromAlias e) of
           None \<Rightarrow> portData
         | Some nodeID \<Rightarrow>
           if nodeID = [] \<or> writes = [] then portData else write_sample (nodeID @ '':'' @ se_FromPort e) writes portData)"

definition scaffoldScenarios ::
  "(json \<Rightarrow> go_error + bytes) \<Rightarrow> json_codec \<Rightarrow> (string list \<Rightarrow> string list) \<Rightarrow> 's scenario_manager option \<Rightarrow> string \<Rightarrow> string gomap \<Rightarrow>
    component_info gomap \<Rightarrow> scaffold_edge list \<Rightarrow> 's \<Rightarrow> 's \<times> string list" where
  "scaffoldScenarios marshal codec order manager projectName createdNodes componentByAlias edges st =
     (case manager of
        None \<Rightarrow> (st, [])
      | Some M \<Rightarrow>
        if projectName = [] then (st, [])
        else
          (let portData = fold (build_sample codec order createdNodes componentByAlias) edges []
           in if portData = [] then (st, [])
              else
                (case scaffold_resource ('' '' @ emdash @ '' skipping auto-scaffold'') M projectName st of
                   (st1, Inl warning) \<Rightarrow> (st1, [warning])
                 | (st1, Inr resource) \<Rightarrow>
                   (case write_ports marshal M projectName resource portData st1 of (st2, _, warnings) \<Rightarrow> (st2, warnings)))))"

text \<open>What the live pass reads from the cluster: the schema of every published port and the settings of every node.\<close>

definition schemas_by_port :: "tiny_node gomap \<Rightarrow> bytes gomap" where
  "schemas_by_port nodes =
     fold (\<lambda>(name, node). fold (\<lambda>ps m. case ps_Schema ps of
         Some schema \<Rightarrow> if schema \<noteq> [] then AList.update (name @ '':'' @ ps_Name ps) schema m else m
       | None \<Rightarrow> m) (ns_Ports (tn_Status node))) nodes []"

definition settings_by_node :: "json_codec \<Rightarrow> tiny_node gomap \<Rightarrow> json gomap gomap" where
  "settings_by_node codec nodes =
     fold (\<lambda>(name, node). fold (\<lambda>ps m. case ps_Configuration ps of
         Some conf \<Rightarrow>
           if ps_Name ps = SettingsPort \<and> conf \<noteq> [] then
             (case decode_map codec conf of Some settings \<Rightarrow> AList.update name settings m | None \<Rightarrow> m)
           else m
       | None \<Rightarrow> m) (ns_Ports (tn_Status node))) nodes []"

definition read_map :: "'v list gomap \<Rightarrow> string \<Rightarrow> 'v list" where
  "read_map m k = (case map_of m k of None \<Rightarrow> [] | Some v \<Rightarrow> v)"

definition edge_configuration :: "json_codec \<Rightarrow> tiny_node \<Rightarrow> string \<Rightarrow> string \<Rightarrow> json gomap" where
  "edge_configuration codec targetNode sourcePort targetPort =
     (case find (\<lambda>pc. pc_From pc = sourcePort \<and> pc_Port pc = targetPort \<and> pc_Configuration pc \<noteq> []) (tn_Ports targetNode) of
        None \<Rightarrow> []
      | Some pc \<Rightarrow> (case decode_map codec (pc_Configuration pc) of Some config \<Rightarrow> config | None \<Rightarrow> []))"

definition live_writes ::
  "json_codec \<Rightarrow> (string list \<Rightarrow> string list) \<Rightarrow> tiny_node gomap \<Rightarrow> string \<Rightarrow> tiny_edge \<Rightarrow> (string \<times> json) list" where
  "live_writes codec order nodes sourceName e =
     (let sourcePort = sourceName @ '':'' @ ed_Port e; (targetName, targetPort) = ParseFullPortName (ed_To e)
      in case map_of nodes targetName of
           None \<Rightarrow> []
         | Some targetNode \<Rightarrow>
           (let config = edge_configuration codec targetNode sourcePort targetPort
            in if config = [] then []
               else edge_writes codec order True (read_map (schemas_by_port nodes) sourcePort) config
                      (read_map (settings_by_node codec nodes) targetName) (read_map (schemas_by_port nodes) (ed_To e))))"

definition live_sample :: "json_codec \<Rightarrow> (string list \<Rightarrow> string list) \<Rightarrow> tiny_node gomap \<Rightarrow> string \<times> tiny_edge \<Rightarrow> samples \<Rightarrow> samples" where
  "live_sample codec order nodes se portData =
     (let writes = live_writes codec order nodes (fst se) (snd se)
      in if writes = [] then portData else write_sample (fst se @ '':'' @ ed_Port (snd se)) writes portData)"

definition live_edges :: "tiny_node gomap \<Rightarrow> (string \<times> tiny_edge) list" where
  "live_edges nodes = concat (map (\<lambda>(name, node). map (Pair name) (tn_Edges node)) nodes)"

definition live_samples :: "json_codec \<Rightarrow> (string list \<Rightarrow> string list) \<Rightarrow> tiny_node gomap \<Rightarrow> samples" where
  "live_samples codec order nodes = fold (live_sample codec order nodes) (live_edges nodes) []"

definition ScaffoldLiveScenarios ::
  "(json \<Rightarrow> go_error + bytes) \<Rightarrow> json_codec \<Rightarrow> (string list \<Rightarrow> string list) \<Rightarrow> 's scenario_manager option \<Rightarrow>
    (string \<Rightarrow> go_error + tiny_node list) option \<Rightarrow> string \<Rightarrow> 's \<Rightarrow> 's \<times> nat \<times> string list" where
  "ScaffoldLiveScenarios marshal codec order manager reader projectName st =
     (case (manager, reader) of
        (Some M, Some listNodes) \<Rightarrow>
          if projectName = [] then (st, 0, [''scaffold: node reader or scenario manager not configured''])
          else
            (case listNodes projectName of
               Inl err \<Rightarrow> (st, 0, [''scaffold: list nodes failed ('' @ err_msg err @ '')''])
             | Inr nodeList \<Rightarrow>
               (let nodes = fold (\<lambda>n. AList.update (tn_Name n) n) nodeList []; portData = live_samples codec order nodes
                in if nodes = [] \<or> portData = [] then (st, 0, [])
                   else
                     (case scaffold_resource [] M projectName st of
                        (st1, Inl warning) \<Rightarrow> (st1, 0, [warning])
                      | (st1, Inr resource) \<Rightarrow> write_ports marshal M projectName resource (sort_key fst portData) st1)))
      | _ \<Rightarrow> (st, 0, [''scaffold: node reader or scenario manager not configured'']))"

subsection \<open>Paths found are readable\<close>

lemma bracket_here_self: "bracket_here s = Some (b, r) \<Longrightarrow> bracket_here b = Some (b, []) \<and> (\<exists>t. b = CHR ''['' # t)"
proof -
  assume m: "bracket_here s = Some (b, r)"
  then obtain t where s: "s = CHR ''['' # t" by (auto simp: bracket_here_def split: list.splits if_splits)
  show ?thesis
  proof (cases "has_prefix t ''*]''")
    case True
    then show ?thesis using m s by (auto simp: bracket_here_def has_prefix_def)
  next
    case False
    let ?ds = "takeWhile is_digit t"
    have ds: "?ds \<noteq> []" "b = CHR ''['' # ?ds @ '']''" using m s False by (auto simp: bracket_here_def Let_def split: if_splits)
    have d: "list_all is_digit ?ds" by (auto simp: list_all_iff dest: set_takeWhileD)
    have "hd ?ds \<noteq> CHR ''*''" using ds(1) d by (cases ?ds) (auto simp: is_digit_def)
    then have "\<not> has_prefix (?ds @ '']'') ''*]''" using ds(1) by (cases ?ds) (auto simp: has_prefix_def)
    moreover have "takeWhile is_digit (?ds @ '']'') = ?ds" "dropWhile is_digit (?ds @ '']'') = '']''"
      using d by (simp_all add: takeWhile_append dropWhile_append list_all_iff is_digit_def)
    moreover have "has_prefix '']'' '']''" by (simp add: has_prefix_def)
    ultimately show ?thesis using ds by (simp add: bracket_here_def Let_def)
  qed
qed

lemma bracket_here_chars: "bracket_here s = Some (b, r) \<Longrightarrow> CHR ''.'' \<notin> set b"
  by (auto simp: bracket_here_def Let_def is_digit_def split: list.splits if_splits dest!: set_takeWhileD)

lemma word_char_simps [simp]: "\<not> word_char (CHR ''.'')" "\<not> word_char (CHR ''['')"
  by (simp_all add: word_char_def is_alnum_def is_digit_def)

lemma segment_here_readable: "segment_here s = Some (seg, r) \<Longrightarrow> segmentRe seg \<noteq> None \<and> CHR ''.'' \<notin> set seg"
proof -
  assume m: "segment_here s = Some (seg, r)"
  then obtain c t where s: "s = c # t" "word_start c" by (auto simp: segment_here_def split: list.splits if_splits)
  have c: "c \<noteq> CHR ''.''" using s(2) by (auto simp: word_start_def)
  have w: "CHR ''.'' \<notin> set (takeWhile word_char t)" by (auto dest: set_takeWhileD)
  show ?thesis
  proof (cases "bracket_here (dropWhile word_char t)")
    case None
    then have "seg = c # takeWhile word_char t" using m s by (simp add: segment_here_def)
    moreover have "dropWhile word_char (takeWhile word_char t) = []" by (simp add: dropWhile_eq_Nil_conv) (auto dest: set_takeWhileD)
    ultimately show ?thesis using s c w by (simp add: segmentRe_def)
  next
    case (Some br)
    then obtain b r' where b: "bracket_here (dropWhile word_char t) = Some (b, r')" by (cases br) auto
    then have seg: "seg = c # takeWhile word_char t @ b" using m s by (simp add: segment_here_def)
    from bracket_here_self [OF b] obtain u where self: "bracket_here b = Some (b, [])" "b = CHR ''['' # u" by blast
    have "dropWhile word_char (takeWhile word_char t @ b) = b"
      by (subst dropWhile_append2) (auto simp: self(2) dest: set_takeWhileD)
    then show ?thesis using seg s c w self bracket_here_chars [OF b] by (simp add: segmentRe_def)
  qed
qed

lemma segments_here_readable: "seg \<in> set (fst (segments_here s)) \<Longrightarrow> segmentRe seg \<noteq> None \<and> CHR ''.'' \<notin> set seg"
proof (induction s rule: segments_here.induct)
  case (1 s)
  show ?case
  proof (cases "\<exists>r seg' rest. s = CHR ''.'' # r \<and> segment_here r = Some (seg', rest)")
    case True
    then obtain r seg' rest where s: "s = CHR ''.'' # r" "segment_here r = Some (seg', rest)" by blast
    then have "fst (segments_here s) = seg' # fst (segments_here rest)"
      by (simp add: segments_here.simps [of "CHR ''.'' # r"] split: prod.splits)
    then show ?thesis using 1(1) [OF s(1) _ s(2) refl] 1(2) segment_here_readable [OF s(2)] by auto
  next
    case False
    then have "fst (segments_here s) = []" by (auto simp: segments_here.simps [of s] split: list.splits if_splits option.splits)
    then show ?thesis using 1(2) by simp
  qed
qed

lemma split_join_dots: "segs \<noteq> [] \<Longrightarrow> \<forall>seg \<in> set segs. d \<notin> set seg \<Longrightarrow> split_char d (join_str [d] segs) = segs"
  by (induction "[d]" segs rule: join_str.induct) (auto simp: split_char_append_sep)

definition readable :: "string \<Rightarrow> bool" where
  "readable p \<longleftrightarrow> (\<forall>raw \<in> set (split_char (CHR ''.'') p). segmentRe raw \<noteq> None)"

lemma jsonPaths_readable: "p \<in> set (jsonPaths s) \<Longrightarrow> readable p"
proof (induction s rule: jsonPaths.induct)
  case (1 s)
  show ?case
  proof (cases s)
    case Nil
    then show ?thesis using 1(3) by (simp add: jsonPaths.simps)
  next
    case (Cons c r)
    let ?segs = "fst (segments_here r)"
    have here: "readable (join_str ''.'' ?segs)" if "?segs \<noteq> []"
      using that segments_here_readable [of _ r] by (auto simp: readable_def split_join_dots)
    show ?thesis
    proof (cases "c = CHR ''$'' \<and> ?segs \<noteq> []")
      case True
      then show ?thesis using 1(1) [OF Cons True] 1(3) here Cons by (subst (asm) (2) jsonPaths.simps) auto
    next
      case False
      then have "jsonPaths s = jsonPaths r" using Cons by (subst jsonPaths.simps) auto
      then show ?thesis using 1(2) [OF Cons False] 1(3) by simp
    qed
  qed
qed

lemma collectExpressions_readable: "p \<in> set (collectExpressions v) \<Longrightarrow> readable p"
  by (induction v rule: collectExpressions.induct) (auto dest: jsonPaths_readable)

subsection \<open>A written path is found\<close>

text \<open>A document without a list that begins with null, and a document without null.\<close>

fun solid :: "json \<Rightarrow> bool" where
  "solid (JArr vs) = ((vs \<noteq> [] \<longrightarrow> hd vs \<noteq> JNull) \<and> list_all solid vs)"
| "solid (JObj ms) = list_all (\<lambda>m. solid (snd m)) ms"
| "solid v = True"

fun null_free :: "json \<Rightarrow> bool" where
  "null_free (JArr vs) = list_all null_free vs"
| "null_free (JObj ms) = list_all (\<lambda>m. null_free (snd m)) ms"
| "null_free JNull = False"
| "null_free v = True"

lemma null_free_solid: "null_free v \<Longrightarrow> solid v \<and> v \<noteq> JNull"
proof (induction v rule: null_free.induct)
  case (1 vs)
  then show ?case by (cases vs) (auto simp: list_all_iff)
qed (auto simp: list_all_iff)

lemma field_member: "field ms k \<noteq> JNull \<Longrightarrow> (k, field ms k) \<in> set ms"
  by (auto simp: field_def split: option.splits dest: map_of_SomeD)

lemma solid_field: "solid (JObj ms) \<Longrightarrow> solid (field ms k)"
  using field_member [of ms k] by (cases "field ms k = JNull") (auto simp: list_all_iff)

lemma null_free_field: "null_free (JObj ms) \<Longrightarrow> field ms k \<noteq> JNull \<Longrightarrow> null_free (field ms k)"
  using field_member [of ms k] by (auto simp: list_all_iff)

lemma solid_set_field: "solid v \<Longrightarrow> solid (JObj ms) \<Longrightarrow> solid (JObj (set_field k v ms))"
  by (induction ms) (auto simp: set_field_def)

lemma solid_parts: "solid v \<Longrightarrow> solid (JObj (object_of v))" "solid v \<Longrightarrow> solid (JArr (array_of v))"
  by (auto simp: object_of_def array_of_def split: json.splits list.splits)

lemma array_of_not_Nil [simp]: "array_of v \<noteq> []"
  by (auto simp: array_of_def split: json.splits list.splits)

lemma solid_hd_tl: "solid (JArr (x # xs)) \<Longrightarrow> solid x \<and> x \<noteq> JNull \<and> list_all solid xs"
  by simp

lemma solid_set_parts: "solid v \<Longrightarrow> solid (JObj obj) \<Longrightarrow> solid (JObj (set_parts parts v obj))"
proof (induction parts v obj rule: set_parts.induct)
  case (2 raw rest v obj)
  show ?case
  proof (cases "segmentRe raw")
    case None
    then show ?thesis using 2(4) by simp
  next
    case (Some sg)
    obtain key isArray where sg: "segmentRe raw = Some (key, isArray)" using Some by (cases sg) auto
    have f: "solid (field obj key)" using 2(4) by (rule solid_field)
    obtain x xs where arr: "array_of (field obj key) = x # xs" by (cases "array_of (field obj key)") auto
    note xs = solid_hd_tl [OF solid_parts(2) [OF f, unfolded arr]]
    consider (leaf) "\<not> isArray" "rest = []" | (inner) "\<not> isArray" "rest \<noteq> []" | (last_arr) "isArray" "rest = []" | (arr) "isArray" "rest \<noteq> []" by blast
    then show ?thesis
    proof cases
      case leaf
      then show ?thesis using sg 2(3,4) solid_set_field [OF 2(3,4), of key] by simp
    next
      case inner
      have "solid (JObj (set_parts rest v (object_of (field obj key))))"
        using 2(1) [OF sg refl _ inner(2) 2(3) solid_parts(1) [OF f]] inner(1) by simp
      from solid_set_field [OF this 2(4), of key] show ?thesis using sg inner by simp
    next
      case last_arr
      from solid_set_field [OF solid_parts(2) [OF f] 2(4), of key] show ?thesis using sg last_arr by (simp add: Let_def)
    next
      case arr: arr
      have "solid (JObj (set_parts rest v (object_of x)))"
        using 2(2) [OF sg refl _ refl arr(2) 2(3)] solid_parts(1) [of x] xs arr(1) \<open>array_of (field obj key) = x # xs\<close> by simp
      then have "solid (JArr (JObj (set_parts rest v (object_of x)) # xs))" using xs by simp
      from solid_set_field [OF this 2(4), of key] show ?thesis using sg arr \<open>array_of (field obj key) = x # xs\<close> by (simp add: Let_def)
    qed
  qed
qed simp

lemma walk_parts_Cons:
  assumes "segmentRe raw = Some (key, isArray)"
  shows "walk_parts (raw # rest) (JObj obj) \<noteq> JNull \<longleftrightarrow>
    (if isArray then (\<exists>x xs. field obj key = JArr (x # xs) \<and> walk_parts rest x \<noteq> JNull)
     else field obj key \<noteq> JNull \<and> walk_parts rest (field obj key) \<noteq> JNull)"
proof -
  have "walk_parts rest JNull = JNull" by (cases rest) (auto split: option.splits)
  then show ?thesis using assms by (auto simp: field_def split: option.splits json.splits list.splits)
qed

declare walk_parts.simps(2) [simp del]

lemma walk_parts_Nil_obj [simp]: "walk_parts [] (JObj obj) \<noteq> JNull"
  by simp

lemma set_parts_found:
  "parts \<noteq> [] \<Longrightarrow> \<forall>raw \<in> set parts. segmentRe raw \<noteq> None \<Longrightarrow> v \<noteq> JNull \<Longrightarrow> solid (JObj obj) \<Longrightarrow>
     walk_parts parts (JObj (set_parts parts v obj)) \<noteq> JNull"
proof (induction parts arbitrary: obj)
  case (Cons raw rest)
  then obtain key isArray where sg: "segmentRe raw = Some (key, isArray)" by force
  have f: "solid (field obj key)" using Cons.prems(4) by (rule solid_field)
  obtain x xs where arr: "array_of (field obj key) = x # xs" by (cases "array_of (field obj key)") auto
  note xs = solid_hd_tl [OF solid_parts(2) [OF f, unfolded arr]]
  show ?case
  proof (cases "rest = []")
    case True
    then show ?thesis using sg arr xs Cons.prems(3) by (auto simp: walk_parts_Cons [OF sg] Let_def)
  next
    case False
    have i: "walk_parts rest (JObj (set_parts rest v o')) \<noteq> JNull" if "solid (JObj o')" for o'
      using Cons.IH [OF False _ Cons.prems(3) that] Cons.prems(2) by simp
    show ?thesis using sg arr False i [OF solid_parts(1) [OF f]] i [OF solid_parts(1), of x] xs
      by (auto simp: walk_parts_Cons [OF sg] Let_def)
  qed
qed simp

text \<open>Two paths are compatible when neither uses as a list what the other uses as an object.\<close>

fun compatible :: "string list \<Rightarrow> string list \<Rightarrow> bool" where
  "compatible (r # p) (s # q) =
     (case (segmentRe r, segmentRe s) of
        (Some (k, a), Some (l, b)) \<Rightarrow> k \<noteq> l \<or> (if a = b then compatible p q else (\<not> a \<and> p = []) \<or> (\<not> b \<and> q = []))
      | _ \<Rightarrow> True)"
| "compatible _ _ = True"

lemma walk_parts_object: "q \<noteq> [] \<Longrightarrow> walk_parts q v \<noteq> JNull \<Longrightarrow> v = JObj (object_of v)"
  by (cases q; cases v) (auto simp: object_of_def walk_parts.simps split: option.splits)

lemma set_parts_keeps:
  "compatible p q \<Longrightarrow> \<forall>raw \<in> set p. segmentRe raw \<noteq> None \<Longrightarrow> walk_parts q (JObj obj) \<noteq> JNull \<Longrightarrow>
     walk_parts q (JObj (set_parts p v obj)) \<noteq> JNull"
proof (induction p arbitrary: q obj)
  case (Cons raw p')
  show ?case
  proof (cases q)
    case Nil
    then show ?thesis by simp
  next
    case (Cons s q')
    obtain k a where p: "segmentRe raw = Some (k, a)" using Cons.prems(2) by force
    obtain l b where q: "segmentRe s = Some (l, b)" using Cons.prems(3) Cons by (cases "segmentRe s") (auto simp: walk_parts.simps)
    have ih: "compatible p' q' \<Longrightarrow> walk_parts q' w \<noteq> JNull \<Longrightarrow> q' \<noteq> [] \<Longrightarrow> walk_parts q' (JObj (set_parts p' v (object_of w))) \<noteq> JNull" for w
      using Cons.IH [of q' "object_of w"] Cons.prems(2) walk_parts_object [of q' w] by simp
    note w = Cons.prems(3) [unfolded Cons, simplified walk_parts_Cons [OF q]]
    show ?thesis
    proof (cases "k = l")
      case False
      then show ?thesis using w p unfolding Cons by (auto simp: walk_parts_Cons [OF q] Let_def split: if_splits)
    next
      case kl: True
      have c: "if a = b then compatible p' q' else (\<not> a \<and> p' = []) \<or> (\<not> b \<and> q' = [])"
        using Cons.prems(1) p q kl Cons by simp
      consider (flat) "\<not> a" "p' = []" | (objs) "\<not> a" "\<not> b" "p' \<noteq> []" | (arrs) "a" "b" | (wide) "a" "\<not> b" "q' = []"
        using c by (cases a; cases b) auto
      then show ?thesis
      proof cases
        case flat
        then show ?thesis using w p kl unfolding Cons by (auto simp: walk_parts_Cons [OF q] split: if_splits)
      next
        case objs
        then show ?thesis using w p kl c ih [of "field obj k"] unfolding Cons by (cases "q' = []") (auto simp: walk_parts_Cons [OF q] split: if_splits)
      next
        case arrs
        then obtain x xs where x: "field obj k = JArr (x # xs)" "walk_parts q' x \<noteq> JNull" using w kl by auto
        then have arr: "array_of (field obj k) = x # xs" by (simp add: array_of_def)
        show ?thesis using x arr arrs p kl c ih [of x] unfolding Cons
          by (cases "q' = []"; cases "p' = []") (auto simp: walk_parts_Cons [OF q] Let_def split: if_splits)
      next
        case wide
        then show ?thesis using p kl unfolding Cons by (auto simp: walk_parts_Cons [OF q] Let_def split: if_splits)
      qed
    qed
  qed
qed simp

definition compatible_paths :: "string \<Rightarrow> string \<Rightarrow> bool" where
  "compatible_paths p q \<longleftrightarrow> compatible (split_char (CHR ''.'') p) (split_char (CHR ''.'') q)"

lemma setPath_found: "readable p \<Longrightarrow> v \<noteq> JNull \<Longrightarrow> solid (JObj obj) \<Longrightarrow> walkExample (setPath p v obj) p \<noteq> JNull"
  unfolding walkExample_def setPath_def readable_def by (rule set_parts_found) auto

lemma setPath_keeps:
  "readable p \<Longrightarrow> compatible_paths p q \<Longrightarrow> walkExample obj q \<noteq> JNull \<Longrightarrow> walkExample (setPath p v obj) q \<noteq> JNull"
  unfolding walkExample_def setPath_def readable_def compatible_paths_def by (rule set_parts_keeps) auto

lemma writes_found:
  assumes "solid (JObj obj)" "\<forall>(p, v) \<in> set ws. readable p \<and> null_free v" "\<forall>(p, v) \<in> set ws. \<forall>q \<in> P. compatible_paths p q"
    "\<forall>q \<in> Q. walkExample obj q \<noteq> JNull" "Q \<subseteq> P" "fst ` set ws \<subseteq> P"
  shows "solid (JObj (fold (\<lambda>(p, v). setPath p v) ws obj)) \<and>
    (\<forall>q \<in> Q \<union> fst ` set ws. walkExample (fold (\<lambda>(p, v). setPath p v) ws obj) q \<noteq> JNull)"
  using assms
proof (induction ws arbitrary: obj Q)
  case (Cons w ws)
  obtain p v where w: "w = (p, v)" by fastforce
  have pv: "readable p" "null_free v" "v \<noteq> JNull" "solid v" using Cons.prems(2) null_free_solid [of v] w by auto
  have s: "solid (JObj (setPath p v obj))" unfolding setPath_def by (rule solid_set_parts [OF pv(4) Cons.prems(1)])
  have "\<forall>q \<in> insert p Q. walkExample (setPath p v obj) q \<noteq> JNull"
    using setPath_found [OF pv(1,3) Cons.prems(1)] setPath_keeps [OF pv(1)] Cons.prems(3,4,5) w by auto
  from Cons.IH [OF s _ _ this] Cons.prems(2,3,5,6) w show ?case by auto
qed simp

subsection \<open>No placeholder is null\<close>

lemma null_free_object_of: "null_free (JObj m) \<Longrightarrow> null_free (JObj (object_of (field m k)))"
  using null_free_field [of m k] by (cases "field m k") (auto simp: object_of_def)

lemma null_free_asSlice: "null_free (JObj m) \<Longrightarrow> list_all null_free (asSlice (field m k))"
  using null_free_field [of m k] by (cases "field m k") (auto simp: asSlice_def)

lemma null_free_json_object: "null_free (JObj m) \<Longrightarrow> json_object (field m k) = Some o' \<Longrightarrow> null_free (JObj o')"
  using null_free_field [of m k] by (cases "field m k") auto

lemma null_free_member: "null_free (JObj m) \<Longrightarrow> field m k = JObj o' \<Longrightarrow> null_free (JObj o')"
  using null_free_field [of m k] by simp

lemma null_free_empty: "null_free (JObj [])"
  by simp

lemma null_free_resolve: "null_free (JObj root) \<Longrightarrow> null_free (JObj node) \<Longrightarrow> null_free (JObj (resolveSchemaNode root node))"
  using null_free_member [OF null_free_object_of, of root "''$defs''"]
  by (auto simp: resolveSchemaNode_def Let_def simp del: null_free.simps split: json.splits)

lemma null_free_objectPlaceholder:
  assumes "null_free (JObj root)" "null_free (JObj node)" "\<And>child m v. null_free (JObj child) \<Longrightarrow> placeholder child m = Some v \<Longrightarrow> null_free v"
  shows "null_free (JObj (objectPlaceholder placeholder root node))"
proof -
  have "null_free (snd kv)" if kv: "kv \<in> set (objectPlaceholder placeholder root node)" for kv
  proof -
    from kv obtain k c where c: "(k, JObj c) \<in> set (object_of (field node ''properties''))"
      "placeholder (resolveSchemaNode root c) (''<'' @ k @ ''>'') = Some (snd kv)"
      by (auto simp: objectPlaceholder_def List.map_filter_def Let_def split: json.splits if_splits)
    have "null_free (JObj c)" using null_free_object_of [OF assms(2), of "''properties''"] c(1) by (force simp: list_all_iff)
    then show ?thesis using assms(3) [OF null_free_resolve [OF assms(1)] c(2)] by blast
  qed
  then show ?thesis by (auto simp: list_all_iff)
qed

lemma null_free_placeholderForSchema:
  "null_free (JObj root) \<Longrightarrow> \<forall>n. node = Some n \<longrightarrow> null_free (JObj n) \<Longrightarrow> placeholderForSchema root node marker depth = Some v \<Longrightarrow> null_free v"
proof (induction root node marker depth arbitrary: v rule: placeholderForSchema.induct)
  case (1 root node0 marker depth)
  show ?case
  proof (cases node0)
    case None
    then show ?thesis using 1(5) by (simp add: placeholderForSchema.simps)
  next
    case (Some n)
    let ?node = "resolveSchemaNode root n"
    have n: "null_free (JObj ?node)" using null_free_resolve [OF 1(3)] 1(4) Some by blast
    have e: "asSlice (field ?node ''enum'') \<noteq> [] \<Longrightarrow> null_free (hd (asSlice (field ?node ''enum'')))"
      using null_free_asSlice [OF n, of "''enum''"] by (auto simp: list_all_iff)
    have c: "field ?node ''const'' \<noteq> JNull \<Longrightarrow> null_free (field ?node ''const'')" by (rule null_free_field [OF n])
    show ?thesis
    proof (cases "5 < depth \<or> asSlice (field ?node ''enum'') \<noteq> [] \<or> field ?node ''const'' \<noteq> JNull")
      case True
      then show ?thesis using 1(5) Some e c by (subst (asm) placeholderForSchema.simps) (auto split: if_splits)
    next
      case False
      note ih = 1(1) [of ?node] 1(2) [of ?node]
      let ?items = "placeholderForSchema root (json_object (field ?node ''items'')) marker (depth + 1)"
      have items: "null_free w" if "declared_type ?node = ''array''" "?items = Some w" for w
        using ih(1) [OF _ _ _ _ refl _ _ _ that(1) 1(3) _ that(2)] null_free_json_object [OF n, of "''items''"] Some False that(1) by simp
      have members: "null_free (JObj (objectPlaceholder (\<lambda>child m. placeholderForSchema root (Some child) m (depth + 1)) root ?node))"
        if "declared_type ?node = ''object''"
        by (rule null_free_objectPlaceholder [OF 1(3) n])
          (rule ih(2) [OF _ _ _ _ refl _ _ _ _ that 1(3)], use Some False that in auto)
      show ?thesis using 1(5) Some False items members
        by (subst (asm) placeholderForSchema.simps) (auto simp: Let_def null_free_empty simp del: null_free.simps(2) split: if_splits option.splits)
    qed
  qed
qed

lemma schema_walk_values:
  assumes "null_free (JObj root)" "\<And>c schema p v. null_free (JObj schema) \<Longrightarrow> (p, v) \<in> set (leaf c schema) \<Longrightarrow> null_free v"
  shows "\<forall>s. schema = Some s \<longrightarrow> null_free (JObj s) \<Longrightarrow> (p, v) \<in> set (schema_walk root leaf cfg schema) \<Longrightarrow> null_free v"
proof (induction cfg arbitrary: schema rule: collectExpressions.induct)
  case (1 x)
  then show ?case using assms(2) [OF null_free_resolve [OF assms(1)]] by (auto split: option.splits simp del: null_free.simps)
next
  case (2 x)
  let ?child = "\<lambda>m. case map_option (resolveSchemaNode root) schema of None \<Rightarrow> None
       | Some schema \<Rightarrow> json_object (field (object_of (field schema ''properties'')) (fst m))"
  from 2(3) obtain m where m: "m \<in> set x" "(p, v) \<in> set (schema_walk root leaf (snd m) (?child m))" by (auto simp del: null_free.simps)
  have "\<forall>s. ?child m = Some s \<longrightarrow> null_free (JObj s)"
    using 2(2) null_free_json_object [OF null_free_object_of [OF null_free_resolve [OF assms(1)]]] by (auto split: option.splits simp del: null_free.simps)
  from 2(1) [OF m(1) this m(2)] show ?case .
next
  case (3 x)
  let ?child = "case map_option (resolveSchemaNode root) schema of None \<Rightarrow> None | Some schema \<Rightarrow> json_object (field schema ''items'')"
  from 3(3) obtain m where m: "m \<in> set x" "(p, v) \<in> set (schema_walk root leaf m ?child)" by (auto simp del: null_free.simps)
  have "\<forall>s. ?child = Some s \<longrightarrow> null_free (JObj s)"
    using 3(2) null_free_json_object [OF null_free_resolve [OF assms(1)]] by (auto split: option.splits simp del: null_free.simps)
  from 3(1) [OF m(1) this m(2)] show ?case .
qed auto

lemma filled_member: "map_of (filled ws) p = Some v \<Longrightarrow> (p, v) \<in> set ws"
proof -
  have "map_of (fold (\<lambda>(p, v). AList.update p v) ws m) p = Some v \<Longrightarrow> (p, v) \<in> set ws \<or> map_of m p = Some v" for m
    by (induction ws arbitrary: m) (force simp: update_conv' split: if_splits)+
  from this [of "[]"] show "map_of (filled ws) p = Some v \<Longrightarrow> (p, v) \<in> set ws" by (simp add: filled_def)
qed

lemma constrained_null_free:
  assumes "\<And>root. decode_map codec b = Some root \<Longrightarrow> null_free (JObj root)" "map_of (targetConstrainedValues codec config b) p = Some v"
  shows "null_free v"
proof -
  obtain root where r: "decode_map codec b = Some root" "(p, v) \<in> set (schema_walk root constrained_leaf (JObj config) (Some root))"
    using assms(2) by (auto simp: targetConstrainedValues_def split: if_splits option.splits dest!: filled_member)
  have leaf: "null_free w" if s: "null_free (JObj schema)" and w: "(q, w) \<in> set (constrained_leaf c schema)" for c schema q w
  proof -
    from w have "constrained_value schema = Some w" by (auto simp: constrained_leaf_def split: option.splits)
    then show ?thesis using null_free_field [OF s, of "''const''"] null_free_asSlice [OF s, of "''enum''"]
      by (auto simp: constrained_value_def Let_def list_all_iff simp del: null_free.simps(1,2) split: if_splits)
  qed
  show ?thesis by (rule schema_walk_values [OF assms(1) [OF r(1)] _ _ r(2)]) (blast intro: leaf, use assms(1) [OF r(1)] in blast)
qed

lemma declared_null_free:
  assumes "\<And>root. decode_map codec b = Some root \<Longrightarrow> null_free (JObj root)" "map_of (targetSchemaPlaceholders codec config b) p = Some v"
  shows "null_free v"
proof -
  obtain root where r: "decode_map codec b = Some root" "(p, v) \<in> set (schema_walk root (declared_leaf root) (JObj config) (Some root))"
    using assms(2) by (auto simp: targetSchemaPlaceholders_def split: if_splits option.splits dest!: filled_member)
  have leaf: "null_free w" if s: "null_free (JObj schema)" and w: "(q, w) \<in> set (declared_leaf root c schema)" for c schema q w
    using w null_free_placeholderForSchema [OF assms(1) [OF r(1)], of "Some schema"] s
    by (auto simp: declared_leaf_def List.map_filter_def simp del: null_free.simps)
  show ?thesis by (rule schema_walk_values [OF assms(1) [OF r(1)] _ _ r(2)]) (blast intro: leaf, use assms(1) [OF r(1)] in blast)
qed

lemma typedPlaceholder_null_free: "typedPlaceholder codec b p = Some v \<Longrightarrow> null_free v"
proof -
  have "typed_walk defs cur parts = Some v \<Longrightarrow> null_free v" for defs cur parts
    by (induction defs cur parts rule: typed_walk.induct)
      (auto simp: typed_leaf_def Let_def split: option.splits json.splits if_splits)
  then show "typedPlaceholder codec b p = Some v \<Longrightarrow> null_free v"
    by (auto simp: typedPlaceholder_def Let_def split: if_splits option.splits)
qed

lemma edge_writes_values:
  assumes "\<And>root. decode_map codec toSchema = Some root \<Longrightarrow> null_free (JObj root)" "\<And>xs. set (order xs) = set xs"
    "(p, v) \<in> set (edge_writes codec order live schemaBytes config toSettings toSchema)"
  shows "p \<in> set (collectExpressions (JObj config)) \<and> null_free v"
proof -
  have sh: "null_free (shapelessPlaceholder p ex)" for ex by (cases ex) (simp_all add: shapelessPlaceholder_def)
  from assms(3) obtain ps cs where ps: "p \<in> set (extractPathsFromConfig order (JObj config))" and
    v: "edge_value codec cs ps (targetSchemaPlaceholders codec config toSchema) (targetExampleTypes config toSettings) schemaBytes p = Some v" and
    cs: "cs = (if live then targetConstrainedValues codec config toSchema else [])"
    by (auto simp: edge_writes_def List.map_filter_def Let_def split: if_splits simp del: collectExpressions.simps)
  have "p \<in> set (collectExpressions (JObj config))" using ps assms(2) by (simp add: extractPathsFromConfig_def del: collectExpressions.simps)
  moreover have "null_free v" using v constrained_null_free [OF assms(1)] declared_null_free [OF assms(1)] typedPlaceholder_null_free sh
    by (auto simp: edge_value_def cs split: option.splits if_splits)
  ultimately show ?thesis by blast
qed

lemma edge_writes_complete:
  assumes "\<And>xs. set (order xs) = set xs" "p \<in> set (pathsUnderFields (collectExpressions (JObj config)) (shapelessFieldsIn codec schemaBytes))"
  shows "p \<in> fst ` set (edge_writes codec order live schemaBytes config toSettings toSchema)"
proof -
  let ?paths = "extractPathsFromConfig order (JObj config)" and ?sh = "shapelessFieldsIn codec schemaBytes"
  have s: "set ?paths = set (collectExpressions (JObj config))" by (simp add: extractPathsFromConfig_def assms(1) del: collectExpressions.simps)
  have p: "p \<in> set ?paths" "p \<in> set (pathsUnderFields ?paths ?sh)"
    using assms(2) s by (auto simp: pathsUnderFields_def simp del: collectExpressions.simps)
  have "pathsUnderFields ?paths [] = []" by (simp add: pathsUnderFields_def)
  with p have "?sh \<noteq> []" "pathsUnderFields ?paths ?sh \<noteq> []" by (metis empty_iff empty_set)+
  moreover have "edge_value codec cs (pathsUnderFields ?paths ?sh) ds ts schemaBytes p \<noteq> None" for cs ds ts
    using p(2) by (auto simp: edge_value_def split: option.splits)
  ultimately show ?thesis using p(1) by (force simp: edge_writes_def List.map_filter_def Let_def simp del: collectExpressions.simps)
qed

subsection \<open>Properties\<close>

text \<open>The invariant of the samples: each is solid and has the paths written to it so far.\<close>

definition holds_paths :: "samples \<Rightarrow> (string \<Rightarrow> string set) \<Rightarrow> bool" where
  "holds_paths portData Q \<longleftrightarrow>
     (\<forall>port. case map_of portData port of
        None \<Rightarrow> Q port = {}
      | Some sample \<Rightarrow> solid (JObj sample) \<and> (\<forall>q \<in> Q port. walkExample sample q \<noteq> JNull))"

lemma write_sample_holds:
  assumes "holds_paths portData Q" "\<forall>(p, v) \<in> set ws. readable p \<and> null_free v" "\<forall>p \<in> P port. \<forall>q \<in> P port. compatible_paths p q"
    "fst ` set ws \<subseteq> P port" "Q port \<subseteq> P port"
  shows "holds_paths (write_sample port ws portData) (Q(port := Q port \<union> fst ` set ws))"
proof -
  let ?old = "case map_of portData port of None \<Rightarrow> [] | Some mock \<Rightarrow> mock"
  have o: "solid (JObj ?old)" "\<forall>q \<in> Q port. walkExample ?old q \<noteq> JNull"
    using spec [OF assms(1) [unfolded holds_paths_def], of port] by (cases "map_of portData port"; simp)+
  have "compatible_paths p q" if "(p, v) \<in> set ws" "q \<in> P port" for p v q
    using assms(3) imageI [OF that(1), of fst] assms(4) that(2) by (metis fst_conv subsetD)
  then have c: "\<forall>(p, v) \<in> set ws. \<forall>q \<in> P port. compatible_paths p q" by blast
  note new = writes_found [OF o(1) assms(2) c o(2) assms(5,4)]
  show ?thesis
    unfolding holds_paths_def
  proof
    fix t
    show "case map_of (write_sample port ws portData) t of None \<Rightarrow> (Q(port := Q port \<union> fst ` set ws)) t = {}
      | Some sample \<Rightarrow> solid (JObj sample) \<and> (\<forall>q \<in> (Q(port := Q port \<union> fst ` set ws)) t. walkExample sample q \<noteq> JNull)"
      using new spec [OF assms(1) [unfolded holds_paths_def], of t]
      by (cases "t = port"; cases "map_of portData t") (simp_all add: write_sample_def update_conv' del: solid.simps)
  qed
qed

lemma samples_hold:
  assumes "holds_paths portData Q" "\<forall>x \<in> set xs. \<forall>(p, v) \<in> set (ws x). readable p \<and> null_free v"
    "\<forall>port. \<forall>p \<in> P port. \<forall>q \<in> P port. compatible_paths p q" "\<forall>x \<in> set xs. fst ` set (ws x) \<subseteq> P (port x)" "\<forall>port. Q port \<subseteq> P port"
  shows "holds_paths (fold (\<lambda>x pd. if ws x = [] then pd else write_sample (port x) (ws x) pd) xs portData)
    (\<lambda>t. Q t \<union> \<Union> {fst ` set (ws x) | x. x \<in> set xs \<and> port x = t})"
  using assms
proof (induction xs arbitrary: portData Q)
  case (Cons x xs)
  let ?Q = "Q(port x := Q (port x) \<union> fst ` set (ws x))"
  let ?pd = "if ws x = [] then portData else write_sample (port x) (ws x) portData"
  have "Q = ?Q" if "ws x = []" using that by simp
  then have h: "holds_paths ?pd ?Q"
    using write_sample_holds [OF Cons.prems(1), of "ws x" P "port x"] Cons.prems by auto
  have "\<forall>port. ?Q port \<subseteq> P port" using Cons.prems(4,5) by auto
  from Cons.IH [OF h _ Cons.prems(3) _ this] Cons.prems(2,4) have
    "holds_paths (fold (\<lambda>x pd. if ws x = [] then pd else write_sample (port x) (ws x) pd) (x # xs) portData)
      (\<lambda>t. ?Q t \<union> \<Union> {fst ` set (ws x) | x. x \<in> set xs \<and> port x = t})" by simp
  moreover have "(\<lambda>t. ?Q t \<union> \<Union> {fst ` set (ws x) | x. x \<in> set xs \<and> port x = t}) =
      (\<lambda>t. Q t \<union> \<Union> {fst ` set (ws y) | y. y \<in> set (x # xs) \<and> port y = t})" by (rule ext) auto
  ultimately show ?case by simp
qed simp

text \<open>The paths the edges of a port refer to.\<close>

definition edge_config :: "json_codec \<Rightarrow> tiny_node gomap \<Rightarrow> string \<times> tiny_edge \<Rightarrow> json gomap" where
  "edge_config codec nodes se =
     (case ParseFullPortName (ed_To (snd se)) of
        (targetName, targetPort) \<Rightarrow>
          (case map_of nodes targetName of
             None \<Rightarrow> []
           | Some targetNode \<Rightarrow> edge_configuration codec targetNode (fst se @ '':'' @ ed_Port (snd se)) targetPort))"

definition port_paths :: "json_codec \<Rightarrow> tiny_node gomap \<Rightarrow> string \<Rightarrow> string set" where
  "port_paths codec nodes port =
     (\<Union>se \<in> {se \<in> set (live_edges nodes). fst se @ '':'' @ ed_Port (snd se) = port}. set (collectExpressions (JObj (edge_config codec nodes se))))"

lemma live_writes_eq:
  assumes "\<And>xs. set (order xs) = set xs"
  shows "\<exists>toSettings. live_writes codec order nodes (fst se) (snd se) =
     edge_writes codec order True (read_map (schemas_by_port nodes) (fst se @ '':'' @ ed_Port (snd se))) (edge_config codec nodes se)
       toSettings (read_map (schemas_by_port nodes) (ed_To (snd se)))"
proof -
  have "order [] = []" using assms [of "[]"] by simp
  then have "edge_writes codec order True b [] ts tb = []" for b ts tb
    by (simp add: edge_writes_def extractPathsFromConfig_def pathsUnderFields_def Let_def)
  then show ?thesis by (auto simp: live_writes_def edge_config_def Let_def split: prod.splits option.splits)
qed

lemma live_samples_hold:
  assumes "\<And>xs. set (order xs) = set xs"
    "\<And>port schema root. map_of (schemas_by_port nodes) port = Some schema \<Longrightarrow> decode_map codec schema = Some root \<Longrightarrow> null_free (JObj root)"
    "decode_map codec [] = None"
    "\<And>port p q. p \<in> port_paths codec nodes port \<Longrightarrow> q \<in> port_paths codec nodes port \<Longrightarrow> compatible_paths p q"
  shows "holds_paths (live_samples codec order nodes)
    (\<lambda>t. \<Union> {fst ` set (live_writes codec order nodes (fst se) (snd se)) | se. se \<in> set (live_edges nodes) \<and> fst se @ '':'' @ ed_Port (snd se) = t})"
proof -
  let ?ws = "\<lambda>se. live_writes codec order nodes (fst se) (snd se)" and ?port = "\<lambda>se. fst se @ '':'' @ ed_Port (snd se)"
  have root: "null_free (JObj root)" if "decode_map codec (read_map (schemas_by_port nodes) k) = Some root" for k root
    using that assms(2) [of k] assms(3) by (auto simp: read_map_def simp del: null_free.simps split: option.splits)
  have ws: "p \<in> set (collectExpressions (JObj (edge_config codec nodes se))) \<and> null_free v" if "(p, v) \<in> set (?ws se)" for se p v
  proof -
    obtain ts where "?ws se = edge_writes codec order True (read_map (schemas_by_port nodes) (?port se)) (edge_config codec nodes se) ts
        (read_map (schemas_by_port nodes) (ed_To (snd se)))" using live_writes_eq [of order codec nodes se, OF assms(1)] by blast
    then show ?thesis using edge_writes_values [of codec, OF root assms(1)] that by simp
  qed
  have r: "\<forall>se \<in> set (live_edges nodes). \<forall>(p, v) \<in> set (?ws se). readable p \<and> null_free v"
    using ws collectExpressions_readable by fast
  have sub: "\<forall>se \<in> set (live_edges nodes). fst ` set (?ws se) \<subseteq> port_paths codec nodes (?port se)"
    using ws unfolding port_paths_def by fastforce
  have "holds_paths [] (\<lambda>_. {})" by (simp add: holds_paths_def)
  from samples_hold [OF this r _ sub] assms(4) show ?thesis
    by (simp add: live_samples_def live_sample_def [abs_def] Let_def del: collectExpressions.simps)
qed

text \<open>C38: the sample of a port has what the edges leaving it read. Whatever the order in which the paths of an edge are
  visited, every path into a field without a shape that the configuration of an edge refers to is found in the sample of its source port, provided that no
  two paths of one port use the same member both as a list and as an object and no published schema holds a null.\<close>

theorem live_sample_covers:
  assumes "\<And>xs. set (order xs) = set xs"
    "\<And>port schema root. map_of (schemas_by_port nodes) port = Some schema \<Longrightarrow> decode_map codec schema = Some root \<Longrightarrow> null_free (JObj root)"
    "decode_map codec [] = None"
    "\<And>port p q. p \<in> port_paths codec nodes port \<Longrightarrow> q \<in> port_paths codec nodes port \<Longrightarrow> compatible_paths p q"
    "(name, e) \<in> set (live_edges nodes)"
    "p \<in> set (pathsUnderFields (collectExpressions (JObj (edge_config codec nodes (name, e))))
              (shapelessFieldsIn codec (read_map (schemas_by_port nodes) (name @ '':'' @ ed_Port e))))"
  shows "\<exists>sample. map_of (live_samples codec order nodes) (name @ '':'' @ ed_Port e) = Some sample \<and> walkExample sample p \<noteq> JNull"
proof -
  let ?port = "name @ '':'' @ ed_Port e"
  obtain ts where w: "live_writes codec order nodes name e = edge_writes codec order True (read_map (schemas_by_port nodes) ?port)
      (edge_config codec nodes (name, e)) ts (read_map (schemas_by_port nodes) (ed_To e))"
    using live_writes_eq [of order codec nodes "(name, e)", OF assms(1)] by auto
  have "p \<in> fst ` set (live_writes codec order nodes name e)" unfolding w by (rule edge_writes_complete [OF assms(1,6)])
  moreover have "\<exists>se. fst ` set (live_writes codec order nodes name e) = fst ` set (live_writes codec order nodes (fst se) (snd se)) \<and>
      se \<in> set (live_edges nodes) \<and> fst se @ '':'' @ ed_Port (snd se) = ?port" by (rule exI [of _ "(name, e)"]) (simp add: assms(5))
  ultimately have q: "p \<in> \<Union> {fst ` set (live_writes codec order nodes (fst se) (snd se)) | se. se \<in> set (live_edges nodes) \<and> fst se @ '':'' @ ed_Port (snd se) = ?port}"
    by blast
  have "holds_paths (live_samples codec order nodes)
    (\<lambda>t. \<Union> {fst ` set (live_writes codec order nodes (fst se) (snd se)) | se. se \<in> set (live_edges nodes) \<and> fst se @ '':'' @ ed_Port (snd se) = t})"
    by (rule live_samples_hold) (fact assms)+
  note h = spec [OF this [unfolded holds_paths_def], of ?port]
  show ?thesis
  proof (cases "map_of (live_samples codec order nodes) ?port")
    case None
    then show ?thesis using h q by (simp only: option.case) blast
  next
    case (Some sample)
    then have "walkExample sample p \<noteq> JNull" using h q by (simp only: option.case) blast
    with Some show ?thesis by blast
  qed
qed

definition sample_schema_codec :: json_codec where
  "sample_schema_codec =
     \<lparr>jc_decode = (\<lambda>b. if b = ''S'' then Some (JObj [(''$defs'', JObj [(''Context'', JObj [(''path'', JStr ''$.context''), (''configurable'', JBool True)])])])
                     else if b = ''C'' then Some (JObj [(''who'', JStr ''{{$.context.users[0].name}}''), (''when'', JStr ''at {{$.context.time}}'')])
                     else None),
      jc_encode = (\<lambda>_. None)\<rparr>"

definition sample_edge :: tiny_edge where
  "sample_edge = \<lparr>ed_ID = ''e'', ed_Port = ''out'', ed_To = ''b:in'', ed_FlowID = ''f'', ed_RetryPolicy = None\<rparr>"

definition two_nodes :: "tiny_node gomap" where
  "two_nodes =
     [(''a'', sample_node\<lparr>tn_Edges := [sample_edge],
         tn_Status := sample_status\<lparr>ns_Ports := [\<lparr>ps_Name = ''out'', ps_Label = [], ps_Position = 0, ps_Source = True, ps_Schema = Some ''S'', ps_Configuration = None\<rparr>]\<rparr>\<rparr>),
      (''b'', sample_node\<lparr>tn_Edges := [], tn_Ports := [\<lparr>pc_From = ''a:out'', pc_Port = ''in'', pc_Schema = [], pc_Configuration = ''C'', pc_FlowID = ''f''\<rparr>],
         tn_Status := sample_status\<lparr>ns_Ports := []\<rparr>\<rparr>)]"

theorem live_sample_covers_witness:
  "\<exists>sample. map_of (live_samples sample_schema_codec rev two_nodes) ''a:out'' = Some sample \<and> walkExample sample ''context.users[0].name'' \<noteq> JNull"
proof -
  have e: "live_edges two_nodes = [(''a'', sample_edge)]" by code_simp
  have s: "schemas_by_port two_nodes = [(''a:out'', ''S'')]" by code_simp
  have c: "collectExpressions (JObj (edge_config sample_schema_codec two_nodes (''a'', sample_edge))) = [''context.users[0].name'', ''context.time'']" by code_simp
  have p: "p \<in> {''context.users[0].name'', ''context.time''}" if "p \<in> port_paths sample_schema_codec two_nodes port" for port p
    using that c by (auto simp: port_paths_def e simp del: collectExpressions.simps split: if_splits)
  have k: "compatible_paths p q" if "p \<in> {''context.users[0].name'', ''context.time''}" "q \<in> {''context.users[0].name'', ''context.time''}" for p q
  proof -
    have "\<forall>p \<in> set [''context.users[0].name'', ''context.time'']. \<forall>q \<in> set [''context.users[0].name'', ''context.time'']. compatible_paths p q" by code_simp
    then show ?thesis using that by auto
  qed
  have f: "null_free (JObj root)" if "map_of (schemas_by_port two_nodes) port = Some schema" "decode_map sample_schema_codec schema = Some root" for port schema root
    using that by (auto simp: s sample_schema_codec_def decode_map_def split: if_splits)
  have u: "''context.users[0].name'' \<in> set (pathsUnderFields (collectExpressions (JObj (edge_config sample_schema_codec two_nodes (''a'', sample_edge))))
              (shapelessFieldsIn sample_schema_codec (read_map (schemas_by_port two_nodes) (''a'' @ '':'' @ ed_Port sample_edge))))" by code_simp
  have n: "decode_map sample_schema_codec [] = None" by code_simp
  have m: "(''a'', sample_edge) \<in> set (live_edges two_nodes)" unfolding e by simp
  have "\<exists>sample. map_of (live_samples sample_schema_codec rev two_nodes) (''a'' @ '':'' @ ed_Port sample_edge) = Some sample \<and>
      walkExample sample ''context.users[0].name'' \<noteq> JNull"
    by (rule live_sample_covers [of rev two_nodes sample_schema_codec, OF set_rev f n k [OF p p] m u])
  then show ?thesis by (simp add: sample_edge_def)
qed

text \<open>The sample depends on the order of a Go map. When an edge maps a whole field into a target member that is declared as an object with
  scalar members, and also maps a member of that field, one of the two orders in which the map of paths may be read leaves the declared members out.\<close>

lemma sample_depends_on_order:
  "walkExample (setPath ''context.user'' (JStr ''<user>'') (setPath ''context'' (JObj [(''count'', JNum ''0'')]) [])) ''context.count'' = JNum ''0'' \<and>
   walkExample (setPath ''context'' (JObj [(''count'', JNum ''0'')]) (setPath ''context.user'' (JStr ''<user>'') [])) ''context.count'' = JNull"
  by code_simp

end
