(* ===== verification/Derived_Schemas.thy ===== *)
theory Derived_Schemas
  imports Scenario_Scaffold
begin

section \<open>Schemas derived from a configuration\<close>

text \<open>
  \<open>src/pkg/tools/schema_required.go\<close> and \<open>edit_flow_lookup.go\<close>: the settings a component does not know, the fields whose shape is given by the author,
  and the schema that is derived for such a field when the author gives none. A nil map and an empty one are read in the same way
  here, and so is a resolver's nil and a null. The reader of a project and the catalogue of modules are functions of the platform; the reader may return
  no elements and no error, and following that nil pointer is the result \<open>None\<close> of a lookup.
\<close>

subsection \<open>Settings and configurable fields\<close>

definition settingsProps :: "json_codec \<Rightarrow> bytes \<Rightarrow> json gomap" where
  "settingsProps codec schemaBytes =
     (case decode_map codec schemaBytes of
        None \<Rightarrow> []
      | Some root \<Rightarrow>
        (let node = (case field root ''$ref'' of
                       JStr ref \<Rightarrow> (case field (object_of (field root ''$defs'')) (trim_prefix ref ''#/$defs/'') of JObj t \<Rightarrow> t | _ \<Rightarrow> root)
                     | _ \<Rightarrow> root)
         in case map_of node ''additionalProperties'' of
              None \<Rightarrow> object_of (field node ''properties'')
            | Some ap \<Rightarrow> if ap = JBool False then object_of (field node ''properties'') else []))"

text \<open>The verb \<open>%v\<close> of a list of strings.\<close>

definition list_v :: "string list \<Rightarrow> string" where
  "list_v xs = ''['' @ join_str '' '' xs @ '']''"

definition unknownSettings :: "json_codec \<Rightarrow> string \<Rightarrow> json gomap \<Rightarrow> bytes \<Rightarrow> string" where
  "unknownSettings codec alias settings schemaBytes =
     (if settings = [] \<or> schemaBytes = [] then []
      else
        (let props = settingsProps codec schemaBytes; unknown = filter (\<lambda>k. map_of props k = None) (map fst settings)
         in if props = [] \<or> unknown = [] then []
            else
              ''node '' @ [CHR 0x27] @ alias @ [CHR 0x27] @ '' sets unknown setting(s) '' @ list_v (sort unknown) @ '' '' @ emdash @
              '' the component ignores settings it doesn'' @ [CHR 0x27] @ ''t declare, so those fields silently do nothing. Valid settings: '' @
              list_v (sort (map fst props)) @ ''. Use these exact names (get_component_info reports the `settings` schema).''))"

fun lowerFirstByte :: "string \<Rightarrow> string" where
  "lowerFirstByte [] = []"
| "lowerFirstByte (c # s) = (if is_upper_ascii c then lower_char c else c) # s"

definition configurableFieldsIn :: "json_codec \<Rightarrow> bytes \<Rightarrow> string list" where
  "configurableFieldsIn codec schemaBytes =
     (if schemaBytes = [] then []
      else
        (case decode_map codec schemaBytes of
           None \<Rightarrow> []
         | Some root \<Rightarrow>
           sort (remdups (map (\<lambda>d. lowerFirstByte (fst d))
             (filter (\<lambda>(name, raw). name \<noteq> [] \<and> (case raw of JObj def \<Rightarrow> GetBool (field def ''configurable'') | _ \<Rightarrow> False))
               (object_of (field root ''$defs'')))))))"

definition passthrough :: "string \<Rightarrow> json \<Rightarrow> bool" where
  "passthrough fld v = (fld = ''context'' \<and> (case v of JStr _ \<Rightarrow> True | _ \<Rightarrow> False))"

definition requireSchemaForData :: "json gomap \<Rightarrow> json gomap \<Rightarrow> string list \<Rightarrow> string list" where
  "requireSchemaForData data userSchema configurable =
     filter (\<lambda>fld. map_of data fld \<noteq> None \<and> map_of userSchema fld = None \<and> \<not> passthrough fld (field data fld)) configurable"

definition schemaRequiredError :: "string \<Rightarrow> string \<Rightarrow> string list \<Rightarrow> go_error option" where
  "schemaRequiredError kind owner flds =
     (if flds = [] then None
      else Some (ErrNew (kind @ '' '' @ [CHR 0x27] @ owner @ [CHR 0x27] @ '' fills configurable field(s) '' @ list_v flds @ '' without a schema. '' @
        ''Declare each field'' @ [CHR 0x27] @ ''s shape in the schema parameter '' @ emdash @ '' the platform no longer infers schemas from value shape.'')))"

subsection \<open>Derivation\<close>

definition type_schema :: "string \<Rightarrow> json gomap" where
  "type_schema t = [(''type'', JStr t)]"

fun typeSchemaOf :: "json \<Rightarrow> json gomap" where
  "typeSchemaOf (JStr x) = type_schema ''string''"
| "typeSchemaOf (JBool x) = type_schema ''boolean''"
| "typeSchemaOf (JNum x) = type_schema ''number''"
| "typeSchemaOf (JArr x) =
     (case map (\<lambda>v. JObj (typeSchemaOf v)) x of [] \<Rightarrow> type_schema ''array'' | first # _ \<Rightarrow> type_schema ''array'' @ [(''items'', first)])"
| "typeSchemaOf (JObj x) = type_schema ''object'' @ [(''properties'', JObj (map (\<lambda>m. (fst m, JObj (typeSchemaOf (snd m)))) x))]"
| "typeSchemaOf JNull = []"

text \<open>The example the first path of an expression with one resolves to.\<close>

fun first_resolved :: "(string \<Rightarrow> json) \<Rightarrow> string list \<Rightarrow> json" where
  "first_resolved resolve [] = JNull"
| "first_resolved resolve (p # ps) = (if resolve p \<noteq> JNull then resolve p else first_resolved resolve ps)"

definition expression_schema :: "(string \<Rightarrow> json) option \<Rightarrow> string \<Rightarrow> json gomap" where
  "expression_schema resolve x =
     (case whole_expression x of
        None \<Rightarrow> type_schema ''string''
      | Some body \<Rightarrow> (case resolve of None \<Rightarrow> [] | Some f \<Rightarrow> typeSchemaOf (first_resolved f (jsonPaths body))))"

fun deriveValueSchema :: "(string \<Rightarrow> json) option \<Rightarrow> json \<Rightarrow> json gomap" where
  "deriveValueSchema resolve (JObj x) =
     type_schema ''object'' @ [(''properties'', JObj (map (\<lambda>m. (fst m, JObj (deriveValueSchema resolve (snd m)))) x))]"
| "deriveValueSchema resolve (JArr x) =
     (case map (\<lambda>v. JObj (deriveValueSchema resolve v)) x of [] \<Rightarrow> type_schema ''array'' | first # _ \<Rightarrow> type_schema ''array'' @ [(''items'', first)])"
| "deriveValueSchema resolve (JStr x) = expression_schema resolve x"
| "deriveValueSchema resolve (JBool x) = type_schema ''boolean''"
| "deriveValueSchema resolve (JNum x) = type_schema ''number''"
| "deriveValueSchema resolve JNull = []"

definition fill_schema :: "json gomap \<Rightarrow> (string \<Rightarrow> json) option \<Rightarrow> string \<Rightarrow> json gomap \<Rightarrow> json gomap" where
  "fill_schema data resolve fld out =
     (if map_of data fld = None \<or> map_of out fld \<noteq> None \<or> passthrough fld (field data fld) then out
      else set_field fld (JObj (deriveValueSchema resolve (field data fld))) out)"

definition fillMissingSchemas :: "json gomap \<Rightarrow> json gomap \<Rightarrow> string list \<Rightarrow> (string \<Rightarrow> json) option \<Rightarrow> json gomap" where
  "fillMissingSchemas data userSchema configurable resolve = fold (fill_schema data resolve) configurable userSchema"

definition exampleResolver :: "json_codec \<Rightarrow> bytes \<Rightarrow> json gomap \<Rightarrow> string \<Rightarrow> json" where
  "exampleResolver codec sourcePortSchema sourceSettings path =
     (case typedPlaceholder codec sourcePortSchema path of Some v \<Rightarrow> v | None \<Rightarrow> walkExample sourceSettings path)"

subsection \<open>Lookups\<close>

type_synonym project_reader = "string \<Rightarrow> go_error + element list option"
type_synonym module_catalog = "string \<Rightarrow> go_error + component_info list option"

definition findNodeIdentity :: "element list option \<Rightarrow> string \<Rightarrow> string \<times> string" where
  "findNodeIdentity elements nodeID =
     (case elements of
        None \<Rightarrow> ([], [])
      | Some els \<Rightarrow>
        (case find (\<lambda>el. GetStr (field el ''id'') = nodeID \<and> GetStr (field el ''type'') = ''tinyNode'') els of
           None \<Rightarrow> ([], [])
         | Some el \<Rightarrow>
           (case field el ''data'' of
              JObj data \<Rightarrow> (GetStr (field data ''module''), GetStr (field data ''component''))
            | _ \<Rightarrow> ([], []))))"

definition findNodeComponent ::
  "project_reader option \<Rightarrow> module_catalog option \<Rightarrow> string \<Rightarrow> string \<Rightarrow> go_error + component_info option" where
  "findNodeComponent reader catalog projectName nodeID =
     (case (reader, catalog) of
        (Some read, Some GetModule) \<Rightarrow>
          (case read projectName of
             Inl err \<Rightarrow> Inl (WrapError ''read project for node lookup: '' err)
           | Inr elements \<Rightarrow>
             (case findNodeIdentity elements nodeID of
                (moduleName, componentName) \<Rightarrow>
                  if moduleName = [] \<or> componentName = [] then Inr None
                  else
                    (case GetModule moduleName of
                       Inr (Some components) \<Rightarrow> Inr (find (\<lambda>c. ci_Name c = componentName) components)
                     | _ \<Rightarrow> Inr None)))
      | _ \<Rightarrow> Inr None)"

definition findEdgeTarget :: "project_reader option \<Rightarrow> string \<Rightarrow> string \<Rightarrow> (go_error + string \<times> string) option" where
  "findEdgeTarget reader projectName edgeID =
     (case reader of
        None \<Rightarrow> Some (Inr ([], []))
      | Some read \<Rightarrow>
        (case read projectName of
           Inl err \<Rightarrow> Some (Inl (WrapError ''read project for edge lookup: '' err))
         | Inr None \<Rightarrow> None
         | Inr (Some els) \<Rightarrow>
           (case find (\<lambda>el. GetStr (field el ''id'') = edgeID \<and> GetStr (field el ''type'') = ''tinyEdge'') els of
              None \<Rightarrow> Some (Inr ([], []))
            | Some el \<Rightarrow> Some (Inr (GetStr (field el ''target''), GetStr (field el ''targetHandle''))))))"

subsection \<open>Properties\<close>

text \<open>What the keywords of a derived schema demand of a value.\<close>

definition type_ok :: "json gomap \<Rightarrow> string \<Rightarrow> bool" where
  "type_ok s t \<longleftrightarrow> field s ''type'' = JNull \<or> field s ''type'' = JStr t"

fun schema_accepts :: "json gomap \<Rightarrow> json \<Rightarrow> bool" where
  "schema_accepts s (JObj ms) =
     (type_ok s ''object'' \<and>
      list_all (\<lambda>m. case field (object_of (field s ''properties'')) (fst m) of JObj s' \<Rightarrow> schema_accepts s' (snd m) | _ \<Rightarrow> True) ms)"
| "schema_accepts s (JArr vs) = (type_ok s ''array'' \<and> list_all (\<lambda>v. case field s ''items'' of JObj s' \<Rightarrow> schema_accepts s' v | _ \<Rightarrow> True) vs)"
| "schema_accepts s (JStr x) = type_ok s ''string''"
| "schema_accepts s (JBool x) = type_ok s ''boolean''"
| "schema_accepts s (JNum x) = type_ok s ''number''"
| "schema_accepts s JNull = type_ok s ''null''"

text \<open>The value a configuration evaluates to: a string that is one expression becomes the value of the expression, a string with expressions in it
  becomes a string.\<close>

fun evaluated :: "(string \<Rightarrow> json) \<Rightarrow> (string \<Rightarrow> string) \<Rightarrow> json \<Rightarrow> json" where
  "evaluated ev cat (JStr s) = (case whole_expression s of Some body \<Rightarrow> ev body | None \<Rightarrow> JStr (cat s))"
| "evaluated ev cat (JObj ms) = JObj (map (\<lambda>m. (fst m, evaluated ev cat (snd m))) ms)"
| "evaluated ev cat (JArr vs) = JArr (map (evaluated ev cat) vs)"
| "evaluated ev cat v = v"

text \<open>A configuration the derivation is right for: the value of an expression fits the type of the example its first known path resolves to, and the elements of a list are
  of the type of the first.\<close>

fun typable :: "(string \<Rightarrow> json) option \<Rightarrow> (string \<Rightarrow> json) \<Rightarrow> (string \<Rightarrow> string) \<Rightarrow> json \<Rightarrow> bool" where
  "typable resolve ev cat (JStr s) =
     (case (whole_expression s, resolve) of
        (Some body, Some f) \<Rightarrow>
          (case find (\<lambda>p. f p \<noteq> JNull) (jsonPaths body) of None \<Rightarrow> True | Some p \<Rightarrow> schema_accepts (typeSchemaOf (f p)) (ev body))
      | _ \<Rightarrow> True)"
| "typable resolve ev cat (JObj ms) = (distinct (map fst ms) \<and> list_all (\<lambda>m. typable resolve ev cat (snd m)) ms)"
| "typable resolve ev cat (JArr vs) =
     (list_all (typable resolve ev cat) vs \<and>
      (vs \<noteq> [] \<longrightarrow> list_all (\<lambda>v. schema_accepts (deriveValueSchema resolve (hd vs)) (evaluated ev cat v)) vs))"
| "typable resolve ev cat v = True"

lemma first_resolved_find: "first_resolved f ps = (case find (\<lambda>p. f p \<noteq> JNull) ps of None \<Rightarrow> JNull | Some p \<Rightarrow> f p)"
  by (induction ps) auto

lemma accepts_any [simp]: "schema_accepts [] v"
  by (cases v) (simp_all add: type_ok_def field_def object_of_def list_all_iff)

lemma field_type_schema [simp]:
  "field (type_schema t @ r) ''type'' = JStr t" "k \<noteq> ''type'' \<Longrightarrow> field (type_schema t @ r) k = field r k" "field (type_schema t) ''type'' = JStr t"
  "k \<noteq> ''type'' \<Longrightarrow> field (type_schema t) k = JNull"
  by (simp_all add: field_def type_schema_def)

lemma map_of_members: "distinct (map fst ms) \<Longrightarrow> m \<in> set ms \<Longrightarrow> field (map (\<lambda>m. (fst m, f (snd m))) ms) (fst m) = f (snd m)"
  by (induction ms) (auto simp: field_def image_iff)

text \<open>A derived schema accepts the data it was derived from. Whatever the expressions of a configuration evaluate to, the value is
  accepted by the schema derived from the configuration, provided that an expression has the type of the example its first known path resolves to and that
  the elements of a list have the type of its first element.\<close>

lemma derivation_accepts:
  assumes "typable resolve ev cat v"
  shows "schema_accepts (deriveValueSchema resolve v) (evaluated ev cat v)"
  using assms
proof (induction v rule: collectExpressions.induct)
  case (1 s)
  then show ?case
    by (cases "whole_expression s"; cases resolve; cases "find (\<lambda>p. the resolve p \<noteq> JNull) (jsonPaths (the (whole_expression s)))")
      (auto simp: expression_schema_def type_ok_def first_resolved_find)
next
  case (2 ms)
  have f: "field (map (\<lambda>m. (fst m, JObj (deriveValueSchema resolve (snd m)))) ms) (fst m) = JObj (deriveValueSchema resolve (snd m))" if "m \<in> set ms" for m
    using map_of_members [OF _ that, of "\<lambda>v. JObj (deriveValueSchema resolve v)"] 2(2) by simp
  have "schema_accepts (deriveValueSchema resolve (snd m)) (evaluated ev cat (snd m))" if "m \<in> set ms" for m using 2 that by (simp add: list_all_iff)
  with f show ?case by (auto simp: type_ok_def object_of_def list_all_iff field_def [of "[(''properties'', _)]"])
next
  case (3 vs)
  then show ?case by (cases vs) (auto simp: type_ok_def list_all_iff field_def [of "[(''items'', _)]"])
qed (simp_all add: type_ok_def field_def type_schema_def)

definition count_resolver :: "string \<Rightarrow> json" where
  "count_resolver p = (if p = ''count'' then JNum ''0'' else JNull)"

text \<open>Where the derivation is wrong: a comparison is given the type of the number it compares, so the truth value the edge sends is refused,
  and a list of a number and later a text is refused as it stands.\<close>

lemma derived_schema_refuses:
  assumes "whole_expression x = Some body" "find (\<lambda>p. f p \<noteq> JNull) (jsonPaths body) = Some p" "f p = JNum n" "JStr t \<in> set vs"
  shows "\<not> schema_accepts (deriveValueSchema (Some f) (JStr x)) (JBool b)"
    and "\<not> schema_accepts (deriveValueSchema resolve (JArr (JNum n # vs))) (JArr (JNum n # vs))"
proof -
  show "\<not> schema_accepts (deriveValueSchema (Some f) (JStr x)) (JBool b)"
    using assms(1-3) by (simp add: expression_schema_def type_ok_def field_def type_schema_def first_resolved_find)
  have "\<not> schema_accepts (type_schema ''number'') (JStr t)" by (simp add: type_ok_def field_def type_schema_def)
  with assms(4) have "\<not> list_all (schema_accepts (type_schema ''number'')) vs" by (auto simp: list_all_iff simp del: schema_accepts.simps)
  moreover have "field (type_schema ''array'' @ [(''items'', JObj (type_schema ''number''))]) ''items'' = JObj (type_schema ''number'')"
    by (simp add: field_def type_schema_def)
  ultimately show "\<not> schema_accepts (deriveValueSchema resolve (JArr (JNum n # vs))) (JArr (JNum n # vs))" by simp
qed

text \<open>What the derivation adds to the schemas of the author.\<close>

lemma fills_exact:
  "map_of (fold (fill_schema data resolve) flds out) k =
     (case map_of out k of
        Some s \<Rightarrow> Some s
      | None \<Rightarrow> if k \<in> set flds \<and> map_of data k \<noteq> None \<and> \<not> passthrough k (field data k)
                then Some (JObj (deriveValueSchema resolve (field data k))) else None)"
proof (induction flds arbitrary: out)
  case (Cons f fs)
  show ?case
    unfolding fold_simps Cons.IH
    by (cases "f = k") (auto simp: fill_schema_def set_field_def update_conv' split: option.splits)
qed (simp split: option.split)



end
