(* ===== verification/Edit_Flow.thy ===== *)
theory Edit_Flow
  imports Derived_Schemas
begin

section \<open>The edit tool\<close>

text \<open>
  \<open>src/pkg/tools/edit_flow.go\<close>: the actions an authoring agent may take on a flow. The platform behind the tool is the record \<open>edit_ctx\<close>: the interfaces of the execution
  context with the project and the flow they are called for, each of them missing when it is not configured, as functions on the state of the
  platform. The input of the tool is a decoded document. \<open>None\<close> is a panic.
\<close>

record tool_result =
  tr_Success :: bool
  tr_Output :: json
  tr_Error :: string

record edit_verdict =
  vd_Valid :: bool
  vd_Error :: string
  vd_Hint :: string
  vd_Ports :: "string list"

record 's edit_ctx =
  ec_ProjectName :: string
  ec_ProjectReader :: "('s \<Rightarrow> project_reader) option"
  ec_ModuleCatalog :: "module_catalog option"
  ec_NodeAdder :: "(string \<Rightarrow> string \<Rightarrow> 's \<Rightarrow> 's \<times> (go_error + string \<times> string list)) option"
  ec_FlowModifier :: "((string \<times> string \<times> element) list \<Rightarrow> 's \<Rightarrow> 's \<times> (go_error + (bool \<times> string) list)) option"
  ec_EdgeAdder :: "(string \<Rightarrow> string \<Rightarrow> string \<Rightarrow> string \<Rightarrow> 's \<Rightarrow> 's \<times> (go_error + string \<times> bool)) option"
  ec_EdgeConfigurer :: "(string \<Rightarrow> json gomap \<Rightarrow> json gomap \<Rightarrow> string \<Rightarrow> 's \<Rightarrow> 's \<times> (go_error + edit_verdict)) option"
  ec_NodeSettingsConfigurer :: "(string \<Rightarrow> json gomap \<Rightarrow> json gomap \<Rightarrow> 's \<Rightarrow> 's \<times> (go_error + edit_verdict)) option"
  ec_NodeLabeler :: "(string \<Rightarrow> string \<Rightarrow> 's \<Rightarrow> 's \<times> go_error option) option"
  ec_NodeRepositioner :: "(string \<Rightarrow> int \<Rightarrow> int \<Rightarrow> 's \<Rightarrow> 's \<times> go_error option) option"
  ec_NodeSharer :: "(string \<Rightarrow> string list \<Rightarrow> 's \<Rightarrow> 's \<times> (go_error + string list)) option"
  ec_PortInspector :: "(string \<Rightarrow> string \<Rightarrow> 's \<Rightarrow> go_error + (json \<times> json) option) option"
  ec_ScenarioManager :: "'s scenario_manager option"
  ec_TinyNodeCRManager :: "('s \<Rightarrow> string \<Rightarrow> go_error + tiny_node list) option"

text \<open>The JSON library: decoding into a map and into a list of strings, the integer of a number, and encoding.\<close>

record edit_lib =
  el_codec :: json_codec
  el_unmarshal_map :: "bytes \<Rightarrow> go_error + json gomap"
  el_unmarshal_strings :: "bytes \<Rightarrow> string list option"
  el_int :: "string \<Rightarrow> int"
  el_marshal :: "json \<Rightarrow> go_error + bytes"
  el_order :: "string list \<Rightarrow> string list"

definition refused :: "string \<Rightarrow> tool_result" where
  "refused msg = \<lparr>tr_Success = False, tr_Output = JNull, tr_Error = msg\<rparr>"

definition done_with :: "json gomap \<Rightarrow> tool_result" where
  "done_with out = \<lparr>tr_Success = True, tr_Output = JObj out, tr_Error = []\<rparr>"

definition arg :: "json gomap \<Rightarrow> string \<Rightarrow> string" where
  "arg input k = GetStr (field input k)"

definition strings_json :: "string list \<Rightarrow> json" where
  "strings_json xs = JArr (map JStr xs)"

subsection \<open>Adding and deleting\<close>

definition catalog_refusal :: "module_catalog option \<Rightarrow> string \<Rightarrow> string \<Rightarrow> string option" where
  "catalog_refusal catalog component module =
     (case catalog of
        None \<Rightarrow> None
      | Some GetModule \<Rightarrow>
        (case GetModule module of
           Inl err \<Rightarrow> Some (''failed to lookup module: '' @ err_msg err)
         | Inr None \<Rightarrow> Some (''module '' @ quoted module @ '' not found. Use list_modules to see available modules.'')
         | Inr (Some components) \<Rightarrow>
           if list_ex (\<lambda>c. ci_Name c = component) components then None
           else Some (''component '' @ quoted component @ '' not found in module '' @ quoted module @ ''. Available: '' @ list_v (map ci_Name components))))"

definition editFlowAddNode :: "'s edit_ctx \<Rightarrow> json gomap \<Rightarrow> 's \<Rightarrow> 's \<times> tool_result" where
  "editFlowAddNode ctx input st =
     (case ec_NodeAdder ctx of
        None \<Rightarrow> (st, refused ''node adder not configured'')
      | Some AddNode \<Rightarrow>
        (let component = arg input ''component''; module = arg input ''module''
         in if component = [] then (st, refused ''component is required for add_node'')
            else if module = [] then (st, refused ''module is required for add_node'')
            else
              (case catalog_refusal (ec_ModuleCatalog ctx) component module of
                 Some msg \<Rightarrow> (st, refused msg)
               | None \<Rightarrow>
                 (case AddNode component module st of
                    (st', Inl err) \<Rightarrow> (st', refused (''failed to add node: '' @ err_msg err))
                  | (st', Inr (nodeID, ports)) \<Rightarrow>
                    (st', done_with [(''node_id'', JStr nodeID), (''ports'', strings_json ports),
                      (''hint'', JStr ''Use edit_flow with action=add_edge to connect this node to other nodes.'')])))))"

text \<open>Both deletions are one operation of the flow modifier.\<close>

definition delete_element :: "'s edit_ctx \<Rightarrow> string \<Rightarrow> string \<Rightarrow> string \<Rightarrow> string \<Rightarrow> json gomap \<Rightarrow> 's \<Rightarrow> 's \<times> tool_result" where
  "delete_element ctx what key action typ_name input st =
     (case ec_FlowModifier ctx of
        None \<Rightarrow> (st, refused ''flow modifier not configured'')
      | Some ApplyFlowChanges \<Rightarrow>
        (let eid = arg input key
         in if eid = [] then (st, refused (key @ '' is required for '' @ action))
            else
              (case ApplyFlowChanges [(''delete'', eid, [(''type'', JStr typ_name)])] st of
                 (st', Inl err) \<Rightarrow> (st', refused (''failed to delete '' @ what @ '': '' @ err_msg err))
               | (st', Inr []) \<Rightarrow> (st', refused (''failed to delete '' @ what @ '': unknown error''))
               | (st', Inr ((success, msg) # _)) \<Rightarrow>
                 if \<not> success then (st', refused (''failed to delete '' @ what @ '': '' @ (if msg \<noteq> [] then msg else ''unknown error'')))
                 else (st', done_with [(''deleted'', JBool True), (key, JStr eid)]))))"

definition editFlowDeleteNode :: "'s edit_ctx \<Rightarrow> json gomap \<Rightarrow> 's \<Rightarrow> 's \<times> tool_result" where
  "editFlowDeleteNode ctx input st = delete_element ctx ''node'' ''node_id'' ''delete_node'' ''tinyNode'' input st"

definition editFlowDeleteEdge :: "'s edit_ctx \<Rightarrow> json gomap \<Rightarrow> 's \<Rightarrow> 's \<times> tool_result" where
  "editFlowDeleteEdge ctx input st = delete_element ctx ''edge'' ''edge_id'' ''delete_edge'' ''tinyEdge'' input st"

subsection \<open>Configuring an edge\<close>

definition refused_verdict :: "edit_verdict \<Rightarrow> tool_result" where
  "refused_verdict r =
     \<lparr>tr_Success = False,
      tr_Output = JObj ([(''valid'', JBool False), (''error'', JStr (vd_Error r))] @ (if vd_Hint r \<noteq> [] then [(''hint'', JStr (vd_Hint r))] else [])),
      tr_Error = vd_Error r\<rparr>"

definition filled_schema :: "edit_lib \<Rightarrow> component_info option \<Rightarrow> string \<Rightarrow> json gomap \<Rightarrow> json gomap \<Rightarrow> json gomap" where
  "filled_schema lib component port data schema =
     (case component of
        None \<Rightarrow> schema
      | Some ci \<Rightarrow> fillMissingSchemas data schema (configurableFieldsIn (el_codec lib) (portSchemaBytes (Some ci) port True)) None)"

definition node_component :: "'s edit_ctx \<Rightarrow> string \<Rightarrow> 's \<Rightarrow> component_info option" where
  "node_component ctx nodeID st =
     (case findNodeComponent (map_option (\<lambda>r. r st) (ec_ProjectReader ctx)) (ec_ModuleCatalog ctx) (ec_ProjectName ctx) nodeID of
        Inr component \<Rightarrow> component
      | Inl _ \<Rightarrow> None)"

definition edge_schema :: "edit_lib \<Rightarrow> 's edit_ctx \<Rightarrow> string \<Rightarrow> json gomap \<Rightarrow> json gomap \<Rightarrow> 's \<Rightarrow> json gomap option" where
  "edge_schema lib ctx edgeID config schema st =
     (if config = [] then Some schema
      else
        (case findEdgeTarget (map_option (\<lambda>r. r st) (ec_ProjectReader ctx)) (ec_ProjectName ctx) edgeID of
           None \<Rightarrow> None
         | Some (Inl _) \<Rightarrow> Some schema
         | Some (Inr (targetNodeID, targetPort)) \<Rightarrow>
           if targetNodeID = [] then Some schema
           else Some (filled_schema lib (node_component ctx targetNodeID st) targetPort config schema)))"

definition edge_configurer :: "edit_lib \<Rightarrow> 's edit_ctx \<Rightarrow> (string \<Rightarrow> json gomap \<Rightarrow> json gomap \<Rightarrow> string \<Rightarrow> 's \<Rightarrow> 's \<times> (go_error + edit_verdict)) \<Rightarrow>
    string \<Rightarrow> json gomap \<Rightarrow> json gomap \<Rightarrow> string \<Rightarrow> 's \<Rightarrow> ('s \<times> tool_result) option" where
  "edge_configurer lib ctx ConfigureEdge edgeID config schema traceID st =
     (case edge_schema lib ctx edgeID config schema st of
        None \<Rightarrow> None
      | Some edgeSchema \<Rightarrow>
        (case ConfigureEdge edgeID config edgeSchema traceID st of
           (st', Inl err) \<Rightarrow> Some (st', refused (''failed to configure edge: '' @ err_msg err))
         | (st', Inr r) \<Rightarrow>
           if \<not> vd_Valid r then Some (st', refused_verdict r)
           else Some (st', done_with ([(''valid'', JBool True), (''edge_id'', JStr edgeID), (''verified'', JBool (vd_Hint r = []))] @
                  (if vd_Hint r \<noteq> [] then [(''hint'', JStr (vd_Hint r))] else [])))))"

definition editFlowConfigureEdge :: "edit_lib \<Rightarrow> 's edit_ctx \<Rightarrow> json gomap \<Rightarrow> 's \<Rightarrow> ('s \<times> tool_result) option" where
  "editFlowConfigureEdge lib ctx input st =
     (case ec_EdgeConfigurer ctx of
        None \<Rightarrow> Some (st, refused ''edge configurer not configured'')
      | Some ConfigureEdge \<Rightarrow>
        (let edgeID = arg input ''edge_id''; configure = (\<lambda>config. edge_configurer lib ctx ConfigureEdge edgeID config (object_of (field input ''schema'')) (arg input ''trace_id'') st)
         in if edgeID = [] then Some (st, refused ''edge_id is required for configure_edge'')
            else
              (case field input ''configuration'' of
                 JObj config \<Rightarrow> configure config
               | JStr s \<Rightarrow>
                 (case el_unmarshal_map lib s of
                    Inl err \<Rightarrow> Some (st, refused (''configuration string is not valid JSON: '' @ err_msg err))
                  | Inr config \<Rightarrow> configure config)
               | _ \<Rightarrow> Some (st, refused ''configuration is required for configure_edge and must be a JSON object or JSON string''))))"

subsection \<open>Adding an edge\<close>

definition port_there :: "(string \<Rightarrow> string \<Rightarrow> 's \<Rightarrow> go_error + (json \<times> json) option) \<Rightarrow> string \<Rightarrow> string \<Rightarrow> 's \<Rightarrow> bool" where
  "port_there InspectPort node port st = (case InspectPort node port st of Inr _ \<Rightarrow> True | Inl _ \<Rightarrow> False)"

definition nodeHasPublishedPorts :: "'s edit_ctx \<Rightarrow> string \<Rightarrow> 's \<Rightarrow> bool" where
  "nodeHasPublishedPorts ctx nodeID st =
     (case ec_PortInspector ctx of None \<Rightarrow> False | Some InspectPort \<Rightarrow> port_there InspectPort nodeID ''_settings'' st)"

definition missing_end :: "'s edit_ctx \<Rightarrow> 's \<Rightarrow> string \<times> string \<times> string \<times> string \<Rightarrow> bool" where
  "missing_end ctx st e =
     (case (ec_PortInspector ctx, e) of
        (Some InspectPort, node, port, _) \<Rightarrow> \<not> port_there InspectPort node port st \<and> nodeHasPublishedPorts ctx node st
      | _ \<Rightarrow> False)"

definition target_hints :: "'s edit_ctx \<Rightarrow> string \<Rightarrow> string \<Rightarrow> 's \<Rightarrow> json gomap" where
  "target_hints ctx toNode toPort st =
     (case ec_PortInspector ctx of
        None \<Rightarrow> []
      | Some InspectPort \<Rightarrow>
        (case InspectPort toNode toPort st of
           Inr (Some (schema, example)) \<Rightarrow> [(''target_port_schema'', schema)] @ (if example \<noteq> JNull then [(''target_port_example'', example)] else [])
         | _ \<Rightarrow> []))"

definition created_edge :: "tool_result \<Rightarrow> string \<Rightarrow> tool_result" where
  "created_edge res edgeID = res\<lparr>tr_Output := JObj (set_field ''edge_created'' (JBool True) (set_field ''edge_id'' (JStr edgeID) (object_of (tr_Output res))))\<rparr>"

definition inline_configuration :: "json gomap \<Rightarrow> bool" where
  "inline_configuration input = (case field input ''configuration'' of JObj _ \<Rightarrow> True | JStr _ \<Rightarrow> True | _ \<Rightarrow> False)"

definition editFlowAddEdge :: "edit_lib \<Rightarrow> 's edit_ctx \<Rightarrow> json gomap \<Rightarrow> 's \<Rightarrow> ('s \<times> tool_result) option" where
  "editFlowAddEdge lib ctx input st =
     (case ec_EdgeAdder ctx of
        None \<Rightarrow> Some (st, refused ''edge adder not configured'')
      | Some AddEdge \<Rightarrow>
        (let fromNode = arg input ''from_node''; fromPort = arg input ''from_port''; toNode = arg input ''to_node''; toPort = arg input ''to_port''
         in if fromNode = [] \<or> fromPort = [] then Some (st, refused ''from_node and from_port are required for add_edge'')
            else if toNode = [] \<or> toPort = [] then Some (st, refused ''to_node and to_port are required for add_edge'')
            else
              (case find (missing_end ctx st) [(fromNode, fromPort, ''source'', ''output''), (toNode, toPort, ''target'', ''input'')] of
                 Some (node, port, side, kind) \<Rightarrow>
                   Some (st, refused (side @ '' port '' @ quoted port @ '' does not exist on node '' @ node @ '' '' @ emdash @
                     '' confirm the component'' @ [CHR 0x27] @ ''s '' @ kind @ '' ports with get_component_info''))
               | None \<Rightarrow>
                 (case AddEdge fromNode fromPort toNode toPort st of
                    (st', Inl err) \<Rightarrow> Some (st', refused (''failed to add edge: '' @ err_msg err))
                  | (st', Inr (edgeID, needs)) \<Rightarrow>
                    if inline_configuration input then
                      map_option (map_prod (\<lambda>s. s) (\<lambda>res. created_edge res edgeID)) (editFlowConfigureEdge lib ctx (set_field ''edge_id'' (JStr edgeID) input) st')
                    else
                      Some (st', done_with ([(''edge_id'', JStr edgeID), (''needs_configuration'', JBool needs)] @
                        (if needs then (''hint'', JStr ''Use edit_flow with action=configure_edge and configuration matching the target_port_schema below.'') #
                           target_hints ctx toNode toPort st' else [])))))))"

subsection \<open>Configuring a node\<close>

fun numberFrom :: "edit_lib \<Rightarrow> json \<Rightarrow> int option" where
  "numberFrom lib (JNum n) = Some (el_int lib n)"
| "numberFrom lib _ = None"

definition position_of :: "edit_lib \<Rightarrow> json gomap \<Rightarrow> (int \<times> int) option" where
  "position_of lib pos =
     (case (numberFrom lib (field pos ''x''), numberFrom lib (field pos ''y'')) of (Some x, Some y) \<Rightarrow> Some (x, y) | _ \<Rightarrow> None)"

definition positionFrom :: "edit_lib \<Rightarrow> json \<Rightarrow> (int \<times> int) option" where
  "positionFrom lib raw =
     (case raw of
        JObj pos \<Rightarrow> position_of lib pos
      | JStr s \<Rightarrow> (case el_unmarshal_map lib s of Inr pos \<Rightarrow> position_of lib pos | Inl _ \<Rightarrow> None)
      | _ \<Rightarrow> None)"

text \<open>The label and the position are written first; a failure of either ends the edit.\<close>

definition write_label :: "'s edit_ctx \<Rightarrow> string \<Rightarrow> json \<Rightarrow> 's \<Rightarrow> 's \<times> string option" where
  "write_label ctx nodeID raw st =
     (case json_string raw of
        None \<Rightarrow> (st, None)
      | Some label \<Rightarrow>
        (case ec_NodeLabeler ctx of
           None \<Rightarrow> (st, Some ''naming a node is not supported here'')
         | Some LabelNode \<Rightarrow>
           (case LabelNode nodeID label st of
              (st', Some err) \<Rightarrow> (st', Some (''failed to name node: '' @ err_msg err))
            | (st', None) \<Rightarrow> (st', None))))"

definition write_position :: "'s edit_ctx \<Rightarrow> string \<Rightarrow> (int \<times> int) option \<Rightarrow> 's \<Rightarrow> 's \<times> string option" where
  "write_position ctx nodeID position st =
     (case position of
        None \<Rightarrow> (st, None)
      | Some (x, y) \<Rightarrow>
        (case ec_NodeRepositioner ctx of
           None \<Rightarrow> (st, Some ''repositioning is not supported here'')
         | Some RepositionNode \<Rightarrow>
           (case RepositionNode nodeID x y st of
              (st', Some err) \<Rightarrow> (st', Some (''failed to reposition node: '' @ err_msg err))
            | (st', None) \<Rightarrow> (st', None))))"

definition settings_hint :: "edit_verdict \<Rightarrow> json gomap" where
  "settings_hint r =
     (let note = ''Settings may have changed available ports. Use these port names for edit_flow add_edge.''
      in if vd_Ports r \<noteq> [] then [(''ports'', strings_json (vd_Ports r)), (''hint'', JStr (if vd_Hint r \<noteq> [] then note @ '' '' @ vd_Hint r else note))]
         else if vd_Hint r \<noteq> [] then [(''hint'', JStr (vd_Hint r))]
         else [])"

definition configure_settings :: "edit_lib \<Rightarrow> 's edit_ctx \<Rightarrow> (string \<Rightarrow> json gomap \<Rightarrow> json gomap \<Rightarrow> 's \<Rightarrow> 's \<times> (go_error + edit_verdict)) \<Rightarrow>
    string \<Rightarrow> json gomap \<Rightarrow> json gomap \<Rightarrow> 's \<Rightarrow> 's \<times> tool_result" where
  "configure_settings lib ctx ConfigureNodeSettings nodeID settings schema st =
     (let settingsSchema = (if settings = [] then schema else filled_schema lib (node_component ctx nodeID st) ''_settings'' settings schema)
      in case ConfigureNodeSettings nodeID settings settingsSchema st of
           (st', Inl err) \<Rightarrow> (st', refused (''failed to configure node settings: '' @ err_msg err))
         | (st', Inr r) \<Rightarrow>
           if \<not> vd_Valid r then (st', refused_verdict r)
           else (st', done_with ([(''valid'', JBool True), (''node_id'', JStr nodeID)] @ settings_hint r)))"

definition placed :: "string \<Rightarrow> (int \<times> int) option \<Rightarrow> json \<Rightarrow> json gomap" where
  "placed nodeID position label =
     [(''node_id'', JStr nodeID)] @
     (case position of None \<Rightarrow> [] | Some (x, y) \<Rightarrow> [(''position'', JObj [(''x'', JNum (itoa x)), (''y'', JNum (itoa y))])]) @
     (case label of JStr l \<Rightarrow> [(''label'', JStr l)] | _ \<Rightarrow> [])"

definition editFlowConfigureNode :: "edit_lib \<Rightarrow> 's edit_ctx \<Rightarrow> json gomap \<Rightarrow> 's \<Rightarrow> 's \<times> tool_result" where
  "editFlowConfigureNode lib ctx input st =
     (case ec_NodeSettingsConfigurer ctx of
        None \<Rightarrow> (st, refused ''node settings configurer not configured'')
      | Some ConfigureNodeSettings \<Rightarrow>
        (let nodeID = arg input ''node_id''; schema = object_of (field input ''schema''); label = field input ''label'';
             position = positionFrom lib (field input ''position'')
         in if nodeID = [] then (st, refused ''node_id is required for configure_node'')
            else
              (case write_label ctx nodeID label st of
                 (st1, Some msg) \<Rightarrow> (st1, refused msg)
               | (st1, None) \<Rightarrow>
                 (case write_position ctx nodeID position st1 of
                    (st2, Some msg) \<Rightarrow> (st2, refused msg)
                  | (st2, None) \<Rightarrow>
                    (case field input ''settings'' of
                       JObj settings \<Rightarrow> configure_settings lib ctx ConfigureNodeSettings nodeID settings schema st2
                     | JStr s \<Rightarrow>
                       (case el_unmarshal_map lib s of
                          Inl err \<Rightarrow> (st2, refused (''settings string is not valid JSON: '' @ err_msg err))
                        | Inr settings \<Rightarrow> configure_settings lib ctx ConfigureNodeSettings nodeID settings schema st2)
                     | _ \<Rightarrow>
                       if position \<noteq> None \<or> json_string label \<noteq> None then (st2, done_with (placed nodeID position label))
                       else (st2, refused ''configure_node needs settings, a position, a label, or any combination''))))))"

subsection \<open>Sharing a node\<close>

definition stringsFrom :: "edit_lib \<Rightarrow> json \<Rightarrow> string list option" where
  "stringsFrom lib raw =
     (case raw of
        JArr v \<Rightarrow> if list_all (\<lambda>x. json_string x \<noteq> None) v then Some (map GetStr v) else None
      | JStr v \<Rightarrow>
        (let trimmed = trim_space v
         in if trimmed = [] then Some []
            else if has_prefix trimmed ''['' then el_unmarshal_strings lib trimmed
            else Some (filter (\<lambda>p. p \<noteq> []) (map trim_space (split_char (CHR '','') trimmed))))
      | _ \<Rightarrow> None)"

definition editFlowShareNode :: "edit_lib \<Rightarrow> 's edit_ctx \<Rightarrow> json gomap \<Rightarrow> 's \<Rightarrow> 's \<times> tool_result" where
  "editFlowShareNode lib ctx input st =
     (case ec_NodeSharer ctx of
        None \<Rightarrow> (st, refused ''sharing a node is not supported here'')
      | Some ShareNode \<Rightarrow>
        (let nodeID = arg input ''node_id''
         in if nodeID = [] then (st, refused ''node_id is required for share_node'')
            else
              (case stringsFrom lib (field input ''flows'') of
                 None \<Rightarrow> (st, refused ''flows must be an array of flow names for share_node (pass [] to un-share)'')
               | Some flows \<Rightarrow>
                 (case ShareNode nodeID flows st of
                    (st', Inl err) \<Rightarrow> (st', refused (''failed to share node: '' @ err_msg err))
                  | (st', Inr shared) \<Rightarrow>
                    (st', done_with [(''node_id'', JStr nodeID), (''flows'', strings_json shared),
                      (''hint'', JStr (if shared = [] then ''Node is no longer shared; only its own flow can see it.''
                         else ''Those flows can now wire to this node. It stays read-only there '' @ emdash @
                              '' it moves and configures only in the flow that owns it.''))])))))"

subsection \<open>The tool\<close>

definition scaffoldAfterEdgeChange :: "edit_lib \<Rightarrow> 's edit_ctx \<Rightarrow> 's \<times> tool_result \<Rightarrow> 's \<times> tool_result" where
  "scaffoldAfterEdgeChange lib ctx sr =
     (case sr of
        (st, res) \<Rightarrow>
          (case (ec_ScenarioManager ctx, ec_TinyNodeCRManager ctx) of
             (Some M, Some listCRs) \<Rightarrow>
               if \<not> tr_Success res then (st, res)
               else
                 (case ScaffoldLiveScenarios (el_marshal lib) (el_codec lib) (el_order lib) (Some M) (Some (listCRs st)) (ec_ProjectName ctx) st of
                    (st', written, warnings) \<Rightarrow>
                      (case tr_Output res of
                         JObj out \<Rightarrow>
                           (st', res\<lparr>tr_Output := JObj
                              ((if warnings \<noteq> [] then set_field ''scenario_warnings'' (strings_json warnings) else (\<lambda>o'. o'))
                                ((if 0 < written then set_field ''scenario_ports_scaffolded'' (JNum (itoa (int written))) else (\<lambda>o'. o')) out))\<rparr>)
                       | _ \<Rightarrow> (st', res)))
           | _ \<Rightarrow> (st, res)))"

definition Execute :: "edit_lib \<Rightarrow> 's edit_ctx \<Rightarrow> json gomap \<Rightarrow> 's \<Rightarrow> ('s \<times> tool_result) option" where
  "Execute lib ctx input st =
     (let action = arg input ''action''
      in if action = ''add_node'' then Some (editFlowAddNode ctx input st)
         else if action = ''delete_node'' then Some (editFlowDeleteNode ctx input st)
         else if action = ''add_edge'' then map_option (scaffoldAfterEdgeChange lib ctx) (editFlowAddEdge lib ctx input st)
         else if action = ''delete_edge'' then Some (editFlowDeleteEdge ctx input st)
         else if action = ''configure_edge'' then map_option (scaffoldAfterEdgeChange lib ctx) (editFlowConfigureEdge lib ctx input st)
         else if action = ''configure_node'' then Some (editFlowConfigureNode lib ctx input st)
         else if action = ''share_node'' then Some (editFlowShareNode lib ctx input st)
         else Some (st, refused (''unknown action '' @ quoted action @
           ''; expected add_node, delete_node, add_edge, delete_edge, configure_edge, configure_node, share_node'')))"

subsection \<open>Properties\<close>

lemma scaffold_keeps_failure: "\<not> tr_Success res \<Longrightarrow> scaffoldAfterEdgeChange lib ctx (st, res) = (st, res)"
  by (simp add: scaffoldAfterEdgeChange_def split: option.splits)

text \<open>No edge is made to a port that is known to be missing. When an end of the edge is not a port of its node and the node has published its
  ports, the edit is refused and leaves the platform as it was.\<close>

theorem no_edge_to_missing_port:
  assumes "ec_PortInspector ctx = Some InspectPort" "arg input ''action'' = ''add_edge''"
    and "(node, port) \<in> {(arg input ''from_node'', arg input ''from_port''), (arg input ''to_node'', arg input ''to_port'')}"
    and "\<not> port_there InspectPort node port st" "port_there InspectPort node ''_settings'' st"
  shows "\<exists>res. Execute lib ctx input st = Some (st, res) \<and> \<not> tr_Success res"
proof -
  let ?ends = "[(arg input ''from_node'', arg input ''from_port'', ''source'', ''output''), (arg input ''to_node'', arg input ''to_port'', ''target'', ''input'')]"
  have "missing_end ctx st (node, port, s, k)" for s k
    using assms(1,4,5) by (simp add: missing_end_def nodeHasPublishedPorts_def)
  then have "find (missing_end ctx st) ?ends \<noteq> None" using assms(3) by auto
  then obtain n p s k where "find (missing_end ctx st) ?ends = Some (n, p, s, k)" by (metis not_None_eq prod_cases4)
  then have "\<exists>res. editFlowAddEdge lib ctx input st = Some (st, res) \<and> \<not> tr_Success res"
    by (cases "ec_EdgeAdder ctx") (simp_all add: editFlowAddEdge_def Let_def refused_def)
  then obtain res where "editFlowAddEdge lib ctx input st = Some (st, res)" "\<not> tr_Success res" by blast
  then show ?thesis using assms(2) scaffold_keeps_failure [of res lib ctx st] by (simp add: Execute_def)
qed

text \<open>A refused edit may have changed the node. A label is written before the settings are looked at, so settings that are not valid JSON are reported as a failed
  edit of a node that has been renamed.\<close>

lemma refused_settings_keep_label:
  assumes "ec_NodeSettingsConfigurer ctx = Some conf" "ec_NodeLabeler ctx = Some LabelNode" "arg input ''node_id'' \<noteq> []"
    "field input ''label'' = JStr label" "LabelNode (arg input ''node_id'') label st = (st', None)"
    "field input ''position'' = JNull" "field input ''settings'' = JStr s" "el_unmarshal_map lib s = Inl err"
  shows "fst (editFlowConfigureNode lib ctx input st) = st'" "\<not> tr_Success (snd (editFlowConfigureNode lib ctx input st))"
  using assms by (simp_all add: editFlowConfigureNode_def Let_def write_label_def write_position_def positionFrom_def refused_def)

definition plain_edit_lib :: edit_lib where
  "plain_edit_lib =
     \<lparr>el_codec = \<lparr>jc_decode = (\<lambda>_. None), jc_encode = (\<lambda>_. None)\<rparr>, el_unmarshal_map = (\<lambda>_. Inr []), el_unmarshal_strings = (\<lambda>_. None),
      el_int = (\<lambda>_. 0), el_marshal = (\<lambda>_. Inr []), el_order = (\<lambda>xs. xs)\<rparr>"

definition one_node_ctx :: "nat edit_ctx" where
  "one_node_ctx =
     \<lparr>ec_ProjectName = ''p'', ec_ProjectReader = None, ec_ModuleCatalog = None, ec_NodeAdder = None, ec_FlowModifier = None,
      ec_EdgeAdder = Some (\<lambda>_ _ _ _ n. (Suc n, Inr (''e'', False))), ec_EdgeConfigurer = None, ec_NodeSettingsConfigurer = None, ec_NodeLabeler = None,
      ec_NodeRepositioner = None, ec_NodeSharer = None,
      ec_PortInspector = Some (\<lambda>node port _. if port = ''out'' then Inl (ErrNew ''no such port'') else Inr None),
      ec_ScenarioManager = None, ec_TinyNodeCRManager = None\<rparr>"

theorem no_edge_to_missing_port_witness:
  "\<exists>res. Execute plain_edit_lib one_node_ctx
      [(''action'', JStr ''add_edge''), (''from_node'', JStr ''a''), (''from_port'', JStr ''out''), (''to_node'', JStr ''b''), (''to_port'', JStr ''in'')] 0 = Some (0, res) \<and>
    \<not> tr_Success res"
  by (rule no_edge_to_missing_port [where node = "''a''" and port = "''out''" and InspectPort = "\<lambda>node port _. if port = ''out'' then Inl (ErrNew ''no such port'') else Inr None"])
    (simp_all add: one_node_ctx_def arg_def field_def port_there_def)

end
