(* ===== verification/Graph_Import.thy ===== *)
theory Graph_Import
  imports Flow_Elements
begin

section \<open>Importing a project\<close>

text \<open>
  \<open>src/pkg/utils/graph_import.go\<close>: the nodes rebuilt from the elements of an exported graph. \<open>import_validation.go\<close> and
  \<open>project_export.go\<close>: the checks an export has to pass before it is imported, and what is stripped from it.

  \<open>marshal\<close> is the JSON encoder; \<open>num\<close> reads a number; \<open>title\<close> is the title-casing of an external library. A node is a
  pointer in the map of the code: here the map holds the node and an edge updates it there.
\<close>

definition DashboardLabel :: string where "DashboardLabel = ''tinysystems.io/dashboard''"
definition DashboardPageAnnotation :: string where "DashboardPageAnnotation = ''tinysystems.io/dashboard-page''"
definition SharedWithFlowsAnnotation :: string where "SharedWithFlowsAnnotation = ''tinysystems.io/shared-with-flows''"
definition ComponentPosXAnnotation :: string where "ComponentPosXAnnotation = ''tinysystems.io/component-pos-x''"
definition ComponentPosYAnnotation :: string where "ComponentPosYAnnotation = ''tinysystems.io/component-pos-y''"
definition ComponentPosSpinAnnotation :: string where "ComponentPosSpinAnnotation = ''tinysystems.io/component-pos-spin''"
definition NodeLabelAnnotation :: string where "NodeLabelAnnotation = ''tinysystems.io/node-label''"
definition NodeCommentAnnotation :: string where "NodeCommentAnnotation = ''tinysystems.io/node-comment''"

subsection \<open>Rebuilding nodes\<close>

record imported_node =
  im_node :: tiny_node
  im_Annotations :: "string gomap"
  im_StatusModule :: string

record graph =
  gr_nodes :: "imported_node gomap"
  gr_order :: "string list"
  gr_errs :: "string list"

definition marshal_member :: "(json \<Rightarrow> go_error + bytes) \<Rightarrow> string \<Rightarrow> json \<Rightarrow> bytes option \<times> string list" where
  "marshal_member marshal what v =
     (if v = JNull then (None, [])
      else (case marshal v of Inr b \<Rightarrow> (Some b, []) | Inl err \<Rightarrow> (None, [what @ err_msg err])))"

definition bytes_of :: "bytes option \<Rightarrow> bytes" where
  "bytes_of b = (case b of None \<Rightarrow> [] | Some x \<Rightarrow> x)"

text \<open>A handle gives a port of the status and, on the target side, a configuration; errors do not stop it.\<close>

definition import_handle ::
  "(string \<Rightarrow> int) \<Rightarrow> (json \<Rightarrow> go_error + bytes) \<Rightarrow> string \<Rightarrow> json \<Rightarrow> port_status list \<times> port_config list \<times> string list" where
  "import_handle num marshal nodeID h =
     (case json_object h of
        None \<Rightarrow> ([], [], [])
      | Some handle \<Rightarrow>
        (let portID = GetStr (field handle ''id'')
         in if portID = [] then ([], [], [])
            else
              (let typ = GetStr (field handle ''type'');
                   where = ''node '' @ quoted nodeID @ '' port '' @ quoted portID;
                   (config, e1) = marshal_member marshal (where @ '': marshal config: '') (field handle ''configuration'');
                   (sch, e2) = marshal_member marshal (where @ '': marshal schema: '') (field handle ''schema'')
               in ([\<lparr>ps_Name = portID, ps_Label = GetStr (field handle ''label''), ps_Position = GetInt num (field handle ''position''),
                     ps_Source = (typ = ''source''), ps_Schema = sch, ps_Configuration = config\<rparr>],
                   (if typ = ''source'' \<or> (bytes_of config = [] \<and> bytes_of sch = []) then []
                    else [\<lparr>pc_From = [], pc_Port = portID, pc_Schema = bytes_of sch, pc_Configuration = bytes_of config, pc_FlowID = []\<rparr>]),
                   e1 @ e2))))"

definition add_if :: "bool \<Rightarrow> string \<Rightarrow> string \<Rightarrow> string gomap \<Rightarrow> string gomap" where
  "add_if b k v m = (if b then AList.update k v m else m)"

definition node_annotations :: "(string \<Rightarrow> int) \<Rightarrow> element \<Rightarrow> json gomap \<Rightarrow> string gomap" where
  "node_annotations num elem data =
     (let position = (case json_object (field elem ''position'') of None \<Rightarrow> [] | Some p \<Rightarrow> p);
          label = GetStr (field data ''label''); comment = GetStr (field elem ''comment'');
          page = GetStr (field data ''dashboard_page''); shared = GetStr (field data ''shared_with_flows'')
      in add_if (shared \<noteq> []) SharedWithFlowsAnnotation shared
           (add_if (page \<noteq> []) DashboardPageAnnotation page
             (add_if (comment \<noteq> []) NodeCommentAnnotation comment
               (add_if (label \<noteq> []) NodeLabelAnnotation label
                 [(ComponentPosXAnnotation, itoa (GetInt num (field position ''x''))),
                  (ComponentPosYAnnotation, itoa (GetInt num (field position ''y''))),
                  (ComponentPosSpinAnnotation, itoa (GetInt num (field data ''spin'')))]))))"

definition rebuild_node ::
  "(string \<Rightarrow> int) \<Rightarrow> (json \<Rightarrow> go_error + bytes) \<Rightarrow> string \<Rightarrow> string \<Rightarrow> element \<Rightarrow> json gomap \<Rightarrow> imported_node \<times> string list" where
  "rebuild_node num marshal nodeID flowName elem data =
     (let handles = map (import_handle num marshal nodeID)
            (case json_array (field data ''handles'') of None \<Rightarrow> [] | Some hs \<Rightarrow> hs);
          dashboard = GetStr (field data ''dashboard'')
      in (\<lparr>im_node =
             \<lparr>tn_Name = nodeID, tn_Namespace = [],
              tn_Labels = add_if (dashboard \<noteq> []) DashboardLabel dashboard [(FlowNameLabel, flowName)],
              tn_Module = GetStr (field data ''module''), tn_Component = GetStr (field data ''component''),
              tn_Ports = concat (map (fst \<circ> snd) handles), tn_Edges = [],
              tn_Status =
                \<lparr>ns_Component = \<lparr>cs_Description = GetStr (field data ''component_description''),
                                cs_Info = GetStr (field data ''component_info''), cs_Tags = []\<rparr>,
                 ns_Ports = concat (map fst handles), ns_Status = [], ns_Metadata = None, ns_Error = False\<rparr>\<rparr>,
           im_Annotations = node_annotations num elem data, im_StatusModule = GetStr (field data ''module'')\<rparr>,
          concat (map (snd \<circ> snd) handles)))"

definition add_err :: "string \<Rightarrow> graph \<Rightarrow> graph" where
  "add_err e g = g\<lparr>gr_errs := gr_errs g @ [e]\<rparr>"

definition import_node :: "(string \<Rightarrow> int) \<Rightarrow> (json \<Rightarrow> go_error + bytes) \<Rightarrow> element \<Rightarrow> graph \<Rightarrow> graph" where
  "import_node num marshal elem g =
     (case IsNode elem of
        None \<Rightarrow> g
      | Some data \<Rightarrow>
        (let nodeID = GetStr (field elem ''id''); flowName = GetStr (field elem ''flow'')
         in if nodeID = [] then add_err ''node element has no id'' g
            else if map_of (gr_nodes g) nodeID \<noteq> None then add_err (''duplicate node id '' @ quoted nodeID) g
            else if GetStr (field data ''component'') = [] \<or> GetStr (field data ''module'') = []
              then add_err (''node '' @ quoted nodeID @ '' has no component/module'') g
            else if flowName = [] then add_err (''node '' @ quoted nodeID @ '' has no flow'') g
            else (case rebuild_node num marshal nodeID flowName elem data of
                    (node, errs) \<Rightarrow>
                      \<lparr>gr_nodes = AList.update nodeID node (gr_nodes g), gr_order = gr_order g @ [nodeID], gr_errs = gr_errs g @ errs\<rparr>)))"

definition update_node :: "string \<Rightarrow> (tiny_node \<Rightarrow> tiny_node) \<Rightarrow> graph \<Rightarrow> graph" where
  "update_node nodeID f g =
     (case map_of (gr_nodes g) nodeID of
        None \<Rightarrow> g
      | Some n \<Rightarrow> g\<lparr>gr_nodes := AList.update nodeID (n\<lparr>im_node := f (im_node n)\<rparr>) (gr_nodes g)\<rparr>)"

definition imported_edge :: "element \<Rightarrow> tiny_edge" where
  "imported_edge elem =
     (let source = GetStr (field elem ''source''); sourceHandle = GetStr (field elem ''sourceHandle'');
          target = GetStr (field elem ''target''); targetHandle = GetStr (field elem ''targetHandle''); i = GetStr (field elem ''id'')
      in \<lparr>ed_ID = (if i = [] then source @ ''_'' @ sourceHandle @ ''-'' @ target @ ''_'' @ targetHandle else i), ed_Port = sourceHandle,
          ed_To = target @ '':'' @ targetHandle, ed_FlowID = GetStr (field elem ''flow''), ed_RetryPolicy = None\<rparr>)"

definition import_edge_config :: "(json \<Rightarrow> go_error + bytes) \<Rightarrow> element \<Rightarrow> port_config list \<times> string list" where
  "import_edge_config marshal elem =
     (case json_object (field elem ''data'') of
        None \<Rightarrow> ([], [])
      | Some edgeData \<Rightarrow>
        (let edgeID = ed_ID (imported_edge elem);
             (config, e1) = marshal_member marshal (''edge '' @ edgeID @ '': marshal config: '') (field edgeData ''configuration'');
             (sch, e2) = marshal_member marshal (''edge '' @ edgeID @ '': marshal schema: '') (field edgeData ''schema'')
         in (if bytes_of config = [] \<and> bytes_of sch = [] then []
             else [\<lparr>pc_From = GetStr (field elem ''source'') @ '':'' @ GetStr (field elem ''sourceHandle''),
                    pc_Port = GetStr (field elem ''targetHandle''), pc_Schema = bytes_of sch, pc_Configuration = bytes_of config,
                    pc_FlowID = GetStr (field elem ''flow'')\<rparr>],
             e1 @ e2)))"

definition import_edge :: "(json \<Rightarrow> go_error + bytes) \<Rightarrow> element \<Rightarrow> graph \<Rightarrow> graph" where
  "import_edge marshal elem g =
     (if \<not> IsEdge elem then g
      else
        (let source = GetStr (field elem ''source''); target = GetStr (field elem ''target'')
         in if map_of (gr_nodes g) source = None \<or> map_of (gr_nodes g) target = None
            then add_err (''edge '' @ source @ '':'' @ GetStr (field elem ''sourceHandle'') @ '' -> '' @ target @ '':'' @
                   GetStr (field elem ''targetHandle'') @ '' references a node that is not in the payload'') g
            else
              (case import_edge_config marshal elem of
                 (configs, errs) \<Rightarrow>
                   (let g1 = update_node source (\<lambda>n. n\<lparr>tn_Edges := tn_Edges n @ [imported_edge elem]\<rparr>) g;
                        g2 = update_node target (\<lambda>n. n\<lparr>tn_Ports := tn_Ports n @ configs\<rparr>) g1
                    in g2\<lparr>gr_errs := gr_errs g2 @ errs\<rparr>))))"

definition NodesFromGraphElements :: "(string \<Rightarrow> int) \<Rightarrow> (json \<Rightarrow> go_error + bytes) \<Rightarrow> element list \<Rightarrow> graph" where
  "NodesFromGraphElements num marshal elements =
     fold (import_edge marshal) elements
       (fold (import_node num marshal) elements \<lparr>gr_nodes = [], gr_order = [], gr_errs = []\<rparr>)"

subsection \<open>The export\<close>

record export_flow =
  ef_ResourceName :: string
  ef_Name :: string

record export_widget =
  ew_Port :: string
  ew_Name :: string
  ew_SchemaPatch :: bytes

record export_page =
  ep_Name :: string
  ep_Title :: string
  ep_Widgets :: "export_widget list"

record project_export =
  px_TinyFlows :: "export_flow list"
  px_Elements :: "element list"
  px_Pages :: "export_page list"

text \<open>The generated \<open>path\<close> of a definition is not exported. A schema is a decoded object here.\<close>

definition strip_def :: "json \<Rightarrow> json" where
  "strip_def d =
     (case d of
        JObj ms \<Rightarrow> (case field ms ''path'' of JStr p \<Rightarrow> if has_prefix p ''$'' then JObj (AList.delete ''path'' ms) else d | _ \<Rightarrow> d)
      | _ \<Rightarrow> d)"

definition stripPathFromSchema :: "json gomap \<Rightarrow> json gomap" where
  "stripPathFromSchema handle =
     (case json_object (field handle ''schema'') of
        None \<Rightarrow> handle
      | Some schemaMap \<Rightarrow>
        (case json_object (field schemaMap ''$defs'') of
           None \<Rightarrow> handle
         | Some defs \<Rightarrow>
           set_field ''schema'' (JObj (set_field ''$defs'' (JObj (map (\<lambda>(k, d). (k, strip_def d)) defs)) schemaMap)) handle))"

definition strip_element :: "element \<Rightarrow> element" where
  "strip_element elem =
     (if field elem ''type'' \<noteq> JStr TinyNodeType then elem
      else
        (case json_object (field elem ''data'') of
           None \<Rightarrow> elem
         | Some data \<Rightarrow>
           (case json_array (field data ''handles'') of
              None \<Rightarrow> elem
            | Some hs \<Rightarrow>
              set_field ''data'' (JObj (set_field ''handles''
                (JArr (map (\<lambda>h. case json_object h of None \<Rightarrow> h | Some m \<Rightarrow> JObj (stripPathFromSchema m)) hs)) data)) elem)))"

definition StripSchemaInternalFields :: "project_export \<Rightarrow> project_export" where
  "StripSchemaInternalFields data = data\<lparr>px_Elements := map strip_element (px_Elements data)\<rparr>"

definition TranslateWidgetPort :: "string \<Rightarrow> string gomap \<Rightarrow> (string \<times> bool)" where
  "TranslateWidgetPort name nodeIDMap =
     (case split_char_n 2 (CHR '':'') name of
        [oldNodeID, portName] \<Rightarrow>
          (case map_of nodeIDMap oldNodeID of
             None \<Rightarrow> ([], False)
           | Some newNodeName \<Rightarrow> if newNodeName = [] then ([], False) else (newNodeName @ '':'' @ portName, True))
      | _ \<Rightarrow> ([], False))"

end
