(* ===== verification/Solution_Rules.thy ===== *)
theory Solution_Rules
  imports Derived_Schemas Graph_Import
begin

section \<open>Rules for a published solution\<close>

text \<open>
  \<open>src/pkg/solution/validate.go\<close>: what a dashboard widget of a published solution must not do. The nodes are a list in the order the Go
  map is read in. A settings document is decoded into a struct with one field: every member whose name is that of the field up to case is decoded
  into the same map, in the order of the document, and a null makes the map nil again.
\<close>

definition context_members :: "json gomap \<Rightarrow> json list" where
  "context_members ms = map snd (filter (\<lambda>m. equal_fold (fst m) ''context'') ms)"

definition settingsContextFields :: "json_codec \<Rightarrow> tiny_node \<Rightarrow> string list" where
  "settingsContextFields codec node =
     (case find (\<lambda>pc. pc_Port pc = SettingsPort \<and> pc_Configuration pc \<noteq> []) (tn_Ports node) of
        None \<Rightarrow> []
      | Some pc \<Rightarrow>
        (case decode_map codec (pc_Configuration pc) of
           None \<Rightarrow> []
         | Some ms \<Rightarrow>
           if list_ex (\<lambda>v. v \<noteq> JNull \<and> json_object v = None) (context_members ms) then []
           else sort (remdups (fold (\<lambda>v flds. if v = JNull then [] else flds @ map fst (object_of v)) (context_members ms) []))))"

definition without_field :: "string list \<Rightarrow> string \<Rightarrow> string list" where
  "without_field flds dropped = filter (\<lambda>f. f \<noteq> dropped) flds"

definition shortNodeName :: "string \<Rightarrow> string" where
  "shortNodeName name =
     (let after = last (split_char (CHR ''.'') name)
      in if CHR ''.'' \<in> set name \<and> after \<noteq> [] then after else name)"

definition feedsPersistedConfig :: "tiny_node \<Rightarrow> bool" where
  "feedsPersistedConfig node =
     (tn_Edges node \<noteq> [] \<and>
      list_all (\<lambda>e. let parts = split_char_n 2 (CHR '':'') (ed_To e) in length parts = 2 \<and> parts ! 1 = ''config'') (tn_Edges node))"

fun schemaHasProperty :: "json \<Rightarrow> string \<Rightarrow> bool" where
  "schemaHasProperty (JObj x) want =
     (map_of (object_of (field x ''properties'')) want \<noteq> None \<or> list_ex (\<lambda>m. schemaHasProperty (snd m) want) x)"
| "schemaHasProperty (JArr x) want = list_ex (\<lambda>v. schemaHasProperty v want) x"
| "schemaHasProperty _ want = False"

definition isPerRunTrigger :: "json_codec \<Rightarrow> tiny_node \<Rightarrow> bool" where
  "isPerRunTrigger codec node =
     (case find (\<lambda>ps. ps_Name ps = ControlPort \<and> ps_Schema ps \<noteq> None \<and> ps_Schema ps \<noteq> Some []) (ns_Ports (tn_Status node)) of
        None \<Rightarrow> False
      | Some ps \<Rightarrow>
        (case decode_map codec (the (ps_Schema ps)) of
           None \<Rightarrow> False
         | Some schema \<Rightarrow> schemaHasProperty (JObj schema) ''send''))"

text \<open>The two rules on one widget.\<close>

definition credential_problem :: "json_codec \<Rightarrow> string \<Rightarrow> tiny_node \<Rightarrow> string list" where
  "credential_problem codec short node =
     (let flds = settingsContextFields codec node
      in if isPerRunTrigger codec node \<and> \<not> feedsPersistedConfig node \<and> 1 < length flds then
           (case find IsSecretKey flds of
              None \<Rightarrow> []
            | Some f \<Rightarrow>
              [short @ '': widget form carries the credential '' @ quoted f @ '' alongside per-run inputs '' @ list_v (without_field flds f) @ '' '' @ emdash @
               '' send the credential once into inject.config from its own widget, and keep this form to what changes per run''])
         else [])"

definition whole_message :: "json \<Rightarrow> bool" where
  "whole_message v = (case v of JStr s \<Rightarrow> trim_space s = ''{{$}}'' | _ \<Rightarrow> False)"

definition message_problems :: "json_codec \<Rightarrow> string \<Rightarrow> port_config \<Rightarrow> string list" where
  "message_problems codec short pc =
     (if pc_From pc = [] \<or> pc_Configuration pc = [] then []
      else
        (case decode_map codec (pc_Configuration pc) of
           None \<Rightarrow> []
         | Some cfg \<Rightarrow>
           map (\<lambda>m. short @ '': widget input '' @ quoted (fst m) @ '' maps the whole message ({{$}}) '' @ emdash @
                  '' map the specific value a person reads, e.g. {'' @ quoted ''answer'' @ '': '' @ quoted ''{{$.outputData.messages[0].content}}'' @ ''}'')
             (filter (\<lambda>m. whole_message (snd m)) cfg)))"

definition widget_problems :: "json_codec \<Rightarrow> string \<times> tiny_node \<Rightarrow> string list" where
  "widget_problems codec nn =
     (if get_label (tn_Labels (snd nn)) DashboardLabel = [] then []
      else
        (let short = shortNodeName (fst nn)
         in credential_problem codec short (snd nn) @ concat (map (message_problems codec short) (tn_Ports (snd nn)))))"

definition CheckWidgetShape :: "json_codec \<Rightarrow> tiny_node gomap \<Rightarrow> go_error option" where
  "CheckWidgetShape codec nodesMap =
     (let problems = sort (concat (map (widget_problems codec) nodesMap))
      in if problems = [] then None
         else Some (ErrNew (itoa (int (length problems)) @ '' dashboard widget(s) would confuse whoever installs this:'' @ [CHR 0x0A] @ ''  '' @
                join_str ([CHR 0x0A] @ ''  '') problems)))"

subsection \<open>Properties\<close>

text \<open>What makes a widget acceptable.\<close>

definition sound_widget :: "json_codec \<Rightarrow> tiny_node \<Rightarrow> bool" where
  "sound_widget codec node \<longleftrightarrow>
     (isPerRunTrigger codec node \<longrightarrow> feedsPersistedConfig node \<or>
        \<not> (\<exists>f \<in> set (settingsContextFields codec node). \<exists>g \<in> set (settingsContextFields codec node). f \<noteq> g \<and> IsSecretKey f)) \<and>
     (\<forall>pc \<in> set (tn_Ports node). \<forall>cfg. pc_From pc \<noteq> [] \<longrightarrow> pc_Configuration pc \<noteq> [] \<longrightarrow> decode_map codec (pc_Configuration pc) = Some cfg \<longrightarrow>
        (\<forall>m \<in> set cfg. \<not> whole_message (snd m)))"

lemma distinct_settingsContextFields: "distinct (settingsContextFields codec node)"
  by (auto simp: settingsContextFields_def split: option.splits)

lemma sort_Nil_iff: "sort xs = [] \<longleftrightarrow> xs = []"
  by (metis length_0_conv length_sort)

lemma find_None_set: "find P xs = None \<longleftrightarrow> (\<forall>x \<in> set xs. \<not> P x)"
  by (auto simp: find_None_iff)

lemma credential_problem_iff:
  "credential_problem codec short node = [] \<longleftrightarrow>
     (isPerRunTrigger codec node \<longrightarrow> feedsPersistedConfig node \<or>
        \<not> (\<exists>f \<in> set (settingsContextFields codec node). \<exists>g \<in> set (settingsContextFields codec node). f \<noteq> g \<and> IsSecretKey f))"
proof -
  let ?flds = "settingsContextFields codec node"
  have d: "(\<exists>f \<in> set ?flds. \<exists>g \<in> set ?flds. f \<noteq> g \<and> IsSecretKey f) \<longleftrightarrow> 1 < length ?flds \<and> find IsSecretKey ?flds \<noteq> None"
  proof (cases "1 < length ?flds")
    case True
    have "\<exists>g \<in> set ?flds. f \<noteq> g" if "f \<in> set ?flds" for f
    proof (rule ccontr)
      assume "\<not> (\<exists>g \<in> set ?flds. f \<noteq> g)"
      then have "set ?flds \<subseteq> {f}" by auto
      then have "card (set ?flds) \<le> 1" using card_mono [of "{f}" "set ?flds"] by simp
      then show False using True distinct_card [OF distinct_settingsContextFields, of codec node] by simp
    qed
    then show ?thesis using True by (auto simp: find_None_set)
  next
    case False
    then show ?thesis by (cases ?flds; cases "tl ?flds") auto
  qed
  show ?thesis unfolding d credential_problem_def by (auto simp: Let_def split: option.splits)
qed

lemma message_problems_iff:
  "message_problems codec short pc = [] \<longleftrightarrow>
     (\<forall>cfg. pc_From pc \<noteq> [] \<longrightarrow> pc_Configuration pc \<noteq> [] \<longrightarrow> decode_map codec (pc_Configuration pc) = Some cfg \<longrightarrow> (\<forall>m \<in> set cfg. \<not> whole_message (snd m)))"
  by (auto simp: message_problems_def filter_empty_conv split: option.splits)

text \<open>C40: the verdict on the widgets of a solution is exact and does not depend on the order in which the nodes are read. A solution passes
  exactly when no node on the dashboard has a form submitted on each run, other than one that feeds a persisted configuration, in which a credential
  stands beside another field, and none maps an input to the whole message. A form whose only field is a credential passes. Two readings of the same
  nodes in different orders give the same verdict with the same text.\<close>

theorem widget_verdict:
  "(CheckWidgetShape codec nodes = None \<longleftrightarrow>
      (\<forall>(name, node) \<in> set nodes. get_label (tn_Labels node) DashboardLabel \<noteq> [] \<longrightarrow> sound_widget codec node)) \<and>
   (\<forall>nodes'. mset nodes' = mset nodes \<longrightarrow> CheckWidgetShape codec nodes' = CheckWidgetShape codec nodes)"
proof (intro conjI allI impI)
  have w: "widget_problems codec nn = [] \<longleftrightarrow> get_label (tn_Labels (snd nn)) DashboardLabel = [] \<or> sound_widget codec (snd nn)" for nn
    unfolding widget_problems_def sound_widget_def by (simp add: Let_def credential_problem_iff message_problems_iff)
  have "CheckWidgetShape codec nodes = None \<longleftrightarrow> (\<forall>nn \<in> set nodes. widget_problems codec nn = [])"
    by (simp add: CheckWidgetShape_def Let_def sort_Nil_iff)
  then show "CheckWidgetShape codec nodes = None \<longleftrightarrow>
      (\<forall>(name, node) \<in> set nodes. get_label (tn_Labels node) DashboardLabel \<noteq> [] \<longrightarrow> sound_widget codec node)" by (auto simp: w)
next
  fix nodes'
  assume m: "mset nodes' = mset nodes"
  have "mset (concat (map f nodes')) = mset (concat (map f nodes))" for f :: "string \<times> tiny_node \<Rightarrow> string list"
  proof -
    have "mset (concat (map f xs)) = sum_mset (image_mset (mset \<circ> f) (mset xs))" for xs by (induction xs) simp_all
    then show ?thesis using m by simp
  qed
  then have "sort (concat (map (widget_problems codec) nodes')) = sort (concat (map (widget_problems codec) nodes))"
    by (metis properties_for_sort mset_sort sorted_sort)
  then show "CheckWidgetShape codec nodes' = CheckWidgetShape codec nodes" by (simp add: CheckWidgetShape_def)
qed

definition form_codec :: json_codec where
  "form_codec =
     \<lparr>jc_decode = (\<lambda>b. if b = ''T'' then Some (JObj [(''properties'', JObj [(''send'', JObj [])])])
                     else if b = ''F'' then Some (JObj [(''context'', JObj [(''apiKey'', JStr []), (''question'', JStr [])])])
                     else None),
      jc_encode = (\<lambda>_. None)\<rparr>"

definition form_node :: tiny_node where
  "form_node =
     sample_node\<lparr>tn_Labels := [(DashboardLabel, ''true'')], tn_Edges := [],
       tn_Ports := [\<lparr>pc_From = [], pc_Port = SettingsPort, pc_Schema = [], pc_Configuration = ''F'', pc_FlowID = []\<rparr>],
       tn_Status := sample_status\<lparr>ns_Ports := [\<lparr>ps_Name = ControlPort, ps_Label = [], ps_Position = 0, ps_Source = False, ps_Schema = Some ''T'', ps_Configuration = None\<rparr>]\<rparr>\<rparr>"

theorem widget_verdict_witness:
  "CheckWidgetShape form_codec [(''f.form'', form_node)] \<noteq> None \<and>
   CheckWidgetShape form_codec [(''f.form'', form_node), (''f.b'', sample_node\<lparr>tn_Labels := []\<rparr>)] =
   CheckWidgetShape form_codec [(''f.b'', sample_node\<lparr>tn_Labels := []\<rparr>), (''f.form'', form_node)]"
proof -
  have p: "isPerRunTrigger form_codec form_node" "\<not> feedsPersistedConfig form_node" by code_simp+
  have f: "settingsContextFields form_codec form_node = [''apiKey'', ''question'']" by code_simp
  have s: "IsSecretKey ''apiKey''" by code_simp
  have d: "get_label (tn_Labels form_node) DashboardLabel \<noteq> []" by code_simp
  have "\<not> sound_widget form_codec form_node" unfolding sound_widget_def using p s by (auto simp: f)
  then have "CheckWidgetShape form_codec [(''f.form'', form_node)] \<noteq> None"
    using conjunct1 [OF widget_verdict [of form_codec "[(''f.form'', form_node)]"]] d by simp
  moreover have "mset [(''f.form'', form_node), (''f.b'', sample_node\<lparr>tn_Labels := []\<rparr>)] = mset [(''f.b'', sample_node\<lparr>tn_Labels := []\<rparr>), (''f.form'', form_node)]"
    by (simp only: mset.simps add_mset_commute)
  ultimately show ?thesis
    using conjunct2 [OF widget_verdict [of form_codec "[(''f.b'', sample_node\<lparr>tn_Labels := []\<rparr>), (''f.form'', form_node)]"]] by blast
qed

end
