(* ===== verification/Credential_Shapes.thy ===== *)
theory Credential_Shapes
  imports Redaction
begin

section \<open>Redaction by shape\<close>

text \<open>
  \<open>src/pkg/redact/shape.go\<close>. A regular expression of \<open>credentialShapes\<close> is a list of
  alternatives, tried in order, each a list of tokens: one unit, or at least \<open>n\<close> units matched
  greedily. A unit is a function that returns how many bytes of one accepted character stand at the
  head of a string, 0 if none. In every pattern of the list the unit after a repetition cannot
  match inside it, so the greedy choice needs no backtracking. \<open>replace_all\<close> is
  \<open>ReplaceAllString\<close>: it scans from the left and takes the match at the first position that has one.
\<close>

type_synonym unit_match = "string \<Rightarrow> nat"

datatype token = One unit_match | Many unit_match nat

subsection \<open>Matching\<close>

function many :: "unit_match \<Rightarrow> string \<Rightarrow> nat \<times> nat" where
  "many w s =
     (if s = [] \<or> w s = 0 then (0, 0)
      else (let (c, l) = many w (drop (w s) s) in (Suc c, l + w s)))"
  by pat_completeness auto
termination by (relation "measure (length \<circ> snd)") auto

declare many.simps [simp del]

fun seq_match :: "token list \<Rightarrow> string \<Rightarrow> nat option" where
  "seq_match [] s = Some 0"
| "seq_match (One w # ts) s =
     (if w s = 0 then None else map_option (\<lambda>n. n + w s) (seq_match ts (drop (w s) s)))"
| "seq_match (Many w k # ts) s =
     (case many w s of (c, l) \<Rightarrow>
        if c < k then None else map_option (\<lambda>n. n + l) (seq_match ts (drop l s)))"

definition alt_match :: "token list list \<Rightarrow> string \<Rightarrow> nat option" where
  "alt_match alts s = (case filter (\<lambda>ts. seq_match ts s \<noteq> None) alts of
     [] \<Rightarrow> None | ts # _ \<Rightarrow> seq_match ts s)"

function replace_all :: "(string \<Rightarrow> nat option) \<Rightarrow> string \<Rightarrow> string" where
  "replace_all m s =
     (if s = [] then []
      else case m s of
        Some n \<Rightarrow> if n = 0 then hd s # replace_all m (tl s) else Value @ replace_all m (drop n s)
      | None \<Rightarrow> hd s # replace_all m (tl s))"
  by pat_completeness auto
termination by (relation "measure (length \<circ> snd)") auto

declare replace_all.simps [simp del]

fun has_match :: "(string \<Rightarrow> nat option) \<Rightarrow> string \<Rightarrow> bool" where
  "has_match m [] = (m [] \<noteq> None)"
| "has_match m (c # s) = (m (c # s) \<noteq> None \<or> has_match m s)"

subsection \<open>The shapes\<close>

definition in_class :: "(char \<Rightarrow> bool) \<Rightarrow> unit_match" where
  "in_class P s = (case s of [] \<Rightarrow> 0 | c # _ \<Rightarrow> if P c then 1 else 0)"

definition lit :: "string \<Rightarrow> token list" where
  "lit s = map (\<lambda>c. One (in_class (\<lambda>d. d = c))) s"

definition exactly :: "(char \<Rightarrow> bool) \<Rightarrow> nat \<Rightarrow> token list" where
  "exactly P n = replicate n (One (in_class P))"

definition at_least :: "(char \<Rightarrow> bool) \<Rightarrow> nat \<Rightarrow> token list" where
  "at_least P n = [Many (in_class P) n]"

definition word_dash :: "char \<Rightarrow> bool" where
  "word_dash c = (is_alnum c \<or> c = CHR ''_'' \<or> c = CHR ''-'')"

definition upper_digit :: "char \<Rightarrow> bool" where
  "upper_digit c = (is_upper_ascii c \<or> is_digit c)"

text \<open>A letter of a case-insensitive literal; none of them folds with a character above ASCII.\<close>

definition fold_lit :: "string \<Rightarrow> token list" where
  "fold_lit s = map (\<lambda>c. One (in_class (\<lambda>d. lower_char d = c))) s"

definition re_space :: "char \<Rightarrow> bool" where
  "re_space c = (c = CHR '' '' \<or> c = CHR 0x09 \<or> c = CHR 0x0A \<or> c = CHR 0x0C \<or> c = CHR 0x0D)"

text \<open>
  The class \<open>[A-Za-z0-9_\-.=]\<close> under \<open>(?i)\<close>: its letters also accept U+017F (C5 BF) and U+212A
  (E2 84 AA).
\<close>

definition bearer_unit :: unit_match where
  "bearer_unit s =
     (case s of
        [] \<Rightarrow> 0
      | c # r \<Rightarrow>
        if word_dash c \<or> c = CHR ''.'' \<or> c = CHR ''='' then 1
        else if c = CHR 0xC5 \<and> take 1 r = [CHR 0xBF] then 2
        else if c = CHR 0xE2 \<and> take 2 r = [CHR 0x84, CHR 0xAA] then 3
        else 0)"

definition shape_anthropic :: "token list list" where
  "shape_anthropic = [lit ''sk-ant-'' @ at_least word_dash 6]"
definition shape_openai :: "token list list" where
  "shape_openai = [lit ''sk-'' @ lit ''proj-'' @ at_least word_dash 20, lit ''sk-'' @ at_least word_dash 20]"
definition shape_github :: "token list list" where
  "shape_github = [lit ''gh'' @ exactly (\<lambda>c. c \<in> set ''pousr'') 1 @ lit ''_'' @ at_least is_alnum 20]"
definition shape_github_pat :: "token list list" where
  "shape_github_pat = [lit ''github_pat_'' @ at_least (\<lambda>c. is_alnum c \<or> c = CHR ''_'') 20]"
definition shape_aws :: "token list list" where
  "shape_aws = [lit ''AKIA'' @ exactly upper_digit 16]"
definition shape_aws_tmp :: "token list list" where
  "shape_aws_tmp = [lit ''ASIA'' @ exactly upper_digit 16]"
definition shape_slack :: "token list list" where
  "shape_slack = [lit ''xox'' @ exactly (\<lambda>c. c \<in> set ''baprs'') 1 @ lit ''-''
     @ at_least (\<lambda>c. is_alnum c \<or> c = CHR ''-'') 10]"
definition shape_google :: "token list list" where
  "shape_google = [lit ''AIza'' @ exactly word_dash 35]"
definition shape_jwt :: "token list list" where
  "shape_jwt = [lit ''eyJ'' @ at_least word_dash 10 @ lit ''.'' @ at_least word_dash 10 @ lit ''.''
     @ at_least word_dash 10]"
definition shape_bearer :: "token list list" where
  "shape_bearer = [fold_lit ''bearer'' @ at_least re_space 1 @ [Many bearer_unit 20]]"

definition credentialShapes :: "token list list list" where
  "credentialShapes = [shape_anthropic, shape_openai, shape_github, shape_github_pat, shape_aws,
     shape_aws_tmp, shape_slack, shape_google, shape_jwt, shape_bearer]"

definition TextByShape :: "string \<Rightarrow> string \<times> bool" where
  "TextByShape s =
     (let out = foldl (\<lambda>out re. replace_all (alt_match re) out) s credentialShapes in (out, out \<noteq> s))"

fun SecretsByShape :: "json \<Rightarrow> json \<times> bool" where
  "SecretsByShape (JStr t) = (case TextByShape t of (r, did) \<Rightarrow> (JStr r, did))"
| "SecretsByShape (JArr vs) =
     (JArr (map (\<lambda>v. case SecretsByShape v of (r, did) \<Rightarrow> if did then r else v) vs),
      list_ex (\<lambda>v. snd (SecretsByShape v)) vs)"
| "SecretsByShape (JObj ms) =
     (JObj (map (\<lambda>m. case SecretsByShape (snd m) of (r, did) \<Rightarrow> if did then (fst m, r) else m) ms),
      list_ex (\<lambda>m. snd (SecretsByShape (snd m))) ms)"
| "SecretsByShape v = (v, False)"

text \<open>The encoder here escapes no HTML and its trailing newline is trimmed; both are in \<open>codec\<close>.\<close>

definition JSONByShape :: "json_codec \<Rightarrow> bytes \<Rightarrow> bytes option \<times> bool" where
  "JSONByShape codec data =
     (if data = [] then (Some data, False)
      else case jc_decode codec data of
        None \<Rightarrow>
          (let (masked, changed) = TextByShape data
           in if \<not> changed then (Some data, False) else (Some masked, True))
      | Some decoded \<Rightarrow>
          (let (replaced, changed) = SecretsByShape decoded
           in if \<not> changed then (Some data, False) else (jc_encode codec replaced, True)))"

subsection \<open>Masking with any local matcher\<close>

text \<open>
  What makes masking final: a match lies in bytes other than the marker's brackets, is decided by
  the bytes it covers, and does not occur in the marker itself.
\<close>

locale local_shape =
  fixes m :: "string \<Rightarrow> nat option"
  assumes match_len: "m s = Some n \<Longrightarrow> 0 < n \<and> n \<le> length s"
    and match_plain: "m s = Some n \<Longrightarrow> CHR ''<'' \<notin> set (take n s) \<and> CHR ''>'' \<notin> set (take n s)"
    and match_local: "m s = Some n \<Longrightarrow> m (take n s @ u) \<noteq> None"
    and marker_clean: "\<not> has_match m Value"
begin

lemma no_match_Nil: "m [] = None"
  using match_len [of "[]"] by (cases "m []") auto

lemma match_before: 
  assumes "m (x @ b # y) = Some n" "b = CHR ''<'' \<or> b = CHR ''>''"
  shows "m (x @ z) \<noteq> None"
proof -
  have "n \<le> length x"
  proof (rule ccontr)
    assume "\<not> n \<le> length x"
    then have "b \<in> set (take n (x @ b # y))" by (simp add: take_Cons' not_le)
    then show False using match_plain [OF assms(1)] assms(2) by auto
  qed
  then have "m (take n x @ u) \<noteq> None" for u using match_local [OF assms(1), of u] by simp
  then show ?thesis using \<open>n \<le> length x\<close> by (metis append_assoc append_take_drop_id)
qed

end

lemma has_match_iff: "has_match m s \<longleftrightarrow> (\<exists>p q. s = p @ q \<and> m q \<noteq> None)"
proof (induction s)
  case (Cons c s)
  then show ?case by (auto simp: Cons_eq_append_conv)
qed simp

lemma has_match_suffix: "has_match m q \<Longrightarrow> has_match m (p @ q)"
  by (induction p) auto

text \<open>The text up to the first replacement is unchanged, and a replacement starts with a bracket.\<close>

lemma replace_all_head:
  "\<exists>x y z. replace_all m s = x @ y \<and> s = x @ z \<and> (y = [] \<and> z = [] \<or> (\<exists>y'. y = CHR ''<'' # y'))"
proof (induction m s rule: replace_all.induct)
  case (1 m s)
  show ?case
  proof (cases "s = [] \<or> (\<exists>n. m s = Some n \<and> n \<noteq> 0)")
    case True
    then have "replace_all m s = [] @ replace_all m s \<and> s = [] @ s \<and>
        (replace_all m s = [] \<and> s = [] \<or> (\<exists>y'. replace_all m s = CHR ''<'' # y'))"
      by (subst (1 2 3 4) replace_all.simps) (auto simp: Value_def)
    then show ?thesis by blast
  next
    case False
    then have R: "replace_all m s = hd s # replace_all m (tl s)"
      by (subst replace_all.simps) (auto split: option.splits)
    have "\<exists>x y z. replace_all m (tl s) = x @ y \<and> tl s = x @ z \<and> (y = [] \<and> z = [] \<or> (\<exists>y'. y = CHR ''<'' # y'))"
      using 1 False by (cases "m s") auto
    then show ?thesis using False R by (metis append_Cons list.collapse)
  qed
qed

context local_shape
begin

lemma marker_suffix_clean:
  assumes "Value @ r = p @ q" "length p < length Value"
  shows "m q = None"
proof (rule ccontr)
  assume "m q \<noteq> None"
  then obtain n where n: "m q = Some n" by blast
  obtain v where v: "Value = p @ v @ ''>''" "q = v @ CHR ''>'' # r"
  proof -
    have "Value = butlast Value @ ''>''" by (simp add: Value_def)
    moreover have "length p \<le> length (butlast Value)" using assms(2) by (simp add: Value_def)
    ultimately have "p = take (length p) (butlast Value)" "q = drop (length p) (butlast Value) @ CHR ''>'' # r"
      using assms(1) by (metis append_assoc append_eq_append_conv_if take_append append.simps append_Nil2
          diff_is_0_eq take_0 append_eq_conv_conj, metis \<open>Value = butlast Value @ ''>''\<close> assms(1) append_assoc append_Cons append_Nil append_eq_conv_conj drop_append diff_is_0_eq drop_0)
    then show thesis using that \<open>Value = butlast Value @ ''>''\<close> by (metis append_assoc append_take_drop_id)
  qed
  have "m (v @ ''>'') \<noteq> None" using match_before [of v "CHR ''>''" r n "''>''"] n v(2) by simp
  then have "has_match m Value" unfolding has_match_iff v(1) by blast
  then show False using marker_clean by contradiction
qed

text \<open>
  Replacing with any matcher \<open>r\<close> leaves no match of \<open>m\<close> if \<open>m\<close> matches at no position that \<open>r\<close>
  leaves alone.
\<close>

lemma replace_all_no_match:
  "(\<And>p q. s = p @ q \<Longrightarrow> (case r q of Some n \<Rightarrow> n = 0 | None \<Rightarrow> True) \<Longrightarrow> m q = None) \<Longrightarrow>
   \<not> has_match m (replace_all r s)"
proof (induction r s rule: replace_all.induct)
  case (1 r s)
  show ?case
  proof (cases "s = []")
    case True
    then show ?thesis by (subst replace_all.simps) (simp add: no_match_Nil)
  next
    case ne: False
    show ?thesis
    proof (cases "\<exists>n. r s = Some n \<and> n \<noteq> 0")
      case True
      then obtain n where n: "r s = Some n" "n \<noteq> 0" by blast
      have R: "replace_all r s = Value @ replace_all r (drop n s)"
        using n ne by (subst replace_all.simps) simp
      have tail: "\<not> has_match m (replace_all r (drop n s))"
        using 1(3) [OF ne n(1,2)] 1(4) by (metis append_assoc append_take_drop_id)
      show ?thesis
      proof
        assume "has_match m (replace_all r s)"
        then obtain p q where pq: "Value @ replace_all r (drop n s) = p @ q" "m q \<noteq> None"
          unfolding R has_match_iff by auto
        show False
        proof (cases "length p < length Value")
          case True
          then show False using marker_suffix_clean [OF pq(1)] pq(2) by simp
        next
          case False
          then obtain p' where "replace_all r (drop n s) = p' @ q"
            using pq(1) by (metis append_eq_append_conv_if linorder_not_less)
          then show False using tail pq(2) unfolding has_match_iff by blast
        qed
      qed
    next
      case False
      then have c: "case r s of Some n \<Rightarrow> n = 0 | None \<Rightarrow> True" by (auto split: option.splits)
      have R: "replace_all r s = hd s # replace_all r (tl s)"
        using False ne by (subst replace_all.simps) (auto split: option.splits)
      have tail: "\<not> has_match m (replace_all r (tl s))"
      proof -
        have "m q = None" if "tl s = p @ q" "case r q of Some n \<Rightarrow> n = 0 | None \<Rightarrow> True" for p q
          using 1(4) [of "hd s # p" q] that ne by (metis append_Cons list.collapse)
        then show ?thesis using 1(1,2) ne False by (cases "r s") auto
      qed
      have "m (hd s # replace_all r (tl s)) = None"
      proof (rule ccontr)
        assume "m (hd s # replace_all r (tl s)) \<noteq> None"
        then obtain n where n: "m (hd s # replace_all r (tl s)) = Some n" by blast
        obtain x y z where xyz: "replace_all r (tl s) = x @ y" "tl s = x @ z"
          "y = [] \<and> z = [] \<or> (\<exists>y'. y = CHR ''<'' # y')" using replace_all_head by blast
        have "m (hd s # x @ z) \<noteq> None"
          using n xyz(1,3) match_before [of "hd s # x" "CHR ''<''" _ n z] by auto
        then have "m s \<noteq> None" using xyz(2) ne by (metis list.collapse)
        then show False using 1(4) [of "[]" s] c by simp
      qed
      then show ?thesis using R tail by simp
    qed
  qed
qed

lemma replace_own: "\<not> has_match m (replace_all m s)"
proof (rule replace_all_no_match)
  fix p q assume "case m q of Some n \<Rightarrow> n = 0 | None \<Rightarrow> True"
  then show "m q = None" using match_len [of q] by (auto split: option.splits)
qed

lemma replace_other: "\<not> has_match m s \<Longrightarrow> \<not> has_match m (replace_all r s)"
  by (rule replace_all_no_match) (auto simp: has_match_iff)

end

subsection \<open>The credential shapes are local\<close>

definition good_unit :: "unit_match \<Rightarrow> bool" where
  "good_unit w = (\<forall>s. w s \<le> length s \<and> CHR ''<'' \<notin> set (take (w s) s) \<and> CHR ''>'' \<notin> set (take (w s) s) \<and>
     (0 < w s \<longrightarrow> (\<forall>u. w (take (w s) s @ u) = w s)))"

lemma good_unitD:
  assumes "good_unit w"
  shows "w s \<le> length s" "CHR ''<'' \<notin> set (take (w s) s)" "CHR ''>'' \<notin> set (take (w s) s)"
    "0 < w s \<Longrightarrow> w (take (w s) s @ u) = w s"
  using assms unfolding good_unit_def by blast+

text \<open>The unit after a repetition does not match inside it.\<close>

fun stops :: "unit_match \<Rightarrow> token list \<Rightarrow> bool" where
  "stops w [] = True"
| "stops w (One v # ts) = (\<forall>s. 0 < v s \<longrightarrow> w s = 0)"
| "stops w (Many v k # ts) = (0 < k \<and> (\<forall>s. 0 < v s \<longrightarrow> w s = 0))"

fun wf_toks :: "token list \<Rightarrow> bool" where
  "wf_toks [] = True"
| "wf_toks (One w # ts) = (good_unit w \<and> wf_toks ts)"
| "wf_toks (Many w k # ts) = (good_unit w \<and> stops w ts \<and> wf_toks ts)"

definition clean_prefix :: "nat \<Rightarrow> string \<Rightarrow> bool" where
  "clean_prefix n s = (n \<le> length s \<and> CHR ''<'' \<notin> set (take n s) \<and> CHR ''>'' \<notin> set (take n s))"

lemma clean_prefix_add:
  "clean_prefix a s \<Longrightarrow> clean_prefix b (drop a s) \<Longrightarrow> clean_prefix (b + a) s"
  by (auto simp: clean_prefix_def take_add add.commute)

lemma good_unit_clean: "good_unit w \<Longrightarrow> clean_prefix (w s) s"
  by (simp add: clean_prefix_def good_unitD)

lemma many_clean: "good_unit w \<Longrightarrow> clean_prefix (snd (many w s)) s"
proof (induction w s rule: many.induct)
  case (1 w s)
  show ?case
  proof (cases "s = [] \<or> w s = 0")
    case True
    then show ?thesis by (subst many.simps) (auto simp: clean_prefix_def)
  next
    case False
    then show ?thesis using 1 clean_prefix_add [OF good_unit_clean]
      by (subst many.simps) (auto simp: case_prod_unfold Let_def)
  qed
qed

lemma many_split:
  "good_unit w \<Longrightarrow> many w (take (snd (many w s)) s @ u) =
     (fst (many w s) + fst (many w u), snd (many w s) + snd (many w u))"
proof (induction w s rule: many.induct)
  case (1 w s)
  show ?case
  proof (cases "s = [] \<or> w s = 0")
    case True
    then have "many w s = (0, 0)" by (subst many.simps) auto
    then show ?thesis by simp
  next
    case False
    let ?t = "drop (w s) s"
    have m: "many w s = (Suc (fst (many w ?t)), snd (many w ?t) + w s)"
      using False by (subst many.simps) (simp add: case_prod_unfold Let_def)
    have split: "take (snd (many w ?t) + w s) s @ u = take (w s) s @ (take (snd (many w ?t)) ?t @ u)"
      by (simp add: add.commute [of _ "w s"] take_add)
    have w: "w (take (w s) s @ x) = w s" for x using False good_unitD(4) [OF 1(2)] by simp
    have "length (take (w s) s) = w s" using good_unitD(1) [OF 1(2)] by simp
    then have "many w (take (w s) s @ x) = (Suc (fst (many w x)), snd (many w x) + w s)" for x
      using False w [of x] by (subst many.simps) (simp add: case_prod_unfold Let_def)
    then show ?thesis unfolding m fst_conv snd_conv split using 1(1) [OF False 1(2)] by simp
  qed
qed

lemma many_zero: "w s = 0 \<Longrightarrow> many w s = (0, 0)"
  by (subst many.simps) simp

lemma seq_match_clean: "wf_toks ts \<Longrightarrow> seq_match ts s = Some n \<Longrightarrow> clean_prefix n s"
proof (induction ts s arbitrary: n rule: seq_match.induct)
  case (1 s)
  then show ?case by (simp add: clean_prefix_def)
next
  case (2 w ts s)
  then show ?case using clean_prefix_add [OF good_unit_clean] by (auto split: if_splits)
next
  case (3 w k ts s)
  obtain c l where cl: "many w s = (c, l)" by fastforce
  have "clean_prefix l s" using many_clean [of w s] 3(2) cl by simp
  then show ?case using 3 cl clean_prefix_add by (auto split: if_splits)
qed

text \<open>Where the tokens after a repetition match, the repetition does not.\<close>

lemma stops_here:
  assumes "stops w ts" "wf_toks ts" "ts \<noteq> []" "seq_match ts s = Some n"
  shows "w (take n s @ u) = 0"
proof (cases ts)
  case (Cons t ts')
  show ?thesis
  proof (cases t)
    case (One v)
    have v: "0 < v s" "v s \<le> n" "good_unit v" using assms Cons One by (auto split: if_splits)
    then have "v (take (v s) s @ drop (v s) (take n s) @ u) = v s" using good_unitD(4) by blast
    moreover have "take (v s) s @ drop (v s) (take n s) @ u = take n s @ u"
      using v(2) by (metis append_assoc append_take_drop_id min.absorb1 take_take)
    ultimately show ?thesis using assms(1) Cons One v(1) by auto
  next
    case (Many v k)
    have k: "0 < k" "good_unit v" using assms Cons Many by auto
    have c: "0 < v s" "v s \<le> n"
      using assms(4) k(1) Cons Many
      by (auto simp: many.simps [of v s] case_prod_unfold Let_def split: if_splits)
    then have "v (take (v s) s @ drop (v s) (take n s) @ u) = v s" using good_unitD(4) [OF k(2)] by blast
    moreover have "take (v s) s @ drop (v s) (take n s) @ u = take n s @ u"
      using c(2) by (metis append_assoc append_take_drop_id min.absorb1 take_take)
    ultimately show ?thesis using assms(1) Cons Many c(1) by auto
  qed
qed (use assms in simp)

lemma seq_match_local: "wf_toks ts \<Longrightarrow> seq_match ts s = Some n \<Longrightarrow> seq_match ts (take n s @ u) \<noteq> None"
proof (induction ts s arbitrary: n rule: seq_match.induct)
  case (2 w ts s)
  obtain n' where n': "seq_match ts (drop (w s) s) = Some n'" "n = n' + w s" "w s \<noteq> 0" "good_unit w"
    using 2(2,3) by (auto split: if_splits)
  have "take n s @ u = take (w s) s @ (take n' (drop (w s) s) @ u)"
    by (simp add: n'(2) add.commute [of _ "w s"] take_add)
  moreover have "length (take (w s) s) = w s" using good_unitD(1) [OF n'(4)] by simp
  ultimately show ?case using 2(1) [OF n'(3) _ n'(1)] 2(2) good_unitD(4) [OF n'(4), of s] n'(3) by simp
next
  case (3 w k ts s)
  obtain c l where cl: "many w s = (c, l)" by fastforce
  obtain n' where n': "seq_match ts (drop l s) = Some n'" "n = n' + l" "\<not> c < k"
    using 3(3) cl by (auto split: if_splits)
  let ?t = "take n' (drop l s) @ u"
  have g: "good_unit w" using 3(2) by simp
  have len: "length (take l s) = l" using many_clean [OF g, of s] cl by (simp add: clean_prefix_def)
  have split: "take n s @ u = take l s @ ?t" by (simp add: n'(2) add.commute [of _ l] take_add)
  have m: "many w (take l s @ ?t) = (c + fst (many w ?t), l + snd (many w ?t))"
    using many_split [OF g, of s ?t] cl by simp
  show ?case
  proof (cases "ts = []")
    case True
    then show ?thesis using m n'(3) split by simp
  next
    case False
    then have "many w ?t = (0, 0)" using many_zero stops_here [OF _ _ False n'(1)] 3(2) by auto
    then have "seq_match (Many w k # ts) (take n s @ u) = map_option (\<lambda>n. n + l) (seq_match ts ?t)"
      unfolding split using m n'(3) len by simp
    moreover have "seq_match ts ?t \<noteq> None" using 3(1) [OF cl [symmetric] n'(3) _ n'(1)] 3(2) by simp
    ultimately show ?thesis by simp
  qed
qed simp

lemma seq_match_pos: "seq_match (One w # ts) s = Some n \<Longrightarrow> 0 < n"
  by (auto split: if_splits)

fun starts_one :: "token list \<Rightarrow> bool" where
  "starts_one (One w # ts) = True"
| "starts_one _ = False"

lemma alt_match_Some: "alt_match alts s = Some n \<Longrightarrow> \<exists>ts \<in> set alts. seq_match ts s = Some n"
  by (auto simp: alt_match_def filter_eq_Cons_iff split: list.splits)

lemma alt_match_None: "alt_match alts s = None \<Longrightarrow> ts \<in> set alts \<Longrightarrow> seq_match ts s = None"
  by (auto simp: alt_match_def filter_empty_conv filter_eq_Cons_iff split: list.splits)

lemma local_shape_alt:
  assumes "list_all (\<lambda>ts. wf_toks ts \<and> starts_one ts) alts" "\<not> has_match (alt_match alts) Value"
  shows "local_shape (alt_match alts)"
proof
  fix s n u assume "alt_match alts s = Some n"
  then obtain ts where ts: "ts \<in> set alts" "seq_match ts s = Some n" "wf_toks ts" "starts_one ts"
    using assms(1) by (auto simp: list_all_iff dest: alt_match_Some)
  show "0 < n \<and> n \<le> length s"
  proof
    obtain w ts' where "ts = One w # ts'" using ts(4) by (cases ts rule: starts_one.cases) auto
    then show "0 < n" using ts(2) seq_match_pos by blast
    show "n \<le> length s" using seq_match_clean [OF ts(3,2)] by (simp add: clean_prefix_def)
  qed
  show "CHR ''<'' \<notin> set (take n s) \<and> CHR ''>'' \<notin> set (take n s)"
    using seq_match_clean [OF ts(3,2)] by (simp add: clean_prefix_def)
  show "alt_match alts (take n s @ u) \<noteq> None"
    using seq_match_local [OF ts(3,2)] alt_match_None [OF _ ts(1)] by blast
next
  show "\<not> has_match (alt_match alts) Value" by (rule assms(2))
qed

lemma good_unit_class: "\<not> P (CHR ''<'') \<Longrightarrow> \<not> P (CHR ''>'') \<Longrightarrow> good_unit (in_class P)"
  by (auto simp: good_unit_def in_class_def split: list.splits)

lemma good_unit_bearer: "good_unit bearer_unit"
proof -
  have "w \<le> length s \<and> CHR ''<'' \<notin> set (take w s) \<and> CHR ''>'' \<notin> set (take w s) \<and>
      (0 < w \<longrightarrow> bearer_unit (take w s @ u) = w)" if "w = bearer_unit s" for s w u
  proof (cases s)
    case (Cons c r)
    consider (one) "word_dash c \<or> c = CHR ''.'' \<or> c = CHR ''=''"
      | (long_s) "c = CHR 0xC5" "take 1 r = [CHR 0xBF]"
      | (kelvin) "c = CHR 0xE2" "take 2 r = [CHR 0x84, CHR 0xAA]"
      | (none) "\<not> (word_dash c \<or> c = CHR ''.'' \<or> c = CHR ''='')"
          "\<not> (c = CHR 0xC5 \<and> take 1 r = [CHR 0xBF])"
          "\<not> (c = CHR 0xE2 \<and> take 2 r = [CHR 0x84, CHR 0xAA])" by blast
    then show ?thesis
    proof cases
      case one
      then show ?thesis using that Cons
        by (auto simp: bearer_unit_def word_dash_def is_alnum_def is_digit_def less_eq_char_def)
    next
      case long_s
      then obtain r' where "r = CHR 0xBF # r'" by (cases r) auto
      with long_s show ?thesis using that Cons
        by (simp add: bearer_unit_def word_dash_def is_alnum_def is_digit_def less_eq_char_def)
    next
      case kelvin
      then obtain r' where "r = CHR 0x84 # CHR 0xAA # r'" by (cases r; cases "tl r") auto
      with kelvin show ?thesis using that Cons
        by (simp add: bearer_unit_def word_dash_def is_alnum_def is_digit_def less_eq_char_def numeral_2_eq_2 numeral_3_eq_3)
    next
      case none
      then have "bearer_unit s = 0" using Cons by (simp only: bearer_unit_def list.case if_False)
      then show ?thesis using that by simp
    qed
  qed (simp add: that bearer_unit_def)
  then show ?thesis unfolding good_unit_def by blast
qed

lemma wf_toks_replicate: "wf_toks (replicate n (One w) @ ts) = ((n = 0 \<or> good_unit w) \<and> wf_toks ts)"
  by (induction n) auto

lemma wf_toks_replicate_last: "wf_toks (replicate n (One w)) = (n = 0 \<or> good_unit w)"
  using wf_toks_replicate [of n w "[]"] by simp

lemma stops_class: "\<not> P c \<Longrightarrow> stops (in_class P) (One (in_class (\<lambda>d. d = c)) # ts)"
  by (auto simp: in_class_def split: list.splits)

lemma stops_space: "stops (in_class re_space) (Many bearer_unit 20 # ts)"
  by (auto simp: in_class_def re_space_def bearer_unit_def word_dash_def is_alnum_def is_digit_def
      less_eq_char_def split: list.splits if_splits)

lemma classes_plain:
  "\<not> word_dash (CHR ''<'')" "\<not> word_dash (CHR ''>'')" "\<not> word_dash (CHR ''.'')"
  "\<not> is_alnum (CHR ''<'')" "\<not> is_alnum (CHR ''>'')" "\<not> upper_digit (CHR ''<'')" "\<not> upper_digit (CHR ''>'')"
  "\<not> re_space (CHR ''<'')" "\<not> re_space (CHR ''>'')"
  "lower_char (CHR ''<'') = CHR ''<''" "lower_char (CHR ''>'') = CHR ''>''"
  by (simp_all add: word_dash_def upper_digit_def is_alnum_def is_digit_def is_upper_ascii_def re_space_def
      lower_char_def less_eq_char_def)

lemmas shape_wf = lit_def fold_lit_def exactly_def at_least_def wf_toks_replicate wf_toks_replicate_last
  good_unit_class good_unit_bearer stops_class stops_space classes_plain

declare stops.simps(2,3) [simp del]

interpretation anthropic: local_shape "alt_match shape_anthropic"
  by (rule local_shape_alt) (simp add: shape_anthropic_def shape_wf, code_simp)

interpretation openai: local_shape "alt_match shape_openai"
  by (rule local_shape_alt) (simp add: shape_openai_def shape_wf, code_simp)

interpretation github: local_shape "alt_match shape_github"
  by (rule local_shape_alt) (simp add: shape_github_def shape_wf, code_simp)

interpretation github_pat: local_shape "alt_match shape_github_pat"
  by (rule local_shape_alt) (simp add: shape_github_pat_def shape_wf, code_simp)

interpretation aws: local_shape "alt_match shape_aws"
  by (rule local_shape_alt) (simp add: shape_aws_def shape_wf, code_simp)

interpretation aws_tmp: local_shape "alt_match shape_aws_tmp"
  by (rule local_shape_alt) (simp add: shape_aws_tmp_def shape_wf, code_simp)

interpretation slack: local_shape "alt_match shape_slack"
  by (rule local_shape_alt) (simp add: shape_slack_def shape_wf, code_simp)

interpretation google: local_shape "alt_match shape_google"
  by (rule local_shape_alt) (simp add: shape_google_def shape_wf, code_simp)

interpretation jwt: local_shape "alt_match shape_jwt"
  by (rule local_shape_alt) (simp add: shape_jwt_def shape_wf, code_simp)

interpretation bearer: local_shape "alt_match shape_bearer"
  by (rule local_shape_alt) (simp add: shape_bearer_def shape_wf, code_simp)

lemma credentialShapes_local: "re \<in> set credentialShapes \<Longrightarrow> local_shape (alt_match re)"
proof -
  have "list_all (\<lambda>re. local_shape (alt_match re)) credentialShapes"
    unfolding credentialShapes_def list.pred_inject
    by (intro conjI list.pred_inject(1) anthropic.local_shape_axioms openai.local_shape_axioms github.local_shape_axioms
        github_pat.local_shape_axioms aws.local_shape_axioms aws_tmp.local_shape_axioms
        slack.local_shape_axioms google.local_shape_axioms jwt.local_shape_axioms bearer.local_shape_axioms)
  then show "re \<in> set credentialShapes \<Longrightarrow> local_shape (alt_match re)" by (simp only: list_all_iff)
qed

text \<open>A pass over several shapes leaves no match of any of them, whatever order they are applied in.\<close>

lemma foldl_replace_keeps:
  "local_shape m \<Longrightarrow> \<not> has_match m s \<Longrightarrow> \<not> has_match m (foldl (\<lambda>out re. replace_all (alt_match re) out) s res)"
proof (induction res arbitrary: s)
  case (Cons re res)
  then show ?case using local_shape.replace_other [OF Cons.prems] by simp
qed simp

lemma foldl_replace_clean:
  "re \<in> set res \<Longrightarrow> local_shape (alt_match re) \<Longrightarrow>
   \<not> has_match (alt_match re) (foldl (\<lambda>out re. replace_all (alt_match re) out) s res)"
proof (induction res arbitrary: s)
  case (Cons r res)
  show ?case
  proof (cases "re \<in> set res")
    case True
    then show ?thesis using Cons by simp
  next
    case False
    then have "re = r" using Cons.prems(1) by simp
    then show ?thesis
      using foldl_replace_keeps [OF Cons.prems(2) local_shape.replace_own [OF Cons.prems(2)]] by simp
  qed
qed simp

lemma replace_all_id: "\<not> has_match m s \<Longrightarrow> replace_all m s = s"
proof (induction s)
  case (Cons c s)
  then show ?case by (subst replace_all.simps) simp
qed (simp add: replace_all.simps)

lemma foldl_replace_id:
  "list_all (\<lambda>re. \<not> has_match (alt_match re) s) res \<Longrightarrow>
   foldl (\<lambda>out re. replace_all (alt_match re) out) s res = s"
  by (induction res) (auto simp: replace_all_id)

lemma SecretsByShape_map_strings:
  "fst (SecretsByShape v) = map_strings (\<lambda>_ s. fst (TextByShape s)) k v \<and>
   (\<not> snd (SecretsByShape v) \<longrightarrow> fst (SecretsByShape v) = v)"
proof (induction v arbitrary: k rule: SecretsByShape.induct)
  case (1 t)
  then show ?case by (auto simp: TextByShape_def Let_def)
next
  case (2 vs)
  have "(case SecretsByShape v of (r, did) \<Rightarrow> if did then r else v) = map_strings (\<lambda>_ s. fst (TextByShape s)) k v"
    if "v \<in> set vs" for v
    using 2 [OF that, of k] by (cases "SecretsByShape v") auto
  then show ?case using 2 by (auto simp: list_ex_iff case_prod_unfold intro!: map_idI)
next
  case (3 ms)
  have "(case SecretsByShape (snd m) of (r, did) \<Rightarrow> if did then (fst m, r) else m) =
      (fst m, map_strings (\<lambda>_ s. fst (TextByShape s)) (fst m) (snd m))" if "m \<in> set ms" for m
    using 3 [OF that, of "fst m"] by (simp add: case_prod_unfold prod_eq_iff)
  then show ?case using 3 by (auto simp: list_ex_iff case_prod_unfold intro!: map_idI)
qed auto

subsection \<open>Properties\<close>

text \<open>Nothing credential-shaped survives masking. After \<open>TextByShape\<close> no position of the text
  matches any of the ten credential patterns, whatever the text was and although the passes run one
  after another and insert markers; text in which nothing matched is returned unchanged; masking a
  masked text changes nothing; and the flag says exactly whether the text changed.\<close>

theorem TextByShape_clean:
  "list_all (\<lambda>re. \<not> has_match (alt_match re) (fst (TextByShape s))) credentialShapes \<and>
   TextByShape (fst (TextByShape s)) = (fst (TextByShape s), False) \<and>
   (snd (TextByShape s) \<longleftrightarrow> list_ex (\<lambda>re. has_match (alt_match re) s) credentialShapes)"
proof -
  have clean: "list_all (\<lambda>re. \<not> has_match (alt_match re) (fst (TextByShape t))) credentialShapes" for t
    using foldl_replace_clean credentialShapes_local by (auto simp: list_all_iff TextByShape_def Let_def)
  have id: "TextByShape t = (t, False)"
    if "list_all (\<lambda>re. \<not> has_match (alt_match re) t) credentialShapes" for t
    using foldl_replace_id [OF that] by (simp add: TextByShape_def)
  have "snd (TextByShape s) \<longleftrightarrow> \<not> list_all (\<lambda>re. \<not> has_match (alt_match re) s) credentialShapes"
  proof
    assume "snd (TextByShape s)"
    then show "\<not> list_all (\<lambda>re. \<not> has_match (alt_match re) s) credentialShapes" using id [of s] by auto
  next
    assume "\<not> list_all (\<lambda>re. \<not> has_match (alt_match re) s) credentialShapes"
    then show "snd (TextByShape s)" using clean [of s] by (auto simp: TextByShape_def Let_def)
  qed
  then show ?thesis using clean id [OF clean] by (simp add: list_ex_iff list_all_iff)
qed

text \<open>Masking a decoded payload reaches every string of it. \<open>SecretsByShape\<close> keeps the shape of
  the document and replaces each string, at any depth, by its masked form.\<close>

theorem SecretsByShape_everywhere:
  "json_shape (fst (SecretsByShape v)) = json_shape v \<and>
   snd ` keyed_strings k (fst (SecretsByShape v)) = (\<lambda>s. fst (TextByShape s)) ` snd ` keyed_strings k v \<and>
   (\<not> snd (SecretsByShape v) \<longrightarrow> fst (SecretsByShape v) = v)"
proof -
  have e: "fst (SecretsByShape v) = map_strings (\<lambda>_ s. fst (TextByShape s)) k v"
    "\<not> snd (SecretsByShape v) \<longrightarrow> fst (SecretsByShape v) = v" using SecretsByShape_map_strings by blast+
  have "snd ` keyed_strings k (map_strings (\<lambda>_ s. fst (TextByShape s)) k v) =
      (\<lambda>s. fst (TextByShape s)) ` snd ` keyed_strings k v"
    by (simp add: map_strings_keyed image_image case_prod_unfold)
  then show ?thesis using e by (simp add: map_strings_shape)
qed

theorem SecretsByShape_everywhere_witness:
  "fst (SecretsByShape (JObj [(''a'', JStr ''plain'')])) = JObj [(''a'', JStr ''plain'')]"
proof -
  have "\<not> snd (SecretsByShape (JObj [(''a'', JStr ''plain'')]))" by code_simp
  then show ?thesis using SecretsByShape_everywhere by blast
qed

end
