(* ===== verification/Publish_Redaction.thy ===== *)
theory Publish_Redaction
  imports Credential_Shapes
begin

section \<open>What a published solution carries\<close>

text \<open>
  \<open>src/pkg/tools/graph_redact.go\<close> and \<open>scenario_capture.go\<close>: the passes over the elements of an export and over
  captured samples, and \<open>inferValueSchema\<close> of \<open>src/pkg/schema/json.go\<close>, which writes live values into the schemas an export
  carries. A configuration or schema of an element is a decoded document or still raw bytes; the JSON library is the
  codec of the redaction theory. Of an element only the slots the pass looks at are named; the rest is kept as it is.
  The keys of an object are distinct, as in a Go map, so writing a field is rewriting the members of that name.
\<close>

datatype doc = Decoded json | Raw bytes

record graph_slot =
  gs_configuration :: "doc option"
  gs_schema :: "doc option"
  gs_other :: "json gomap"

record graph_data = graph_slot +
  gd_handles :: "graph_slot option list"

record graph_element =
  ge_data :: "graph_data option"
  ge_other :: "json gomap"

definition PublishedSecretValue :: string where "PublishedSecretValue = []"

definition RedactSecrets :: "json \<Rightarrow> json" where
  "RedactSecrets v = fst (SecretsByShape (Secrets v))"

subsection \<open>Schemas\<close>

text \<open>The value-bearing fields of a property with a credential name.\<close>

definition blank_field :: "string \<Rightarrow> json \<Rightarrow> json" where
  "blank_field f v =
     (if f = ''default'' \<or> f = ''const'' then
        (case v of JStr s \<Rightarrow> if s \<noteq> [] \<and> \<not> IsExpression s then JStr PublishedSecretValue else v | _ \<Rightarrow> v)
      else if f = ''examples'' then
        (case v of JArr ex \<Rightarrow> JArr (map (\<lambda>e. case e of JStr _ \<Rightarrow> JStr Value | _ \<Rightarrow> e) ex) | _ \<Rightarrow> v)
      else v)"

fun redactSchemaValue :: "string \<Rightarrow> json \<Rightarrow> json" where
  "redactSchemaValue key (JObj x) =
     (let out = map (\<lambda>m. (fst m, redactSchemaValue (fst m) (snd m))) x
      in JObj (if key \<noteq> [] \<and> secretKeyRe key then map (\<lambda>m. (fst m, blank_field (fst m) (snd m))) out else out))"
| "redactSchemaValue key (JArr x) = JArr (map (redactSchemaValue key) x)"
| "redactSchemaValue key v = v"

definition RedactSchemaSecrets :: "json \<Rightarrow> json" where
  "RedactSchemaSecrets v = redactSchemaValue [] v"

subsection \<open>Blank rather than marked\<close>

fun replaceRedacted :: "json \<Rightarrow> json" where
  "replaceRedacted (JObj x) = JObj (map (\<lambda>m. (fst m, replaceRedacted (snd m))) x)"
| "replaceRedacted (JArr x) = JArr (map replaceRedacted x)"
| "replaceRedacted (JStr x) = JStr (if x = Value then PublishedSecretValue else x)"
| "replaceRedacted v = v"

definition blankSecrets :: "json \<Rightarrow> json" where
  "blankSecrets v = replaceRedacted (RedactSecrets v)"

definition blankSchemaSecrets :: "json \<Rightarrow> json" where
  "blankSchemaSecrets v = replaceRedacted (RedactSchemaSecrets v)"

subsection \<open>Elements\<close>

text \<open>A value that cannot be decoded or encoded becomes \<open>nil\<close>.\<close>

fun redactAny :: "json_codec \<Rightarrow> (json \<Rightarrow> json) \<Rightarrow> doc \<Rightarrow> doc" where
  "redactAny codec redact (Raw raw) =
     (case jc_decode codec raw of
        None \<Rightarrow> Decoded JNull
      | Some decoded \<Rightarrow> (case jc_encode codec (redact decoded) of None \<Rightarrow> Decoded JNull | Some out \<Rightarrow> Raw out))"
| "redactAny codec redact (Decoded v) = Decoded (redact v)"

definition redact_slot :: "json_codec \<Rightarrow> (json \<Rightarrow> json) \<Rightarrow> doc option \<Rightarrow> doc option" where
  "redact_slot codec redact d =
     (case d of None \<Rightarrow> None | Some v \<Rightarrow> if v = Decoded JNull then d else Some (redactAny codec redact v))"

definition redactConfigSchema :: "json_codec \<Rightarrow> 'a graph_slot_scheme \<Rightarrow> 'a graph_slot_scheme" where
  "redactConfigSchema codec m =
     m\<lparr>gs_configuration := redact_slot codec blankSecrets (gs_configuration m),
       gs_schema := redact_slot codec blankSchemaSecrets (gs_schema m)\<rparr>"

definition RedactGraphElements :: "json_codec \<Rightarrow> graph_element list \<Rightarrow> graph_element list" where
  "RedactGraphElements codec elements =
     map (\<lambda>el. el\<lparr>ge_data := map_option (\<lambda>data.
            (redactConfigSchema codec data)\<lparr>gd_handles := map (map_option (redactConfigSchema codec)) (gd_handles data)\<rparr>) (ge_data el)\<rparr>) elements"

text \<open>The byte-level passes of an import: nothing in, nothing out.\<close>

definition redactBytes :: "json_codec \<Rightarrow> (json \<Rightarrow> json) \<Rightarrow> bytes \<Rightarrow> bytes option" where
  "redactBytes codec redact b =
     (if b = [] then None else (case redactAny codec redact (Raw b) of Raw out \<Rightarrow> Some out | Decoded _ \<Rightarrow> None))"

definition RedactConfigurationBytes :: "json_codec \<Rightarrow> bytes \<Rightarrow> bytes option" where
  "RedactConfigurationBytes codec b = redactBytes codec RedactSecrets b"

definition RedactSchemaBytes :: "json_codec \<Rightarrow> bytes \<Rightarrow> bytes option" where
  "RedactSchemaBytes codec b = redactBytes codec RedactSchemaSecrets b"

subsection \<open>Captured samples\<close>

record trace_span =
  sn_Port :: string
  sn_Events :: "string gomap list"

definition span_objects :: "json_codec \<Rightarrow> trace_span \<Rightarrow> json gomap list" where
  "span_objects codec sp =
     List.map_filter (\<lambda>data. case map_of data ''payload'' of
         None \<Rightarrow> None
       | Some payload \<Rightarrow> if payload = [] then None else (case jc_decode codec payload of Some (JObj obj) \<Rightarrow> Some obj | _ \<Rightarrow> None)) (sn_Events sp)"

definition ExtractScenarioPorts :: "json_codec \<Rightarrow> trace_span list \<Rightarrow> json gomap gomap" where
  "ExtractScenarioPorts codec spans =
     fold (\<lambda>sp out. if sn_Port sp = [] then out else fold (\<lambda>obj. AList.update (sn_Port sp) obj) (span_objects codec sp) out) spans []"

subsection \<open>Inferred schemas\<close>

text \<open>The number of a property is its place among the sorted names.\<close>

definition property_order :: "json gomap \<Rightarrow> string \<Rightarrow> json" where
  "property_order ms k = JNum (itoa (int (length (filter (\<lambda>m. fst m < k) ms)) + 1))"

fun inferValueSchema :: "json \<Rightarrow> json gomap" where
  "inferValueSchema (JStr t) = [(''type'', JStr ''string''), (''default'', JStr t)]"
| "inferValueSchema (JNum t) = [(''type'', JStr ''number''), (''default'', JNum t)]"
| "inferValueSchema (JBool t) = [(''type'', JStr ''boolean''), (''default'', JBool t)]"
| "inferValueSchema (JArr t) =
     [(''type'', JStr ''array''), (''default'', JArr t)] @ (case t of [] \<Rightarrow> [] | v # _ \<Rightarrow> [(''items'', JObj (inferValueSchema v))])"
| "inferValueSchema (JObj t) =
     [(''type'', JStr ''object''),
      (''properties'', JObj (map (\<lambda>m. (fst m, JObj (inferValueSchema (snd m) @ [(''propertyOrder'', property_order t (fst m))]))) t))]"
| "inferValueSchema JNull = []"

subsection \<open>Configurations\<close>

text \<open>What may be published of a value: the same document, without the strings under credential names and without anything
  shaped like a credential.\<close>

definition scrubbed :: "json \<Rightarrow> json \<Rightarrow> bool" where
  "scrubbed v u \<longleftrightarrow> (\<exists>f. u = map_strings f [] v \<and> (\<forall>k s. IsSecretKey k \<longrightarrow> \<not> IsExpression s \<longrightarrow> f k s = []) \<and>
     (\<forall>k s. list_all (\<lambda>re. \<not> has_match (alt_match re) (f k s)) credentialShapes))"

definition unmark :: "string \<Rightarrow> string" where "unmark s = (if s = Value then PublishedSecretValue else s)"

lemma replaceRedacted_map_strings: "replaceRedacted v = map_strings (\<lambda>_. unmark) k v"
  by (induction v arbitrary: k rule: replaceRedacted.induct) (simp_all add: unmark_def)

lemma blankSecrets_map_strings:
  "blankSecrets v = map_strings (\<lambda>k s. unmark (fst (TextByShape (mask_conventional k s)))) [] v"
proof -
  have "fst (SecretsByShape u) = map_strings (\<lambda>_ s. fst (TextByShape s)) [] u" for u using SecretsByShape_map_strings by blast
  then show ?thesis
    by (simp add: blankSecrets_def RedactSecrets_def Secrets_def redact_value_map_strings replaceRedacted_map_strings [where k = "[]"] map_strings_comp)
qed

lemma text_clean: "list_all (\<lambda>re. \<not> has_match (alt_match re) s) credentialShapes \<Longrightarrow> TextByShape s = (s, False)"
  using foldl_replace_id [of s credentialShapes] by (simp add: TextByShape_def)

lemma TextByShape_marks: "TextByShape Value = (Value, False)" "TextByShape [] = ([], False)"
  by (rule text_clean, code_simp)+

lemma unmark_clean:
  "list_all (\<lambda>re. \<not> has_match (alt_match re) s) credentialShapes \<Longrightarrow> list_all (\<lambda>re. \<not> has_match (alt_match re) (unmark s)) credentialShapes"
proof -
  have "list_all (\<lambda>re. \<not> has_match (alt_match re) PublishedSecretValue) credentialShapes" by code_simp
  then show "list_all (\<lambda>re. \<not> has_match (alt_match re) s) credentialShapes \<Longrightarrow> list_all (\<lambda>re. \<not> has_match (alt_match re) (unmark s)) credentialShapes"
    by (simp add: unmark_def)
qed

lemma blankSecrets_scrubbed: "scrubbed v (blankSecrets v)"
proof -
  let ?f = "\<lambda>k s. unmark (fst (TextByShape (mask_conventional k s)))"
  have "?f k s = []" if "IsSecretKey k" "\<not> IsExpression s" for k s
    using that TextByShape_marks by (auto simp: mask_conventional_def unmark_def PublishedSecretValue_def)
  moreover have "list_all (\<lambda>re. \<not> has_match (alt_match re) (?f k s)) credentialShapes" for k s
    using TextByShape_clean by (blast intro: unmark_clean)
  ultimately show ?thesis unfolding scrubbed_def blankSecrets_map_strings by blast
qed

fun doc_value :: "json_codec \<Rightarrow> doc \<Rightarrow> json option" where
  "doc_value codec (Decoded v) = Some v"
| "doc_value codec (Raw b) = jc_decode codec b"

definition slot_configurations :: "'a graph_slot_scheme \<Rightarrow> doc list" where
  "slot_configurations s = (case gs_configuration s of None \<Rightarrow> [] | Some d \<Rightarrow> [d])"

definition configurations :: "graph_element list \<Rightarrow> doc list" where
  "configurations els =
     concat (map (\<lambda>el. case ge_data el of None \<Rightarrow> []
       | Some data \<Rightarrow> slot_configurations data @ concat (map (\<lambda>h. case h of None \<Rightarrow> [] | Some s \<Rightarrow> slot_configurations s) (gd_handles data))) els)"

lemma configurations_redacted:
  "configurations (RedactGraphElements codec els) =
     map (\<lambda>d. if d = Decoded JNull then d else redactAny codec blankSecrets d) (configurations els)"
proof -
  have s: "slot_configurations (redactConfigSchema codec (m :: 'a graph_slot_scheme)) =
      map (\<lambda>d. if d = Decoded JNull then d else redactAny codec blankSecrets d) (slot_configurations m)" for m
    by (simp add: slot_configurations_def redactConfigSchema_def redact_slot_def split: option.split)
  have h: "slot_configurations (m\<lparr>gd_handles := x\<rparr>) = slot_configurations m" for m x by (simp add: slot_configurations_def)
  have s': "slot_configurations (redactConfigSchema codec (m :: graph_data)) =
      map (\<lambda>d. if d = Decoded JNull then d else redactAny codec blankSecrets d) (slot_configurations m)" for m
    by (simp add: slot_configurations_def redactConfigSchema_def redact_slot_def split: option.split)
  have s'': "slot_configurations (redactConfigSchema codec (m :: graph_slot)) =
      map (\<lambda>d. if d = Decoded JNull then d else redactAny codec blankSecrets d) (slot_configurations m)" for m
    by (simp add: slot_configurations_def redactConfigSchema_def redact_slot_def split: option.split)
  show ?thesis
    by (auto simp: configurations_def RedactGraphElements_def h s' s'' map_concat o_def split: option.split intro!: arg_cong [where f = concat])
qed

text \<open>C33: No configuration of a published graph carries a credential that its key or its shape gives away. Every configuration, at an edge or at a
  handle of a node, decoded or raw, is dropped or is the configuration of the graph with its strings rewritten: under a credential
  name only an expression is left, and no string holds anything that matches a credential shape.\<close>

theorem published_configurations_scrubbed:
  assumes "\<And>v b. jc_encode codec v = Some b \<Longrightarrow> jc_decode codec b = Some v"
    and "d \<in> set (configurations (RedactGraphElements codec els))" "d \<noteq> Decoded JNull"
  shows "\<exists>d0 v u. d0 \<in> set (configurations els) \<and> doc_value codec d0 = Some v \<and> doc_value codec d = Some u \<and> scrubbed v u"
proof -
  from assms(2,3) obtain d0 where d0: "d0 \<in> set (configurations els)" "d = redactAny codec blankSecrets d0"
    by (auto simp: configurations_redacted split: if_splits)
  have "\<exists>v u. doc_value codec d0 = Some v \<and> doc_value codec d = Some u \<and> scrubbed v u"
  proof (cases d0)
    case (Raw raw)
    with d0(2) assms(3) obtain v out where "jc_decode codec raw = Some v" "jc_encode codec (blankSecrets v) = Some out" "d = Raw out"
      by (auto split: option.splits)
    with Raw assms(1) show ?thesis by (auto intro: blankSecrets_scrubbed)
  qed (use d0(2) blankSecrets_scrubbed in auto)
  with d0(1) show ?thesis by blast
qed

definition tree_codec :: "json \<Rightarrow> json_codec" where
  "tree_codec v = \<lparr>jc_decode = (\<lambda>b. if b = ''doc'' then Some v else None), jc_encode = (\<lambda>_. None)\<rparr>"

definition leaky_graph :: "graph_element list" where
  "leaky_graph =
     [\<lparr>ge_data = Some \<lparr>gs_configuration = Some (Decoded (JObj [(''apiKey'', JStr ''k1'')])), gs_schema = None, gs_other = [], gd_handles = []\<rparr>, ge_other = []\<rparr>]"

theorem published_configurations_scrubbed_witness:
  "configurations (RedactGraphElements (tree_codec JNull) leaky_graph) = [Decoded (JObj [(''apiKey'', JStr [])])] \<and>
   (\<exists>v. scrubbed v (JObj [(''apiKey'', JStr [])]))"
proof -
  have c: "configurations (RedactGraphElements (tree_codec JNull) leaky_graph) = [Decoded (JObj [(''apiKey'', JStr [])])]" by code_simp
  have "jc_encode (tree_codec JNull) v = Some b \<Longrightarrow> jc_decode (tree_codec JNull) b = Some v" for v b by (simp add: tree_codec_def)
  from published_configurations_scrubbed [OF this, of "Decoded (JObj [(''apiKey'', JStr [])])" leaky_graph] c show ?thesis by auto
qed

subsection \<open>Schemas\<close>

text \<open>C34: A published schema can carry a credential. A schema inferred from a live value holds every list of it as a default, and the redaction of a
  schema only blanks a default that is a string: a credential in an object of a list is in the published schema, under its
  telling name and unchanged, whatever its name and shape. The same credential outside a list is blanked.\<close>

theorem list_default_leaks:
  assumes "s \<noteq> Value"
  shows "(k, s) \<in> keyed_strings [] (blankSchemaSecrets (JObj (inferValueSchema (JObj [(field, JArr [JObj [(k, JStr s)]])])))) \<and>
    (IsSecretKey k \<and> \<not> IsExpression s \<longrightarrow>
       map_of (inferValueSchema (JStr s)) ''default'' = Some (JStr s) \<and>
       replaceRedacted (redactSchemaValue k (JObj (inferValueSchema (JStr s)))) = JObj [(''type'', JStr ''string''), (''default'', JStr [])])"
proof
  let ?leak = "JArr [JObj [(k, JStr s)]]"
  let ?schema = "JObj (inferValueSchema ?leak @ [(''propertyOrder'', property_order [(field, ?leak)] field)])"
  have plain: "\<not> secretKeyRe ''default''" "\<not> secretKeyRe ''properties''" by code_simp+
  have "replaceRedacted (redactSchemaValue field ?schema) = JObj ms \<Longrightarrow> (''default'', ?leak) \<in> set ms" for ms
    using plain assms by (auto simp: blank_field_def Let_def split: if_splits)
  moreover have "\<exists>ms. replaceRedacted (redactSchemaValue field ?schema) = JObj ms" by (simp add: Let_def)
  ultimately have "(k, s) \<in> keyed_strings field (replaceRedacted (redactSchemaValue field ?schema))" by force
  then show "(k, s) \<in> keyed_strings [] (blankSchemaSecrets (JObj (inferValueSchema (JObj [(field, ?leak)]))))"
    using plain by (simp add: blankSchemaSecrets_def RedactSchemaSecrets_def Let_def del: inferValueSchema.simps(4))
qed (use assms in \<open>auto simp: IsSecretKey_def blank_field_def PublishedSecretValue_def Value_def Let_def\<close>)

theorem list_default_leaks_witness:
  "(''apiKey'', ''sk-ant-0123456789'') \<in>
     keyed_strings [] (blankSchemaSecrets (JObj (inferValueSchema (JObj [(''users'', JArr [JObj [(''apiKey'', JStr ''sk-ant-0123456789'')]])]))))"
proof -
  have "''sk-ant-0123456789'' \<noteq> Value" by code_simp
  from list_default_leaks [OF this] show ?thesis by blast
qed

end
