(* ===== verification/Expression_Eval.thy ===== *)
theory Expression_Eval
  imports Json_Values Error_Contract
begin

section \<open>Expressions in edge configurations\<close>

text \<open>
  \<open>src/pkg/evaluator/evaluator.go\<close>: the configuration of an edge is a JSON object whose strings may hold
  expressions between double braces. The JSON-path library \<open>ajson\<close> is the record \<open>ajson\<close>: it parses a
  document, evaluates one expression against a parsed document, and names the type of a node. The callback
  that evaluates an expression is an argument, as it is in the code; an evaluation returns its value with
  the list of the errors it reported, in order. The formatting of a number with \<open>%v\<close> is the argument \<open>num\<close>.

  The two regular expressions are matched byte by byte: a brace and a newline are never part of a longer
  encoded character, and a dot takes every byte but a newline.
\<close>

record ajson =
  aj_Unmarshal :: "bytes \<Rightarrow> go_error + json"
  aj_Eval :: "json \<Rightarrow> string \<Rightarrow> go_error + json"
  aj_Type :: "json \<Rightarrow> string"

type_synonym expr_callback = "string \<Rightarrow> go_error + json"
type_synonym expr_errors = "(string \<times> go_error) list"

definition newline :: char where "newline = CHR 0x0A"

definition DefaultCallback :: expr_callback where
  "DefaultCallback expression = Inl (ErrNew ''not implemented'')"

definition NewEvaluator :: "expr_callback option \<Rightarrow> expr_callback" where
  "NewEvaluator callback = (case callback of None \<Rightarrow> DefaultCallback | Some f \<Rightarrow> f)"

subsection \<open>The two patterns\<close>

definition pureExprPattern :: "string \<Rightarrow> string option" where
  "pureExprPattern s =
     (let body = take (length s - 4) (drop 2 s)
      in if 5 \<le> length s \<and> has_prefix s ''{{'' \<and> has_suffix s ''}}'' \<and> newline \<notin> set body
         then Some body else None)"

text \<open>The shortest continuation up to closing braces, and what follows them.\<close>

fun close_braces :: "string \<Rightarrow> (string \<times> string) option" where
  "close_braces [] = None"
| "close_braces (c # s) =
     (if has_prefix (c # s) ''}}'' then Some ([], drop 2 (c # s))
      else if c = newline then None
      else map_option (\<lambda>(b, r). (c # b, r)) (close_braces s))"

text \<open>The match of \<open>exprPattern\<close> at the head of a string: the text between the braces and the rest.\<close>

definition expr_at :: "string \<Rightarrow> (string \<times> string) option" where
  "expr_at s =
     (if has_prefix s ''{{'' then
        (case drop 2 s of
           [] \<Rightarrow> None
         | c # r \<Rightarrow> if c = newline then None else map_option (\<lambda>(b, t). (c # b, t)) (close_braces r))
      else None)"

fun exprPattern :: "string \<Rightarrow> bool" where
  "exprPattern [] = False"
| "exprPattern (c # s) = (expr_at (c # s) \<noteq> None \<or> exprPattern s)"

lemma close_braces_length: "close_braces s = Some (b, r) \<Longrightarrow> length b + 2 + length r = length s"
  by (induction s arbitrary: b) (auto simp: has_prefix_def split: if_splits dest!: arg_cong [where f = length])

lemma expr_atE:
  assumes "expr_at s = Some (b, r)"
  obtains c b' r' where "s = ''{{'' @ c # r'" "c \<noteq> newline" "close_braces r' = Some (b', r)" "b = c # b'"
proof -
  have "has_prefix s ''{{''" using assms by (simp add: expr_at_def split: if_splits)
  then obtain t where t: "s = ''{{'' @ t" by (rule has_prefixE)
  with assms show thesis by (cases t) (auto simp: expr_at_def split: if_splits intro: that)
qed

lemma expr_at_length: "expr_at s = Some (b, r) \<Longrightarrow> length b + 4 + length r = length s"
  by (erule expr_atE) (auto dest!: close_braces_length)

subsection \<open>Evaluation\<close>

text \<open>The verb \<open>%v\<close> on a decoded value; a map is printed in the order of its keys.\<close>

fun sprint_v :: "(string \<Rightarrow> string) \<Rightarrow> json \<Rightarrow> string" where
  "sprint_v num JNull = ''<nil>''"
| "sprint_v num (JBool b) = (if b then ''true'' else ''false'')"
| "sprint_v num (JNum n) = num n"
| "sprint_v num (JStr s) = s"
| "sprint_v num (JArr vs) = ''['' @ join_str '' '' (map (sprint_v num) vs) @ '']''"
| "sprint_v num (JObj ms) =
     ''map['' @ join_str '' '' (map snd (sort_key fst (map (\<lambda>m. (fst m, fst m @ '':'' @ sprint_v num (snd m))) ms))) @ '']''"

definition interpolated :: "expr_callback \<Rightarrow> (string \<Rightarrow> string) \<Rightarrow> string \<Rightarrow> string \<times> expr_errors" where
  "interpolated callback num body =
     (let expr = trim_space body
      in case callback expr of
           Inl err \<Rightarrow> (''{{'' @ body @ ''}}'', [(expr, err)])
         | Inr JNull \<Rightarrow> ([], [])
         | Inr val \<Rightarrow> (sprint_v num val, []))"

function interpolate :: "expr_callback \<Rightarrow> (string \<Rightarrow> string) \<Rightarrow> string \<Rightarrow> string \<times> expr_errors" where
  "interpolate callback num s =
     (case s of
        [] \<Rightarrow> ([], [])
      | c # r \<Rightarrow>
        (case expr_at s of
           Some (body, rest) \<Rightarrow>
             (let (t, errs) = interpolated callback num body; (out, errs') = interpolate callback num rest
              in (t @ out, errs @ errs'))
         | None \<Rightarrow> (let (out, errs) = interpolate callback num r in (c # out, errs))))"
  by pat_completeness auto
termination
  by (relation "measure (length \<circ> snd \<circ> snd)") (auto dest!: expr_at_length)

declare interpolate.simps [simp del]

definition evaluateString :: "expr_callback \<Rightarrow> (string \<Rightarrow> string) \<Rightarrow> string \<Rightarrow> json \<times> expr_errors" where
  "evaluateString callback num str =
     (case pureExprPattern str of
        Some body \<Rightarrow>
          (let expr = trim_space body
           in case callback expr of Inl err \<Rightarrow> (JNull, [(expr, err)]) | Inr result \<Rightarrow> (result, []))
      | None \<Rightarrow>
        if \<not> exprPattern str then (JStr str, [])
        else (let (out, errs) = interpolate callback num str in (JStr out, errs)))"

fun calculateResult :: "expr_callback \<Rightarrow> (string \<Rightarrow> string) \<Rightarrow> json \<Rightarrow> json \<times> expr_errors" where
  "calculateResult callback num (JStr s) = evaluateString callback num s"
| "calculateResult callback num (JObj ms) =
     (let rs = map (\<lambda>m. (fst m, calculateResult callback num (snd m))) ms
      in (JObj (map (\<lambda>r. (fst r, fst (snd r))) rs), concat (map (\<lambda>r. snd (snd r)) rs)))"
| "calculateResult callback num (JArr vs) =
     (let rs = map (calculateResult callback num) vs in (JArr (map fst rs), concat (map snd rs)))"
| "calculateResult callback num v = (v, [])"

definition Eval :: "ajson \<Rightarrow> expr_callback \<Rightarrow> (string \<Rightarrow> string) \<Rightarrow> bytes \<Rightarrow> go_error + json \<times> expr_errors" where
  "Eval aj callback num data =
     (case aj_Unmarshal aj data of
        Inl err \<Rightarrow> Inl err
      | Inr root \<Rightarrow>
        if json_object root = None
        then Inl (ErrNew (''node is not an object it is '' @ aj_Type aj root @ '' '' @ data))
        else Inr (calculateResult callback num root))"

text \<open>The callback a runner passes: an expression over the payload of the message.\<close>

definition edge_callback :: "ajson \<Rightarrow> json \<Rightarrow> expr_callback" where
  "edge_callback aj request expression =
     (if expression = [] then Inl (ErrNew ''expression is empty'') else aj_Eval aj request expression)"

subsection \<open>Templates\<close>

text \<open>A template as an author writes it: literal text and expressions, with no brace or newline inside either.\<close>

datatype seg = Lit string | Ex string

fun seg_text :: "seg \<Rightarrow> string" where
  "seg_text (Lit t) = t"
| "seg_text (Ex e) = ''{{'' @ e @ ''}}''"

fun seg_ok :: "seg \<Rightarrow> bool" where
  "seg_ok (Lit t) = (CHR ''{'' \<notin> set t)"
| "seg_ok (Ex e) = (e \<noteq> [] \<and> newline \<notin> set e \<and> CHR ''}'' \<notin> set e)"

fun seg_out :: "expr_callback \<Rightarrow> (string \<Rightarrow> string) \<Rightarrow> seg \<Rightarrow> string \<times> expr_errors" where
  "seg_out callback num (Lit t) = (t, [])"
| "seg_out callback num (Ex e) = interpolated callback num e"

definition render :: "seg list \<Rightarrow> string" where
  "render segs = concat (map seg_text segs)"

lemma close_braces_found:
  "CHR ''}'' \<notin> set e \<Longrightarrow> newline \<notin> set e \<Longrightarrow> close_braces (e @ ''}}'' @ r) = Some (e, r)"
  by (induction e) (auto simp: has_prefix_def newline_def)

lemma expr_at_found: "seg_ok (Ex e) \<Longrightarrow> expr_at (''{{'' @ e @ ''}}'' @ r) = Some (e, r)"
  using close_braces_found [where r = r] by (cases e) (auto simp: expr_at_def has_prefix_def)

lemma expr_at_other: "c \<noteq> CHR ''{'' \<Longrightarrow> expr_at (c # s) = None"
  by (simp add: expr_at_def has_prefix_def)

lemma interpolate_Nil [simp]: "interpolate callback num [] = ([], [])"
  by (simp add: interpolate.simps)

lemma interpolate_expr:
  "expr_at s = Some (b, r) \<Longrightarrow> interpolate callback num s =
     (fst (interpolated callback num b) @ fst (interpolate callback num r),
      snd (interpolated callback num b) @ snd (interpolate callback num r))"
  by (subst interpolate.simps) (auto simp: split_beta split: list.split elim: expr_atE)

lemma interpolate_char:
  "expr_at (c # s) = None \<Longrightarrow> interpolate callback num (c # s) =
     (c # fst (interpolate callback num s), snd (interpolate callback num s))"
  by (subst interpolate.simps) (simp add: split_beta)

lemma interpolate_text:
  "CHR ''{'' \<notin> set t \<Longrightarrow> interpolate callback num (t @ s) =
     (t @ fst (interpolate callback num s), snd (interpolate callback num s))"
  by (induction t) (auto simp: interpolate_char expr_at_other)

lemma interpolate_none: "\<not> exprPattern s \<Longrightarrow> interpolate callback num s = (s, [])"
  by (induction s) (simp_all add: interpolate_char del: not_None_eq)

lemma interpolate_render:
  "list_all seg_ok segs \<Longrightarrow> interpolate callback num (render segs) =
     (concat (map (fst \<circ> seg_out callback num) segs), concat (map (snd \<circ> seg_out callback num) segs))"
proof (induction segs)
  case (Cons g segs)
  then show ?case
  proof (cases g)
    case (Ex e)
    with Cons.prems have "expr_at (''{{'' @ e @ ''}}'' @ render segs) = Some (e, render segs)"
      by (intro expr_at_found) simp
    from interpolate_expr [OF this] Cons Ex show ?thesis by (simp add: render_def)
  qed (simp add: render_def interpolate_text)
qed (simp add: render_def)

lemma evaluateString_interpolates:
  "pureExprPattern s = None \<Longrightarrow> evaluateString callback num s =
     (JStr (fst (interpolate callback num s)), snd (interpolate callback num s))"
  by (simp add: evaluateString_def interpolate_none split_beta)

lemma pureExprPattern_found: "b \<noteq> [] \<Longrightarrow> newline \<notin> set b \<Longrightarrow> pureExprPattern (''{{'' @ b @ ''}}'') = Some b"
  by (cases b) (auto simp: pureExprPattern_def has_prefix_def has_suffix_def Let_def)

lemma pureExprPatternD: "pureExprPattern s = Some b \<Longrightarrow> s = ''{{'' @ b @ ''}}'' \<and> b \<noteq> [] \<and> newline \<notin> set b"
proof -
  assume a: "pureExprPattern s = Some b"
  then have "has_prefix s ''{{''" by (simp add: pureExprPattern_def Let_def split: if_splits)
  then obtain t where t: "s = ''{{'' @ t" by (rule has_prefixE)
  from a t obtain n where n: "length t = Suc (Suc n)"
    by (cases t; cases "tl t") (auto simp: pureExprPattern_def Let_def split: if_splits)
  with a t have "drop (length t - 2) t = ''}}''"
    by (simp add: pureExprPattern_def Let_def has_suffix_def split: if_splits)
  then have "t = take (length t - 2) t @ ''}}''" by (metis append_take_drop_id)
  with a t show ?thesis by (auto simp: pureExprPattern_def Let_def split: if_splits)
qed

lemma close_braces_some: "newline \<notin> set b \<Longrightarrow> close_braces (b @ ''}}'') \<noteq> None"
  by (induction b) (auto simp: has_prefix_def)

lemma pure_is_expr: assumes "pureExprPattern s = Some b" shows "exprPattern s"
proof -
  obtain c b' where s: "s = ''{{'' @ c # b' @ ''}}''" "c \<noteq> newline" "newline \<notin> set b'"
    using pureExprPatternD [OF assms] by (cases b) auto
  then have "expr_at s \<noteq> None" using close_braces_some [of b'] by (auto simp: expr_at_def has_prefix_def)
  then show ?thesis by (simp add: s(1))
qed

lemma evaluateString_literal: "\<not> exprPattern s \<Longrightarrow> evaluateString callback num s = (JStr s, [])"
  using pure_is_expr by (cases "pureExprPattern s") (auto simp: evaluateString_def)

lemma errors_of_string:
  "(e, err) \<in> set (snd (evaluateString callback num s)) \<Longrightarrow> callback e = Inl err"
proof -
  have inter: "(e, err) \<in> set (snd (interpolated callback num b)) \<Longrightarrow> callback e = Inl err" for b
    by (auto simp: interpolated_def Let_def split: sum.splits json.splits)
  have "(e, err) \<in> set (snd (interpolate callback num s)) \<Longrightarrow> callback e = Inl err"
  proof (induction "length s" arbitrary: s rule: less_induct)
    case less
    show ?case
    proof (cases "expr_at s")
      case None
      with less show ?thesis by (cases s) (auto simp: interpolate_char)
    next
      case (Some br)
      obtain b r where br: "expr_at s = Some (b, r)" using Some by (cases br) auto
      then have "length r < length s" by (auto dest!: expr_at_length)
      with less br show ?thesis by (auto simp: interpolate_expr dest: inter)
    qed
  qed
  then show "(e, err) \<in> set (snd (evaluateString callback num s)) \<Longrightarrow> callback e = Inl err"
    by (auto simp: evaluateString_def Let_def split_beta split: option.splits sum.splits if_splits)
qed

fun literal_json :: "json \<Rightarrow> bool" where
  "literal_json (JStr s) = (\<not> exprPattern s)"
| "literal_json (JArr vs) = list_all literal_json vs"
| "literal_json (JObj ms) = list_all (\<lambda>m. literal_json (snd m)) ms"
| "literal_json _ = True"

lemma calculateResult_literal: "literal_json v \<Longrightarrow> calculateResult callback num v = (v, [])"
proof (induction v rule: literal_json.induct)
  case (2 vs)
  then show ?case by (auto simp: list_all_iff Let_def comp_def intro!: map_idI)
next
  case (3 ms)
  then show ?case by (auto simp: list_all_iff Let_def comp_def intro!: map_idI)
qed (auto simp: evaluateString_literal)

lemma calculateResult_errors:
  "(e, err) \<in> set (snd (calculateResult callback num v)) \<Longrightarrow> callback e = Inl err"
  by (induction callback num v rule: calculateResult.induct) (auto simp: Let_def dest: errors_of_string)

subsection \<open>Properties\<close>

text \<open>A template is rendered piece by piece. Unless the whole string reads as one expression, evaluating a
  template keeps its literal text, replaces each expression by the formatted value the callback returns for it,
  by nothing when that value is null, and leaves an expression that fails as it was written, reporting the
  failures in the order of the template and nothing else.\<close>

theorem template_rendered:
  assumes "list_all seg_ok segs" and "pureExprPattern (render segs) = None"
  shows "evaluateString callback num (render segs) =
    (JStr (concat (map (fst \<circ> seg_out callback num) segs)), concat (map (snd \<circ> seg_out callback num) segs))"
  using evaluateString_interpolates [OF assms(2)] interpolate_render [OF assms(1)] by simp

text \<open>A string that is one expression keeps the type of its value: it evaluates to the value itself, or to
  null with the failure reported. The test for this looks only at the two ends of the string, so a template that
  starts with one expression and ends with another is read as a single expression, whose text spans both.\<close>

theorem expression_at_both_ends:
  assumes "a \<noteq> []" and "newline \<notin> set (a @ t @ b)"
  shows "evaluateString callback num (render [Ex a]) =
      (case callback (trim_space a) of Inl err \<Rightarrow> (JNull, [(trim_space a, err)]) | Inr v \<Rightarrow> (v, []))
    \<and> evaluateString callback num (render [Ex a, Lit t, Ex b]) =
      (let e = trim_space (a @ ''}}'' @ t @ ''{{'' @ b)
       in case callback e of Inl err \<Rightarrow> (JNull, [(e, err)]) | Inr v \<Rightarrow> (v, []))"
proof -
  have "pureExprPattern (''{{'' @ a @ ''}}'') = Some a" using assms by (intro pureExprPattern_found) auto
  moreover have "pureExprPattern (''{{'' @ (a @ ''}}'' @ t @ ''{{'' @ b) @ ''}}'') = Some (a @ ''}}'' @ t @ ''{{'' @ b)"
    using assms by (intro pureExprPattern_found) (auto simp: newline_def)
  ultimately show ?thesis by (simp add: evaluateString_def render_def Let_def)
qed

text \<open>Evaluating an edge configuration never fails on account of an expression. A document that parses to an
  object gives an object; the errors it reports are failures of the callback; and a document none of whose
  strings holds an expression is returned as it is, with no error.\<close>

theorem Eval_total:
  assumes "aj_Unmarshal aj data = Inr (JObj ms)"
  shows "\<exists>ms' errs. Eval aj callback num data = Inr (JObj ms', errs) \<and> map fst ms' = map fst ms \<and>
    (\<forall>(e, err) \<in> set errs. callback e = Inl err) \<and> (literal_json (JObj ms) \<longrightarrow> ms' = ms \<and> errs = [])"
proof -
  obtain ms' errs where r: "calculateResult callback num (JObj ms) = (JObj ms', errs)" "map fst ms' = map fst ms"
    by (simp add: Let_def comp_def)
  have "Eval aj callback num data = Inr (JObj ms', errs)"
    using assms r(1) by (simp add: Eval_def del: calculateResult.simps)
  moreover have "\<forall>(e, err) \<in> set errs. callback e = Inl err"
    using calculateResult_errors [where callback = callback and num = num and v = "JObj ms"] r(1) by auto
  moreover have "literal_json (JObj ms) \<longrightarrow> ms' = ms \<and> errs = []"
    using calculateResult_literal [of "JObj ms"] r(1) by (metis json.inject(5) prod.inject)
  ultimately show ?thesis using r(2) by blast
qed

definition sample_callback :: expr_callback where
  "sample_callback e = (if e = ''$.n'' then Inr (JNum ''3'') else Inl (ErrNew ''not found''))"

definition sample_ajson :: ajson where
  "sample_ajson = \<lparr>aj_Unmarshal = (\<lambda>b. Inr (JObj [(''text'', JStr b)])), aj_Eval = (\<lambda>j. sample_callback), aj_Type = (\<lambda>j. [])\<rparr>"

theorem template_rendered_witness:
  "evaluateString sample_callback id (render [Lit ''n = '', Ex '' $.n '', Ex ''$.x'']) =
    (JStr ''n = 3{{$.x}}'', [(''$.x'', ErrNew ''not found'')])"
proof -
  have t: "trim_space '' $.n '' = ''$.n''" "trim_space ''$.x'' = ''$.x''" by code_simp+
  show ?thesis
    using template_rendered [of "[Lit ''n = '', Ex '' $.n '', Ex ''$.x'']" sample_callback id]
    by (simp add: newline_def render_def pureExprPattern_def has_prefix_def interpolated_def t sample_callback_def)
qed

theorem expression_at_both_ends_witness:
  "evaluateString sample_callback id ''{{$.n}}'' = (JNum ''3'', []) \<and>
   evaluateString sample_callback id ''{{$.n}}-{{$.n}}'' = (JNull, [(''$.n}}-{{$.n'', ErrNew ''not found'')])"
proof -
  have t: "trim_space ''$.n'' = ''$.n''" "trim_space ''$.n}}-{{$.n'' = ''$.n}}-{{$.n''" by code_simp+
  show ?thesis
    using expression_at_both_ends [where a = "''$.n''" and t = "''-''" and b = "''$.n''" and callback = sample_callback and num = id]
    by (simp add: newline_def render_def t sample_callback_def)
qed

theorem Eval_total_witness:
  "\<exists>ms' errs. Eval sample_ajson sample_callback id ''{{$.x}}'' = Inr (JObj ms', errs) \<and> map fst ms' = [''text'']"
  using Eval_total [where aj = sample_ajson and data = "''{{$.x}}''" and ms = "[(''text'', JStr ''{{$.x}}'')]"
      and callback = sample_callback and num = id]
  by (force simp: sample_ajson_def)

end
