(* ===== verification/Eval_Checks.thy ===== *)
theory Eval_Checks
  imports Expression_Eval "HOL-Library.Multiset"
begin

section \<open>Evals\<close>

text \<open>
  \<open>src/pkg/evals\<close>: the specification of an eval, the environment variables it names, and the verdict on a run. The JSON and
  YAML libraries, regular expressions and the formatting of values are given; a number is its literal, and of its value as a
  float only the order matters, so it is an integer here. A map a run produced is a list in some iteration order of the Go map.
  The dash and the ellipsis of the messages are their UTF-8 bytes.
\<close>

subsection \<open>Specifications\<close>

record arrival =
  ar_At :: string
  ar_Path :: string
  ar_Equals :: json
  ar_Contains :: string
  ar_Matches :: string
  ar_Exists :: "bool option"
  ar_Min :: "int option"
  ar_Max :: "int option"

record usage_bound =
  bd_Min :: "int option"
  bd_Max :: "int option"

record expectation =
  ex_Errors :: "int option"
  ex_Silent :: "string list"
  ex_Arrives :: "arrival list"
  ex_Usage :: "usage_bound gomap"

record trigger =
  tr_Node :: string
  tr_Port :: string
  tr_Data :: "json gomap"

record eval_spec =
  es_Name :: string
  es_Flow :: string
  es_Trigger :: trigger
  es_Timeout :: int
  es_Expect :: expectation
  es_Path :: string

record eval_lib =
  ev_Unmarshal :: "bytes \<Rightarrow> go_error + json"
  ev_Marshal :: "json \<Rightarrow> go_error + bytes"
  ev_ajson :: ajson
  ev_Unpack :: "json \<Rightarrow> go_error + json"
  ev_num :: "string \<Rightarrow> int"
  ev_float :: "string \<Rightarrow> string"
  ev_bound :: "int \<Rightarrow> string"
  ev_sprint :: "json \<Rightarrow> string"
  ev_regexp :: "string \<Rightarrow> go_error + (string \<Rightarrow> bool)"
  ev_yaml_list :: "bytes \<Rightarrow> go_error + eval_spec list"
  ev_yaml_one :: "bytes \<Rightarrow> go_error + eval_spec"

definition Duration_Or :: "int \<Rightarrow> int \<Rightarrow> int" where
  "Duration_Or d fallback = (if d = 0 then fallback else d)"

text \<open>The first arrival without a colon, with its index.\<close>

fun bad_arrival :: "nat \<Rightarrow> arrival list \<Rightarrow> (nat \<times> arrival) option" where
  "bad_arrival i [] = None"
| "bad_arrival i (a # as) = (if \<not> contains_str (ar_At a) '':'' then Some (i, a) else bad_arrival (Suc i) as)"

definition validate_spec :: "eval_spec \<Rightarrow> go_error + eval_spec" where
  "validate_spec s =
     (if trim_space (es_Name s) = [] then Inl (ErrNew (''eval has no name '' @ emdash @ '' the name is what a failure reports''))
      else if trim_space (tr_Node (es_Trigger s)) = [] then
        Inl (ErrNew (es_Name s @ '': trigger.node is required '' @ emdash @ '' an eval that fires nothing checks nothing''))
      else
        (let t = es_Trigger s;
             s' = (if tr_Port t = [] then s\<lparr>es_Trigger := t\<lparr>tr_Port := ''_control''\<rparr>\<rparr> else s)
         in case bad_arrival 0 (ex_Arrives (es_Expect s)) of
              Some (i, a) \<Rightarrow>
                Inl (ErrNew (es_Name s @ '': expect.arrives['' @ itoa (int i) @ ''].at must be '' @ [CHR 0x22] @ ''<node>:<port>'' @ [CHR 0x22] @ '', got '' @ quoted (ar_At a)))
            | None \<Rightarrow> Inr s'))"

fun validate_all :: "string \<Rightarrow> eval_spec list \<Rightarrow> go_error + eval_spec list" where
  "validate_all path [] = Inr []"
| "validate_all path (s # specs) =
     (case validate_spec (s\<lparr>es_Path := path\<rparr>) of
        Inl err \<Rightarrow> Inl (WrapError (path @ '': '') err)
      | Inr s' \<Rightarrow> map_sum (\<lambda>err. err) (Cons s') (validate_all path specs))"

definition Parse :: "eval_lib \<Rightarrow> string \<Rightarrow> bytes \<Rightarrow> go_error + eval_spec list" where
  "Parse lib path data =
     (let trimmed = trim_space data
      in if trimmed = [] then Inr []
         else
           (case (if has_prefix trimmed ''-'' then ev_yaml_list lib data else map_sum (\<lambda>err. err) (\<lambda>one. [one]) (ev_yaml_one lib data)) of
              Inl err \<Rightarrow> Inl (WrapError (path @ '': '') err)
            | Inr specs \<Rightarrow> validate_all path specs))"

subsection \<open>Environment variables\<close>

text \<open>The reference at the head of a string, if there is one: its name and the rest of the string after it.\<close>

definition name_char :: "char \<Rightarrow> bool" where "name_char c = (is_alnum c \<or> c = CHR ''_'')"

definition envRef :: "string \<Rightarrow> (string \<times> string) option" where
  "envRef s =
     (case s of
        d # b # r \<Rightarrow>
          if d = CHR ''$'' \<and> b = CHR ''{'' then
            (let name = takeWhile name_char r; after = dropWhile name_char r
             in if name \<noteq> [] \<and> \<not> is_digit (hd name) \<and> after \<noteq> [] \<and> hd after = CHR ''}'' then Some (name, tl after) else None)
          else None
      | _ \<Rightarrow> None)"

lemma envRef_length: "envRef s = Some (name, rest) \<Longrightarrow> length rest < length s"
proof -
  have "length (tl (dropWhile name_char r)) < Suc (Suc (length r))" for r
    using length_dropWhile_le [of name_char r] by simp
  then show "envRef s = Some (name, rest) \<Longrightarrow> length rest < length s"
    by (auto simp: envRef_def Let_def split: list.splits if_splits)
qed

function expand_string :: "(string \<Rightarrow> string option) \<Rightarrow> string \<Rightarrow> string \<times> string list" where
  "expand_string env s =
     (case s of
        [] \<Rightarrow> ([], [])
      | c # r \<Rightarrow>
        (case envRef s of
           None \<Rightarrow> (case expand_string env r of (out, missing) \<Rightarrow> (c # out, missing))
         | Some (name, rest) \<Rightarrow>
           (case expand_string env rest of
              (out, missing) \<Rightarrow>
                (case env name of
                   None \<Rightarrow> (''${'' @ name @ ''}'' @ out, name # missing)
                 | Some val \<Rightarrow> (val @ out, missing)))))"
  by pat_completeness auto
termination
  by (relation "measure (length \<circ> snd)") (auto dest: envRef_length)

declare expand_string.simps [simp del]

fun expandValue :: "(string \<Rightarrow> string option) \<Rightarrow> json \<Rightarrow> json \<times> string list" where
  "expandValue env (JStr n) = (case expand_string env n of (out, missing) \<Rightarrow> (JStr out, missing))"
| "expandValue env (JObj n) =
     (JObj (map (\<lambda>m. (fst m, fst (expandValue env (snd m)))) n), concat (map (\<lambda>m. snd (expandValue env (snd m))) n))"
| "expandValue env (JArr n) = (JArr (map (\<lambda>v. fst (expandValue env v)) n), concat (map (\<lambda>v. snd (expandValue env v)) n))"
| "expandValue env v = (v, [])"

definition ExpandEnv :: "(string \<Rightarrow> string option) \<Rightarrow> eval_spec \<Rightarrow> go_error + eval_spec" where
  "ExpandEnv env s =
     (let data = tr_Data (es_Trigger s)
      in if data = [] then Inr s
         else
           (case expandValue env (JObj data) of
              (expanded, missing) \<Rightarrow>
                if missing \<noteq> [] then
                  Inl (ErrNew (es_Name s @ '': unset environment variable(s): '' @ join_str '', '' (sort (remdups missing))))
                else (case expanded of JObj m \<Rightarrow> Inr (s\<lparr>es_Trigger := (es_Trigger s)\<lparr>tr_Data := m\<rparr>\<rparr>) | _ \<Rightarrow> Inr (s\<lparr>es_Trigger := (es_Trigger s)\<lparr>tr_Data := []\<rparr>\<rparr>))))"

subsection \<open>The verdict\<close>

record failure =
  fl_What :: string
  fl_Got :: string

definition failure_String :: "failure \<Rightarrow> string" where
  "failure_String f = (if fl_Got f = [] then fl_What f else fl_What f @ '' '' @ emdash @ '' got '' @ fl_Got f)"

record observed_run =
  ob_Payloads :: "string list gomap"
  ob_Errors :: int
  ob_Handled :: int
  ob_Usage :: "int gomap"

definition numeric :: "eval_lib \<Rightarrow> json \<Rightarrow> int option" where
  "numeric lib v = (case v of JNum n \<Rightarrow> Some (ev_num lib n) | _ \<Rightarrow> None)"

definition render :: "eval_lib \<Rightarrow> json \<Rightarrow> string" where
  "render lib v =
     (case v of
        JNull \<Rightarrow> ''null''
      | JStr s \<Rightarrow> s
      | JNum n \<Rightarrow> ev_float lib n
      | _ \<Rightarrow> (case ev_Marshal lib v of Inr b \<Rightarrow> b | Inl _ \<Rightarrow> ev_sprint lib v))"

definition equalish :: "eval_lib \<Rightarrow> json \<Rightarrow> json \<Rightarrow> bool" where
  "equalish lib got want =
     (case (numeric lib got, numeric lib want) of
        (Some gn, Some wn) \<Rightarrow> gn = wn
      | _ \<Rightarrow>
        (case (got, want) of
           (JBool gb, JBool wb) \<Rightarrow> gb = wb
         | _ \<Rightarrow> render lib got = render lib want))"

definition truncate_text :: "string \<Rightarrow> nat \<Rightarrow> string" where
  "truncate_text s n = (if length s \<le> n then s else take n s @ ellipsis)"

text \<open>An exact key wins; otherwise every key that ends in the reference counts.\<close>

definition matchPayloads :: "string list gomap \<Rightarrow> string \<Rightarrow> string list" where
  "matchPayloads payloads ref =
     (case map_of payloads ref of
        Some exact \<Rightarrow> exact
      | None \<Rightarrow> concat (map snd (filter (\<lambda>p. has_suffix (fst p) ref \<or> has_suffix (fst p) (''.'' @ ref)) payloads)))"

definition describePorts :: "string list gomap \<Rightarrow> string" where
  "describePorts payloads =
     (if payloads = [] then ''nothing arrived anywhere '' @ emdash @ '' did the trigger fire?''
      else
        (let ks = map fst payloads;
             shown = (if 6 < length ks then take 6 ks @ [ellipsis @ '' and '' @ itoa (int (length payloads) - 6) @ '' more''] else ks)
         in ''messages arrived at '' @ join_str '', '' shown))"

definition valueAt :: "eval_lib \<Rightarrow> string \<Rightarrow> string \<Rightarrow> go_error + json" where
  "valueAt lib payload path =
     (if trim_space path = [] then (case ev_Unmarshal lib payload of Inl _ \<Rightarrow> Inr (JStr payload) | Inr whole \<Rightarrow> Inr whole)
      else
        (case aj_Unmarshal (ev_ajson lib) payload of
           Inl _ \<Rightarrow> Inl (ErrNew (''payload is not JSON: '' @ truncate_text payload 120))
         | Inr node \<Rightarrow>
           (case aj_Eval (ev_ajson lib) node path of
              Inl _ \<Rightarrow> Inl (ErrNew (''path did not resolve in '' @ truncate_text payload 120))
            | Inr value \<Rightarrow> ev_Unpack lib value)))"

definition satisfies :: "eval_lib \<Rightarrow> arrival \<Rightarrow> json \<Rightarrow> bool \<times> string" where
  "satisfies lib a value =
     (let seen = render lib value
      in case ar_Exists a of
           Some e \<Rightarrow> ((value \<noteq> JNull) = e, seen)
         | None \<Rightarrow>
           if ar_Equals a \<noteq> JNull then (equalish lib value (ar_Equals a), seen)
           else if ar_Contains a \<noteq> [] then (contains_str seen (ar_Contains a), seen)
           else if ar_Matches a \<noteq> [] then
             (case ev_regexp lib (ar_Matches a) of
                Inl err \<Rightarrow> (False, ''invalid regexp '' @ quoted (ar_Matches a) @ '': '' @ err_msg err)
              | Inr re \<Rightarrow> (re seen, seen))
           else if ar_Min a \<noteq> None \<or> ar_Max a \<noteq> None then
             (case numeric lib value of
                None \<Rightarrow> (False, seen @ '' (not a number)'')
              | Some n \<Rightarrow>
                ((case ar_Min a of None \<Rightarrow> True | Some m \<Rightarrow> m \<le> n) \<and> (case ar_Max a of None \<Rightarrow> True | Some m \<Rightarrow> n \<le> m), seen))
           else (True, seen))"

definition describeExpectation :: "eval_lib \<Rightarrow> arrival \<Rightarrow> string" where
  "describeExpectation lib a =
     (case ar_Exists a of
        Some e \<Rightarrow> if e then ''expected a value'' else ''expected no value''
      | None \<Rightarrow>
        if ar_Equals a \<noteq> JNull then ''expected '' @ ev_sprint lib (ar_Equals a)
        else if ar_Contains a \<noteq> [] then ''expected to contain '' @ quoted (ar_Contains a)
        else if ar_Matches a \<noteq> [] then ''expected to match '' @ quoted (ar_Matches a)
        else
          (case (ar_Min a, ar_Max a) of
             (Some lo, Some hi) \<Rightarrow> ''expected between '' @ ev_bound lib lo @ '' and '' @ ev_bound lib hi
           | (Some lo, None) \<Rightarrow> ''expected >= '' @ ev_bound lib lo
           | (None, Some hi) \<Rightarrow> ''expected <= '' @ ev_bound lib hi
           | (None, None) \<Rightarrow> ''expected a message''))"

text \<open>The loop over the payloads: \<open>None\<close> once one satisfies the assertion, else what was seen last.\<close>

fun try_payloads :: "eval_lib \<Rightarrow> arrival \<Rightarrow> string \<Rightarrow> string list \<Rightarrow> string option" where
  "try_payloads lib a lastSeen [] = Some lastSeen"
| "try_payloads lib a lastSeen (p # ps) =
     (case valueAt lib p (ar_Path a) of
        Inl err \<Rightarrow> try_payloads lib a (err_msg err) ps
      | Inr value \<Rightarrow> (case satisfies lib a value of (ok, seen) \<Rightarrow> if ok then None else try_payloads lib a seen ps))"

definition checkArrival :: "eval_lib \<Rightarrow> arrival \<Rightarrow> observed_run \<Rightarrow> failure list" where
  "checkArrival lib a got =
     (let payloads = matchPayloads (ob_Payloads got) (ar_At a)
      in if payloads = [] then [\<lparr>fl_What = ''expected a message at '' @ ar_At a, fl_Got = describePorts (ob_Payloads got)\<rparr>]
         else
           (case try_payloads lib a [] payloads of
              None \<Rightarrow> []
            | Some lastSeen \<Rightarrow>
              [\<lparr>fl_What = ''at '' @ ar_At a @ (if ar_Path a = [] then [] else '' '' @ ar_Path a) @ '': '' @ describeExpectation lib a, fl_Got = lastSeen\<rparr>]))"

definition checkUsage :: "eval_lib \<Rightarrow> observed_run \<Rightarrow> string \<times> usage_bound \<Rightarrow> failure list" where
  "checkUsage lib got ub =
     (case ub of (unit, bound) \<Rightarrow>
        (case map_of (ob_Usage got) unit of
           None \<Rightarrow> [\<lparr>fl_What = ''expected the run to meter '' @ quoted unit, fl_Got = ''nothing metered under that unit''\<rparr>]
         | Some amount \<Rightarrow>
           (case bd_Min bound of
              Some lo \<Rightarrow> if amount < lo then [\<lparr>fl_What = ''expected '' @ unit @ '' >= '' @ ev_bound lib lo, fl_Got = ev_bound lib amount\<rparr>] else []
            | None \<Rightarrow> []) @
           (case bd_Max bound of
              Some hi \<Rightarrow> if hi < amount then [\<lparr>fl_What = ''expected '' @ unit @ '' <= '' @ ev_bound lib hi, fl_Got = ev_bound lib amount\<rparr>] else []
            | None \<Rightarrow> [])))"

definition Check :: "eval_lib \<Rightarrow> eval_spec \<Rightarrow> observed_run \<Rightarrow> failure list" where
  "Check lib spec got =
     (let wantErrors = (case ex_Errors (es_Expect spec) of None \<Rightarrow> 0 | Some n \<Rightarrow> n)
      in (if ob_Errors got \<noteq> wantErrors then
            [\<lparr>fl_What = ''expected '' @ itoa wantErrors @ '' unhandled errors'',
              fl_Got = itoa (ob_Errors got) @ (if 0 < ob_Handled got then '' (plus '' @ itoa (ob_Handled got) @ '' caught by an error port)'' else [])\<rparr>]
          else []) @
         concat (map (\<lambda>a. checkArrival lib a got) (ex_Arrives (es_Expect spec))) @
         concat (map (\<lambda>port. let payloads = matchPayloads (ob_Payloads got) port
            in if payloads \<noteq> [] then [\<lparr>fl_What = ''expected nothing at '' @ port, fl_Got = itoa (int (length payloads)) @ '' message(s) arrived''\<rparr>] else [])
            (ex_Silent (es_Expect spec))) @
         concat (map (checkUsage lib got) (ex_Usage (es_Expect spec))))"

subsection \<open>Properties of the verdict\<close>

definition holds_at :: "eval_lib \<Rightarrow> arrival \<Rightarrow> string \<Rightarrow> bool" where
  "holds_at lib a p \<longleftrightarrow> (\<exists>v. valueAt lib p (ar_Path a) = Inr v \<and> fst (satisfies lib a v))"

lemma try_payloads_None: "try_payloads lib a seen ps = None \<longleftrightarrow> (\<exists>p \<in> set ps. holds_at lib a p)"
  by (induction ps arbitrary: seen) (auto simp: holds_at_def split: sum.split prod.split)

lemma checkArrival_passes:
  "checkArrival lib a got = [] \<longleftrightarrow> (\<exists>p \<in> set (matchPayloads (ob_Payloads got) (ar_At a)). holds_at lib a p)"
  by (auto simp: checkArrival_def Let_def try_payloads_None split: option.split)
    (metis option.distinct(1) try_payloads_None)+

lemma map_of_perm:
  assumes "distinct (map fst ps)" "mset ps = mset ps'"
  shows "map_of ps = map_of ps'"
proof -
  have "set ps = set ps'" using assms(2) by (rule mset_eq_setD)
  moreover have "distinct (map fst ps')" using assms by (metis mset_map mset_eq_imp_distinct_iff)
  ultimately show ?thesis using assms(1) map_of_inject_set by blast
qed

lemma matchPayloads_perm:
  assumes "distinct (map fst ps)" "mset ps = mset ps'"
  shows "set (matchPayloads ps ref) = set (matchPayloads ps' ref)"
proof -
  have "set ps = set ps'" using assms(2) by (rule mset_eq_setD)
  with map_of_perm [OF assms] show ?thesis by (auto simp: matchPayloads_def split: option.split)
qed

definition within :: "observed_run \<Rightarrow> string \<times> usage_bound \<Rightarrow> bool" where
  "within got ub \<longleftrightarrow> (\<exists>amount. map_of (ob_Usage got) (fst ub) = Some amount \<and>
     (\<forall>lo. bd_Min (snd ub) = Some lo \<longrightarrow> lo \<le> amount) \<and> (\<forall>hi. bd_Max (snd ub) = Some hi \<longrightarrow> amount \<le> hi))"

definition passes :: "eval_lib \<Rightarrow> expectation \<Rightarrow> observed_run \<Rightarrow> bool" where
  "passes lib e got \<longleftrightarrow>
     ob_Errors got = (case ex_Errors e of None \<Rightarrow> 0 | Some n \<Rightarrow> n) \<and>
     (\<forall>a \<in> set (ex_Arrives e). \<exists>p \<in> set (matchPayloads (ob_Payloads got) (ar_At a)). holds_at lib a p) \<and>
     (\<forall>port \<in> set (ex_Silent e). matchPayloads (ob_Payloads got) port = []) \<and> (\<forall>ub \<in> set (ex_Usage e). within got ub)"

lemma checkUsage_passes: "checkUsage lib got ub = [] \<longleftrightarrow> within got ub"
  by (cases ub) (auto simp: checkUsage_def within_def split: option.splits)

lemma Check_passes: "Check lib spec got = [] \<longleftrightarrow> passes lib (es_Expect spec) got"
  by (auto simp: Check_def passes_def Let_def checkArrival_passes checkUsage_passes split: if_splits)

text \<open>C35: The verdict on a run does not depend on the order in which a map is read. However the payloads, the metered amounts and the
  bounds are ordered, a run passes or it does not: it passes exactly when the unhandled errors are as many as expected, every
  expected arrival is met by some message at its port, no message reached a port that must be silent, and every metered
  amount is within its bounds.\<close>

theorem verdict_order_independent:
  assumes "distinct (map fst (ob_Payloads got))" "mset (ob_Payloads got) = mset (ob_Payloads got')"
    and "distinct (map fst (ob_Usage got))" "mset (ob_Usage got) = mset (ob_Usage got')" "ob_Errors got = ob_Errors got'"
    and "mset (ex_Usage (es_Expect spec)) = mset usage"
  shows "(Check lib spec got = [] \<longleftrightarrow> passes lib (es_Expect spec) got) \<and>
    (Check lib (spec\<lparr>es_Expect := (es_Expect spec)\<lparr>ex_Usage := usage\<rparr>\<rparr>) got' = [] \<longleftrightarrow> Check lib spec got = [])"
proof -
  note m = matchPayloads_perm [OF assms(1,2)]
  have "matchPayloads (ob_Payloads got) port = [] \<longleftrightarrow> matchPayloads (ob_Payloads got') port = []" for port
    using m [of port] by (metis set_empty)
  moreover have "within got ub \<longleftrightarrow> within got' ub" for ub
    using map_of_perm [OF assms(3,4)] by (simp add: within_def)
  moreover have "set (ex_Usage (es_Expect spec)) = set usage" using assms(6) by (rule mset_eq_setD)
  ultimately show ?thesis using assms(5) m by (simp add: Check_passes passes_def)
qed

definition plain_lib :: eval_lib where
  "plain_lib = \<lparr>ev_Unmarshal = \<lambda>b. Inr (JStr b), ev_Marshal = \<lambda>_. Inr [], ev_ajson = \<lparr>aj_Unmarshal = \<lambda>b. Inr (JStr b), aj_Eval = \<lambda>v _. Inr v, aj_Type = \<lambda>_. []\<rparr>, ev_Unpack = Inr,
     ev_num = \<lambda>_. 0, ev_float = \<lambda>s. s, ev_bound = itoa, ev_sprint = \<lambda>_. [], ev_regexp = \<lambda>_. Inr (\<lambda>_. True), ev_yaml_list = \<lambda>_. Inr [], ev_yaml_one = \<lambda>_. Inl (ErrNew [])\<rparr>"

definition sample_arrival :: arrival where
  "sample_arrival = \<lparr>ar_At = ''debug:in'', ar_Path = [], ar_Equals = JNull, ar_Contains = ''ok'', ar_Matches = [], ar_Exists = None, ar_Min = None, ar_Max = None\<rparr>"

definition sample_eval :: eval_spec where
  "sample_eval = \<lparr>es_Name = ''works'', es_Flow = [], es_Trigger = \<lparr>tr_Node = ''signal'', tr_Port = [], tr_Data = [(''key'', JStr ''${API_KEY}'')]\<rparr>, es_Timeout = 0,
     es_Expect = \<lparr>ex_Errors = None, ex_Silent = [''error:in''], ex_Arrives = [sample_arrival], ex_Usage = [(''tokens'', \<lparr>bd_Min = None, bd_Max = Some 100\<rparr>)]\<rparr>, es_Path = []\<rparr>"

definition sample_run :: observed_run where
  "sample_run = \<lparr>ob_Payloads = [(''f.debug:in'', [''fine'', ''all ok'']), (''f.router:in'', [''x''])], ob_Errors = 0, ob_Handled = 1, ob_Usage = [(''tokens'', 7), (''rows'', 1)]\<rparr>"

theorem verdict_order_independent_witness:
  "Check plain_lib sample_eval (sample_run\<lparr>ob_Payloads := rev (ob_Payloads sample_run), ob_Usage := rev (ob_Usage sample_run)\<rparr>) = [] \<and>
   Check plain_lib sample_eval sample_run = []"
proof -
  have "distinct (map fst (ob_Payloads sample_run))" "distinct (map fst (ob_Usage sample_run))" "Check plain_lib sample_eval sample_run = []" by code_simp+
  with verdict_order_independent [of sample_run "sample_run\<lparr>ob_Payloads := rev (ob_Payloads sample_run), ob_Usage := rev (ob_Usage sample_run)\<rparr>" sample_eval "ex_Usage (es_Expect sample_eval)" plain_lib]
  show ?thesis by simp
qed

subsection \<open>Properties of the environment\<close>

text \<open>The variables a string, a document and an eval refer to.\<close>

definition string_refs :: "string \<Rightarrow> string list" where
  "string_refs s = snd (expand_string (\<lambda>_. None) s)"

fun json_refs :: "json \<Rightarrow> string list" where
  "json_refs (JStr s) = string_refs s"
| "json_refs (JObj n) = concat (map (\<lambda>m. json_refs (snd m)) n)"
| "json_refs (JArr n) = concat (map json_refs n)"
| "json_refs v = []"

lemma expand_string_missing: "snd (expand_string env s) = filter (\<lambda>n. env n = None) (string_refs s)"
proof (induction env s rule: expand_string.induct)
  case (1 env s)
  show ?case
  proof (cases s)
    case (Cons c r)
    then show ?thesis
      using 1(1) [OF Cons] 1(2) [OF Cons]
      by (auto simp: string_refs_def expand_string.simps [of _ "c # r"] case_prod_unfold split: option.split)
  qed (simp add: string_refs_def expand_string.simps)
qed

lemma expandValue_split:
  "expandValue env v = (map_strings (\<lambda>_ s. fst (expand_string env s)) k v, filter (\<lambda>n. env n = None) (json_refs v))"
proof (induction v arbitrary: k rule: json_refs.induct)
  case (1 s)
  then show ?case by (simp add: case_prod_unfold expand_string_missing)
next
  case (2 n)
  have "expandValue env (snd m) = (map_strings (\<lambda>_ s. fst (expand_string env s)) (fst m) (snd m), filter (\<lambda>n. env n = None) (json_refs (snd m)))"
    if "m \<in> set n" for m using 2 [OF that] .
  then show ?case by (simp add: filter_concat o_def cong: map_cong)
next
  case (3 n)
  have "expandValue env v = (map_strings (\<lambda>_ s. fst (expand_string env s)) k v, filter (\<lambda>n. env n = None) (json_refs v))" if "v \<in> set n" for v
    using 3 [OF that] .
  then show ?case by (simp add: filter_concat o_def cong: map_cong)
qed simp_all

text \<open>An eval is fired with every variable it names or not at all, and a refusal tells names only. When each variable the trigger refers to is set,
  possibly to nothing, every reference is replaced and the rest of the eval is as written; otherwise the error is made from the
  name of the eval and the sorted names of the missing variables, so it is the same whatever the others hold.\<close>

theorem environment_complete:
  "ExpandEnv env s =
     (let data = tr_Data (es_Trigger s); unset = filter (\<lambda>n. env n = None) (json_refs (JObj data))
      in if unset = [] then
           Inr (s\<lparr>es_Trigger := (es_Trigger s)\<lparr>tr_Data := map (\<lambda>m. (fst m, map_strings (\<lambda>_ t. fst (expand_string env t)) (fst m) (snd m))) data\<rparr>\<rparr>)
         else Inl (ErrNew (es_Name s @ '': unset environment variable(s): '' @ join_str '', '' (sort (remdups unset)))))"
proof (cases "tr_Data (es_Trigger s) = []")
  case True
  then show ?thesis by (simp add: ExpandEnv_def)
next
  case False
  then show ?thesis by (simp add: ExpandEnv_def expandValue_split [where k = "[]"] Let_def del: expandValue.simps json_refs.simps)
qed

end
