(* ===== verification/Rbac_Check.thy ===== *)
theory Rbac_Check
  imports Tiny_Prelude "HOL-Library.Product_Lexorder"
begin

section \<open>Declared permissions\<close>

text \<open>
  \<open>src/cli/rbaccheck.go\<close> and the command of \<open>rbac-check.go\<close> over the requirements of \<open>src/module/requirements.go\<close>: which calls of the Kubernetes
  client in the code of a module its declared rules do not permit. The Go packages are loaded and type-checked by a
  library; what it says of a call is its method, the printed type of its receiver, and for each argument the package and name of
  its named type, if it has one. A call is given in the order the syntax trees are walked, packages without type
  information left out.
\<close>

record rbac_rule =
  rr_APIGroups :: "string list"
  rr_Resources :: "string list"
  rr_Verbs :: "string list"

record rbac_requirements =
  rq_EnableKubernetesResourceAccess :: bool
  rq_ExtraRules :: "rbac_rule list"
  rq_ExtraNamespacedRules :: "rbac_rule list"

type_synonym group_resource = "string \<times> string"

definition groupResource_String :: "group_resource \<Rightarrow> string" where
  "groupResource_String g = (if fst g = [] then snd g else fst g @ ''/'' @ snd g)"

definition clientVerbs :: "string list gomap" where
  "clientVerbs =
     [(''Get'', [''get'']), (''List'', [''list'']), (''Watch'', [''watch'']), (''Create'', [''create'']), (''Delete'', [''delete'']),
      (''Update'', [''update'']), (''Patch'', [''patch'']), (''DeleteAllOf'', [''delete'', ''list''])]"

definition baseAccess :: "(group_resource \<times> string list) list" where
  "baseAccess =
     (let verbs = [''get'', ''list'', ''patch'', ''update'', ''watch'']
      in [((''apps'', ''deployments''), verbs), (([], ''pods''), verbs), (([], ''services''), verbs), ((''networking.k8s.io'', ''ingresses''), verbs)])"

definition apiGroups :: "string gomap" where
  "apiGroups =
     [(''k8s.io/api/core/v1'', []), (''k8s.io/api/apps/v1'', ''apps''), (''k8s.io/api/batch/v1'', ''batch''),
      (''k8s.io/api/networking/v1'', ''networking.k8s.io''), (''k8s.io/api/rbac/v1'', ''rbac.authorization.k8s.io''),
      (''k8s.io/api/policy/v1'', ''policy''), (''k8s.io/api/admissionregistration/v1'', ''admissionregistration.k8s.io''),
      (''k8s.io/api/autoscaling/v1'', ''autoscaling''), (''k8s.io/api/autoscaling/v2'', ''autoscaling''),
      (''k8s.io/api/storage/v1'', ''storage.k8s.io''), (''k8s.io/api/certificates/v1'', ''certificates.k8s.io''),
      (''k8s.io/api/coordination/v1'', ''coordination.k8s.io''), (''k8s.io/api/events/v1'', ''events.k8s.io''),
      (''k8s.io/apimachinery/pkg/apis/meta/v1'', [])]"

record client_call =
  cc_Method :: string
  cc_Receiver :: "string option"
  cc_Args :: "(string \<times> string) option list"
  cc_Position :: string

record rbac_finding =
  rf_Resource :: group_resource
  rf_Verb :: string
  rf_Position :: string

definition isK8sClient :: "string option \<Rightarrow> bool" where
  "isK8sClient t =
     (case t of
        None \<Rightarrow> False
      | Some s \<Rightarrow>
        contains_str s ''sigs.k8s.io/controller-runtime/pkg/client.Client'' \<or> contains_str s ''sigs.k8s.io/controller-runtime/pkg/client.WithWatch'' \<or>
        contains_str s ''sigs.k8s.io/controller-runtime/pkg/client.Writer'' \<or> contains_str s ''sigs.k8s.io/controller-runtime/pkg/client.Reader'')"

definition trim_suffix :: "string \<Rightarrow> string \<Rightarrow> string" where
  "trim_suffix s p = (if has_suffix s p then take (length s - length p) s else s)"

definition pluralize :: "string \<Rightarrow> string" where
  "pluralize kind =
     (let lower = to_lower kind
      in if has_suffix lower ''s'' \<or> has_suffix lower ''x'' \<or> has_suffix lower ''ch'' \<or> has_suffix lower ''sh'' then lower @ ''es''
         else if has_suffix lower ''y'' then trim_suffix lower ''y'' @ ''ies''
         else lower @ ''s'')"

fun resourceOf :: "(string \<times> string) option list \<Rightarrow> group_resource option" where
  "resourceOf [] = None"
| "resourceOf (arg # args) =
     (case arg of
        None \<Rightarrow> resourceOf args
      | Some (path, name) \<Rightarrow>
        (case map_of apiGroups path of
           None \<Rightarrow> resourceOf args
         | Some grp \<Rightarrow>
           (let kind = trim_suffix name ''List'' in if kind = [] then resourceOf args else Some (grp, pluralize kind))))"

type_synonym declared_rules = "group_resource \<Rightarrow> string list"

definition permits :: "declared_rules \<Rightarrow> group_resource \<Rightarrow> string \<Rightarrow> bool" where
  "permits declared gr verb =
     list_ex (\<lambda>candidate. list_ex (\<lambda>v. v = verb \<or> v = ''*'') (declared candidate))
       [gr, (fst gr, ''*''), (''*'', snd gr), (''*'', ''*'')]"

definition add_verbs :: "group_resource \<Rightarrow> string list \<Rightarrow> declared_rules \<Rightarrow> declared_rules" where
  "add_verbs gr verbs out = out(gr := out gr @ verbs)"

definition DeclaredRules :: "bool \<Rightarrow> rbac_rule list \<Rightarrow> declared_rules" where
  "DeclaredRules enableBase extra =
     (let out = (if enableBase then fold (\<lambda>(gr, verbs). add_verbs gr verbs) baseAccess (\<lambda>_. []) else (\<lambda>_. []))
      in fold (\<lambda>rule. fold (\<lambda>g. fold (\<lambda>r. add_verbs (g, r) (rr_Verbs rule)) (rr_Resources rule)) (rr_APIGroups rule)) extra out)"

text \<open>What one call adds: a finding for each verb that is not permitted and was not reported before.\<close>

fun call_findings ::
  "declared_rules \<Rightarrow> group_resource \<Rightarrow> string \<Rightarrow> string list \<Rightarrow> string list \<times> rbac_finding list \<Rightarrow> string list \<times> rbac_finding list" where
  "call_findings declared gr pos [] st = st"
| "call_findings declared gr pos (verb # verbs) st =
     (let key = groupResource_String gr @ ''|'' @ verb
      in call_findings declared gr pos verbs
           (if permits declared gr verb \<or> key \<in> set (fst st) then st
            else (key # fst st, snd st @ [\<lparr>rf_Resource = gr, rf_Verb = verb, rf_Position = pos\<rparr>])))"

definition needed :: "client_call \<Rightarrow> (group_resource \<times> string list) option" where
  "needed call =
     (case map_of clientVerbs (cc_Method call) of
        None \<Rightarrow> None
      | Some verbs \<Rightarrow>
        if \<not> isK8sClient (cc_Receiver call) then None else map_option (\<lambda>gr. (gr, verbs)) (resourceOf (cc_Args call)))"

definition CheckRBACCoverage :: "declared_rules \<Rightarrow> client_call list \<Rightarrow> rbac_finding list" where
  "CheckRBACCoverage declared calls =
     sort_key (\<lambda>f. (groupResource_String (rf_Resource f), rf_Verb f))
       (snd (fold (\<lambda>call st. case needed call of None \<Rightarrow> st | Some (gr, verbs) \<Rightarrow> call_findings declared gr (cc_Position call) verbs st) calls ([], [])))"

definition rbac_check :: "rbac_requirements option \<Rightarrow> client_call list \<Rightarrow> rbac_finding list" where
  "rbac_check reqs calls =
     CheckRBACCoverage
       (case reqs of None \<Rightarrow> DeclaredRules False [] | Some r \<Rightarrow> DeclaredRules (rq_EnableKubernetesResourceAccess r) (rq_ExtraRules r)) calls"

subsection \<open>Properties\<close>

text \<open>What the rules grant, read as the API server reads them: a rule grants a verb on a resource when its groups, its resources and its
  verbs each have the name or a star.\<close>

definition grants :: "rbac_rule \<Rightarrow> group_resource \<Rightarrow> string \<Rightarrow> bool" where
  "grants rule gr verb \<longleftrightarrow>
     (fst gr \<in> set (rr_APIGroups rule) \<or> ''*'' \<in> set (rr_APIGroups rule)) \<and>
     (snd gr \<in> set (rr_Resources rule) \<or> ''*'' \<in> set (rr_Resources rule)) \<and>
     (verb \<in> set (rr_Verbs rule) \<or> ''*'' \<in> set (rr_Verbs rule))"

definition base_grants :: "group_resource \<Rightarrow> string \<Rightarrow> bool" where
  "base_grants gr verb \<longleftrightarrow> (\<exists>verbs. (gr, verbs) \<in> set baseAccess \<and> verb \<in> set verbs)"

lemma in_fold_add:
  "v \<in> set (fold (\<lambda>x. add_verbs (f x) (h x)) xs out gr) \<longleftrightarrow> v \<in> set (out gr) \<or> (\<exists>x \<in> set xs. f x = gr \<and> v \<in> set (h x))"
  by (induction xs arbitrary: out) (auto simp: add_verbs_def)

lemma in_fold_groups:
  "v \<in> set (fold (\<lambda>g. fold (\<lambda>r. add_verbs (g, r) verbs) rs) gs out gr) \<longleftrightarrow>
     v \<in> set (out gr) \<or> (fst gr \<in> set gs \<and> snd gr \<in> set rs \<and> v \<in> set verbs)"
proof (induction gs arbitrary: out)
  case (Cons g gs)
  have "v \<in> set (fold (\<lambda>r. add_verbs (g, r) verbs) rs out gr) \<longleftrightarrow> v \<in> set (out gr) \<or> (g = fst gr \<and> snd gr \<in> set rs \<and> v \<in> set verbs)"
    using in_fold_add [of v "\<lambda>r. (g, r)" "\<lambda>_. verbs" rs out gr] by (cases gr) auto
  then show ?case using Cons.IH by auto
qed simp

lemma in_fold_rules:
  "v \<in> set (fold (\<lambda>rule. fold (\<lambda>g. fold (\<lambda>r. add_verbs (g, r) (rr_Verbs rule)) (rr_Resources rule)) (rr_APIGroups rule)) extra out gr) \<longleftrightarrow>
     v \<in> set (out gr) \<or> (\<exists>rule \<in> set extra. fst gr \<in> set (rr_APIGroups rule) \<and> snd gr \<in> set (rr_Resources rule) \<and> v \<in> set (rr_Verbs rule))"
proof (induction extra arbitrary: out)
  case (Cons rule extra)
  then show ?case by (simp only: fold_Cons o_apply in_fold_groups list.set) blast
qed simp

lemma in_DeclaredRules:
  "v \<in> set (DeclaredRules b extra gr) \<longleftrightarrow>
     (b \<and> base_grants gr v) \<or> (\<exists>rule \<in> set extra. fst gr \<in> set (rr_APIGroups rule) \<and> snd gr \<in> set (rr_Resources rule) \<and> v \<in> set (rr_Verbs rule))"
proof -
  have "v \<in> set (fold (\<lambda>x. add_verbs (fst x) (snd x)) baseAccess (\<lambda>_. []) gr) \<longleftrightarrow> base_grants gr v"
    using in_fold_add [of v fst snd baseAccess "\<lambda>_. []" gr] by (force simp: base_grants_def)
  then show ?thesis by (auto simp: DeclaredRules_def Let_def in_fold_rules case_prod_unfold)
qed

lemma base_no_star: "\<not> base_grants (g, ''*'') v" "\<not> base_grants (''*'', r) v" "\<not> base_grants gr ''*''"
  by (auto simp: base_grants_def baseAccess_def Let_def)

lemma has_verb: "list_ex (\<lambda>v. v = verb \<or> v = ''*'') xs \<longleftrightarrow> verb \<in> set xs \<or> ''*'' \<in> set xs"
  by (auto simp: list_ex_iff)

lemma permits_grants: "permits (DeclaredRules b extra) gr verb \<longleftrightarrow> (b \<and> base_grants gr verb) \<or> (\<exists>rule \<in> set extra. grants rule gr verb)"
proof -
  have "permits (DeclaredRules b extra) gr verb \<longleftrightarrow>
      (\<exists>v \<in> {verb, ''*''}. \<exists>g \<in> {fst gr, ''*''}. \<exists>r \<in> {snd gr, ''*''}. v \<in> set (DeclaredRules b extra (g, r)))"
    by (simp add: permits_def has_verb) blast
  also have "\<dots> \<longleftrightarrow> (b \<and> base_grants gr verb) \<or> (\<exists>v \<in> {verb, ''*''}. \<exists>g \<in> {fst gr, ''*''}. \<exists>r \<in> {snd gr, ''*''}.
      \<exists>rule \<in> set extra. g \<in> set (rr_APIGroups rule) \<and> r \<in> set (rr_Resources rule) \<and> v \<in> set (rr_Verbs rule))"
    unfolding in_DeclaredRules fst_conv snd_conv by (simp add: base_no_star)
  also have "\<dots> \<longleftrightarrow> (b \<and> base_grants gr verb) \<or> (\<exists>rule \<in> set extra. grants rule gr verb)"
    unfolding grants_def by blast
  finally show ?thesis .
qed

text \<open>Names the printed form of a resource tells apart.\<close>

definition plain_resource :: "group_resource \<Rightarrow> bool" where
  "plain_resource gr \<longleftrightarrow> CHR ''/'' \<notin> set (fst gr) \<and> CHR ''|'' \<notin> set (fst gr) \<and> CHR ''/'' \<notin> set (snd gr) \<and> CHR ''|'' \<notin> set (snd gr)"

definition finding_key :: "group_resource \<times> string \<Rightarrow> string" where
  "finding_key p = groupResource_String (fst p) @ ''|'' @ snd p"

definition found :: "rbac_finding \<Rightarrow> group_resource \<times> string" where
  "found f = (rf_Resource f, rf_Verb f)"

lemma cut_unique: "a @ c # b = a' @ c # b' \<Longrightarrow> c \<notin> set a \<Longrightarrow> c \<notin> set a' \<Longrightarrow> a = a' \<and> b = b'"
proof (induction a arbitrary: a')
  case Nil
  then show ?case by (cases a') auto
next
  case (Cons x a)
  then show ?case by (cases a') auto
qed

lemma String_slash: "plain_resource g \<Longrightarrow> CHR ''/'' \<in> set (groupResource_String g) \<longleftrightarrow> fst g \<noteq> []"
  by (simp add: plain_resource_def groupResource_String_def)

lemma String_inj:
  assumes "plain_resource g" "plain_resource h" "groupResource_String g = groupResource_String h"
  shows "g = h"
proof (cases "fst g = []")
  case True
  then have "fst h = []" using String_slash [OF assms(1)] String_slash [OF assms(2)] assms(3) by simp
  then show ?thesis using True assms(3) by (simp add: groupResource_String_def prod_eq_iff)
next
  case False
  then have "fst h \<noteq> []" using String_slash [OF assms(1)] String_slash [OF assms(2)] assms(3) by simp
  then show ?thesis using False assms cut_unique [of "fst g" "CHR ''/''" "snd g" "fst h" "snd h"]
    by (simp add: plain_resource_def groupResource_String_def prod_eq_iff)
qed

lemma key_inj:
  assumes "plain_resource (fst p)" "plain_resource (fst q)" "finding_key p = finding_key q"
  shows "p = q"
proof -
  have "CHR ''|'' \<notin> set (groupResource_String g)" if "plain_resource g" for g
    using that by (auto simp: plain_resource_def groupResource_String_def)
  then have "groupResource_String (fst p) = groupResource_String (fst q) \<and> snd p = snd q"
    using assms by (intro cut_unique [where c = "CHR ''|''"]) (simp_all add: finding_key_def)
  with String_inj [OF assms(1,2)] show ?thesis by (simp add: prod_eqI)
qed

text \<open>The loop keeps a key for each finding, and finds each pair once.\<close>

definition reported :: "(group_resource \<times> string) set \<Rightarrow> string list \<times> rbac_finding list \<Rightarrow> bool" where
  "reported ps st \<longleftrightarrow> found ` set (snd st) = ps \<and> distinct (map found (snd st)) \<and> set (fst st) = finding_key ` ps \<and> (\<forall>p \<in> ps. plain_resource (fst p))"

lemma call_findings_reported:
  "plain_resource gr \<Longrightarrow> reported ps st \<Longrightarrow>
   reported (ps \<union> {(gr, v) | v. v \<in> set verbs \<and> \<not> permits declared gr v}) (call_findings declared gr pos verbs st)"
proof (induction verbs arbitrary: ps st)
  case (Cons verb verbs)
  show ?case
  proof (cases "permits declared gr verb \<or> (gr, verb) \<in> ps")
    case True
    have "finding_key (gr, verb) \<in> set (fst st)" if "(gr, verb) \<in> ps" using that Cons.prems(2) by (auto simp: reported_def)
    moreover have "ps \<union> {(gr, v) | v. v \<in> set (verb # verbs) \<and> \<not> permits declared gr v} = ps \<union> {(gr, v) | v. v \<in> set verbs \<and> \<not> permits declared gr v}"
      using True by auto
    ultimately show ?thesis using Cons.IH [OF Cons.prems] True by (auto simp: finding_key_def Let_def)
  next
    case False
    have nk: "finding_key (gr, verb) \<notin> set (fst st)"
    proof
      assume "finding_key (gr, verb) \<in> set (fst st)"
      then obtain p where "p \<in> ps" "finding_key (gr, verb) = finding_key p" using Cons.prems(2) by (auto simp: reported_def)
      then have "(gr, verb) = p" using Cons.prems by (intro key_inj) (auto simp: reported_def)
      with \<open>p \<in> ps\<close> False show False by simp
    qed
    let ?st = "(finding_key (gr, verb) # fst st, snd st @ [\<lparr>rf_Resource = gr, rf_Verb = verb, rf_Position = pos\<rparr>])"
    have "reported (insert (gr, verb) ps) ?st" using Cons.prems False by (auto simp: reported_def found_def)
    from Cons.IH [OF Cons.prems(1) this] have "reported (insert (gr, verb) ps \<union> {(gr, v) | v. v \<in> set verbs \<and> \<not> permits declared gr v})
      (call_findings declared gr pos verbs ?st)" .
    moreover have "insert (gr, verb) ps \<union> {(gr, v) | v. v \<in> set verbs \<and> \<not> permits declared gr v} =
        ps \<union> {(gr, v) | v. v \<in> set (verb # verbs) \<and> \<not> permits declared gr v}" using False by auto
    ultimately show ?thesis using False nk by (simp add: finding_key_def)
  qed
qed simp

definition demanded :: "client_call list \<Rightarrow> (group_resource \<times> string) set" where
  "demanded calls = {(gr, v). \<exists>call \<in> set calls. \<exists>verbs. needed call = Some (gr, verbs) \<and> v \<in> set verbs}"

lemma calls_reported:
  assumes "\<forall>call \<in> set calls. \<forall>gr verbs. needed call = Some (gr, verbs) \<longrightarrow> plain_resource gr" "reported ps st"
  shows "reported (ps \<union> {p \<in> demanded calls. \<not> permits declared (fst p) (snd p)})
    (fold (\<lambda>call st. case needed call of None \<Rightarrow> st | Some (gr, verbs) \<Rightarrow> call_findings declared gr (cc_Position call) verbs st) calls st)"
  using assms
proof (induction calls arbitrary: ps st)
  case (Cons call calls)
  let ?more = "{p. \<exists>gr verbs. needed call = Some (gr, verbs) \<and> fst p = gr \<and> snd p \<in> set verbs \<and> \<not> permits declared gr (snd p)}"
  have "reported (ps \<union> ?more) (case needed call of None \<Rightarrow> st | Some (gr, verbs) \<Rightarrow> call_findings declared gr (cc_Position call) verbs st)"
  proof (cases "needed call")
    case (Some nv)
    obtain gr verbs where nv: "nv = (gr, verbs)" by (cases nv)
    have "?more = {(gr, v) | v. v \<in> set verbs \<and> \<not> permits declared gr v}" using Some nv by auto
    moreover have "plain_resource gr" using Cons.prems(1) Some nv by (metis list.set_intros(1))
    ultimately show ?thesis using call_findings_reported [OF _ Cons.prems(2), of gr verbs declared] Some nv by simp
  qed (use Cons.prems in simp)
  from Cons.IH [OF _ this] Cons.prems(1)
  have "reported (ps \<union> ?more \<union> {p \<in> demanded calls. \<not> permits declared (fst p) (snd p)})
    (fold (\<lambda>call st. case needed call of None \<Rightarrow> st | Some (gr, verbs) \<Rightarrow> call_findings declared gr (cc_Position call) verbs st) (call # calls) st)" by simp
  moreover have "ps \<union> ?more \<union> {p \<in> demanded calls. \<not> permits declared (fst p) (snd p)} = ps \<union> {p \<in> demanded (call # calls). \<not> permits declared (fst p) (snd p)}"
    by (auto simp: demanded_def)
  ultimately show ?case by simp
qed (simp add: demanded_def)

text \<open>C36: The permission check reports exactly the calls the cluster-wide rules do not grant. A pair of resource and verb is reported once, in order, when
  some resolved call needs it, the base access does not have it and no extra rule grants it as the API server reads the rule. The rules
  of the release namespace never count, so a module that declares a verb only there is reported as lacking it.\<close>

theorem coverage_findings:
  assumes "\<forall>call \<in> set calls. \<forall>gr verbs. needed call = Some (gr, verbs) \<longrightarrow> plain_resource gr"
  shows "found ` set (rbac_check (Some r) calls) =
      {p \<in> demanded calls. \<not> (rq_EnableKubernetesResourceAccess r \<and> base_grants (fst p) (snd p)) \<and>
         (\<forall>rule \<in> set (rq_ExtraRules r). \<not> grants rule (fst p) (snd p))} \<and>
    distinct (map found (rbac_check (Some r) calls)) \<and>
    sorted (map (\<lambda>f. (groupResource_String (rf_Resource f), rf_Verb f)) (rbac_check (Some r) calls)) \<and>
    rbac_check (Some (r\<lparr>rq_ExtraNamespacedRules := rules\<rparr>)) calls = rbac_check (Some r) calls"
proof -
  let ?d = "DeclaredRules (rq_EnableKubernetesResourceAccess r) (rq_ExtraRules r)"
  let ?out = "snd (fold (\<lambda>call st. case needed call of None \<Rightarrow> st | Some (gr, verbs) \<Rightarrow> call_findings ?d gr (cc_Position call) verbs st) calls ([], []))"
  have "reported {p \<in> demanded calls. \<not> permits ?d (fst p) (snd p)}
      (fold (\<lambda>call st. case needed call of None \<Rightarrow> st | Some (gr, verbs) \<Rightarrow> call_findings ?d gr (cc_Position call) verbs st) calls ([], []))"
    using calls_reported [OF assms, of "{}" "([], [])" ?d] by (simp add: reported_def)
  then have "found ` set ?out = {p \<in> demanded calls. \<not> permits ?d (fst p) (snd p)}" "distinct (map found ?out)" by (simp_all add: reported_def)
  moreover have "distinct (map found (sort_key k ?out))" if "distinct (map found ?out)" for k :: "rbac_finding \<Rightarrow> string \<times> string"
    using that by (simp add: distinct_map)
  ultimately show ?thesis by (auto simp: rbac_check_def CheckRBACCoverage_def permits_grants)
qed

definition pod_calls :: "client_call list" where
  "pod_calls =
     [\<lparr>cc_Method = ''List'', cc_Receiver = Some ''sigs.k8s.io/controller-runtime/pkg/client.Client'', cc_Args = [None, Some (''k8s.io/api/core/v1'', ''PodList'')], cc_Position = ''a.go:1''\<rparr>,
      \<lparr>cc_Method = ''Create'', cc_Receiver = Some ''sigs.k8s.io/controller-runtime/pkg/client.Client'', cc_Args = [None, Some (''k8s.io/api/core/v1'', ''Pod'')], cc_Position = ''a.go:2''\<rparr>]"

definition namespaced_only :: rbac_requirements where
  "namespaced_only = \<lparr>rq_EnableKubernetesResourceAccess = True, rq_ExtraRules = [],
     rq_ExtraNamespacedRules = [\<lparr>rr_APIGroups = [[]], rr_Resources = [''pods''], rr_Verbs = [''create'']\<rparr>]\<rparr>"

theorem coverage_findings_witness:
  "found ` set (rbac_check (Some namespaced_only) pod_calls) = {(([], ''pods''), ''create'')} \<and>
   rbac_check (Some (namespaced_only\<lparr>rq_ExtraNamespacedRules := []\<rparr>)) pod_calls = rbac_check (Some namespaced_only) pod_calls"
proof -
  have n: "map needed pod_calls = [Some (([], ''pods''), [''list'']), Some (([], ''pods''), [''create''])]" by code_simp
  have "needed ` set pod_calls = {Some (([], ''pods''), [''list'']), Some (([], ''pods''), [''create''])}"
    unfolding set_map [symmetric] n by simp
  then have "needed call \<in> {Some (([], ''pods''), [''list'']), Some (([], ''pods''), [''create''])}" if "call \<in> set pod_calls" for call
    using that by blast
  then have "\<forall>call \<in> set pod_calls. \<forall>gr verbs. needed call = Some (gr, verbs) \<longrightarrow> plain_resource gr"
    by (fastforce simp: plain_resource_def)
  from coverage_findings [OF this, of namespaced_only "[]"]
  have "rbac_check (Some (namespaced_only\<lparr>rq_ExtraNamespacedRules := []\<rparr>)) pod_calls = rbac_check (Some namespaced_only) pod_calls" by blast
  moreover have "map found (rbac_check (Some namespaced_only) pod_calls) = [(([], ''pods''), ''create'')]" by code_simp
  then have "set (map found (rbac_check (Some namespaced_only) pod_calls)) = {(([], ''pods''), ''create'')}" by simp
  ultimately show ?thesis by simp
qed

end
