(* ===== verification/Flow_Issues.thy ===== *)
theory Flow_Issues
  imports Flow_Elements
begin

section \<open>Faults of a flow and its readiness\<close>

text \<open>
  \<open>src/pkg/tools/flow_validate.go\<close>, \<open>signal_readiness.go\<close> and \<open>position_tracker.go\<close>: the faults the authoring tools report of a graph, the wait for
  a flow to come up before it is fired, and the positions of new nodes. An element is an object of the decoded graph; the lists of
  strings a reader may build in the process are the lists a decoder gives. The reader of the project is a function of the
  number of the poll, and so is the state of the context; the waits between two polls take no part.
\<close>

subsection \<open>Structural faults\<close>

definition mapStr :: "element \<Rightarrow> string \<Rightarrow> string" where
  "mapStr el key = GetStr (field el key)"

definition elemIsEdge :: "element \<Rightarrow> bool" where
  "elemIsEdge el =
     (if mapStr el ''type'' = ''tinyEdge'' then True
      else if mapStr el ''type'' = ''tinyNode'' then False
      else mapStr el ''source'' \<noteq> [] \<and> mapStr el ''target'' \<noteq> [])"

definition elemDataStr :: "element \<Rightarrow> string \<Rightarrow> string" where
  "elemDataStr el key = (case field el ''data'' of JObj data \<Rightarrow> mapStr data key | _ \<Rightarrow> [])"

definition string_items :: "json \<Rightarrow> string list" where
  "string_items v = (case v of JArr raw \<Rightarrow> List.map_filter json_string raw | _ \<Rightarrow> [])"

definition elemDataStrings :: "element \<Rightarrow> string \<Rightarrow> string list" where
  "elemDataStrings el key = (case field el ''data'' of JObj data \<Rightarrow> string_items (field data key) | _ \<Rightarrow> [])"

definition elemOutPorts :: "element \<Rightarrow> string list" where
  "elemOutPorts el =
     (case field el ''data'' of
        JObj data \<Rightarrow> (case field data ''ports'' of JObj ports \<Rightarrow> string_items (field ports ''out'') | _ \<Rightarrow> [])
      | _ \<Rightarrow> [])"

text \<open>The nodes an edge touches and the nodes whose error port has an edge.\<close>

definition connected :: "element list \<Rightarrow> string list" where
  "connected elements =
     concat (map (\<lambda>el. filter (\<lambda>s. s \<noteq> []) [mapStr el ''source'', mapStr el ''target'']) (filter elemIsEdge elements))"

definition errPortWired :: "element list \<Rightarrow> string list" where
  "errPortWired elements =
     map (\<lambda>el. mapStr el ''source'')
       (filter (\<lambda>el. elemIsEdge el \<and> mapStr el ''source'' \<noteq> [] \<and> mapStr el ''sourceHandle'' = ''error'') elements)"

definition edge_issues :: "element \<Rightarrow> string list" where
  "edge_issues el =
     (let e = elemDataStr el ''error''
      in if e \<noteq> [] then [''BROKEN EDGE '' @ mapStr el ''id'' @ '': '' @ e @ '' '' @ emdash @ '' fix the expression or delete the edge.''] else [])"

definition node_issues :: "string list \<Rightarrow> string list \<Rightarrow> element \<Rightarrow> string list" where
  "node_issues wired errWired el =
     (let nid = mapStr el ''id''; comp = elemDataStr el ''component''; unknown = elemDataStrings el ''settings_unknown_keys'';
          ce = elemDataStr el ''config_error''
      in if nid = [] then []
         else
           (if ce \<noteq> [] then [''NODE '' @ nid @ '' ('' @ comp @ ''): '' @ ce] else []) @
           (if unknown \<noteq> [] then
              [''IGNORED SETTINGS on '' @ nid @ '' ('' @ comp @ ''): '' @ join_str '', '' unknown @ '' '' @ emdash @ '' the component has no such setting, so '' @
               (if length unknown = 1 then ''it is'' else ''they are'') @
               '' dropped and does nothing. Check the spelling against get_component_info, and remember a credential belongs on the input port that consumes it, never in settings.'']
            else []) @
           (if nid \<notin> set wired then [''DANGLING NODE '' @ nid @ '' ('' @ comp @ ''): no edges at all '' @ emdash @ '' wire it into the flow or delete it.'']
            else
              map (\<lambda>_. ''UNCONNECTED ERROR PORT on '' @ nid @ '' ('' @ comp @ ''): wire the error port to a recovery/debug node, or disable it (settings.enableErrorPort=false) '' @
                       emdash @ '' an unwired error port silently drops failures.'')
                (filter (\<lambda>p. p = ''error'' \<and> nid \<notin> set errWired) (elemOutPorts el))))"

definition FlowIssues :: "element list \<Rightarrow> string list" where
  "FlowIssues elements =
     concat (map edge_issues (filter elemIsEdge elements)) @
     concat (map (node_issues (connected elements) (errPortWired elements)) (filter (\<lambda>el. \<not> elemIsEdge el) elements))"

definition flowIssues :: "(string \<Rightarrow> go_error + element list option) option \<Rightarrow> string \<Rightarrow> string list" where
  "flowIssues reader projectName =
     (case reader of
        None \<Rightarrow> []
      | Some read \<Rightarrow>
        if projectName = [] then []
        else (case read projectName of Inr (Some elements) \<Rightarrow> FlowIssues elements | _ \<Rightarrow> []))"

subsection \<open>Readiness\<close>

definition IsStartFire :: "element \<Rightarrow> bool" where
  "IsStartFire data = (json_bool (field data ''send'') = Some True \<or> json_bool (field data ''start'') = Some True)"

definition goodNodeStatus :: "string list" where
  "goodNodeStatus = [''OK'', ''Running'', ''Ready'', ''Started'', ''Stopped'', ''Idle'']"

definition flowScopedElements :: "element list \<Rightarrow> string \<Rightarrow> element list" where
  "flowScopedElements all nodeID =
     (let flow = (case find (\<lambda>el. mapStr el ''id'' = nodeID) all of None \<Rightarrow> [] | Some el \<Rightarrow> mapStr el ''flow'')
      in if flow = [] then all else filter (\<lambda>el. mapStr el ''flow'' = flow) all)"

text \<open>The elements with a status: everything but edges that has data.\<close>

definition node_data :: "element list \<Rightarrow> (string \<times> element) list" where
  "node_data els =
     List.map_filter (\<lambda>el. if mapStr el ''type'' = ''tinyEdge'' then None else map_option (\<lambda>data. (mapStr el ''id'', data)) (json_object (field el ''data''))) els"

definition statusSignature :: "element list \<Rightarrow> string \<times> bool" where
  "statusSignature els =
     (join_str ''|'' (map (\<lambda>(nid, data). nid @ ''='' @ mapStr data ''status'') (node_data els)),
      list_all (\<lambda>(nid, data). mapStr data ''status'' \<noteq> []) (node_data els))"

definition collapseStatus :: "string \<Rightarrow> string" where
  "collapseStatus s =
     (let t = trim_space (map (\<lambda>c. if c = CHR 0x0A then CHR '' '' else c) s)
      in if 240 < length t then take 240 t @ ellipsis else t)"

definition NodeStatusFaults :: "element list \<Rightarrow> string list" where
  "NodeStatusFaults els =
     map (\<lambda>(nid, data). ''node '' @ nid @ '' failed to come up: '' @ collapseStatus (mapStr data ''status''))
       (filter (\<lambda>(nid, data). mapStr data ''status'' \<noteq> [] \<and> mapStr data ''status'' \<notin> set goodNodeStatus) (node_data els))"

definition NotReadyNodes :: "element list \<Rightarrow> string list" where
  "NotReadyNodes els = map fst (filter (\<lambda>(nid, data). mapStr data ''status'' = []) (node_data els))"

text \<open>What a poll sees: the elements of the flow, or nothing when the read fails.\<close>

definition read_at :: "(nat \<Rightarrow> go_error + element list option) \<Rightarrow> string \<Rightarrow> nat \<Rightarrow> element list option" where
  "read_at read nodeID k = (case read k of Inr (Some all) \<Rightarrow> Some (flowScopedElements all nodeID) | _ \<Rightarrow> None)"

text \<open>The polling loop from poll \<open>i\<close> on: what was last seen, the signature before it and for how many polls it has been the same. The
  second result is the number of polls.\<close>

function poll_ready ::
  "(nat \<Rightarrow> go_error + element list option) \<Rightarrow> (nat \<Rightarrow> bool) \<Rightarrow> string \<Rightarrow> nat \<Rightarrow> element list \<Rightarrow> string \<Rightarrow> nat \<Rightarrow> element list \<times> nat" where
  "poll_ready read cancelled nodeID i lastSeen prevSig quiet =
     (if 30 \<le> i then (lastSeen, i)
      else
        (case read_at read nodeID i of
           Some seen \<Rightarrow>
             (let sig = fst (statusSignature seen); still = (if sig = prevSig then Suc quiet else 0)
              in if snd (statusSignature seen) \<or> (2 \<le> still \<and> 3 \<le> i) \<or> cancelled i then (seen, Suc i)
                 else poll_ready read cancelled nodeID (Suc i) seen sig still)
         | None \<Rightarrow> if cancelled i then (lastSeen, Suc i) else poll_ready read cancelled nodeID (Suc i) lastSeen prevSig quiet))"
  by pat_completeness auto
termination by (relation "measure (\<lambda>(_, _, _, i, _). 30 - i)") auto

declare poll_ready.simps [simp del]

definition WaitFlowReady ::
  "(nat \<Rightarrow> go_error + element list option) option \<Rightarrow> (nat \<Rightarrow> bool) \<Rightarrow> string \<Rightarrow> string \<Rightarrow> element list \<times> nat" where
  "WaitFlowReady reader cancelled projectName nodeID =
     (case reader of
        None \<Rightarrow> ([], 0)
      | Some read \<Rightarrow> if projectName = [] then ([], 0) else poll_ready read cancelled nodeID 0 [] [] 0)"

subsection \<open>Positions\<close>

record node_position =
  np_NodeID :: string
  np_FlowName :: string
  np_X :: int
  np_Y :: int

type_synonym positions = "node_position list gomap"

definition flow_positions :: "positions \<Rightarrow> string \<Rightarrow> node_position list" where
  "flow_positions t flowName = (case map_of t flowName of None \<Rightarrow> [] | Some ps \<Rightarrow> ps)"

definition RecordPosition :: "string \<Rightarrow> string \<Rightarrow> int \<Rightarrow> int \<Rightarrow> positions \<Rightarrow> positions" where
  "RecordPosition flowName nodeID x y t =
     AList.update flowName (flow_positions t flowName @ [\<lparr>np_NodeID = nodeID, np_FlowName = flowName, np_X = x, np_Y = y\<rparr>]) t"

definition GetMaxX :: "positions \<Rightarrow> string \<Rightarrow> int" where
  "GetMaxX t flowName = fold (\<lambda>p m. if m < np_X p then np_X p else m) (flow_positions t flowName) 0"

definition GetNextY :: "positions \<Rightarrow> string \<Rightarrow> int \<Rightarrow> int \<Rightarrow> int" where
  "GetNextY t flowName targetX columnWidth =
     150 + int (length (filter (\<lambda>p. \<bar>np_X p - targetX\<bar> < columnWidth) (flow_positions t flowName))) * 360"

definition GetAllPositions :: "positions \<Rightarrow> string \<Rightarrow> node_position list" where
  "GetAllPositions t flowName = flow_positions t flowName"

subsection \<open>Properties\<close>

text \<open>A graph without reported faults is structurally sound, and every fault is reported. Nothing is reported exactly when no edge has an error, and every
  element that is not an edge and has an identifier has no configuration error, no setting the component ignores, an edge at either end, and an edge
  from its error port when it has one.\<close>

theorem flow_issues_complete:
  "FlowIssues els = [] \<longleftrightarrow>
     (\<forall>el \<in> set els. if elemIsEdge el then elemDataStr el ''error'' = []
        else mapStr el ''id'' \<noteq> [] \<longrightarrow>
          elemDataStr el ''config_error'' = [] \<and> elemDataStrings el ''settings_unknown_keys'' = [] \<and>
          (\<exists>e \<in> set els. elemIsEdge e \<and> (mapStr e ''source'' = mapStr el ''id'' \<or> mapStr e ''target'' = mapStr el ''id'')) \<and>
          (''error'' \<in> set (elemOutPorts el) \<longrightarrow>
             (\<exists>e \<in> set els. elemIsEdge e \<and> mapStr e ''source'' = mapStr el ''id'' \<and> mapStr e ''sourceHandle'' = ''error'')))"
proof -
  have c: "nid \<in> set (connected els) \<longleftrightarrow> (\<exists>e \<in> set els. elemIsEdge e \<and> (mapStr e ''source'' = nid \<or> mapStr e ''target'' = nid))" if "nid \<noteq> []" for nid
    using that by (auto simp: connected_def)
  have w: "nid \<in> set (errPortWired els) \<longleftrightarrow> (\<exists>e \<in> set els. elemIsEdge e \<and> mapStr e ''source'' = nid \<and> mapStr e ''sourceHandle'' = ''error'')" if "nid \<noteq> []" for nid
    using that by (auto simp: errPortWired_def)
  have n: "node_issues wired errWired el = [] \<longleftrightarrow>
      (mapStr el ''id'' \<noteq> [] \<longrightarrow> elemDataStr el ''config_error'' = [] \<and> elemDataStrings el ''settings_unknown_keys'' = [] \<and>
         mapStr el ''id'' \<in> set wired \<and> (''error'' \<in> set (elemOutPorts el) \<longrightarrow> mapStr el ''id'' \<in> set errWired))" for wired errWired el
    by (auto simp: node_issues_def Let_def filter_empty_conv)
  have "FlowIssues els = [] \<longleftrightarrow>
      (\<forall>el \<in> set els. if elemIsEdge el then elemDataStr el ''error'' = [] else node_issues (connected els) (errPortWired els) el = [])"
    by (auto simp: FlowIssues_def edge_issues_def Let_def)
  then show ?thesis by (simp add: n c w cong: if_cong)
qed

theorem flow_issues_complete_witness:
  "FlowIssues [[(''id'', JStr ''a''), (''type'', JStr ''tinyNode'')], [(''id'', JStr ''b''), (''type'', JStr ''tinyNode'')],
     [(''type'', JStr ''tinyEdge''), (''source'', JStr ''a''), (''target'', JStr ''b'')]] = []"
  by (subst flow_issues_complete) code_simp

lemma settled_iff: "snd (statusSignature els) \<longleftrightarrow> NotReadyNodes els = []"
  by (auto simp: statusSignature_def NotReadyNodes_def list_all_iff filter_empty_conv)

text \<open>The result is what the latest successful poll saw.\<close>

definition latest :: "(nat \<Rightarrow> element list option) \<Rightarrow> nat \<Rightarrow> nat \<Rightarrow> element list \<Rightarrow> element list \<Rightarrow> bool" where
  "latest seen i n start els \<longleftrightarrow>
     (els = start \<and> (\<forall>j. i \<le> j \<and> j < n \<longrightarrow> seen j = None)) \<or>
     (\<exists>k. i \<le> k \<and> k < n \<and> seen k = Some els \<and> (\<forall>j. k < j \<and> j < n \<longrightarrow> seen j = None))"

lemma latest_from: "latest seen (Suc i) n start els \<Longrightarrow> seen i = None \<Longrightarrow> latest seen i n start els"
  unfolding latest_def
proof (elim disjE exE conjE)
  assume n: "seen i = None" and r: "els = start" "\<forall>j. Suc i \<le> j \<and> j < n \<longrightarrow> seen j = None"
  have "seen j = None" if "i \<le> j" "j < n" for j using that n r(2) by (cases "i = j") auto
  then show "(els = start \<and> (\<forall>j. i \<le> j \<and> j < n \<longrightarrow> seen j = None)) \<or>
     (\<exists>k. i \<le> k \<and> k < n \<and> seen k = Some els \<and> (\<forall>j. k < j \<and> j < n \<longrightarrow> seen j = None))" using r(1) by blast
next
  fix k
  assume k: "Suc i \<le> k" "k < n" "seen k = Some els" "\<forall>j. k < j \<and> j < n \<longrightarrow> seen j = None"
  from k(1) have "i \<le> k" by simp
  with k show "(els = start \<and> (\<forall>j. i \<le> j \<and> j < n \<longrightarrow> seen j = None)) \<or>
     (\<exists>k. i \<le> k \<and> k < n \<and> seen k = Some els \<and> (\<forall>j. k < j \<and> j < n \<longrightarrow> seen j = None))" by blast
qed

lemma latest_over: "latest seen (Suc i) n now els \<Longrightarrow> seen i = Some now \<Longrightarrow> i < n \<Longrightarrow> latest seen i n start els"
  unfolding latest_def
proof (elim disjE exE conjE)
  assume n: "seen i = Some now" "i < n" and r: "els = now" "\<forall>j. Suc i \<le> j \<and> j < n \<longrightarrow> seen j = None"
  have "i \<le> i \<and> i < n \<and> seen i = Some els \<and> (\<forall>j. i < j \<and> j < n \<longrightarrow> seen j = None)" using n r by (simp add: Suc_le_eq)
  then show "(els = start \<and> (\<forall>j. i \<le> j \<and> j < n \<longrightarrow> seen j = None)) \<or>
     (\<exists>k. i \<le> k \<and> k < n \<and> seen k = Some els \<and> (\<forall>j. k < j \<and> j < n \<longrightarrow> seen j = None))" by blast
next
  fix k
  assume k: "Suc i \<le> k" "k < n" "seen k = Some els" "\<forall>j. k < j \<and> j < n \<longrightarrow> seen j = None"
  from k(1) have "i \<le> k" by simp
  with k show "(els = start \<and> (\<forall>j. i \<le> j \<and> j < n \<longrightarrow> seen j = None)) \<or>
     (\<exists>k. i \<le> k \<and> k < n \<and> seen k = Some els \<and> (\<forall>j. k < j \<and> j < n \<longrightarrow> seen j = None))" by blast
qed

lemma latest_now: "seen i = Some els \<Longrightarrow> latest seen i (Suc i) start els" "seen i = None \<Longrightarrow> latest seen i (Suc i) start start"
  unfolding latest_def by (auto simp: less_Suc_eq)

text \<open>The signatures of the successful polls before poll \<open>n\<close>.\<close>

definition signatures :: "(nat \<Rightarrow> element list option) \<Rightarrow> nat \<Rightarrow> string list" where
  "signatures seen n = List.map_filter (\<lambda>k. map_option (\<lambda>els. fst (statusSignature els)) (seen k)) [0..<n]"

lemma signatures_Suc:
  "signatures seen (Suc n) = signatures seen n @ (case seen n of None \<Rightarrow> [] | Some els \<Rightarrow> [fst (statusSignature els)])"
  by (simp add: signatures_def List.map_filter_def split: option.split)

text \<open>What the loop remembers of them: the last one, and how often it has been repeated.\<close>

definition remembers :: "string list \<Rightarrow> string \<Rightarrow> nat \<Rightarrow> bool" where
  "remembers sigs prevSig quiet =
     (if sigs = [] then prevSig = [] \<and> quiet = 0 else \<exists>pre. sigs = pre @ replicate (Suc quiet) prevSig)"

lemma join_str_eq_Nil: "join_str d xs = [] \<Longrightarrow> x \<in> set xs \<Longrightarrow> x = []"
  by (induction d xs rule: join_str.induct) auto

lemma unsettled_signature: "NotReadyNodes els \<noteq> [] \<Longrightarrow> fst (statusSignature els) \<noteq> []"
  using join_str_eq_Nil [of "''|''" "map (\<lambda>(nid, data). nid @ ''='' @ mapStr data ''status'') (node_data els)"]
  by (fastforce simp: statusSignature_def NotReadyNodes_def filter_empty_conv)

lemma remembers_step:
  assumes "remembers sigs prevSig quiet" "sig \<noteq> []"
  shows "remembers (sigs @ [sig]) sig (if sig = prevSig then Suc quiet else 0)"
proof (cases "sig = prevSig")
  case True
  then obtain pre where "sigs = pre @ replicate (Suc quiet) prevSig"
    using assms by (auto simp: remembers_def split: if_splits)
  with True show ?thesis by (auto simp: remembers_def replicate_append_same intro!: exI [of _ pre])
qed (auto simp: remembers_def)

lemma remembers_thrice: "remembers sigs sig quiet \<Longrightarrow> 2 \<le> quiet \<Longrightarrow> \<exists>pre. sigs = pre @ [sig, sig, sig]"
proof -
  assume r: "remembers sigs sig quiet" "2 \<le> quiet"
  then obtain pre where pre: "sigs = pre @ replicate (Suc quiet) sig" by (auto simp: remembers_def split: if_splits)
  have "replicate (Suc quiet) sig = replicate (quiet - 2) sig @ replicate 3 sig"
    using r(2) by (metis Suc_eq_plus1 add_Suc_right le_add_diff_inverse2 numeral_2_eq_2 numeral_3_eq_3 replicate_add)
  then show ?thesis using pre by (auto simp: numeral_3_eq_3)
qed

text \<open>Why the wait ended at poll \<open>n\<close>, and that there was no reason to end it earlier.\<close>

definition ended_at :: "(nat \<Rightarrow> element list option) \<Rightarrow> (nat \<Rightarrow> bool) \<Rightarrow> nat \<Rightarrow> element list \<Rightarrow> bool" where
  "ended_at seen cancelled n els =
     (cancelled (n - 1) \<or> NotReadyNodes els = [] \<or>
      (4 \<le> n \<and> seen (n - 1) = Some els \<and> (\<exists>pre sig. signatures seen n = pre @ [sig, sig, sig])))"

definition went_on :: "(nat \<Rightarrow> element list option) \<Rightarrow> (nat \<Rightarrow> bool) \<Rightarrow> nat \<Rightarrow> bool" where
  "went_on seen cancelled k = (\<not> cancelled k \<and> (\<forall>els. seen k = Some els \<longrightarrow> NotReadyNodes els \<noteq> []))"

lemma went_on_from: "\<forall>k. Suc i \<le> k \<and> Suc k < n \<longrightarrow> P k \<Longrightarrow> P i \<Longrightarrow> \<forall>k. i \<le> k \<and> Suc k < (n::nat) \<longrightarrow> P k"
  by (metis Suc_leI le_neq_implies_less)

lemma poll_ready_spec:
  "poll_ready read cancelled nodeID i start prevSig quiet = (els, n) \<Longrightarrow> i \<le> 30 \<Longrightarrow>
   remembers (signatures (read_at read nodeID) i) prevSig quiet \<Longrightarrow>
     i \<le> n \<and> n \<le> 30 \<and> latest (read_at read nodeID) i n start els \<and>
     (n < 30 \<longrightarrow> ended_at (read_at read nodeID) cancelled n els) \<and>
     (\<forall>k. i \<le> k \<and> Suc k < n \<longrightarrow> went_on (read_at read nodeID) cancelled k)"
proof (induction read cancelled nodeID i start prevSig quiet rule: poll_ready.induct)
  case (1 read cancelled nodeID i start prevSig quiet)
  let ?seen = "read_at read nodeID"
  show ?case
  proof (cases "30 \<le> i")
    case True
    then have "poll_ready read cancelled nodeID i start prevSig quiet = (start, i)" by (simp add: poll_ready.simps)
    then have "els = start" "n = i" using 1(3) by simp_all
    then show ?thesis using True 1(4) by (auto simp: latest_def)
  next
    case False
    show ?thesis
    proof (cases "?seen i")
      case None
      then have p: "poll_ready read cancelled nodeID i start prevSig quiet =
          (if cancelled i then (start, Suc i) else poll_ready read cancelled nodeID (Suc i) start prevSig quiet)"
        using False by (subst poll_ready.simps) simp
      show ?thesis
      proof (cases "cancelled i")
        case True
        then show ?thesis using 1(3) p False None by (auto intro: latest_now simp: ended_at_def)
      next
        case nc: False
        then have "poll_ready read cancelled nodeID (Suc i) start prevSig quiet = (els, n)" using 1(3) p by simp
        moreover have "remembers (signatures ?seen (Suc i)) prevSig quiet" using 1(5) None by (simp add: signatures_Suc)
        ultimately have ih: "Suc i \<le> n" "n \<le> 30" "latest ?seen (Suc i) n start els"
          "n < 30 \<longrightarrow> ended_at ?seen cancelled n els" "\<forall>k. Suc i \<le> k \<and> Suc k < n \<longrightarrow> went_on ?seen cancelled k"
          using 1(1) [OF False None nc] False by simp_all
        have "went_on ?seen cancelled i" using nc None by (simp add: went_on_def)
        from latest_from [OF ih(3) None] went_on_from [OF ih(5) this] ih show ?thesis by simp
      qed
    next
      case (Some seen)
      let ?sig = "fst (statusSignature seen)" and ?still = "if fst (statusSignature seen) = prevSig then Suc quiet else 0"
      let ?stop = "snd (statusSignature seen) \<or> (2 \<le> ?still \<and> 3 \<le> i) \<or> cancelled i"
      have p: "poll_ready read cancelled nodeID i start prevSig quiet =
          (if ?stop then (seen, Suc i) else poll_ready read cancelled nodeID (Suc i) seen ?sig ?still)"
        using False Some by (subst poll_ready.simps) (simp add: Let_def)
      have mem: "remembers (signatures ?seen (Suc i)) ?sig ?still" if "NotReadyNodes seen \<noteq> []"
        using remembers_step [OF 1(5) unsettled_signature [OF that]] Some by (simp add: signatures_Suc)
      show ?thesis
      proof (cases ?stop)
        case True
        then have r: "els = seen" "n = Suc i" using 1(3) p by simp_all
        have "ended_at ?seen cancelled (Suc i) seen"
          using True Some remembers_thrice [OF mem] by (fastforce simp: ended_at_def settled_iff)
        with r False Some show ?thesis by (auto intro: latest_now)
      next
        case go: False
        have unready: "NotReadyNodes seen \<noteq> []" using go by (simp add: settled_iff)
        have "poll_ready read cancelled nodeID (Suc i) seen ?sig ?still = (els, n)" using 1(3) by (simp only: p if_not_P [OF go])
        then have ih: "Suc i \<le> n" "n \<le> 30" "latest ?seen (Suc i) n seen els"
          "n < 30 \<longrightarrow> ended_at ?seen cancelled n els" "\<forall>k. Suc i \<le> k \<and> Suc k < n \<longrightarrow> went_on ?seen cancelled k"
          using 1(2) [OF False Some refl refl go _ _ mem [OF unready]] False by simp_all
        have "went_on ?seen cancelled i" using go unready Some by (simp add: went_on_def)
        from latest_over [OF ih(3) Some] went_on_from [OF ih(5) this] ih show ?thesis by simp
      qed
    qed
  qed
qed

text \<open>C37: the wait before a flow is fired is bounded, ends early only for a reason, and ends as soon as the flow is ready. With a reader and the name of a project it polls at
  most thirty times; what it returns is what the latest successful poll saw of the flow, nothing if none succeeded. When it stops before
  the last poll without being cancelled, every node of the flow had a status, or at least four polls had been made, the last of them saw
  the flow, and the last three successful polls saw the same signature. It never goes on after a cancelled poll or one that saw
  every node with a status.\<close>

theorem readiness_bounded:
  assumes "WaitFlowReady (Some read) cancelled projectName nodeID = (els, n)" "projectName \<noteq> []"
  shows "n \<le> 30 \<and>
    ((els = [] \<and> (\<forall>j<n. read_at read nodeID j = None)) \<or>
     (\<exists>k<n. read_at read nodeID k = Some els \<and> (\<forall>j. k < j \<and> j < n \<longrightarrow> read_at read nodeID j = None))) \<and>
    (n < 30 \<longrightarrow> cancelled (n - 1) \<or> NotReadyNodes els = [] \<or>
       (4 \<le> n \<and> read_at read nodeID (n - 1) = Some els \<and>
        (\<exists>pre sig. signatures (read_at read nodeID) n = pre @ [sig, sig, sig]))) \<and>
    (\<forall>k. Suc k < n \<longrightarrow> \<not> cancelled k \<and> (\<forall>seen. read_at read nodeID k = Some seen \<longrightarrow> NotReadyNodes seen \<noteq> []))"
proof -
  have "remembers (signatures (read_at read nodeID) 0) [] 0" by (simp add: remembers_def signatures_def map_filter_simps)
  then show ?thesis
    using poll_ready_spec [of read cancelled nodeID 0 "[]" "[]" 0 els n] assms
    by (simp add: WaitFlowReady_def latest_def ended_at_def went_on_def)
qed

theorem readiness_bounded_witness:
  "\<exists>els. WaitFlowReady (Some (\<lambda>i. Inr (Some [[(''id'', JStr ''a''), (''data'', JObj [(''status'', JStr [])])]]))) (\<lambda>_. False) ''p'' ''a'' = (els, 4) \<and>
     NotReadyNodes els = [''a''] \<and>
     (\<exists>pre sig. signatures (read_at (\<lambda>i. Inr (Some [[(''id'', JStr ''a''), (''data'', JObj [(''status'', JStr [])])]])) ''a'') 4 = pre @ [sig, sig, sig])"
proof -
  let ?r = "\<lambda>i::nat. Inr (Some [[(''id'', JStr ''a''), (''data'', JObj [(''status'', JStr [])])]]) :: go_error + element list option"
  obtain els n where w: "WaitFlowReady (Some ?r) (\<lambda>_. False) ''p'' ''a'' = (els, n)" by fastforce
  have v: "snd (WaitFlowReady (Some ?r) (\<lambda>_. False) ''p'' ''a'') = 4"
    "NotReadyNodes (fst (WaitFlowReady (Some ?r) (\<lambda>_. False) ''p'' ''a'')) = [''a'']" by code_simp+
  then have "n = 4" "NotReadyNodes els = [''a'']" using w by simp_all
  with readiness_bounded [OF w] w show ?thesis by auto
qed

end
