(* ===== verification/Data_Generator.thy ===== *)
theory Data_Generator
  imports Flow_Elements Expression_Eval
begin

section \<open>Sample data from a schema\<close>

text \<open>
  \<open>src/pkg/jsonschemagenerator/generator.go\<close>: a value made up from a JSON schema. A parsed schema is its tree;
  \<open>get_key\<close> is \<open>GetKey\<close> of the JSON library with the error dropped, as the code drops it.

  The generator follows references without remembering them, so it may run forever: it takes fuel, and \<open>None\<close> is
  an unfinished run. The random source and whatever the callback keeps are the state \<open>'s\<close> that is passed along.
  \<open>gn_isZero\<close> and \<open>gn_int\<close> are the comparison with zero and the truncation of the float a number denotes.
\<close>

record 's generator =
  gn_IntRange :: "int \<Rightarrow> int \<Rightarrow> 's \<Rightarrow> int \<times> 's"
  gn_Float64Range :: "string \<Rightarrow> string \<Rightarrow> 's \<Rightarrow> string \<times> 's"
  gn_Bool :: "'s \<Rightarrow> bool \<times> 's"
  gn_NounAbstract :: "'s \<Rightarrow> string \<times> 's"
  gn_isZero :: "string \<Rightarrow> bool"
  gn_int :: "string \<Rightarrow> int"
  gn_String :: "json \<Rightarrow> string"
  gn_keyError :: "json \<Rightarrow> string \<Rightarrow> string"

type_synonym 's callback = "json \<Rightarrow> 's \<Rightarrow> ((json \<times> bool \<times> go_error option) \<times> 's) option"
type_synonym ('s, 'a) run = "'s \<Rightarrow> ((go_error + 'a) \<times> 's) option"

definition get_key :: "json \<Rightarrow> string \<Rightarrow> json option" where
  "get_key n k = Option.bind (json_object n) (\<lambda>ms. map_of ms k)"

definition GetStrKey :: "string \<Rightarrow> json \<Rightarrow> go_error + string" where
  "GetStrKey k n =
     (case get_key n k of
        None \<Rightarrow> Inr []
      | Some v \<Rightarrow> (case json_string v of None \<Rightarrow> Inl (ErrNew (k @ '' is not a string'')) | Some s \<Rightarrow> Inr s))"

text \<open>The string, when the error is dropped.\<close>

definition str_key :: "string \<Rightarrow> json \<Rightarrow> string" where
  "str_key k n = (case GetStrKey k n of Inl _ \<Rightarrow> [] | Inr s \<Rightarrow> s)"

definition GetNumericKey :: "string \<Rightarrow> json \<Rightarrow> string" where
  "GetNumericKey k n = (case get_key n k of Some (JNum t) \<Rightarrow> t | _ \<Rightarrow> ''0'')"

definition string_example :: "string \<Rightarrow> string option" where
  "string_example format = map_of
     [(''date-time'', ''1984-09-06T10:00:00+00:00''), (''time'', ''10:00:00+00:00''), (''date'', ''1984-09-06''), (''duration'', ''2h''),
      (''email'', ''contact@tinysystems.io''), (''hostname'', ''example.com''), (''ipv4'', ''8.8.8.8''),
      (''uuid'', ''3e4666bf-d5e5-4aa7-b8ce-cefe41c7568a''),
      (''uri'', ''https://john.doe@example.com:123/forum/questions/?tag=networking&order=newest#top'')] format"

definition typed_default :: "'s generator \<Rightarrow> string \<Rightarrow> json \<Rightarrow> 's \<Rightarrow> (go_error + json) \<times> 's" where
  "typed_default gn typ n s =
     (let minimum = GetNumericKey ''minimum'' n; maximum = GetNumericKey ''maximum'' n;
          bounded = (\<not> gn_isZero gn maximum \<or> \<not> gn_isZero gn minimum)
      in if typ = ''object'' then (Inr (JObj []), s)
         else if typ = ''number'' then
           (let (x, s') = (if bounded then gn_Float64Range gn minimum maximum s else gn_Float64Range gn ''0'' ''9999'' s)
            in (Inr (JNum x), s'))
         else if typ = ''integer'' then
           (let (i, s') = (if bounded then gn_IntRange gn (gn_int gn minimum) (gn_int gn maximum) s else gn_IntRange gn 0 9999 s)
            in (Inr (JNum (itoa i)), s'))
         else if typ = ''boolean'' then (let (b, s') = gn_Bool gn s in (Inr (JBool b), s'))
         else if typ = ''string'' then
           (case string_example (str_key ''format'' n) of
              Some example \<Rightarrow> (Inr (JStr example), s)
            | None \<Rightarrow>
              if str_key ''description'' n \<noteq> [] then (Inr (JStr (str_key ''description'' n)), s)
              else (let (w, s') = gn_NounAbstract gn s in (Inr (JStr (''fakedata:'' @ w)), s')))
         else (Inl (ErrNew ''unknown type''), s))"

definition getDefaultValue :: "'s generator \<Rightarrow> string \<Rightarrow> json \<Rightarrow> 's \<Rightarrow> (go_error + json) \<times> 's" where
  "getDefaultValue gn typ n s =
     (case get_key n ''default'' of
        Some d \<Rightarrow> (Inr d, s)
      | None \<Rightarrow>
        (case get_key n ''enum'' of
           Some (JArr (v # vs)) \<Rightarrow>
             (let (k, s') = gn_IntRange gn 0 (int (length vs)) s in (Inr ((v # vs) ! nat k), s'))
         | _ \<Rightarrow> typed_default gn typ n s))"

definition def_name :: "string \<Rightarrow> string" where
  "def_name ref = (case before_str ''#/$defs/'' ref of None \<Rightarrow> ref | Some b \<Rightarrow> b @ drop (length b + 8) ref)"

definition getDefinition :: "'s generator \<Rightarrow> json \<Rightarrow> string \<Rightarrow> go_error + json" where
  "getDefinition gn root ref =
     (case get_key root ''$defs'' of
        None \<Rightarrow> Inl (ErrNew (''root search $defs error: '' @ gn_keyError gn root ''$defs''))
      | Some defsNode \<Rightarrow>
        (let nodeID = def_name ref
         in case get_key defsNode nodeID of
              None \<Rightarrow> Inl (ErrNew (''definition node error: '' @ gn_keyError gn defsNode nodeID @ '' node: '' @ nodeID @ '' schema: '' @ gn_String gn root))
            | Some defNode \<Rightarrow> Inr defNode))"

text \<open>The loops over the properties of an object; \<open>g\<close> makes up one of them.\<close>

fun gen_props :: "(json \<Rightarrow> ('s, json) run) \<Rightarrow> json gomap \<Rightarrow> json gomap \<Rightarrow> ('s, json) run" where
  "gen_props g [] m s = Some (Inr (JObj m), s)"
| "gen_props g (p # ps) m s =
     (case g (snd p) s of
        None \<Rightarrow> None
      | Some (Inl e, s') \<Rightarrow> Some (Inl e, s')
      | Some (Inr v, s') \<Rightarrow> gen_props g ps (AList.update (fst p) v m) s')"

fun fill_props :: "(json \<Rightarrow> ('s, json) run) \<Rightarrow> json gomap \<Rightarrow> json gomap \<Rightarrow> ('s, json) run" where
  "fill_props g [] m s = Some (Inr (JObj m), s)"
| "fill_props g (p # ps) m s =
     (if field m (fst p) \<noteq> JNull then fill_props g ps m s
      else
        (case g (snd p) s of
           None \<Rightarrow> None
         | Some (Inl e, s') \<Rightarrow> fill_props g ps m s'
         | Some (Inr v, s') \<Rightarrow> fill_props g ps (AList.update (fst p) v m) s'))"

definition object_props :: "json \<Rightarrow> json gomap option" where
  "object_props n = Option.bind (get_key n ''properties'') json_object"

definition array_key :: "json \<Rightarrow> string \<Rightarrow> json list option" where
  "array_key n k = Option.bind (get_key n k) json_array"

text \<open>What the replacement of an object by the callback becomes.\<close>

definition complete_replaced :: "(json \<Rightarrow> ('s, json) run) \<Rightarrow> json \<Rightarrow> json \<Rightarrow> ('s, json) run" where
  "complete_replaced g node res s =
     (if str_key ''type'' node \<noteq> ''object'' then Some (Inr res, s)
      else (case (json_object res, object_props node) of
              (Some m, Some props) \<Rightarrow> fill_props g props m s
            | _ \<Rightarrow> Some (Inr res, s)))"

definition getOf :: "'s generator \<Rightarrow> (json \<Rightarrow> ('s, json) run) \<Rightarrow> json list \<Rightarrow> ('s, json) run" where
  "getOf gn g alternatives s =
     (if alternatives = [] then Some (Inl (ErrNew ''set is empty''), s)
      else (let (i, s') = gn_IntRange gn 0 (int (length alternatives) - 1) s in g (alternatives ! nat i) s'))"

definition gen_array :: "'s generator \<Rightarrow> (json \<Rightarrow> ('s, json) run) \<Rightarrow> json \<Rightarrow> ('s, json) run" where
  "gen_array gn g node s =
     (case getDefaultValue gn ''array'' node s of
        (Inr def, s') \<Rightarrow> Some (Inr def, s')
      | (Inl _, s') \<Rightarrow>
        (case get_key node ''items'' of
           None \<Rightarrow> Some (Inr (JArr []), s')
         | Some items \<Rightarrow>
           (case g items s' of
              None \<Rightarrow> None
            | Some (Inl e, s'') \<Rightarrow> Some (Inl (ErrNew (''can not generate example value for items of the array: '' @ err_msg e)), s'')
            | Some (Inr v, s'') \<Rightarrow> Some (Inr (JArr (if v = JNull then [] else [v])), s''))))"

definition gen_typed :: "'s generator \<Rightarrow> (json \<Rightarrow> ('s, json) run) \<Rightarrow> json \<Rightarrow> ('s, json) run" where
  "gen_typed gn g node s =
     (let typ = str_key ''type'' node
      in if typ = ''string'' \<or> typ = ''number'' \<or> typ = ''integer'' \<or> typ = ''boolean'' then Some (getDefaultValue gn typ node s)
         else if typ = ''array'' then gen_array gn g node s
         else if typ = ''object'' then
           (case object_props node of
              Some (p # ps) \<Rightarrow> gen_props g (p # ps) [] s
            | _ \<Rightarrow> Some (getDefaultValue gn typ node s))
         else Some (Inr JNull, s))"

definition deref :: "'s generator \<Rightarrow> json \<Rightarrow> json \<Rightarrow> go_error + json" where
  "deref gn root node =
     (let ref = str_key ''$ref'' node
      in if ref = [] then Inr node
         else (case getDefinition gn root ref of
                 Inl e \<Rightarrow> Inl (ErrNew (''get definition error: '' @ err_msg e))
               | Inr n \<Rightarrow> Inr n))"

fun generate :: "'s generator \<Rightarrow> nat \<Rightarrow> json \<Rightarrow> 's callback option \<Rightarrow> json \<Rightarrow> ('s, json) run" where
  "generate gn 0 root clb node0 s = None"
| "generate gn (Suc fuel) root clb node0 s =
     (case deref gn root node0 of
        Inl e \<Rightarrow> Some (Inl e, s)
      | Inr node \<Rightarrow>
        (case array_key node ''oneOf'' of
           Some alternatives \<Rightarrow> getOf gn (generate gn fuel root clb) alternatives s
         | None \<Rightarrow>
           (case array_key node ''anyOf'' of
              Some alternatives \<Rightarrow> getOf gn (generate gn fuel root clb) alternatives s
            | None \<Rightarrow>
              (case (case clb of None \<Rightarrow> Some ((JNull, False, None), s) | Some f \<Rightarrow> f node s) of
                 None \<Rightarrow> None
               | Some ((res, replace, err), s') \<Rightarrow>
                 if replace then
                   (case err of
                      Some e \<Rightarrow> Some (Inl e, s')
                    | None \<Rightarrow> complete_replaced (generate gn fuel root None) node res s')
                 else if node = JBool True then Some (Inr JNull, s')
                 else gen_typed gn (generate gn fuel root clb) node s'))))"

definition Generate :: "'s generator \<Rightarrow> nat \<Rightarrow> json option \<Rightarrow> 's callback option \<Rightarrow> ('s, json) run" where
  "Generate gn fuel node clb s =
     (case node of
        None \<Rightarrow> Some (Inl (ErrNew ''nil node''), s)
      | Some n \<Rightarrow> generate gn fuel n clb n s)"

subsection \<open>Runs that finish\<close>

text \<open>The references a schema holds, and a ranking of the definitions that every reference descends.\<close>

definition refs :: "json \<Rightarrow> string set" where
  "refs n = {r. (''$ref'', r) \<in> keyed_strings [] n \<and> r \<noteq> []}"

definition definitions :: "json \<Rightarrow> json gomap" where
  "definitions root = (case Option.bind (get_key root ''$defs'') json_object of None \<Rightarrow> [] | Some defs \<Rightarrow> defs)"

definition layered :: "(string \<Rightarrow> nat) \<Rightarrow> json \<Rightarrow> bool" where
  "layered rank root = (\<forall>(k, d) \<in> set (definitions root). \<forall>r \<in> refs d. rank (def_name r) < rank k)"

lemma definitions_member:
  assumes "(k, d) \<in> set (definitions root)"
  shows "\<exists>defs. get_key root ''$defs'' = Some (JObj defs) \<and> (k, d) \<in> set defs"
proof (cases "get_key root ''$defs''")
  case (Some v)
  with assms show ?thesis by (cases v) (auto simp: definitions_def)
qed (use assms in \<open>simp add: definitions_def\<close>)

lemma keyed_strings_member: "(k, v) \<in> set ms \<Longrightarrow> keyed_strings k v \<subseteq> keyed_strings k' (JObj ms)"
  by (auto intro!: bexI [of _ "(k, v)"])

lemma keyed_strings_mono:
  "(''$ref'', r) \<in> keyed_strings k v \<Longrightarrow> k \<noteq> ''$ref'' \<Longrightarrow> (''$ref'', r) \<in> keyed_strings k' v"
  by (induction k v rule: keyed_strings.induct) auto

lemma get_keyE:
  assumes "get_key n k = Some v"
  obtains ms where "n = JObj ms" "(k, v) \<in> set ms"
  using assms by (cases n) (auto simp: get_key_def dest: map_of_SomeD)

lemma refs_get_key: "get_key n k = Some v \<Longrightarrow> refs v \<subseteq> refs n"
  by (erule get_keyE) (use keyed_strings_member keyed_strings_mono in \<open>fastforce simp: refs_def\<close>)

lemma size_get_key: "get_key n k = Some v \<Longrightarrow> size v < size n"
  by (erule get_keyE) (simp add: json_member_size)

text \<open>A part of a schema the generator goes on with: smaller, and with no more references.\<close>

definition part_of :: "json \<Rightarrow> json \<Rightarrow> bool" where
  "part_of v n = (size v < size n \<and> refs v \<subseteq> refs n)"

lemma part_of_key: "get_key n k = Some v \<Longrightarrow> part_of v n"
  by (simp add: part_of_def refs_get_key size_get_key)

lemma part_of_array:
  assumes "array_key n k = Some vs" "v \<in> set vs"
  shows "part_of v n"
proof -
  have k: "get_key n k = Some (JArr vs)" using assms(1) by (auto simp: array_key_def bind_eq_Some_conv elim: json_array.elims)
  have "refs v \<subseteq> refs (JArr vs)" using assms(2) by (auto simp: refs_def)
  moreover have "size v < size (JArr vs)" using assms(2) by (simp add: size_list_estimation less_Suc_eq_le size_list_estimation')
  ultimately show ?thesis using part_of_key [OF k] by (auto simp: part_of_def)
qed

lemma part_of_props:
  assumes "object_props n = Some ps" "p \<in> set ps"
  shows "part_of (snd p) n"
proof -
  have k: "get_key n ''properties'' = Some (JObj ps)" using assms(1) by (auto simp: object_props_def bind_eq_Some_conv elim: json_object.elims)
  have "refs (snd p) \<subseteq> refs (JObj ps)"
    using assms(2) keyed_strings_member [of "fst p" "snd p" ps "[]"] keyed_strings_mono by (fastforce simp: refs_def)
  moreover have "size (snd p) < size (JObj ps)" using assms(2) by (simp add: json_member_size_snd)
  ultimately show ?thesis using part_of_key [OF k] by (auto simp: part_of_def)
qed

lemma deref_cases:
  assumes "deref gn root node0 = Inr node" "layered rank root" "\<forall>r \<in> refs node0. rank (def_name r) < R"
    and "\<forall>d \<in> snd ` set (definitions root). size d \<le> M"
  shows "node = node0 \<or> (\<exists>R'. R' < R \<and> size node \<le> M \<and> (\<forall>r \<in> refs node. rank (def_name r) < R'))"
proof (cases "str_key ''$ref'' node0 = []")
  case True
  with assms(1) show ?thesis by (simp add: deref_def)
next
  case False
  let ?r = "str_key ''$ref'' node0"
  from False have k: "get_key node0 ''$ref'' = Some (JStr ?r)"
    by (auto simp: str_key_def GetStrKey_def split: option.splits elim: json_string.elims)
  then have "?r \<in> refs node0" using False by (auto simp: refs_def elim!: get_keyE intro!: bexI [of _ "(''$ref'', JStr ?r)"])
  then have lt: "rank (def_name ?r) < R" using assms(3) by blast
  from assms(1) False obtain defs where "get_key root ''$defs'' = Some defs" "get_key defs (def_name ?r) = Some node"
    by (auto simp: deref_def getDefinition_def Let_def split: sum.splits option.splits)
  then have "(def_name ?r, node) \<in> set (definitions root)" by (auto simp: definitions_def elim!: get_keyE)
  with assms(2,4) lt show ?thesis by (force simp: layered_def)
qed

text \<open>A run that returns from every state of an invariant, in a state of the invariant.\<close>

definition returns :: "('s \<Rightarrow> bool) \<Rightarrow> ('s \<Rightarrow> ('a \<times> 's) option) \<Rightarrow> bool" where
  "returns I f = (\<forall>s. I s \<longrightarrow> (\<exists>r s'. f s = Some (r, s') \<and> I s'))"

definition stable :: "('s \<Rightarrow> bool) \<Rightarrow> 's generator \<Rightarrow> bool" where
  "stable I gn =
     (\<forall>s. I s \<longrightarrow> (\<forall>lo hi. I (snd (gn_IntRange gn lo hi s))) \<and> (\<forall>lo hi. I (snd (gn_Float64Range gn lo hi s))) \<and>
        I (snd (gn_Bool gn s)) \<and> I (snd (gn_NounAbstract gn s)))"

lemma returnsI: "(\<And>s. I s \<Longrightarrow> \<exists>r s'. f s = Some (r, s') \<and> I s') \<Longrightarrow> returns I f"
  by (simp add: returns_def)

lemma returnsE:
  assumes "returns I f" "I s"
  obtains r s' where "f s = Some (r, s')" "I s'"
  using assms by (auto simp: returns_def)

lemma returns_const: "returns I (\<lambda>s. Some (r, s))"
  by (simp add: returns_def)

lemma gen_props_returns: "(\<And>p. p \<in> set ps \<Longrightarrow> returns I (g (snd p))) \<Longrightarrow> returns I (gen_props g ps m)"
proof (induction ps arbitrary: m)
  case (Cons p ps)
  show ?case
  proof (rule returnsI)
    fix s assume "I s"
    with Cons.prems [of p] obtain r s' where r: "g (snd p) s = Some (r, s')" "I s'" by (auto elim: returnsE)
    have "returns I (gen_props g ps m')" for m' by (rule Cons.IH) (simp add: Cons.prems)
    with r show "\<exists>r s'. gen_props g (p # ps) m s = Some (r, s') \<and> I s'" by (cases r) (auto simp: returns_def)
  qed
qed (simp add: returns_def)

lemma fill_props_returns: "(\<And>p. p \<in> set ps \<Longrightarrow> returns I (g (snd p))) \<Longrightarrow> returns I (fill_props g ps m)"
proof (induction ps arbitrary: m)
  case (Cons p ps)
  have rest: "returns I (fill_props g ps m')" for m' by (rule Cons.IH) (simp add: Cons.prems)
  show ?case
  proof (rule returnsI)
    fix s assume s: "I s"
    with Cons.prems [of p] obtain r s' where r: "g (snd p) s = Some (r, s')" "I s'" by (auto elim: returnsE)
    with rest s show "\<exists>r s'. fill_props g (p # ps) m s = Some (r, s') \<and> I s'" by (cases r) (auto simp: returns_def)
  qed
qed (simp add: returns_def)

lemma complete_replaced_returns:
  assumes "\<And>v. part_of v node \<Longrightarrow> returns I (g v)"
  shows "returns I (complete_replaced g node res)"
proof (cases "str_key ''type'' node = ''object'' \<and> json_object res \<noteq> None \<and> object_props node \<noteq> None")
  case True
  then obtain m ps where m: "json_object res = Some m" "object_props node = Some ps" by blast
  have "returns I (fill_props g ps m)" by (rule fill_props_returns) (rule assms [OF part_of_props [OF m(2)]])
  with True m show ?thesis by (simp add: returns_def complete_replaced_def)
qed (auto simp: returns_def complete_replaced_def split: option.split)

lemma getOf_returns:
  assumes "\<And>lo hi s. lo \<le> hi \<Longrightarrow> fst (gn_IntRange gn lo hi s) \<in> {lo..hi}" "stable I gn" "array_key node k = Some vs"
    and "\<And>v. part_of v node \<Longrightarrow> returns I (g v)"
  shows "returns I (getOf gn g vs)"
proof (cases "vs = []")
  case False
  show ?thesis
  proof (rule returnsI)
    fix s assume s: "I s"
    obtain i s' where i: "gn_IntRange gn 0 (int (length vs) - 1) s = (i, s')" by fastforce
    have "0 \<le> int (length vs) - 1" using False by (cases vs) auto
    from assms(1) [OF this, of s] i have "nat i < length vs" using False by auto
    then have "part_of (vs ! nat i) node" by (auto intro: part_of_array [OF assms(3)])
    then have "returns I (g (vs ! nat i))" by (rule assms(4))
    moreover have "I s'" using assms(2) s i by (metis stable_def snd_conv)
    ultimately show "\<exists>r s'. getOf gn g vs s = Some (r, s') \<and> I s'" using i False by (simp add: getOf_def returns_def)
  qed
qed (simp add: getOf_def returns_def)

lemma typed_default_keeps: "stable I gn \<Longrightarrow> I s \<Longrightarrow> I (snd (typed_default gn typ n s))"
  by (auto simp: typed_default_def stable_def Let_def case_prod_unfold split: option.split)

lemma getDefaultValue_keeps: "stable I gn \<Longrightarrow> I s \<Longrightarrow> I (snd (getDefaultValue gn typ n s))"
  using typed_default_keeps [of I gn s "typ" n]
  by (auto simp: getDefaultValue_def stable_def Let_def case_prod_unfold split: option.split json.split list.split)

lemma getDefaultValue_returns: "stable I gn \<Longrightarrow> returns I (\<lambda>s. Some (getDefaultValue gn typ n s))"
  by (simp add: returns_def) (metis getDefaultValue_keeps prod.collapse)

lemma gen_array_returns:
  assumes "stable I gn" "\<And>v. part_of v node \<Longrightarrow> returns I (g v)"
  shows "returns I (gen_array gn g node)"
proof (rule returnsI)
  fix s assume s: "I s"
  obtain d s' where d: "getDefaultValue gn ''array'' node s = (d, s')" by fastforce
  with getDefaultValue_keeps [OF assms(1) s] have s': "I s'" by (metis snd_conv)
  show "\<exists>r s'. gen_array gn g node s = Some (r, s') \<and> I s'"
  proof (cases "get_key node ''items''")
    case None
    with d s' show ?thesis by (cases d) (auto simp: gen_array_def)
  next
    case (Some items)
    then have "returns I (g items)" by (rule assms(2) [OF part_of_key])
    then obtain r s'' where "g items s' = Some (r, s'')" "I s''" using s' by (rule returnsE)
    with d s' Some show ?thesis by (cases d; cases r) (auto simp: gen_array_def)
  qed
qed

lemma gen_typed_returns:
  assumes "stable I gn" "\<And>v. part_of v node \<Longrightarrow> returns I (g v)"
  shows "returns I (gen_typed gn g node)"
proof -
  have "returns I (gen_props g ps [])" if "object_props node = Some ps" for ps
    by (rule gen_props_returns) (rule assms(2) [OF part_of_props [OF that]])
  moreover have "returns I (gen_array gn g node)" using assms by (rule gen_array_returns)
  ultimately show ?thesis
    using getDefaultValue_returns [OF assms(1)]
    by (auto simp: gen_typed_def returns_def Let_def simp del: gen_props.simps split: option.split list.split)
qed

lemma generate_returns:
  assumes rnd: "\<And>lo hi s. lo \<le> hi \<Longrightarrow> fst (gn_IntRange gn lo hi s) \<in> {lo..hi}" and I: "stable I gn"
    and lay: "layered rank root" and M: "\<forall>d \<in> snd ` set (definitions root). size d \<le> M"
  shows "\<lbrakk>\<forall>f n. clb = Some f \<longrightarrow> returns I (f n); \<forall>r \<in> refs node0. rank (def_name r) < R; R * Suc M + size node0 < fuel\<rbrakk>
    \<Longrightarrow> returns I (generate gn fuel root clb node0)"
proof (induction fuel arbitrary: R node0 clb)
  case (Suc fuel)
  show ?case
  proof (cases "deref gn root node0")
    case (Inr node)
    have part: "returns I (generate gn fuel root clb' v)" if "part_of v node" "clb' = clb \<or> clb' = None" for v clb'
    proof -
      from deref_cases [OF Inr lay Suc.prems(2) M] consider "node = node0"
        | R' where "R' < R" "size node \<le> M" "\<forall>r \<in> refs node. rank (def_name r) < R'" by blast
      then show ?thesis
      proof cases
        case 1
        with that Suc.prems show ?thesis by (intro Suc.IH [of _ _ R]) (auto simp: part_of_def)
      next
        case 2
        have "R' * Suc M + size v < R' * Suc M + Suc M" using that(1) 2(2) by (simp add: part_of_def)
        also have "\<dots> = Suc R' * Suc M" by simp
        also have "\<dots> \<le> R * Suc M" by (rule mult_le_mono1) (use 2(1) in simp)
        finally have "R' * Suc M + size v < R * Suc M" .
        with that 2 Suc.prems show ?thesis by (intro Suc.IH [of _ _ R']) (auto simp: part_of_def)
      qed
    qed
    have of: "returns I (getOf gn (generate gn fuel root clb) vs)" if "array_key node k = Some vs" for k vs
      by (rule getOf_returns [OF rnd I that]) (simp_all add: part)
    have replaced: "returns I (complete_replaced (generate gn fuel root None) node res)" for res
      by (rule complete_replaced_returns) (simp add: part)
    have typed: "returns I (gen_typed gn (generate gn fuel root clb) node)"
      by (rule gen_typed_returns [OF I]) (simp add: part)
    have clb: "returns I (\<lambda>s. case clb of None \<Rightarrow> Some ((JNull, False, None), s) | Some f \<Rightarrow> f node s)"
      using Suc.prems(1) by (cases clb) (auto simp: returns_def)
    show ?thesis
    proof (cases "array_key node ''oneOf''")
      case (Some vs)
      then show ?thesis using of [OF Some] by (simp add: Inr returns_def)
    next
      case oneOf: None
      show ?thesis
      proof (cases "array_key node ''anyOf''")
        case (Some vs)
        then show ?thesis using of [OF Some] by (simp add: Inr oneOf returns_def)
      next
        case None
        show ?thesis
        proof (rule returnsI)
          fix s assume "I s"
          with clb obtain a s' where a: "(case clb of None \<Rightarrow> Some ((JNull, False, None), s) | Some f \<Rightarrow> f node s) = Some (a, s')" "I s'"
            by (rule returnsE)
          with replaced typed show "\<exists>r s'. generate gn (Suc fuel) root clb node0 s = Some (r, s') \<and> I s'"
            by (cases a; cases "snd (snd a)") (auto simp: Inr oneOf None returns_def)
        qed
      qed
    qed
  qed (simp add: returns_def)
qed simp

lemma definition_size: "(k, d) \<in> set (definitions root) \<Longrightarrow> size d \<le> size root"
proof -
  assume "(k, d) \<in> set (definitions root)"
  then obtain defs where "get_key root ''$defs'' = Some (JObj defs)" "(k, d) \<in> set defs" using definitions_member by blast
  then show ?thesis using size_get_key [of root "''$defs''" "JObj defs"] json_member_size [of k d defs] by simp
qed

text \<open>A schema the generator finishes on, with enough fuel.\<close>

definition generable :: "nat \<Rightarrow> json \<Rightarrow> bool" where
  "generable fuel root =
     (\<exists>rank R. layered rank root \<and> (\<forall>r \<in> refs root. rank (def_name r) < R) \<and> R * Suc (size root) + size root < fuel)"

lemma Generate_returns:
  assumes "\<And>lo hi s. lo \<le> hi \<Longrightarrow> fst (gn_IntRange gn lo hi s) \<in> {lo..hi}" "stable I gn" "generable fuel root"
    and "\<And>f n. clb = Some f \<Longrightarrow> returns I (f n)"
  shows "returns I (Generate gn fuel (Some root) clb)"
proof -
  from assms(3) obtain rank R where r: "layered rank root" "\<forall>r \<in> refs root. rank (def_name r) < R" "R * Suc (size root) + size root < fuel"
    by (auto simp: generable_def)
  have M: "\<forall>d \<in> snd ` set (definitions root). size d \<le> size root" by (auto intro: definition_size)
  have "returns I (generate gn fuel root clb root)"
    by (rule generate_returns [OF assms(1,2) r(1) M _ r(2,3)]) (use assms(4) in auto)
  then show ?thesis by (simp add: returns_def Generate_def)
qed

text \<open>The generator finishes on a schema whose definitions can be ranked so that every reference goes to a lower rank, whatever
  the callback answers: a bound computed from the ranks and the sizes of the definitions is enough fuel.\<close>

theorem generator_finishes:
  assumes "\<And>lo hi s. lo \<le> hi \<Longrightarrow> fst (gn_IntRange gn lo hi s) \<in> {lo..hi}"
    and "layered rank root" "\<forall>r \<in> refs root. rank (def_name r) < R" "\<And>f n s. clb = Some f \<Longrightarrow> f n s \<noteq> None"
    and "R * Suc (size root) + size root < fuel"
  shows "\<exists>r s'. Generate gn fuel (Some root) clb s = Some (r, s')"
proof -
  have "returns (\<lambda>_. True) (Generate gn fuel (Some root) clb)"
  proof (rule Generate_returns)
    show "generable fuel root" using assms(2,3,5) unfolding generable_def by blast
    show "returns (\<lambda>_. True) (f n)" if "clb = Some f" for f n using assms(4) [OF that] by (auto simp: returns_def)
  qed (use assms(1) in \<open>auto simp: stable_def\<close>)
  then show ?thesis by (simp add: returns_def)
qed

definition fixed_generator :: "unit generator" where
  "fixed_generator =
     \<lparr>gn_IntRange = \<lambda>lo hi s. (lo, s), gn_Float64Range = \<lambda>lo hi s. (lo, s), gn_Bool = \<lambda>s. (True, s), gn_NounAbstract = \<lambda>s. (''peace'', s),
      gn_isZero = \<lambda>t. t = ''0'', gn_int = \<lambda>t. 0, gn_String = \<lambda>v. [], gn_keyError = \<lambda>v k. []\<rparr>"

definition sample_schema :: json where
  "sample_schema =
     JObj [(''$ref'', JStr ''#/$defs/Order''),
           (''$defs'', JObj [(''Order'', JObj [(''type'', JStr ''object''),
                (''properties'', JObj [(''id'', JObj [(''type'', JStr ''integer'')]), (''buyer'', JObj [(''$ref'', JStr ''#/$defs/Person'')])])]),
              (''Person'', JObj [(''type'', JStr ''object''), (''properties'', JObj [(''name'', JObj [(''type'', JStr ''string'')])])])])]"

theorem generator_finishes_witness:
  "\<exists>r s'. Generate fixed_generator 1000 (Some sample_schema) None () = Some (r, s')"
proof (rule generator_finishes)
  let ?rank = "\<lambda>k. if k = ''Order'' then 1 else 0 :: nat"
  have n: "def_name ''#/$defs/Order'' = ''Order''" "def_name ''#/$defs/Person'' = ''Person''" by code_simp+
  show "layered ?rank sample_schema" and "\<forall>r \<in> refs sample_schema. ?rank (def_name r) < 2"
    by (auto simp: layered_def definitions_def sample_schema_def get_key_def refs_def n)
qed (auto simp: fixed_generator_def sample_schema_def)

subsection \<open>Runs that yield no value\<close>

text \<open>
  \<open>needs C n\<close>: every value made up for the schema \<open>n\<close> contains one of a definition in \<open>C\<close>, because \<open>n\<close> refers to it or
  its body needs it: all alternatives of a choice, some property of an object, or the items of an array that
  has no default and no enumeration to take instead.
\<close>

inductive needs :: "string set \<Rightarrow> json \<Rightarrow> bool" and body_needs :: "string set \<Rightarrow> json \<Rightarrow> bool" for C where
  by_ref: "str_key ''$ref'' n \<noteq> [] \<Longrightarrow> def_name (str_key ''$ref'' n) \<in> C \<Longrightarrow> needs C n"
| by_body: "str_key ''$ref'' n = [] \<Longrightarrow> body_needs C n \<Longrightarrow> needs C n"
| by_oneOf: "array_key n ''oneOf'' = Some vs \<Longrightarrow> (\<And>v. v \<in> set vs \<Longrightarrow> needs C v) \<Longrightarrow> body_needs C n"
| by_anyOf: "array_key n ''oneOf'' = None \<Longrightarrow> array_key n ''anyOf'' = Some vs \<Longrightarrow> (\<And>v. v \<in> set vs \<Longrightarrow> needs C v) \<Longrightarrow>
    body_needs C n"
| by_property: "array_key n ''oneOf'' = None \<Longrightarrow> array_key n ''anyOf'' = None \<Longrightarrow> str_key ''type'' n = ''object'' \<Longrightarrow>
    object_props n = Some ps \<Longrightarrow> p \<in> set ps \<Longrightarrow> needs C (snd p) \<Longrightarrow> body_needs C n"
| by_items: "array_key n ''oneOf'' = None \<Longrightarrow> array_key n ''anyOf'' = None \<Longrightarrow> str_key ''type'' n = ''array'' \<Longrightarrow>
    get_key n ''default'' = None \<Longrightarrow> (\<And>v vs. get_key n ''enum'' \<noteq> Some (JArr (v # vs))) \<Longrightarrow>
    get_key n ''items'' = Some i \<Longrightarrow> needs C i \<Longrightarrow> body_needs C n"

text \<open>Every definition in \<open>C\<close> exists and needs a definition in \<open>C\<close>.\<close>

definition circular :: "string set \<Rightarrow> json \<Rightarrow> bool" where
  "circular C root = (\<forall>k \<in> C. \<exists>d. map_of (definitions root) k = Some d \<and> body_needs C d)"

definition no_value :: "('s, 'a) run \<Rightarrow> bool" where
  "no_value f = (\<forall>s v s'. f s \<noteq> Some (Inr v, s'))"

lemma no_valueI: "(\<And>s v s'. f s = Some (Inr v, s') \<Longrightarrow> False) \<Longrightarrow> no_value f"
  by (auto simp: no_value_def)

lemma circular_definition:
  assumes "circular C root" "str_key ''$ref'' n \<noteq> []" "def_name (str_key ''$ref'' n) \<in> C"
  shows "\<exists>d. deref gn root n = Inr d \<and> body_needs C d"
proof -
  obtain d where d: "map_of (definitions root) (def_name (str_key ''$ref'' n)) = Some d" "body_needs C d"
    using assms(1,3) by (auto simp: circular_def)
  then obtain defs where "get_key root ''$defs'' = Some defs" "get_key defs (def_name (str_key ''$ref'' n)) = Some d"
    by (auto simp: definitions_def bind_eq_Some_conv get_key_def [of _ "def_name _"] split: option.splits)
  with assms(2) have "deref gn root n = Inr d" by (simp add: deref_def getDefinition_def Let_def)
  with d(2) show ?thesis by blast
qed

lemma gen_props_no_value: "p \<in> set ps \<Longrightarrow> no_value (g (snd p)) \<Longrightarrow> no_value (gen_props g ps m)"
proof (induction ps arbitrary: m)
  case (Cons q ps)
  show ?case
  proof (rule no_valueI)
    fix s v s' assume run: "gen_props g (q # ps) m s = Some (Inr v, s')"
    then obtain x t where x: "g (snd q) s = Some (Inr x, t)" "gen_props g ps (AList.update (fst q) x m) t = Some (Inr v, s')"
      by (auto split: option.splits prod.splits sum.splits)
    with Cons show False by (auto simp: no_value_def)
  qed
qed simp

lemma gen_array_no_value:
  assumes "get_key n ''default'' = None" "\<And>v vs. get_key n ''enum'' \<noteq> Some (JArr (v # vs))" "get_key n ''items'' = Some i" "no_value (g i)"
  shows "no_value (gen_array gn g n)"
proof -
  have "getDefaultValue gn ''array'' n s = (Inl (ErrNew ''unknown type''), s)" for s
    using assms(1,2) by (auto simp: getDefaultValue_def typed_default_def Let_def split: option.split json.split list.split)
  with assms(3,4) show ?thesis
    by (auto simp: no_value_def gen_array_def split: option.splits prod.splits sum.splits)
qed

lemma getOf_no_value:
  assumes "\<And>lo hi s. lo \<le> hi \<Longrightarrow> fst (gn_IntRange gn lo hi s) \<in> {lo..hi}" "\<And>v. v \<in> set vs \<Longrightarrow> no_value (g v)"
  shows "no_value (getOf gn g vs)"
proof (rule no_valueI)
  fix s v s' assume run: "getOf gn g vs s = Some (Inr v, s')"
  then have ne: "vs \<noteq> []" by (auto simp: getOf_def)
  obtain i t where i: "gn_IntRange gn 0 (int (length vs) - 1) s = (i, t)" by fastforce
  have "0 \<le> int (length vs) - 1" using ne by (cases vs) auto
  from assms(1) [OF this, of s] i have "nat i < length vs" using ne by auto
  then have "no_value (g (vs ! nat i))" by (intro assms(2)) simp
  with run ne i show False by (auto simp: getOf_def no_value_def)
qed

lemma generate_no_value:
  assumes rnd: "\<And>lo hi s. lo \<le> hi \<Longrightarrow> fst (gn_IntRange gn lo hi s) \<in> {lo..hi}" and circ: "circular C root"
    and keep: "\<And>f n s res replace err s'. clb = Some f \<Longrightarrow> f n s = Some ((res, replace, err), s') \<Longrightarrow> \<not> replace"
  shows "needs C node0 \<Longrightarrow> no_value (generate gn fuel root clb node0)"
proof (induction fuel arbitrary: node0)
  case (Suc fuel)
  let ?g = "generate gn fuel root clb"
  obtain node where node: "deref gn root node0 = Inr node" "body_needs C node"
    using Suc.prems
  proof cases
    case by_ref
    then show ?thesis using circular_definition [OF circ] that by blast
  next
    case by_body
    then show ?thesis using that [of node0] by (simp add: deref_def)
  qed
  have typed: "no_value (generate gn (Suc fuel) root clb node0)"
    if "array_key node ''oneOf'' = None" "array_key node ''anyOf'' = None" "node \<noteq> JBool True" "no_value (gen_typed gn ?g node)"
  proof (rule no_valueI)
    fix s v s' assume "generate gn (Suc fuel) root clb node0 s = Some (Inr v, s')"
    then have run: "(case (case clb of None \<Rightarrow> Some ((JNull, False, None), s) | Some f \<Rightarrow> f node s) of
        None \<Rightarrow> None
      | Some ((res, replace, err), t) \<Rightarrow>
        if replace then (case err of Some e \<Rightarrow> Some (Inl e, t) | None \<Rightarrow> complete_replaced (generate gn fuel root None) node res t)
        else if node = JBool True then Some (Inr JNull, t) else gen_typed gn ?g node t) = Some (Inr v, s')"
      using that(1,2) node(1) by simp
    show False
    proof (cases clb)
      case None
      with run that(3,4) show False by (simp add: no_value_def)
    next
      case (Some f)
      with run that(3,4) keep [OF Some, of node s] show False by (auto simp: no_value_def split: option.splits if_splits)
    qed
  qed
  from node(2) show ?case
  proof cases
    case (by_oneOf vs)
    have "no_value (getOf gn ?g vs)" by (rule getOf_no_value [OF rnd]) (simp_all add: by_oneOf Suc.IH)
    with by_oneOf node(1) show ?thesis by (simp add: no_value_def)
  next
    case (by_anyOf vs)
    have "no_value (getOf gn ?g vs)" by (rule getOf_no_value [OF rnd]) (simp_all add: by_anyOf Suc.IH)
    with by_anyOf node(1) show ?thesis by (simp add: no_value_def)
  next
    case (by_property ps p)
    have "no_value (gen_props ?g ps [])" using by_property(5) Suc.IH [OF by_property(6)] by (rule gen_props_no_value)
    moreover obtain q qs where "ps = q # qs" using by_property(5) by (cases ps) auto
    ultimately have "no_value (gen_typed gn ?g node)"
      using by_property by (simp add: no_value_def gen_typed_def Let_def del: gen_props.simps)
    moreover have "node \<noteq> JBool True" using by_property(4) by (auto simp: object_props_def get_key_def)
    ultimately show ?thesis using by_property by (intro typed)
  next
    case (by_items i)
    have "no_value (gen_array gn ?g node)"
      using by_items Suc.IH by (intro gen_array_no_value) auto
    then have "no_value (gen_typed gn ?g node)" using by_items by (simp add: no_value_def gen_typed_def Let_def)
    moreover have "node \<noteq> JBool True" using by_items(6) by (auto simp: get_key_def)
    ultimately show ?thesis using by_items by (intro typed)
  qed
qed (simp add: no_value_def)

definition recursive_schema :: json where
  "recursive_schema =
     JObj [(''$ref'', JStr ''#/$defs/Tree''),
           (''$defs'', JObj [(''Tree'', JObj [(''type'', JStr ''object''),
                (''properties'', JObj [(''name'', JObj [(''type'', JStr ''string'')]), (''left'', JObj [(''$ref'', JStr ''#/$defs/Tree'')])])])])]"

text \<open>C28: a schema that needs a definition that needs itself never yields a value. When every definition of a set
  refers, in a property of an object, in the items of an array without a default or an enumeration, or in all
  alternatives of a choice, to a definition of the set, and the schema needs one of them, the generator makes up no value
  however long it runs, whatever random source that keeps to its bounds and callback it has, as long as the callback
  replaces nothing: it runs forever or ends with an error.\<close>

theorem recursive_schema_never_generates:
  assumes "\<And>lo hi s. lo \<le> hi \<Longrightarrow> fst (gn_IntRange gn lo hi s) \<in> {lo..hi}"
    and "circular C root" and "needs C root"
    and "\<And>f n s res replace err s'. clb = Some f \<Longrightarrow> f n s = Some ((res, replace, err), s') \<Longrightarrow> \<not> replace"
  shows "Generate gn fuel (Some root) clb s \<noteq> Some (Inr v, s')"
  using generate_no_value [OF assms(1,2,4,3)] by (simp add: Generate_def no_value_def)

theorem recursive_schema_never_generates_witness:
  "Generate fixed_generator 100 (Some recursive_schema) None () \<notin> {Some (Inr v, s) | v s. True} \<and>
   Generate fixed_generator 100 (Some sample_schema) None () \<noteq> None"
proof
  let ?left = "JObj [(''$ref'', JStr ''#/$defs/Tree'')]"
  have name: "def_name ''#/$defs/Tree'' = ''Tree''" by code_simp
  have left: "needs {''Tree''} ?left" and root: "needs {''Tree''} recursive_schema"
    by (rule by_ref; simp add: str_key_def GetStrKey_def get_key_def recursive_schema_def name)+
  have "circular {''Tree''} recursive_schema"
    by (auto simp: circular_def definitions_def recursive_schema_def get_key_def str_key_def GetStrKey_def array_key_def
        object_props_def intro!: by_property [where p = "(''left'', ?left)"] left)
  then have "Generate fixed_generator 100 (Some recursive_schema) None () \<noteq> Some (Inr v, s)" for v s
    by (rule recursive_schema_never_generates [OF _ _ root, rotated]) (simp_all add: fixed_generator_def)
  then show "Generate fixed_generator 100 (Some recursive_schema) None () \<notin> {Some (Inr v, s) | v s. True}" by blast
  show "Generate fixed_generator 100 (Some sample_schema) None () \<noteq> None" by code_simp
qed

end
