(* ===== verification/Port_Simulation.thy ===== *)
theory Port_Simulation
  imports Data_Generator
begin

section \<open>Simulated port data\<close>

text \<open>
  \<open>src/pkg/utils/portinspect.go\<close>: what a port of a flow would carry, made up from its
  schema, from the edges that lead to it, from the example its component published and from recorded data.

  An object is the list of its members. The closures \<open>inspect\<close> and \<open>generatorCallback\<close> share the maps \<open>visited\<close> and
  \<open>cache\<close>: they are the state that is passed along, together with the random source. A value \<open>nil\<close> is \<open>JNull\<close>.
\<close>

subsection \<open>Merging values\<close>

text \<open>\<open>fillGaps\<close>: the value wins, the example fills what is null or missing.\<close>

fun fillGaps :: "json \<Rightarrow> json \<Rightarrow> json"
  and fill_members :: "json gomap \<Rightarrow> json gomap \<Rightarrow> json gomap" where
  "fillGaps base JNull = base"
| "fillGaps base (JObj ex) =
     (case base of JNull \<Rightarrow> JObj ex | JObj bm \<Rightarrow> JObj (fill_members bm ex) | _ \<Rightarrow> base)"
| "fillGaps base (JBool b) = (if base = JNull then JBool b else base)"
| "fillGaps base (JNum n) = (if base = JNull then JNum n else base)"
| "fillGaps base (JStr s) = (if base = JNull then JStr s else base)"
| "fillGaps base (JArr vs) = (if base = JNull then JArr vs else base)"
| "fill_members bm [] = bm"
| "fill_members bm ((k, ev) # ex) =
     fill_members (AList.update k (if field bm k = JNull then ev else fillGaps (field bm k) ev) bm) ex"

text \<open>\<open>mergeOverlay\<close>: the overlay wins, member by member where both are objects.\<close>

fun mergeOverlay :: "json \<Rightarrow> json \<Rightarrow> json"
  and merge_members :: "json gomap \<Rightarrow> json gomap \<Rightarrow> json gomap" where
  "mergeOverlay base (JObj om) = (case base of JObj bm \<Rightarrow> JObj (merge_members bm om) | _ \<Rightarrow> JObj om)"
| "mergeOverlay base JNull = JNull"
| "mergeOverlay base (JBool b) = JBool b"
| "mergeOverlay base (JNum n) = JNum n"
| "mergeOverlay base (JStr s) = JStr s"
| "mergeOverlay base (JArr vs) = JArr vs"
| "merge_members out [] = out"
| "merge_members out ((k, ov) # om) =
     merge_members (AList.update k (case map_of out k of Some bv \<Rightarrow> mergeOverlay bv ov | None \<Rightarrow> ov) out) om"

definition add_missing :: "string \<times> json \<Rightarrow> json gomap \<Rightarrow> json gomap" where
  "add_missing m t = (if map_of t (fst m) = None then t @ [m] else t)"

fun spreadContext :: "json \<Rightarrow> json" where
  "spreadContext (JObj ms) =
     (let t = map (\<lambda>m. (fst m, spreadContext (snd m))) ms
      in JObj (case map_of t ''context'' of Some (JObj ctx) \<Rightarrow> fold add_missing ctx t | _ \<Rightarrow> t))"
| "spreadContext (JArr vs) = JArr (map spreadContext vs)"
| "spreadContext v = v"

subsection \<open>Defaults of an edge schema\<close>

text \<open>\<open>mock\<close> is a fresh generator run on a schema without a callback; its errors leave the value as it is.\<close>

function mergeMocksIntoObject :: "(json \<Rightarrow> ('s, json) run) \<Rightarrow> json \<Rightarrow> json \<Rightarrow> 's \<Rightarrow> (json \<times> 's) option"
  and merge_mocks :: "(json \<Rightarrow> ('s, json) run) \<Rightarrow> json gomap \<Rightarrow> json gomap \<Rightarrow> 's \<Rightarrow> (json gomap \<times> 's) option" where
  "mergeMocksIntoObject mock schemaNode (JObj m) s =
     (case get_key schemaNode ''properties'' of
        Some (JObj props) \<Rightarrow> map_option (\<lambda>(m', s'). (JObj m', s')) (merge_mocks mock props m s)
      | _ \<Rightarrow> Some (JObj m, s))"
| "mergeMocksIntoObject mock schemaNode JNull s =
     (case mock schemaNode s of
        None \<Rightarrow> None
      | Some (Inl _, s') \<Rightarrow> Some (JNull, s')
      | Some (Inr v, s') \<Rightarrow> Some (v, s'))"
| "mergeMocksIntoObject mock schemaNode (JBool b) s = Some (JBool b, s)"
| "mergeMocksIntoObject mock schemaNode (JNum n) s = Some (JNum n, s)"
| "mergeMocksIntoObject mock schemaNode (JStr t) s = Some (JStr t, s)"
| "mergeMocksIntoObject mock schemaNode (JArr vs) s = Some (JArr vs, s)"
| "merge_mocks mock [] m s = Some (m, s)"
| "merge_mocks mock ((k, propSchema) # props) m s =
     (if field m k = JNull then
        (case mock propSchema s of
           None \<Rightarrow> None
         | Some (Inl _, s') \<Rightarrow> merge_mocks mock props m s'
         | Some (Inr v, s') \<Rightarrow> merge_mocks mock props (AList.update k v m) s')
      else
        (case mergeMocksIntoObject mock propSchema (field m k) s of
           None \<Rightarrow> None
         | Some (v, s') \<Rightarrow> merge_mocks mock props (AList.update k v m) s'))"
  by pat_completeness auto
termination
  by (relation "measure (case_sum (\<lambda>(_, n, _, _). size n) (\<lambda>(_, props, _, _). size_list (size_prod (\<lambda>_. 0) size) props))")
    (auto dest: size_get_key)

subsection \<open>The simulation\<close>

record destination =
  ds_Name :: string
  ds_Configuration :: bytes
  ds_Schema :: bytes

text \<open>
  What a simulation is given: the maps, the decoders and encoders it calls, the number format of the evaluator, and
  the context, asked whenever a port is inspected.
\<close>

record sim_env =
  se_portSchemaMap :: "json gomap"
  se_edgeConfigMap :: "destination list gomap"
  se_runtimeData :: "bytes gomap"
  se_portExampleMap :: "bytes gomap"
  se_ajson :: ajson
  se_num :: "string \<Rightarrow> string"
  se_Marshal :: "json \<Rightarrow> go_error + bytes"
  se_Unmarshal :: "bytes \<Rightarrow> go_error + json"
  se_ctxErr :: "string list \<Rightarrow> go_error option"

record 'r sim_state =
  ss_visited :: "string list"
  ss_cache :: "json gomap"
  ss_rnd :: 'r

definition lift_generator :: "'r generator \<Rightarrow> 'r sim_state generator" where
  "lift_generator gn =
     \<lparr>gn_IntRange = \<lambda>lo hi s. (case gn_IntRange gn lo hi (ss_rnd s) of (i, r) \<Rightarrow> (i, s\<lparr>ss_rnd := r\<rparr>)),
      gn_Float64Range = \<lambda>lo hi s. (case gn_Float64Range gn lo hi (ss_rnd s) of (x, r) \<Rightarrow> (x, s\<lparr>ss_rnd := r\<rparr>)),
      gn_Bool = \<lambda>s. (case gn_Bool gn (ss_rnd s) of (b, r) \<Rightarrow> (b, s\<lparr>ss_rnd := r\<rparr>)),
      gn_NounAbstract = \<lambda>s. (case gn_NounAbstract gn (ss_rnd s) of (w, r) \<Rightarrow> (w, s\<lparr>ss_rnd := r\<rparr>)),
      gn_isZero = gn_isZero gn, gn_int = gn_int gn, gn_String = gn_String gn, gn_keyError = gn_keyError gn\<rparr>"

definition mock_of :: "'s generator \<Rightarrow> nat \<Rightarrow> json \<Rightarrow> ('s, json) run" where
  "mock_of gn fuel schemaNode = Generate gn fuel (Some schemaNode) None"

definition fillTypedDefaults :: "sim_env \<Rightarrow> 's generator \<Rightarrow> nat \<Rightarrow> json \<Rightarrow> bytes \<Rightarrow> 's \<Rightarrow> (json \<times> 's) option" where
  "fillTypedDefaults env gn fuel data schemaBytes s =
     (if schemaBytes = [] then Some (data, s)
      else
        (case aj_Unmarshal (se_ajson env) schemaBytes of
           Inl _ \<Rightarrow> Some (data, s)
         | Inr root \<Rightarrow>
           (case data of
              JObj m \<Rightarrow>
                (case json_object root of
                   None \<Rightarrow> Some (JObj m, s)
                 | Some fieldSchemas \<Rightarrow> map_option (\<lambda>(m', s'). (JObj m', s')) (merge_mocks (mock_of gn fuel) fieldSchemas m s))
            | JNull \<Rightarrow>
                (case mock_of gn fuel root s of
                   None \<Rightarrow> None
                 | Some (Inl _, s') \<Rightarrow> Some (JNull, s')
                 | Some (Inr v, s') \<Rightarrow> Some (v, s'))
            | _ \<Rightarrow> Some (data, s))))"

definition sim_callback :: "ajson \<Rightarrow> json \<Rightarrow> expr_callback" where
  "sim_callback aj node expression =
     (if expression = [] then Inl (ErrNew ''expression is empty'')
      else if expression = ''$'' then Inr node
      else aj_Eval aj node expression)"

text \<open>
  What the edges into a port deliver; an error comes with whether the callback of the generator takes it as a replacement.
\<close>

fun edge_results ::
  "sim_env \<Rightarrow> 'r sim_state generator \<Rightarrow> nat \<Rightarrow> (string \<Rightarrow> ('r sim_state, json) run) \<Rightarrow> string \<Rightarrow> destination list \<Rightarrow> 'r sim_state
     \<Rightarrow> (((bool \<times> go_error) + json list) \<times> 'r sim_state) option" where
  "edge_results env gn fuel inspect inspectPort [] s = Some (Inr [], s)"
| "edge_results env gn fuel inspect inspectPort (dest # ds) s =
     (if ds_Name dest = inspectPort \<or> ds_Configuration dest = [] then edge_results env gn fuel inspect inspectPort ds s
      else
        (case inspect (ds_Name dest) s of
           None \<Rightarrow> None
         | Some (Inl e, s') \<Rightarrow> Some (Inl (False, e), s')
         | Some (Inr edgeData, s') \<Rightarrow>
           (case se_Marshal env edgeData of
              Inl e \<Rightarrow> Some (Inl (False, e), s')
            | Inr edgeDataB \<Rightarrow>
              (case aj_Unmarshal (se_ajson env) edgeDataB of
                 Inl e \<Rightarrow> Some (Inl (False, e), s')
               | Inr edgeDataNode \<Rightarrow>
                 (case Eval (se_ajson env) (sim_callback (se_ajson env) edgeDataNode) (se_num env) (ds_Configuration dest) of
                    Inl e \<Rightarrow> Some (Inl (True, e), s')
                  | Inr (data, _) \<Rightarrow>
                    (case fillTypedDefaults env gn fuel data (ds_Schema dest) s' of
                       None \<Rightarrow> None
                     | Some (data', s'') \<Rightarrow>
                       (case edge_results env gn fuel inspect inspectPort ds s'' of
                          Some (Inr rs, t) \<Rightarrow> Some (Inr (data' # rs), t)
                        | other \<Rightarrow> other)))))))"

definition nested_result :: "sim_env \<Rightarrow> json \<Rightarrow> json \<Rightarrow> json \<times> bool \<times> go_error option" where
  "nested_result env n result =
     (let pathStr = str_key ''path'' n
      in if pathStr = ''$'' \<or> pathStr = [] then (result, True, None)
         else
           (case se_Marshal env result of
              Inl e \<Rightarrow> (JNull, False, Some e)
            | Inr finalJson \<Rightarrow>
              (case aj_Unmarshal (se_ajson env) finalJson of
                 Inl e \<Rightarrow> (JNull, True, Some e)
               | Inr finalNode \<Rightarrow>
                 (case aj_Eval (se_ajson env) finalNode pathStr of
                    Inl e \<Rightarrow> (JNull, True, Some e)
                  | Inr (JArr (v # vs)) \<Rightarrow> (if str_key ''type'' n \<noteq> ''array'' then v else JArr (v # vs), True, None)
                  | Inr v \<Rightarrow> (v, True, None)))))"

definition generatorCallback ::
  "sim_env \<Rightarrow> 'r sim_state generator \<Rightarrow> nat \<Rightarrow> (string \<Rightarrow> ('r sim_state, json) run) \<Rightarrow> string \<Rightarrow> 'r sim_state callback" where
  "generatorCallback env gn fuel inspect inspectPort n s =
     (let portStr = str_key ''port'' n
      in if portStr = [] \<or> has_prefix (snd (ParseFullPortName portStr)) ''_'' then Some ((JNull, False, None), s)
         else
           (case edge_results env gn fuel inspect inspectPort
                   (case map_of (se_edgeConfigMap env) portStr of None \<Rightarrow> [] | Some ds \<Rightarrow> ds) s of
              None \<Rightarrow> None
            | Some (Inl (replace, e), s') \<Rightarrow> Some ((JNull, replace, Some e), s')
            | Some (Inr [], s') \<Rightarrow> Some ((JNull, False, None), s')
            | Some (Inr (result # _), s') \<Rightarrow> Some (nested_result env n result, s')))"

text \<open>The example fills gaps, recorded data is laid over it, and the fields of the context are spread.\<close>

definition overlays :: "sim_env \<Rightarrow> string \<Rightarrow> json \<Rightarrow> json" where
  "overlays env portName result =
     (let r1 = (case map_of (se_portExampleMap env) portName of
                  Some (c # cs) \<Rightarrow>
                    (case se_Unmarshal env (c # cs) of Inr exVal \<Rightarrow> fillGaps result exVal | Inl _ \<Rightarrow> result)
                | _ \<Rightarrow> result);
          r2 = (case map_of (se_runtimeData env) portName of
                  None \<Rightarrow> r1
                | Some [] \<Rightarrow> JNull
                | Some (c # cs) \<Rightarrow>
                  (case se_Unmarshal env (c # cs) of
                     Inl _ \<Rightarrow> r1 | Inr JNull \<Rightarrow> r1 | Inr r \<Rightarrow> mergeOverlay r1 r))
      in spreadContext r2)"

definition set_cache :: "string \<Rightarrow> json \<Rightarrow> 'r sim_state \<Rightarrow> 'r sim_state" where
  "set_cache portName v s = s\<lparr>ss_cache := AList.update portName v (ss_cache s)\<rparr>"

definition visited_result :: "string \<Rightarrow> 'r sim_state \<Rightarrow> go_error + json" where
  "visited_result portName s =
     (case map_of (ss_cache s) portName of
        Some cached \<Rightarrow> if cached = JNull then Inl (ErrNew (''cached value for '' @ portName @ '' is nil'')) else Inr cached
      | None \<Rightarrow> Inl (ErrNew (''no cache value for visited port '' @ portName)))"

fun inspect :: "sim_env \<Rightarrow> 'r generator \<Rightarrow> nat \<Rightarrow> nat \<Rightarrow> string \<Rightarrow> ('r sim_state, json) run" where
  "inspect env gn fuel 0 portName s = None"
| "inspect env gn fuel (Suc depth) portName s =
     (case se_ctxErr env (ss_visited s) of
        Some e \<Rightarrow> Some (Inl e, s)
      | None \<Rightarrow>
        if portName \<in> set (ss_visited s) then Some (visited_result portName s, s)
        else
          (let portSchema = (case map_of (se_portSchemaMap env) portName of None \<Rightarrow> JNull | Some sch \<Rightarrow> sch);
               clb = generatorCallback env (lift_generator gn) fuel (inspect env gn fuel depth) portName
           in case Generate (lift_generator gn) fuel (Some portSchema) (Some clb) (s\<lparr>ss_visited := portName # ss_visited s\<rparr>) of
                None \<Rightarrow> None
              | Some (Inl e, s') \<Rightarrow> Some (Inl e, set_cache portName JNull s')
              | Some (Inr v, s') \<Rightarrow> Some (Inr (overlays env portName v), set_cache portName (overlays env portName v) s')))"

definition SimulatePortDataFromMaps :: "sim_env \<Rightarrow> 'r generator \<Rightarrow> nat \<Rightarrow> nat \<Rightarrow> string \<Rightarrow> 'r \<Rightarrow> ((go_error + json) \<times> 'r sim_state) option" where
  "SimulatePortDataFromMaps env gn fuel depth inspectPortFullName rnd =
     inspect env gn fuel depth inspectPortFullName \<lparr>ss_visited = [], ss_cache = [], ss_rnd = rnd\<rparr>"

subsection \<open>The simulation returns\<close>

lemma refs_definitions: "(k, d) \<in> set (definitions root) \<Longrightarrow> refs d \<subseteq> refs root"
proof -
  assume "(k, d) \<in> set (definitions root)"
  then obtain defs where d: "get_key root ''$defs'' = Some (JObj defs)" "(k, d) \<in> set defs" using definitions_member by blast
  have "refs d \<subseteq> refs (JObj defs)"
    using d(2) keyed_strings_member [of k d defs "[]"] keyed_strings_mono by (fastforce simp: refs_def)
  then show ?thesis using refs_get_key [OF d(1)] by blast
qed

lemma generable_plain: "refs n = {} \<Longrightarrow> size n < fuel \<Longrightarrow> generable fuel n"
  using refs_definitions unfolding generable_def layered_def by (intro exI [of _ "\<lambda>_. 0"] exI [of _ 0]) fastforce

lemma mock_of_returns:
  assumes "\<And>lo hi s. lo \<le> hi \<Longrightarrow> fst (gn_IntRange gn lo hi s) \<in> {lo..hi}" "stable I gn" "refs n = {}" "size n < fuel"
  shows "returns I (mock_of gn fuel n)"
  unfolding mock_of_def by (rule Generate_returns [OF assms(1,2) generable_plain [OF assms(3,4)]]) simp_all

lemma part_of_member: "(k, v) \<in> set ms \<Longrightarrow> part_of v (JObj ms)"
  using keyed_strings_member [of k v ms "[]"] keyed_strings_mono json_member_size [of k v ms]
  by (fastforce simp: part_of_def refs_def)

lemma plain_tail: "refs (JObj (m # ms)) = {} \<Longrightarrow> refs (JObj ms) = {}"
  by (auto simp: refs_def)

lemma plain_part: "refs n = {} \<Longrightarrow> size n < fuel \<Longrightarrow> part_of v n \<Longrightarrow> refs v = {} \<and> size v < fuel"
  by (auto simp: part_of_def)

lemma mergeMocks_returns:
  shows "\<lbrakk>\<And>n. refs n = {} \<Longrightarrow> size n < fuel \<Longrightarrow> returns I (mock n); refs n = {}; size n < fuel; I s\<rbrakk>
      \<Longrightarrow> \<exists>r s'. mergeMocksIntoObject mock n v s = Some (r, s') \<and> I s'"
    and "\<lbrakk>\<And>n. refs n = {} \<Longrightarrow> size n < fuel \<Longrightarrow> returns I (mock n); refs (JObj props) = {}; size (JObj props) < fuel; I s\<rbrakk>
      \<Longrightarrow> \<exists>r s'. merge_mocks mock props m s = Some (r, s') \<and> I s'"
proof (induction mock n v s and mock props m s rule: mergeMocksIntoObject_merge_mocks.induct)
  case (1 mock n m s)
  show ?case
  proof (cases "get_key n ''properties''")
    case (Some p)
    show ?thesis
    proof (cases p)
      case (JObj props)
      then have "refs (JObj props) = {} \<and> size (JObj props) < fuel"
        using plain_part [OF "1.prems"(2,3) part_of_key [OF Some]] by simp
      then show ?thesis using "1.IH" [OF Some JObj] "1.prems" Some JObj by fastforce
    qed (use 1 Some in auto)
  qed (use 1 in simp)
next
  case (2 mock n s)
  then obtain r s' where "mock n s = Some (r, s')" "I s'" by (metis returnsE)
  then show ?case by (cases r) auto
next
  case (8 mock k ps props m s)
  have plain: "refs ps = {}" "size ps < fuel" "refs (JObj props) = {}" "size (JObj props) < fuel"
    using plain_part [OF "8.prems"(2,3) part_of_member [of k ps]] plain_tail [OF "8.prems"(2)] "8.prems"(3) by auto
  show ?case
  proof (cases "field m k = JNull")
    case True
    obtain r s' where r: "mock ps s = Some (r, s')" "I s'" using "8.prems"(1) [OF plain(1,2)] "8.prems"(4) by (metis returnsE)
    show ?thesis
    proof (cases r)
      case (Inl e)
      then show ?thesis using "8.IH"(1) [OF True r(1) _ Inl "8.prems"(1) plain(3,4) r(2)] r True by auto
    next
      case (Inr v)
      then show ?thesis using "8.IH"(2) [OF True r(1) _ Inr "8.prems"(1) plain(3,4) r(2)] r True by auto
    qed
  next
    case False
    obtain v s' where v: "mergeMocksIntoObject mock ps (field m k) s = Some (v, s')" "I s'"
      using "8.IH"(3) [OF False "8.prems"(1) plain(1,2) "8.prems"(4)] by auto
    then show ?thesis using "8.IH"(4) [OF False v(1) refl "8.prems"(1) plain(3,4) v(2)] False by auto
  qed
qed auto

definition plain_schema :: "sim_env \<Rightarrow> nat \<Rightarrow> bytes \<Rightarrow> bool" where
  "plain_schema env fuel b =
     (case aj_Unmarshal (se_ajson env) b of Inl _ \<Rightarrow> True | Inr root \<Rightarrow> refs root = {} \<and> size root < fuel)"

lemma fillTypedDefaults_returns:
  assumes "\<And>lo hi s. lo \<le> hi \<Longrightarrow> fst (gn_IntRange gn lo hi s) \<in> {lo..hi}" "stable I gn" "plain_schema env fuel b" "I s"
  shows "\<exists>r s'. fillTypedDefaults env gn fuel data b s = Some (r, s') \<and> I s'"
proof (cases "b = []")
  case False
  have mock: "returns I (mock_of gn fuel n)" if "refs n = {}" "size n < fuel" for n
    by (rule mock_of_returns [OF assms(1,2) that])
  show ?thesis
  proof (cases "aj_Unmarshal (se_ajson env) b")
    case (Inr root)
    with assms(3) have root: "refs root = {}" "size root < fuel" by (simp_all add: plain_schema_def)
    show ?thesis
    proof (cases data)
      case JNull
      obtain r s' where "mock_of gn fuel root s = Some (r, s')" "I s'" using returnsE [OF mock [OF root] assms(4)] .
      with False Inr JNull show ?thesis by (cases r) (auto simp: fillTypedDefaults_def)
    next
      case (JObj m)
      show ?thesis
      proof (cases root)
        case f: (JObj fs)
        then have "\<exists>r s'. merge_mocks (mock_of gn fuel) fs m s = Some (r, s') \<and> I s'"
          using root assms(4) by (intro mergeMocks_returns(2) [where fuel = fuel] mock) simp_all
        with False Inr JObj f show ?thesis by (auto simp: fillTypedDefaults_def)
      qed (use False Inr JObj assms(4) in \<open>simp_all add: fillTypedDefaults_def\<close>)
    qed (use False Inr assms(4) in \<open>simp_all add: fillTypedDefaults_def\<close>)
  qed (use False assms(4) in \<open>simp add: fillTypedDefaults_def\<close>)
qed (use assms(4) in \<open>simp add: fillTypedDefaults_def\<close>)

lemma edge_results_returns:
  assumes rnd: "\<And>lo hi s. lo \<le> hi \<Longrightarrow> fst (gn_IntRange gn lo hi s) \<in> {lo..hi}" and st: "stable I gn"
  shows "\<lbrakk>\<forall>d \<in> set ds. plain_schema env fuel (ds_Schema d) \<and> returns I (insp (ds_Name d)); I s\<rbrakk>
    \<Longrightarrow> \<exists>r s'. edge_results env gn fuel insp p ds s = Some (r, s') \<and> I s'"
proof (induction ds arbitrary: s)
  case (Cons d ds)
  show ?case
  proof (cases "ds_Name d = p \<or> ds_Configuration d = []")
    case False
    from Cons.prems obtain r s' where r: "insp (ds_Name d) s = Some (r, s')" "I s'" by (auto elim: returnsE)
    show ?thesis
    proof (cases "\<exists>v B node data errs. r = Inr v \<and> se_Marshal env v = Inr B \<and> aj_Unmarshal (se_ajson env) B = Inr node \<and>
        Eval (se_ajson env) (sim_callback (se_ajson env) node) (se_num env) (ds_Configuration d) = Inr (data, errs)")
      case True
      then obtain v B node data errs where ok: "r = Inr v" "se_Marshal env v = Inr B" "aj_Unmarshal (se_ajson env) B = Inr node"
        "Eval (se_ajson env) (sim_callback (se_ajson env) node) (se_num env) (ds_Configuration d) = Inr (data, errs)" by blast
      have "plain_schema env fuel (ds_Schema d)" using Cons.prems(1) by simp
      then obtain data' s'' where f: "fillTypedDefaults env gn fuel data (ds_Schema d) s' = Some (data', s'')" "I s''"
        using fillTypedDefaults_returns [OF rnd st _ r(2)] by blast
      obtain q t where "edge_results env gn fuel insp p ds s'' = Some (q, t)" "I t" using Cons.IH [OF _ f(2)] Cons.prems(1) by auto
      then show ?thesis using False r ok f by (cases q) auto
    next
      case bad: False
      then show ?thesis using False r by (cases r) (auto split: sum.split)
    qed
  qed (use Cons in auto)
qed simp

lemma generatorCallback_returns:
  assumes "\<And>lo hi s. lo \<le> hi \<Longrightarrow> fst (gn_IntRange gn lo hi s) \<in> {lo..hi}" "stable I gn"
    and "\<And>q ds d. (q, ds) \<in> set (se_edgeConfigMap env) \<Longrightarrow> d \<in> set ds \<Longrightarrow>
      plain_schema env fuel (ds_Schema d) \<and> returns I (insp (ds_Name d))"
  shows "returns I (generatorCallback env gn fuel insp p n)"
proof (rule returnsI)
  fix s assume s: "I s"
  let ?ds = "case map_of (se_edgeConfigMap env) (str_key ''port'' n) of None \<Rightarrow> [] | Some ds \<Rightarrow> ds"
  have "\<forall>d \<in> set ?ds. plain_schema env fuel (ds_Schema d) \<and> returns I (insp (ds_Name d))"
  proof (cases "map_of (se_edgeConfigMap env) (str_key ''port'' n)")
    case (Some ds)
    then show ?thesis using assms(3) [OF map_of_SomeD [OF Some]] by simp
  qed simp
  then obtain r s' where "edge_results env gn fuel insp p ?ds s = Some (r, s')" "I s'"
    using edge_results_returns [OF assms(1,2) _ s] by blast
  with s show "\<exists>r s'. generatorCallback env gn fuel insp p n s = Some (r, s') \<and> I s'"
    by (cases r) (auto simp: generatorCallback_def Let_def split: list.split, metis prod_cases3)
qed

text \<open>The ports a simulation may come to.\<close>

definition edge_sources :: "sim_env \<Rightarrow> string list" where
  "edge_sources env = concat (map (\<lambda>(_, ds). map ds_Name ds) (se_edgeConfigMap env))"

definition simulable :: "sim_env \<Rightarrow> nat \<Rightarrow> bool" where
  "simulable env fuel =
     (0 < fuel \<and> (\<forall>(p, sch) \<in> set (se_portSchemaMap env). generable fuel sch) \<and>
      (\<forall>(p, ds) \<in> set (se_edgeConfigMap env). \<forall>d \<in> set ds. plain_schema env fuel (ds_Schema d)))"

definition explored :: "string set \<Rightarrow> string set \<Rightarrow> 'r sim_state \<Rightarrow> bool" where
  "explored P V s = (V \<subseteq> set (ss_visited s) \<and> set (ss_visited s) \<subseteq> P \<and> distinct (ss_visited s))"

lemma explored_stable: "stable (explored P V) (lift_generator gn)"
  by (auto simp: stable_def explored_def lift_generator_def split: prod.split)

lemma lift_range:
  assumes "\<And>lo hi s. lo \<le> hi \<Longrightarrow> fst (gn_IntRange gn lo hi s) \<in> {lo..hi}" "lo \<le> hi"
  shows "fst (gn_IntRange (lift_generator gn) lo hi s) \<in> {lo..hi}"
  using assms(1) [OF assms(2), of "ss_rnd s"] by (simp add: lift_generator_def case_prod_unfold)

lemma inspect_returns:
  assumes rnd: "\<And>lo hi s. lo \<le> hi \<Longrightarrow> fst (gn_IntRange gn lo hi s) \<in> {lo..hi}" and env: "simulable env fuel"
    and P: "finite P" "set (edge_sources env) \<subseteq> P"
  shows "p \<in> P \<Longrightarrow> card (P - V) < depth \<Longrightarrow> returns (explored P V) (inspect env gn fuel depth p)"
proof (induction depth arbitrary: p V)
  case (Suc depth)
  show ?case
  proof (rule returnsI)
    fix s :: "'a sim_state" assume s: "explored P V s"
    show "\<exists>r s'. inspect env gn fuel (Suc depth) p s = Some (r, s') \<and> explored P V s'"
    proof (cases "se_ctxErr env (ss_visited s) = None \<and> p \<notin> set (ss_visited s)")
      case False
      then show ?thesis using s by (cases "se_ctxErr env (ss_visited s)") auto
    next
      case True
      let ?V = "insert p V" and ?s = "s\<lparr>ss_visited := p # ss_visited s\<rparr>"
      let ?sch = "case map_of (se_portSchemaMap env) p of None \<Rightarrow> JNull | Some sch \<Rightarrow> sch"
      let ?clb = "generatorCallback env (lift_generator gn) fuel (inspect env gn fuel depth) p"
      have "p \<notin> V" using True s by (auto simp: explored_def)
      moreover have "card (P - V) \<le> depth" using Suc.prems(2) by simp
      moreover have "P - ?V = (P - V) - {p}" by blast
      ultimately have "card (P - ?V) < depth"
        using card_Diff1_less [of "P - V" p] P(1) Suc.prems(1) by (metis DiffI finite_Diff less_le_trans)
      then have IH: "returns (explored P ?V) (inspect env gn fuel depth q)" if "q \<in> P" for q using Suc.IH that by blast
      have clb: "returns (explored P ?V) (?clb n)" for n
        by (rule generatorCallback_returns [OF lift_range [OF rnd] explored_stable])
          (use env P(2) IH in \<open>fastforce simp: simulable_def edge_sources_def\<close>)+
      have sch: "generable fuel ?sch"
        using env generable_plain [of JNull fuel]
        by (auto simp: simulable_def refs_def split: option.split dest!: map_of_SomeD)
      have "returns (explored P ?V) (Generate (lift_generator gn) fuel (Some ?sch) (Some ?clb))"
        by (rule Generate_returns [OF lift_range [OF rnd] explored_stable sch]) (use clb in auto)
      moreover have "explored P ?V ?s" using s True Suc.prems by (auto simp: explored_def)
      ultimately obtain r s' where r: "Generate (lift_generator gn) fuel (Some ?sch) (Some ?clb) ?s = Some (r, s')" "explored P ?V s'"
        by (rule returnsE)
      then have "explored P V (set_cache p v s')" for v by (auto simp: explored_def set_cache_def)
      with r True show ?thesis by (cases r) (simp_all add: Let_def)
    qed
  qed
qed simp

text \<open>C26: the simulation of a port returns on every flow, cyclic ones included, and makes up the data of a port at most once. It is
  enough that references in the port schemas can be ranked and that the schemas of edges hold none; the depth of the search is
  bounded by the number of the edges.\<close>

theorem simulation_returns:
  assumes "\<And>lo hi s. lo \<le> hi \<Longrightarrow> fst (gn_IntRange gn lo hi s) \<in> {lo..hi}" "simulable env fuel"
    and "Suc (length (edge_sources env)) < depth"
  shows "\<exists>r s'. SimulatePortDataFromMaps env gn fuel depth port rnd = Some (r, s') \<and>
    distinct (ss_visited s') \<and> set (ss_visited s') \<subseteq> insert port (set (edge_sources env))"
proof -
  let ?P = "insert port (set (edge_sources env))"
  have "card ?P \<le> Suc (length (edge_sources env))"
    by (rule le_trans [OF card_insert_le_m1 [of "Suc (length (edge_sources env))"]]) (simp_all add: card_length)
  then have "returns (explored ?P {}) (inspect env gn fuel depth port)"
    by (intro inspect_returns [OF assms(1,2)]) (use assms(3) in auto)
  moreover have "explored ?P {} \<lparr>ss_visited = [], ss_cache = [], ss_rnd = rnd\<rparr>" by (simp add: explored_def)
  ultimately obtain r s' where "inspect env gn fuel depth port \<lparr>ss_visited = [], ss_cache = [], ss_rnd = rnd\<rparr> = Some (r, s')" "explored ?P {} s'"
    by (rule returnsE)
  then show ?thesis by (auto simp: SimulatePortDataFromMaps_def explored_def)
qed

definition looped_schema :: "string \<Rightarrow> json" where
  "looped_schema port =
     JObj [(''$ref'', JStr ''#/$defs/Out''),
           (''$defs'', JObj [(''Out'', JObj [(''type'', JStr ''object''), (''properties'', JObj [(''context'', JObj [(''$ref'', JStr ''#/$defs/Context'')])])]),
                             (''Context'', JObj [(''port'', JStr port), (''configurable'', JBool True)])])]"

text \<open>Two nodes whose edges lead to each other.\<close>

definition looped_env :: sim_env where
  "looped_env =
     \<lparr>se_portSchemaMap = [(''a:out'', looped_schema ''a:in''), (''b:out'', looped_schema ''b:in'')],
      se_edgeConfigMap = [(''a:in'', [\<lparr>ds_Name = ''b:out'', ds_Configuration = ''{}'', ds_Schema = []\<rparr>]),
                          (''b:in'', [\<lparr>ds_Name = ''a:out'', ds_Configuration = ''{}'', ds_Schema = []\<rparr>])],
      se_runtimeData = [], se_portExampleMap = [],
      se_ajson = \<lparr>aj_Unmarshal = \<lambda>_. Inr (JObj []), aj_Eval = \<lambda>v _. Inr v, aj_Type = \<lambda>_. []\<rparr>, se_num = \<lambda>n. n,
      se_Marshal = \<lambda>_. Inr ''{}'', se_Unmarshal = \<lambda>_. Inr (JObj []), se_ctxErr = \<lambda>_. None\<rparr>"

theorem simulation_returns_witness:
  "\<exists>r s'. SimulatePortDataFromMaps looped_env fixed_generator 1000 4 ''a:out'' () = Some (r, s') \<and>
     distinct (ss_visited s') \<and> set (ss_visited s') \<subseteq> {''a:out'', ''b:out''}"
proof -
  let ?rank = "\<lambda>k. if k = ''Out'' then 1 else 0 :: nat"
  have n: "def_name ''#/$defs/Out'' = ''Out''" "def_name ''#/$defs/Context'' = ''Context''" by code_simp+
  have "layered ?rank (looped_schema p) \<and> (\<forall>r \<in> refs (looped_schema p). ?rank (def_name r) < 2) \<and> 2 * Suc (size (looped_schema p)) + size (looped_schema p) < 1000" for p
    by (auto simp: layered_def definitions_def looped_schema_def get_key_def refs_def n)
  then have "generable 1000 (looped_schema p)" for p unfolding generable_def by blast
  then have s: "simulable looped_env 1000" by (auto simp: simulable_def looped_env_def plain_schema_def refs_def)
  have e: "edge_sources looped_env = [''b:out'', ''a:out'']" by code_simp
  have "fst (gn_IntRange fixed_generator lo hi s) \<in> {lo..hi}" if "lo \<le> hi" for lo hi s using that by (simp add: fixed_generator_def)
  from simulation_returns [OF this s, of 4 "''a:out''" "()"] show ?thesis by (simp add: e insert_commute)
qed

subsection \<open>What wins\<close>

text \<open>The value at a path of object keys.\<close>

fun json_at :: "json \<Rightarrow> string list \<Rightarrow> json option" where
  "json_at v [] = Some v"
| "json_at v (k # ks) = (case get_key v k of None \<Rightarrow> None | Some x \<Rightarrow> json_at x ks)"

definition leaf :: "json \<Rightarrow> bool" where
  "leaf v = (case v of JObj _ \<Rightarrow> False | JArr _ \<Rightarrow> False | JNull \<Rightarrow> False | _ \<Rightarrow> True)"

text \<open>A path on which a document says nothing: it leaves the document at a missing member.\<close>

fun silent :: "json \<Rightarrow> string list \<Rightarrow> bool" where
  "silent (JObj ms) (k # ks) = (case map_of ms k of None \<Rightarrow> True | Some v \<Rightarrow> silent v ks)"
| "silent _ _ = False"

lemma get_key_JObj [simp]: "get_key (JObj ms) k = map_of ms k"
  by (simp add: get_key_def)

lemma map_of_merge_members:
  "distinct (map fst om) \<Longrightarrow> map_of (merge_members bm om) k =
     (case map_of om k of None \<Rightarrow> map_of bm k | Some ov \<Rightarrow> Some (case map_of bm k of Some bv \<Rightarrow> mergeOverlay bv ov | None \<Rightarrow> ov))"
proof (induction om arbitrary: bm)
  case (Cons m ms)
  have "map_of ms (fst m) = None" using Cons.prems by (simp add: map_of_eq_None_iff)
  with Cons show ?case by (cases m; cases "k = fst m") (auto simp: update_conv' split: option.split)
qed simp

lemma map_of_fill_members:
  "distinct (map fst ex) \<Longrightarrow> map_of (fill_members bm ex) k =
     (case map_of ex k of None \<Rightarrow> map_of bm k | Some ev \<Rightarrow> Some (if field bm k = JNull then ev else fillGaps (field bm k) ev))"
proof (induction ex arbitrary: bm)
  case (Cons m ms)
  have "map_of ms (fst m) = None" using Cons.prems by (simp add: map_of_eq_None_iff)
  with Cons show ?case by (cases m; cases "k = fst m") (auto simp: update_conv' field_def split: option.split)
qed simp

lemma wf_member: "wf_json (JObj ms) \<Longrightarrow> map_of ms k = Some v \<Longrightarrow> wf_json v"
  by (auto simp: list_all_iff dest!: map_of_SomeD)

lemma mergeOverlay_wins:
  "wf_json ov \<Longrightarrow> json_at ov p = Some v \<Longrightarrow> leaf v \<Longrightarrow> json_at (mergeOverlay base ov) p = Some v"
proof (induction p arbitrary: base ov)
  case Nil
  then show ?case by (cases v) (auto simp: leaf_def)
next
  case (Cons k p)
  then obtain om x where o: "ov = JObj om" "map_of om k = Some x" "json_at x p = Some v"
    by (cases ov) (auto simp: get_key_def split: option.splits)
  have x: "wf_json x" using Cons.prems(1) o by (auto intro: wf_member)
  show ?case
  proof (cases "\<exists>bm. base = JObj bm")
    case True
    with o x Cons show ?thesis by (auto simp: map_of_merge_members split: option.split)
  next
    case False
    with o show ?thesis by (cases base) auto
  qed
qed

lemma silent_None: "silent v p \<Longrightarrow> json_at v p = None"
  by (induction v p rule: silent.induct) (auto split: option.splits)

lemma mergeOverlay_keeps: "wf_json ov \<Longrightarrow> silent ov p \<Longrightarrow> json_at (mergeOverlay base ov) p = json_at base p"
proof (induction ov p arbitrary: base rule: silent.induct)
  case (1 ms k ks)
  have w: "\<And>v. map_of ms k = Some v \<Longrightarrow> wf_json v" using 1 by (auto intro: wf_member)
  show ?case
  proof (cases base)
    case (JObj bm)
    with 1 w show ?thesis
      by (cases "map_of ms k"; cases "map_of bm k") (simp_all add: map_of_merge_members silent_None)
  qed (use 1 in \<open>cases "map_of ms k"; simp add: get_key_def silent_None\<close>)+
qed auto

lemma fillGaps_keeps: "wf_json ex \<Longrightarrow> json_at base p = Some v \<Longrightarrow> leaf v \<Longrightarrow> json_at (fillGaps base ex) p = Some v"
proof (induction p arbitrary: base ex)
  case Nil
  then show ?case by (cases v; cases ex) (auto simp: leaf_def)
next
  case (Cons k p)
  then obtain bm x where b: "base = JObj bm" "map_of bm k = Some x" "json_at x p = Some v"
    by (cases base) (auto simp: get_key_def split: option.splits)
  have nn: "x \<noteq> JNull" using b(3) Cons.prems(3) by (cases p) (auto simp: leaf_def get_key_def)
  show ?case
  proof (cases ex)
    case (JObj em)
    have "wf_json e" if "map_of em k = Some e" for e using that Cons.prems(1) JObj by (auto intro: wf_member)
    with JObj b nn Cons show ?thesis by (auto simp: map_of_fill_members field_def split: option.split)
  qed (use b in auto)
qed

lemma fillGaps_fills: "wf_json ex \<Longrightarrow> json_at base p = Some JNull \<Longrightarrow> json_at ex p = Some e \<Longrightarrow> json_at (fillGaps base ex) p = Some e"
proof (induction p arbitrary: base ex)
  case Nil
  then show ?case by (cases e) auto
next
  case (Cons k p)
  then obtain bm em x y where b: "base = JObj bm" "map_of bm k = Some x" "json_at x p = Some JNull" "ex = JObj em" "map_of em k = Some y" "json_at y p = Some e"
    by (cases base; cases ex) (auto simp: get_key_def split: option.splits)
  have "wf_json y" using Cons.prems(1) b by (auto intro: wf_member)
  with b Cons show ?case by (cases "x = JNull") (auto simp: map_of_fill_members field_def)
qed

lemma map_of_add_missing:
  "map_of (fold add_missing ctx t) k = (case map_of t k of Some v \<Rightarrow> Some v | None \<Rightarrow> map_of ctx k)"
  by (induction ctx arbitrary: t) (auto simp: add_missing_def map_add_def split: option.splits)

lemma map_of_map_snd: "map_of (map (\<lambda>m. (fst m, f (snd m))) ms) k = map_option f (map_of ms k)"
  by (induction ms) auto

lemma get_key_spread: "map_of ms k = Some x \<Longrightarrow> get_key (spreadContext (JObj ms)) k = Some (spreadContext x)"
  by (simp add: Let_def map_of_add_missing map_of_map_snd split: option.split json.split)

lemma spreadContext_at: "json_at v p = Some x \<Longrightarrow> json_at (spreadContext v) p = Some (spreadContext x)"
proof (induction p arbitrary: v)
  case (Cons k p)
  then obtain ms y where "v = JObj ms" "map_of ms k = Some y" "json_at y p = Some x"
    by (cases v) (auto simp: get_key_def split: option.splits)
  with Cons.IH [of y] show ?case by (simp only: json_at.simps get_key_spread option.case)
qed simp

lemma spreadContext_leaf: "leaf v \<Longrightarrow> spreadContext v = v"
  by (cases v) (simp_all add: leaf_def)

lemma fold_add_missing_length: "length t \<le> length (fold add_missing ctx t)"
proof (induction ctx arbitrary: t)
  case (Cons m ctx)
  have "length t \<le> length (add_missing m t)" by (simp add: add_missing_def)
  also have "\<dots> \<le> length (fold add_missing ctx (add_missing m t))" by (rule Cons.IH)
  finally show ?case by simp
qed simp

lemma fold_add_missing_grows: "fold add_missing ctx t = t \<or> length t < length (fold add_missing ctx t)"
proof (induction ctx arbitrary: t)
  case (Cons m ctx)
  have "add_missing m t = t \<or> length t < length (add_missing m t)" by (simp add: add_missing_def)
  then show ?case using fold_add_missing_length [of "add_missing m t" ctx] Cons.IH [of t] by (metis fold_simps(2) less_le_trans)
qed simp

lemma fold_add_missing_set: "set (fold add_missing ctx t) \<subseteq> set t \<union> set ctx"
proof (induction ctx arbitrary: t)
  case (Cons m ctx)
  have "set (add_missing m t) \<subseteq> insert m (set t)" by (auto simp: add_missing_def)
  with Cons.IH [of "add_missing m t"] show ?case by auto
qed simp

lemma fold_add_missing_same: "\<forall>m \<in> set ctx. map_of t (fst m) \<noteq> None \<Longrightarrow> fold add_missing ctx t = t"
  by (induction ctx) (auto simp: add_missing_def)

lemma spread_fixed_members:
  assumes "spreadContext (JObj ms) = JObj ms" "m \<in> set ms"
  shows "spreadContext (snd m) = snd m"
proof -
  let ?t = "map (\<lambda>m. (fst m, spreadContext (snd m))) ms"
  obtain ctx where c: "JObj (fold add_missing ctx ?t) = JObj ms"
  proof (cases "map_of ?t ''context''")
    case None
    with assms(1) show ?thesis by (intro that [of "[]"]) (simp add: Let_def)
  next
    case (Some v)
    show ?thesis
    proof (cases v)
      case (JObj ctx)
      with Some assms(1) show ?thesis by (intro that [of ctx]) (simp add: Let_def)
    qed (use Some assms(1) in \<open>intro that [of "[]"], simp add: Let_def\<close>)+
  qed
  then have "length (fold add_missing ctx ?t) = length ?t" by simp
  then have "fold add_missing ctx ?t = ?t" using fold_add_missing_grows [of ctx ?t] by simp
  with c have "?t = ms" by simp
  then show ?thesis using assms(2) by (metis (mono_tags, lifting) imageE image_eqI list.set_map map_idI snd_conv in_set_conv_nth length_map nth_map)
qed

lemma spreadContext_idem: "spreadContext (spreadContext v) = spreadContext v"
proof (induction v rule: spreadContext.induct)
  case (1 ms)
  let ?t = "map (\<lambda>m. (fst m, spreadContext (snd m))) ms"
  have t: "map (\<lambda>m. (fst m, spreadContext (snd m))) T = T" if "\<forall>m \<in> set T. spreadContext (snd m) = snd m" for T
    using that by (auto intro!: map_idI)
  have fixed: "spreadContext (snd m) = snd m" if "m \<in> set ?t" for m using that 1 by auto
  show ?case
  proof (cases "\<exists>ctx. map_of ?t ''context'' = Some (JObj ctx)")
    case True
    then obtain ctx where ctx: "map_of ?t ''context'' = Some (JObj ctx)" by blast
    let ?T = "fold add_missing ctx ?t"
    have "(''context'', JObj ctx) \<in> set ?t" using ctx by (rule map_of_SomeD)
    from fixed [OF this] have "spreadContext (JObj ctx) = JObj ctx" by (simp only: snd_conv)
    then have "\<forall>m \<in> set ?T. spreadContext (snd m) = snd m"
      using fixed spread_fixed_members fold_add_missing_set [of ctx ?t] by blast
    from t [OF this] have T: "map (\<lambda>m. (fst m, spreadContext (snd m))) ?T = ?T" .
    have "map_of ?T ''context'' = Some (JObj ctx)" by (simp only: map_of_add_missing ctx option.case)
    moreover have "fold add_missing ctx ?T = ?T"
    proof (rule fold_add_missing_same, rule ballI)
      fix m assume "m \<in> set ctx"
      then have "map_of ctx (fst m) \<noteq> None" by (auto simp: map_of_eq_None_iff)
      then show "map_of ?T (fst m) \<noteq> None" by (simp only: map_of_add_missing split: option.split) simp
    qed
    ultimately have "spreadContext (JObj ?T) = JObj ?T" by (simp only: spreadContext.simps T Let_def option.case json.case)
    then show ?thesis using ctx by (simp add: Let_def)
  next
    case False
    then have n: "(case map_of ?t ''context'' of Some (JObj ctx) \<Rightarrow> fold add_missing ctx ?t | _ \<Rightarrow> ?t) = ?t"
      by (auto split: option.split json.split)
    have "map (\<lambda>m. (fst m, spreadContext (snd m))) ?t = ?t" by (rule t) (use fixed in blast)
    then show ?thesis using n by (simp only: spreadContext.simps Let_def)
  qed
qed auto

text \<open>What a port is said to carry follows a fixed precedence. With recorded data and a published example at hand, a value of the
  recording is what appears at its path; where the recording says nothing, the value made up from the schema and the edges
  stays; where that is null, the example fills it.\<close>

theorem simulated_data_precedence:
  assumes "map_of (se_runtimeData env) port = Some rb" "rb \<noteq> []" "se_Unmarshal env rb = Inr r" "r \<noteq> JNull" "wf_json r"
    and "map_of (se_portExampleMap env) port = Some eb" "eb \<noteq> []" "se_Unmarshal env eb = Inr ex" "wf_json ex"
    and "leaf v"
  shows "(json_at r p = Some v \<longrightarrow> json_at (overlays env port made) p = Some v) \<and>
    (silent r p \<and> json_at made p = Some v \<longrightarrow> json_at (overlays env port made) p = Some v) \<and>
    (silent r p \<and> json_at made p = Some JNull \<and> json_at ex p = Some v \<longrightarrow> json_at (overlays env port made) p = Some v)"
proof -
  have o: "overlays env port made = spreadContext (mergeOverlay (fillGaps made ex) r)"
    using assms(1-9) by (cases r) (auto simp: overlays_def Let_def neq_Nil_conv)
  have "json_at (overlays env port made) p = Some v" if "json_at (mergeOverlay (fillGaps made ex) r) p = Some v"
    using spreadContext_at [OF that] by (simp add: o spreadContext_leaf assms(10))
  then show ?thesis
    using mergeOverlay_wins [OF assms(5)] mergeOverlay_keeps [OF assms(5)] fillGaps_keeps [OF assms(9)] fillGaps_fills [OF assms(9)] assms(10)
    by metis
qed

definition recorded_env :: sim_env where
  "recorded_env = looped_env
     \<lparr>se_runtimeData := [(''a:out'', ''r'')], se_portExampleMap := [(''a:out'', ''e'')],
      se_Unmarshal := \<lambda>b. Inr (if b = ''r'' then JObj [(''id'', JNum ''7'')] else JObj [(''id'', JNum ''1''), (''name'', JStr ''ann'')])\<rparr>"

theorem simulated_data_precedence_witness:
  "json_at (overlays recorded_env ''a:out'' (JObj [(''id'', JNum ''3''), (''name'', JNull), (''ok'', JBool True)])) [''id''] = Some (JNum ''7'') \<and>
   json_at (overlays recorded_env ''a:out'' (JObj [(''id'', JNum ''3''), (''name'', JNull), (''ok'', JBool True)])) [''ok''] = Some (JBool True) \<and>
   json_at (overlays recorded_env ''a:out'' (JObj [(''id'', JNum ''3''), (''name'', JNull), (''ok'', JBool True)])) [''name''] = Some (JStr ''ann'')"
proof -
  let ?made = "JObj [(''id'', JNum ''3''), (''name'', JNull), (''ok'', JBool True)]"
  have "(json_at (JObj [(''id'', JNum ''7'')]) p = Some v \<longrightarrow> json_at (overlays recorded_env ''a:out'' ?made) p = Some v) \<and>
    (silent (JObj [(''id'', JNum ''7'')]) p \<and> json_at ?made p = Some v \<longrightarrow> json_at (overlays recorded_env ''a:out'' ?made) p = Some v) \<and>
    (silent (JObj [(''id'', JNum ''7'')]) p \<and> json_at ?made p = Some JNull \<and> json_at (JObj [(''id'', JNum ''1''), (''name'', JStr ''ann'')]) p = Some v \<longrightarrow>
      json_at (overlays recorded_env ''a:out'' ?made) p = Some v)" if "leaf v" for v p
    by (rule simulated_data_precedence [where rb = "''r''" and eb = "''e''"]) (simp_all add: recorded_env_def that)
  from this [of "JNum ''7''" "[''id'']"] this [of "JBool True" "[''ok'']"] this [of "JStr ''ann''" "[''name'']"]
  show ?thesis by (simp add: leaf_def)
qed

text \<open>Spreading the context never changes a value that is there, makes every field of the context a field of its parent unless the
  parent has one of that name, and adds nothing when done again.\<close>

theorem context_spread:
  "(json_at v p = Some x \<longrightarrow> json_at (spreadContext v) p = Some (spreadContext x)) \<and>
   (map_of ms ''context'' = Some (JObj ctx) \<longrightarrow> map_of ms k = None \<longrightarrow> map_of ctx k = Some y \<longrightarrow>
      json_at (spreadContext (JObj ms)) [k] = Some (spreadContext y)) \<and>
   spreadContext (spreadContext v) = spreadContext v"
proof (intro conjI impI)
  assume c: "map_of ms ''context'' = Some (JObj ctx)" and k: "map_of ms k = None" and y: "map_of ctx k = Some y"
  from get_key_spread [OF y] obtain ctx' where ctx': "spreadContext (JObj ctx) = JObj ctx'" "map_of ctx' k = Some (spreadContext y)"
    by (auto simp: Let_def)
  with c k show "json_at (spreadContext (JObj ms)) [k] = Some (spreadContext y)"
    by (simp add: Let_def map_of_map_snd map_of_add_missing del: spreadContext.simps(1) add: spreadContext.simps(1) [of ms])
qed (simp_all add: spreadContext_at spreadContext_idem)

theorem context_spread_witness:
  "json_at (spreadContext (JObj [(''context'', JObj [(''ip'', JStr ''::1'')])])) [''ip''] = Some (JStr ''::1'')"
  using context_spread [of JNull "[]" JNull "[(''context'', JObj [(''ip'', JStr ''::1'')])]" "[(''ip'', JStr ''::1'')]" "''ip''" "JStr ''::1''"]
  by simp

end
