(* ===== verification/Import_Validation.thy ===== *)
theory Import_Validation
  imports Graph_Import
begin

section \<open>Validation of an import\<close>

text \<open>
  \<open>src/pkg/utils/import_validation.go\<close>: the errors and the warnings of an export before it is imported, and the
  older log-only checks of \<open>project_export.go\<close>. \<open>title\<close> is the title-casing of an external library. A dash
  and an arrow of the messages are the bytes of their UTF-8 encoding.

  The main result joins the validation with the import of \<open>Graph_Import\<close>: the nodes and the edges of type
  \<open>tinyEdge\<close> of an accepted export all land. The validation also lets elements of type \<open>edge\<close> and elements without
  a type pass, which the import ignores.
\<close>

subsection \<open>Reports\<close>

type_synonym report = "string list \<times> string list"

definition both_reports :: "report \<Rightarrow> report \<Rightarrow> report" where
  "both_reports r r' = (fst r @ fst r', snd r @ snd r')"

definition all_reports :: "report list \<Rightarrow> report" where
  "all_reports rs = (concat (map fst rs), concat (map snd rs))"

definition an_error :: "string \<Rightarrow> report" where "an_error e = ([e], [])"
definition a_warning :: "string \<Rightarrow> report" where "a_warning w = ([], [w])"
definition no_issue :: report where "no_issue = ([], [])"

definition error_if :: "bool \<Rightarrow> string \<Rightarrow> report" where
  "error_if b e = (if b then an_error e else no_issue)"

lemma report_simps [simp]:
  "fst (both_reports r r') = fst r @ fst r'" "fst (all_reports rs) = concat (map fst rs)" "fst (an_error e) = [e]" "fst (a_warning e) = []"
  "fst no_issue = []" "fst (error_if b e) = (if b then [e] else [])"
  by (simp_all add: both_reports_def all_reports_def an_error_def a_warning_def no_issue_def error_if_def)

lemma report_warnings [simp]:
  "snd (both_reports r r') = snd r @ snd r'" "snd (all_reports rs) = concat (map snd rs)" "snd (an_error e) = []" "snd (a_warning e) = [e]"
  "snd no_issue = []" "snd (error_if b e) = []"
  by (simp_all add: both_reports_def all_reports_def an_error_def a_warning_def no_issue_def error_if_def)

definition em_dash :: string where "em_dash = '' '' @ [CHR 0xE2, CHR 0x80, CHR 0x94] @ '' ''"
definition arrow :: string where "arrow = '' '' @ [CHR 0xE2, CHR 0x86, CHR 0x92] @ '' ''"

definition at_index :: "string \<Rightarrow> nat \<Rightarrow> string" where
  "at_index what i = what @ ''['' @ itoa (int i) @ '']''"

definition has_key :: "json gomap \<Rightarrow> string \<Rightarrow> bool" where
  "has_key m k = (map_of m k \<noteq> None)"

text \<open>\<open>s[strings.LastIndex(s, "/")+1:]\<close>, and the last part of a split at the slashes: the same string.\<close>

definition after_slash :: "string \<Rightarrow> string" where
  "after_slash s = (case cut_last (CHR ''/'') s of None \<Rightarrow> s | Some (_, b) \<Rightarrow> b)"

subsection \<open>Expressions\<close>

text \<open>The loop at position \<open>start\<close>; \<open>rest\<close> is the string from there.\<close>

function check_from :: "string \<Rightarrow> nat \<Rightarrow> string \<Rightarrow> report" where
  "check_from pre start rest =
     (case before_str ''{{'' rest of
        None \<Rightarrow> no_issue
      | Some text \<Rightarrow>
        (let body = drop (length text + 2) rest; idx = start + length text
         in case before_str ''}}'' body of
              None \<Rightarrow> an_error (pre @ '': unclosed expression starting at position '' @ itoa (int idx))
            | Some expr \<Rightarrow>
              both_reports (both_reports (error_if (trim_space expr = []) (pre @ '': empty expression {{}}''))
                      (if (CHR 0x27) \<in> set expr
                       then a_warning (pre @ '': expression {{'' @ trim_space expr @ ''}} uses single quotes'' @ em_dash @
                              ''ajson requires double quotes (use '' @ [CHR 0x5C, CHR 0x22] @ '' in JSON)'')
                       else no_issue))
                (check_from pre (idx + 2 + length expr + 2) (drop (length expr + 2) body))))"
  by pat_completeness auto
termination
  by (relation "measure (\<lambda>(_, _, rest). length rest)") (auto dest!: before_str_length)

declare check_from.simps [simp del]

definition checkExpressionSyntax :: "string \<Rightarrow> string \<Rightarrow> report" where
  "checkExpressionSyntax pre s = check_from pre 0 s"

definition passes_context :: "string \<times> json \<Rightarrow> bool" where
  "passes_context m = (fst m = ''context'' \<and> snd m = JStr ''{{$}}'')"

fun validateConfigExpressions :: "string \<Rightarrow> json \<Rightarrow> report" where
  "validateConfigExpressions pre (JObj ms) =
     all_reports (map (\<lambda>m. both_reports
       (if passes_context m
        then a_warning (pre @ '': config.context is '' @ quoted ''{{$}}'' @ em_dash @ ''consider re-assembling context with only needed fields'')
        else no_issue)
       (validateConfigExpressions pre (snd m))) ms)"
| "validateConfigExpressions pre (JStr s) = checkExpressionSyntax pre s"
| "validateConfigExpressions pre (JArr vs) = all_reports (map (validateConfigExpressions pre) vs)"
| "validateConfigExpressions pre _ = no_issue"

subsection \<open>Schemas\<close>

lemma field_size [termination_simp]: "map_of ms k = Some v \<Longrightarrow> size v < Suc (size_list (size_prod (\<lambda>x. 0) size) ms)"
  by (drule map_of_SomeD) (rule json_member_size)

text \<open>Warnings about a definition and the properties nested in it; the argument is the object as a value.\<close>

definition properties_warning :: "string \<Rightarrow> json gomap \<Rightarrow> string list" where
  "properties_warning pre obj =
     (let typ = GetStr (field obj ''type'')
      in if has_key obj ''properties'' \<and> typ \<noteq> ''object''
         then [if typ = []
               then pre @ '': has '' @ quoted ''properties'' @ '' but missing '' @ quoted ''type'' @ '': '' @ quoted ''object'' @ em_dash @
                 ''will render as JSON instead of form fields''
               else pre @ '': has '' @ quoted ''properties'' @ '' but type is '' @ quoted typ @ '', not '' @ quoted ''object'' @ em_dash @
                 ''properties will be ignored'']
         else [])"

definition items_warning :: "string \<Rightarrow> string \<Rightarrow> json gomap \<Rightarrow> string list" where
  "items_warning pre propName propMap =
     (if GetStr (field propMap ''type'') = ''array'' \<and> \<not> has_key propMap ''items''
      then [pre @ '' property '' @ quoted propName @ '': type is '' @ quoted ''array'' @ '' but missing '' @ quoted ''items'' @ em_dash @
              ''generator will produce empty array'']
      else [])"

lemma nested_size:
  assumes "map_of obj k = Some (JObj props)" "(n, v) \<in> set props"
  shows "size v < size (JObj obj)"
  using field_size [OF assms(1)] json_member_size [OF assms(2)] by simp

function findSchemaInconsistencies :: "string \<Rightarrow> json \<Rightarrow> string list" where
  "findSchemaInconsistencies pre (JObj obj) =
     properties_warning pre obj @
     (case map_of obj ''properties'' of
        Some (JObj props) \<Rightarrow>
          concat (map (\<lambda>(propName, propRaw).
            case propRaw of
              JObj propMap \<Rightarrow>
                items_warning pre propName propMap @
                (if GetStr (field propMap ''type'') = ''object'' \<or> field propMap ''properties'' \<noteq> JNull
                 then findSchemaInconsistencies (pre @ ''.'' @ propName) (JObj propMap) else [])
            | _ \<Rightarrow> []) props)
      | _ \<Rightarrow> [])"
| "findSchemaInconsistencies pre JNull = []"
| "findSchemaInconsistencies pre (JBool b) = []"
| "findSchemaInconsistencies pre (JNum n) = []"
| "findSchemaInconsistencies pre (JStr s) = []"
| "findSchemaInconsistencies pre (JArr vs) = []"
  by pat_completeness auto
termination
  by (relation "measure (\<lambda>(_, v). size v)") (auto dest: nested_size)

definition validateSchemaCompleteness :: "(string \<Rightarrow> string) \<Rightarrow> string \<Rightarrow> json \<Rightarrow> report" where
  "validateSchemaCompleteness title pre schemaRaw =
     (case json_object schemaRaw of
        None \<Rightarrow> an_error (pre @ '': schema is not an object'')
      | Some schemaMap \<Rightarrow>
        both_reports (error_if (\<not> has_key schemaMap ''$ref'') (pre @ '': schema missing $ref''))
          (case map_of schemaMap ''$defs'' of
             None \<Rightarrow> an_error (pre @ '': schema missing $defs'')
           | Some defs \<Rightarrow>
             (case json_object defs of
                None \<Rightarrow> an_error (pre @ '': schema $defs is not an object'')
              | Some defsMap \<Rightarrow>
                if defsMap = [] then an_error (pre @ '': schema $defs is empty'')
                else
                  both_reports (all_reports (map (\<lambda>(key, _). error_if (key \<noteq> title key)
                          (pre @ '': $defs key '' @ quoted key @ '' should be '' @ quoted (title key) @ '' (SDK title-cases type names)''))
                        defsMap))
                    (all_reports (map (\<lambda>(defName, defRaw).
                        ([], findSchemaInconsistencies (pre @ '' $defs['' @ defName @ '']'') defRaw)) defsMap)))))"

text \<open>The properties of the type a schema refers to.\<close>

definition root_properties :: "json gomap \<Rightarrow> string \<Rightarrow> json gomap option" where
  "root_properties schemaMap rootTypeName =
     (case json_object (field schemaMap ''$defs'') of
        None \<Rightarrow> None
      | Some defs \<Rightarrow>
        (case json_object (field defs rootTypeName) of
           None \<Rightarrow> None
         | Some rootDef \<Rightarrow> json_object (field rootDef ''properties'')))"

definition validateConfigKeysMatchSchema :: "string \<Rightarrow> json \<Rightarrow> json \<Rightarrow> string list" where
  "validateConfigKeysMatchSchema pre config schemaRaw =
     (case (json_object config, json_object schemaRaw) of
        (Some configMap, Some schemaMap) \<Rightarrow>
          (case json_string (field schemaMap ''$ref'') of
             None \<Rightarrow> []
           | Some ref \<Rightarrow>
             (let refParts = split_char (CHR ''/'') ref
              in if length refParts < 2 then []
                 else
                   (case root_properties schemaMap (last refParts) of
                      None \<Rightarrow> []
                    | Some props \<Rightarrow>
                      concat (map (\<lambda>(key, _).
                        if has_key props key then []
                        else [pre @ '': config key '' @ quoted key @ '' not in schema properties (available: '' @
                                join_str '', '' (sort (map fst props)) @ '')'' @ em_dash @ ''check json struct tags'']) configMap))))
      | _ \<Rightarrow> [])"

text \<open>The definition a property refers to, when it is configurable and has no properties.\<close>

definition bare_definition :: "json gomap \<Rightarrow> json gomap \<Rightarrow> string \<Rightarrow> string option" where
  "bare_definition defs rootProps configKey =
     (case json_object (field rootProps configKey) of
        None \<Rightarrow> None
      | Some propDef \<Rightarrow>
        (case json_string (field propDef ''$ref'') of
           None \<Rightarrow> None
         | Some ref \<Rightarrow>
           (let defName = after_slash ref
            in case json_object (field defs defName) of
                 None \<Rightarrow> None
               | Some def \<Rightarrow>
                 if \<not> GetBool (field def ''configurable'') then None
                 else (case json_object (field def ''properties'') of
                         Some props \<Rightarrow> if props \<noteq> [] then None else Some defName
                       | None \<Rightarrow> Some defName))))"

type_synonym handle_schemas = "json gomap gomap gomap"

definition validateConfigurableFieldSchemas :: "string \<Rightarrow> json \<Rightarrow> string \<Rightarrow> string \<Rightarrow> handle_schemas \<Rightarrow> string list" where
  "validateConfigurableFieldSchemas pre config targetNodeID targetHandleID nodeHandleSchemas =
     (case (json_object config, Option.bind (map_of nodeHandleSchemas targetNodeID) (\<lambda>hs. map_of hs targetHandleID)) of
        (Some configMap, Some schemaMap) \<Rightarrow>
          (case (json_object (field schemaMap ''$defs''), json_string (field schemaMap ''$ref'')) of
             (Some defs, Some rootRef) \<Rightarrow>
               (case root_properties schemaMap (after_slash rootRef) of
                  None \<Rightarrow> []
                | Some rootProps \<Rightarrow>
                  concat (map (\<lambda>(configKey, configVal).
                    case json_object configVal of
                      None \<Rightarrow> []
                    | Some objVal \<Rightarrow>
                      if objVal = [] then []
                      else (case bare_definition defs rootProps configKey of
                              None \<Rightarrow> []
                            | Some defName \<Rightarrow>
                              [pre @ '': edge maps '' @ itoa (int (length objVal)) @ '' fields into '' @ quoted configKey @ '' ($def '' @
                               quoted defName @ '', configurable) but definition has no properties'' @ em_dash @
                               ''add property schema so faker generates correct types (fields: '' @
                               join_str '', '' (sort (map fst objVal)) @ '')''])) configMap))
           | _ \<Rightarrow> [])
      | _ \<Rightarrow> [])"

subsection \<open>Elements and pages\<close>

definition shortID :: "string \<Rightarrow> string \<Rightarrow> string" where
  "shortID nodeID label =
     (if label \<noteq> [] then label
      else (let parts = split_char (CHR ''.'') nodeID in if length parts > 1 then last parts else nodeID))"

definition flow_report :: "string \<Rightarrow> string \<Rightarrow> string list \<Rightarrow> report" where
  "flow_report pre flowName flowSet =
     (if flowName = [] then an_error (pre @ '': missing flow'')
      else error_if (flowName \<notin> set flowSet) (pre @ '': flow '' @ quoted flowName @ '' not in tinyFlows''))"

definition validate_handle :: "(string \<Rightarrow> string) \<Rightarrow> string \<Rightarrow> nat \<Rightarrow> json \<Rightarrow> report" where
  "validate_handle title pre j h =
     (case json_object h of
        None \<Rightarrow> no_issue
      | Some handleMap \<Rightarrow>
        (let hPrefix = pre @ '' handle '' @ quoted (GetStr (field handleMap ''id''))
         in if GetStr (field handleMap ''type'') = ''source''
            then a_warning (hPrefix @ '': source port handle included'' @ em_dash @ ''will be skipped (handle index '' @ itoa (int j) @ '')'')
            else if field handleMap ''schema'' \<noteq> JNull then validateSchemaCompleteness title hPrefix (field handleMap ''schema'')
            else no_issue))"

definition validateImportNode :: "(string \<Rightarrow> string) \<Rightarrow> nat \<Rightarrow> string \<Rightarrow> element \<Rightarrow> string list \<Rightarrow> report" where
  "validateImportNode title index nodeID elem flowSet =
     (let pre = (if nodeID = [] then at_index ''node'' index else ''node '' @ quoted nodeID)
      in both_reports (both_reports (error_if (nodeID = []) (pre @ '': missing id'')) (flow_report pre (GetStr (field elem ''flow'')) flowSet))
           (case json_object (field elem ''data'') of
              None \<Rightarrow> an_error (pre @ '': missing data object'')
            | Some dataMap \<Rightarrow>
              both_reports (both_reports (error_if (GetStr (field dataMap ''component'') = []) (pre @ '': missing data.component''))
                      (error_if (GetStr (field dataMap ''module'') = []) (pre @ '': missing data.module'')))
                (all_reports (map (\<lambda>(j, h). validate_handle title pre j h)
                  (enumerate 0 (case json_array (field dataMap ''handles'') of None \<Rightarrow> [] | Some hs \<Rightarrow> hs))))))"

definition validate_edge_data ::
  "(string \<Rightarrow> string) \<Rightarrow> string \<Rightarrow> json gomap \<Rightarrow> string \<Rightarrow> string \<Rightarrow> handle_schemas \<Rightarrow> report" where
  "validate_edge_data title pre edgeData target targetHandle nodeHandleSchemas =
     (let config = field edgeData ''configuration''; schemaRaw = field edgeData ''schema''
      in both_reports (both_reports
           (if config = JNull
            then a_warning (pre @ '': no data.configuration'' @ em_dash @ ''the target port receives its default value unless the source '' @
                   ''passes through (expected for forwarding/error edges)'')
            else validateConfigExpressions pre config)
           (if schemaRaw = JNull
            then a_warning (pre @ '': no data.schema'' @ em_dash @ ''will be derived from target port at runtime'')
            else both_reports (validateSchemaCompleteness title (pre @ '' schema'') schemaRaw)
                   (if config \<noteq> JNull then (validateConfigKeysMatchSchema pre config schemaRaw, []) else no_issue)))
           (if config \<noteq> JNull \<and> target \<noteq> [] \<and> targetHandle \<noteq> []
            then ([], validateConfigurableFieldSchemas pre config target targetHandle nodeHandleSchemas) else no_issue))"

definition label_of :: "string gomap \<Rightarrow> string \<Rightarrow> string" where
  "label_of labels n = (case map_of labels n of None \<Rightarrow> [] | Some l \<Rightarrow> l)"

definition validateImportEdge ::
  "(string \<Rightarrow> string) \<Rightarrow> nat \<Rightarrow> element \<Rightarrow> string list \<Rightarrow> string list \<Rightarrow> string gomap \<Rightarrow> handle_schemas \<Rightarrow> report" where
  "validateImportEdge title index elem flowSet nodeIDs nodeLabels nodeHandleSchemas =
     (let source = GetStr (field elem ''source''); target = GetStr (field elem ''target'');
          sourceHandle = GetStr (field elem ''sourceHandle''); targetHandle = GetStr (field elem ''targetHandle'');
          pre = ''edge '' @ shortID source (label_of nodeLabels source) @ '':'' @ sourceHandle @ arrow @
                shortID target (label_of nodeLabels target) @ '':'' @ targetHandle
      in all_reports
           [error_if (source = []) (at_index ''edge'' index @ '': missing source''),
            error_if (target = []) (at_index ''edge'' index @ '': missing target''),
            error_if (sourceHandle = []) (pre @ '': missing sourceHandle''),
            error_if (targetHandle = []) (pre @ '': missing targetHandle''),
            error_if (source \<noteq> [] \<and> source \<notin> set nodeIDs) (pre @ '': source node '' @ quoted source @ '' not found in elements''),
            error_if (target \<noteq> [] \<and> target \<notin> set nodeIDs) (pre @ '': target node '' @ quoted target @ '' not found in elements''),
            flow_report pre (GetStr (field elem ''flow'')) flowSet,
            (case json_object (field elem ''data'') of
               None \<Rightarrow> an_error (pre @ '': missing data object'')
             | Some edgeData \<Rightarrow> validate_edge_data title pre edgeData target targetHandle nodeHandleSchemas)])"

definition validate_widget :: "string \<Rightarrow> nat \<Rightarrow> export_widget \<Rightarrow> string list \<Rightarrow> report" where
  "validate_widget pre i widget nodeIDs =
     (let wPrefix = pre @ '' '' @ (if ew_Name widget = [] then at_index ''widget'' i else ''widget '' @ quoted (ew_Name widget))
      in if ew_Port widget = [] then an_error (wPrefix @ '': missing port'')
         else
           (case split_char_n 2 (CHR '':'') (ew_Port widget) of
              [nodeID, portName] \<Rightarrow>
                if nodeID = [] \<or> portName = []
                then an_error (wPrefix @ '': port '' @ quoted (ew_Port widget) @ '' invalid format'' @ em_dash @ ''expected '' @ [CHR 0x27] @ ''nodeId:portName'' @ [CHR 0x27])
                else both_reports (error_if (nodeID \<notin> set nodeIDs) (wPrefix @ '': port references node '' @ quoted nodeID @ '' which is not in elements''))
                       (if ew_SchemaPatch widget \<notin> set [[], ''[]'', ''null'']
                        then a_warning (wPrefix @ '': has schemaPatch'' @ em_dash @
                               ''only include when default _control rendering is incorrect, remove if unnecessary'')
                        else no_issue)
            | _ \<Rightarrow> an_error (wPrefix @ '': port '' @ quoted (ew_Port widget) @ '' invalid format'' @ em_dash @ ''expected '' @ [CHR 0x27] @ ''nodeId:portName'' @ [CHR 0x27])))"

definition validateImportPage :: "nat \<Rightarrow> export_page \<Rightarrow> string list \<Rightarrow> report" where
  "validateImportPage index page nodeIDs =
     (let pre = (if ep_Title page = [] then at_index ''page'' index else ''page '' @ quoted (ep_Title page))
      in all_reports (map (\<lambda>(i, w). validate_widget pre i w nodeIDs) (enumerate 0 (ep_Widgets page))))"

subsection \<open>A project\<close>

definition is_node_type :: "element \<Rightarrow> bool" where
  "is_node_type elem = (GetStr (field elem ''type'') = TinyNodeType)"

definition elem_id :: "element \<Rightarrow> string" where
  "elem_id elem = GetStr (field elem ''id'')"

definition import_nodeIDs :: "element list \<Rightarrow> string list" where
  "import_nodeIDs elements = filter (\<lambda>i. i \<noteq> []) (map elem_id (filter is_node_type elements))"

definition index_labels :: "element \<Rightarrow> string gomap \<Rightarrow> string gomap" where
  "index_labels elem labels =
     (case json_object (field elem ''data'') of
        None \<Rightarrow> labels
      | Some dataMap \<Rightarrow>
        (let label = GetStr (field dataMap ''label'')
         in AList.update (elem_id elem) (if label = [] then GetStr (field dataMap ''component'') else label) labels))"

definition index_handle :: "string \<Rightarrow> json \<Rightarrow> handle_schemas \<Rightarrow> handle_schemas" where
  "index_handle elemID h schemas =
     (case json_object h of
        None \<Rightarrow> schemas
      | Some hMap \<Rightarrow>
        (let hID = GetStr (field hMap ''id'')
         in if hID = [] \<or> GetStr (field hMap ''type'') \<noteq> ''target'' then schemas
            else (case json_object (field hMap ''schema'') of
                    None \<Rightarrow> schemas
                  | Some schemaMap \<Rightarrow>
                    AList.update elemID (AList.update hID schemaMap
                      (case map_of schemas elemID of None \<Rightarrow> [] | Some hs \<Rightarrow> hs)) schemas)))"

definition index_schemas :: "element \<Rightarrow> handle_schemas \<Rightarrow> handle_schemas" where
  "index_schemas elem schemas =
     (case json_object (field elem ''data'') of
        None \<Rightarrow> schemas
      | Some dataMap \<Rightarrow>
        (case json_array (field dataMap ''handles'') of
           None \<Rightarrow> schemas
         | Some handles \<Rightarrow> fold (index_handle (elem_id elem)) handles schemas))"

definition validate_element ::
  "(string \<Rightarrow> string) \<Rightarrow> string list \<Rightarrow> string list \<Rightarrow> string gomap \<Rightarrow> handle_schemas \<Rightarrow> nat \<Rightarrow> element \<Rightarrow> report" where
  "validate_element title flowSet nodeIDs nodeLabels nodeHandleSchemas i elem =
     (let elemType = GetStr (field elem ''type'')
      in if elemType = TinyNodeType then validateImportNode title i (elem_id elem) elem flowSet
         else if elemType = TinyEdgeType \<or> elemType = ''edge''
         then validateImportEdge title i elem flowSet nodeIDs nodeLabels nodeHandleSchemas
         else error_if (elemType \<noteq> []) (at_index ''element'' i @ '' '' @ quoted (elem_id elem) @ '': unknown type '' @ quoted elemType @
                '' (expected '' @ quoted TinyNodeType @ '' or '' @ quoted TinyEdgeType @ '')''))"

definition import_flows :: "project_export \<Rightarrow> string list" where
  "import_flows data = filter (\<lambda>f. f \<noteq> []) (map ef_ResourceName (px_TinyFlows data))"

definition ValidateProjectImport :: "(string \<Rightarrow> string) \<Rightarrow> project_export \<Rightarrow> report" where
  "ValidateProjectImport title data =
     (let flowSet = import_flows data;
          nodes = filter (\<lambda>e. is_node_type e \<and> elem_id e \<noteq> []) (px_Elements data);
          nodeIDs = import_nodeIDs (px_Elements data);
          nodeLabels = fold index_labels nodes [];
          nodeHandleSchemas = fold index_schemas nodes []
      in all_reports
           [all_reports (map (\<lambda>f. error_if (ef_ResourceName f = []) ''flow has empty resourceName'') (px_TinyFlows data)),
            error_if (px_TinyFlows data = []) ''no flows defined in tinyFlows'',
            all_reports (map (\<lambda>(i, elem). validate_element title flowSet nodeIDs nodeLabels nodeHandleSchemas i elem) (enumerate 0 (px_Elements data))),
            all_reports (map (\<lambda>(i, page). validateImportPage i page nodeIDs) (enumerate 0 (px_Pages data)))])"

subsection \<open>What the import needs\<close>

text \<open>An accepted element has what the import reads of it.\<close>

definition node_importable :: "string list \<Rightarrow> element \<Rightarrow> bool" where
  "node_importable flows e =
     (elem_id e \<noteq> [] \<and> GetStr (field e ''flow'') \<noteq> [] \<and> GetStr (field e ''flow'') \<in> set flows \<and>
      (case json_object (field e ''data'') of
         None \<Rightarrow> False
       | Some d \<Rightarrow> GetStr (field d ''component'') \<noteq> [] \<and> GetStr (field d ''module'') \<noteq> []))"

text \<open>The type of edge the import reads.\<close>

definition is_tiny_edge :: "element \<Rightarrow> bool" where
  "is_tiny_edge e = (GetStr (field e ''type'') = TinyEdgeType)"

definition edge_importable :: "string list \<Rightarrow> string list \<Rightarrow> element \<Rightarrow> bool" where
  "edge_importable flows ids e =
     (GetStr (field e ''source'') \<in> set ids \<and> GetStr (field e ''target'') \<in> set ids \<and> GetStr (field e ''sourceHandle'') \<noteq> [] \<and>
      GetStr (field e ''targetHandle'') \<noteq> [] \<and> GetStr (field e ''source'') \<noteq> [] \<and> GetStr (field e ''target'') \<noteq> [] \<and>
      GetStr (field e ''flow'') \<in> set flows)"

lemma accepted_flow: "fst (flow_report pre f flows) = [] \<longleftrightarrow> f \<noteq> [] \<and> f \<in> set flows"
  by (simp add: flow_report_def)

lemma accepted_node:
  "fst (validateImportNode title i (elem_id e) e flows) = [] \<Longrightarrow> node_importable flows e"
  by (auto simp: validateImportNode_def Let_def node_importable_def accepted_flow split: option.splits if_splits)

lemma accepted_edge:
  "fst (validateImportEdge title i e flows ids labels schemas) = [] \<Longrightarrow> edge_importable flows ids e"
  by (auto simp: validateImportEdge_def Let_def edge_importable_def accepted_flow split: if_splits)

lemma accepted_elements:
  assumes "fst (ValidateProjectImport title data) = []" "e \<in> set (px_Elements data)"
  shows "is_node_type e \<Longrightarrow> node_importable (import_flows data) e"
    and "is_tiny_edge e \<Longrightarrow> edge_importable (import_flows data) (import_nodeIDs (px_Elements data)) e"
proof -
  let ?nodes = "filter (\<lambda>e. is_node_type e \<and> elem_id e \<noteq> []) (px_Elements data)"
  obtain i where "(i, e) \<in> set (enumerate 0 (px_Elements data))"
    using assms(2) by (fastforce simp: in_set_conv_nth [of e] in_set_enumerate_eq)
  then have v: "fst (validate_element title (import_flows data) (import_nodeIDs (px_Elements data)) (fold index_labels ?nodes [])
      (fold index_schemas ?nodes []) i e) = []"
    using assms(1) by (auto simp: ValidateProjectImport_def Let_def)
  show "is_node_type e \<Longrightarrow> node_importable (import_flows data) e"
    using v by (auto simp: validate_element_def is_node_type_def Let_def intro: accepted_node)
  have "TinyEdgeType \<noteq> TinyNodeType" by (simp add: TinyEdgeType_def TinyNodeType_def)
  then show "is_tiny_edge e \<Longrightarrow> edge_importable (import_flows data) (import_nodeIDs (px_Elements data)) e"
    using v by (auto simp: validate_element_def is_tiny_edge_def Let_def intro: accepted_edge)
qed

lemma GetStr_eq: "s \<noteq> [] \<Longrightarrow> GetStr v = s \<longleftrightarrow> v = JStr s"
  by (cases v) (auto simp: GetStr_def)

lemma importable_IsNode:
  assumes "is_node_type e \<Longrightarrow> node_importable flows e"
  shows "IsNode e = (if is_node_type e then json_object (field e ''data'') else None)"
  using assms by (cases "field e ''data''") (auto simp: IsNode_def is_node_type_def GetStr_eq TinyNodeType_def node_importable_def)

lemma importable_IsEdge:
  assumes "is_tiny_edge e \<Longrightarrow> edge_importable flows ids e"
  shows "IsEdge e = is_tiny_edge e"
  using assms by (auto simp: IsEdge_def is_tiny_edge_def GetStr_eq TinyEdgeType_def edge_importable_def)

text \<open>What the validation lets pass, and which of it the import ignores.\<close>

lemma accepted_types:
  assumes "fst (ValidateProjectImport title data) = []" "e \<in> set (px_Elements data)"
  shows "is_node_type e \<or> is_tiny_edge e \<or> GetStr (field e ''type'') \<in> {''edge'', []}"
proof -
  let ?nodes = "filter (\<lambda>e. is_node_type e \<and> elem_id e \<noteq> []) (px_Elements data)"
  obtain i where "(i, e) \<in> set (enumerate 0 (px_Elements data))"
    using assms(2) by (fastforce simp: in_set_conv_nth [of e] in_set_enumerate_eq)
  then have "fst (validate_element title (import_flows data) (import_nodeIDs (px_Elements data)) (fold index_labels ?nodes [])
      (fold index_schemas ?nodes []) i e) = []"
    using assms(1) by (auto simp: ValidateProjectImport_def Let_def)
  then show ?thesis
    by (auto simp: validate_element_def is_node_type_def is_tiny_edge_def Let_def split: if_splits)
qed

lemma fold_filter_ignored: "(\<And>x. \<not> P x \<Longrightarrow> f x = id) \<Longrightarrow> fold f (filter P xs) = fold f xs"
  by (induction xs) auto

lemma other_elements_ignored:
  "NodesFromGraphElements num marshal (filter (\<lambda>e. is_node_type e \<or> is_tiny_edge e) es) = NodesFromGraphElements num marshal es"
proof -
  have "IsNode e = None" if "\<not> is_node_type e" for e
    using that by (auto simp: IsNode_def is_node_type_def GetStr_def TinyNodeType_def)
  moreover have "\<not> IsEdge e" if "\<not> is_tiny_edge e" for e
    using that by (auto simp: IsEdge_def is_tiny_edge_def GetStr_def TinyEdgeType_def)
  ultimately show ?thesis
    unfolding NodesFromGraphElements_def
    by (subst fold_filter_ignored, simp add: import_node_def fun_eq_iff, subst fold_filter_ignored, simp_all add: import_edge_def fun_eq_iff)
qed

subsection \<open>The import of what is accepted\<close>

text \<open>The node an element stands for: rebuilt from the element, with the edges that leave it and the mappings that reach it.\<close>

definition landed :: "(string \<Rightarrow> int) \<Rightarrow> (json \<Rightarrow> go_error + bytes) \<Rightarrow> element list \<Rightarrow> element \<Rightarrow> imported_node" where
  "landed num marshal edges e =
     (let data = (case json_object (field e ''data'') of None \<Rightarrow> [] | Some d \<Rightarrow> d);
          n = fst (rebuild_node num marshal (elem_id e) (GetStr (field e ''flow'')) e data)
      in n\<lparr>im_node := (im_node n)
             \<lparr>tn_Edges := map imported_edge (filter (\<lambda>d. is_tiny_edge d \<and> GetStr (field d ''source'') = elem_id e) edges),
              tn_Ports := tn_Ports (im_node n) @
                concat (map (fst \<circ> import_edge_config marshal)
                  (filter (\<lambda>d. is_tiny_edge d \<and> GetStr (field d ''target'') = elem_id e) edges))\<rparr>\<rparr>)"

lemma update_fresh: "k \<notin> fst ` set m \<Longrightarrow> AList.update k v m = m @ [(k, v)]"
  by (induction m) auto

lemma update_keyed:
  assumes "distinct (map f xs)" "x \<in> set xs"
  shows "AList.update (f x) v (map (\<lambda>y. (f y, g y)) xs) = map (\<lambda>y. (f y, if f y = f x then v else g y)) xs"
  using assms by (induction xs) (auto simp: image_iff)

lemma map_of_keyed:
  "distinct (map f xs) \<Longrightarrow> x \<in> set xs \<Longrightarrow> map_of (map (\<lambda>y. (f y, g y)) xs) (f x) = Some (g x)"
  by (induction xs) (auto simp: image_iff)

lemma marshal_member_total: "\<forall>v. \<exists>b. marshal v = Inr b \<Longrightarrow> snd (marshal_member marshal what v) = []"
  by (auto simp: marshal_member_def split: sum.splits) (metis Inl_Inr_False)

lemma import_handle_total: "\<forall>v. \<exists>b. marshal v = Inr b \<Longrightarrow> snd (snd (import_handle num marshal n h)) = []"
  by (simp add: import_handle_def Let_def case_prod_unfold marshal_member_total split: option.split)

lemma rebuild_node_total: "\<forall>v. \<exists>b. marshal v = Inr b \<Longrightarrow> snd (rebuild_node num marshal n f e d) = []"
  by (simp add: rebuild_node_def Let_def import_handle_total)

lemma import_edge_config_total: "\<forall>v. \<exists>b. marshal v = Inr b \<Longrightarrow> snd (import_edge_config marshal e) = []"
  by (simp add: import_edge_config_def Let_def case_prod_unfold marshal_member_total split: option.split)

lemma landed_nil:
  "landed num marshal [] e =
     fst (rebuild_node num marshal (elem_id e) (GetStr (field e ''flow'')) e (case json_object (field e ''data'') of None \<Rightarrow> [] | Some d \<Rightarrow> d))"
  by (simp add: landed_def rebuild_node_def Let_def)

lemma import_nodes:
  assumes "\<forall>v. \<exists>b. marshal v = Inr b" "\<forall>e\<in>set es. is_node_type e \<longrightarrow> node_importable flows e"
    and "distinct (map elem_id (filter is_node_type (ds @ es)))"
  shows "fold (import_node num marshal) es
     \<lparr>gr_nodes = map (\<lambda>e. (elem_id e, landed num marshal [] e)) (filter is_node_type ds), gr_order = map elem_id (filter is_node_type ds), gr_errs = []\<rparr> =
     \<lparr>gr_nodes = map (\<lambda>e. (elem_id e, landed num marshal [] e)) (filter is_node_type (ds @ es)),
      gr_order = map elem_id (filter is_node_type (ds @ es)), gr_errs = []\<rparr>"
  using assms(2,3)
proof (induction es arbitrary: ds)
  case (Cons e es)
  let ?g = "\<lambda>ds. \<lparr>gr_nodes = map (\<lambda>e. (elem_id e, landed num marshal [] e)) (filter is_node_type ds),
      gr_order = map elem_id (filter is_node_type ds), gr_errs = []\<rparr>"
  have N: "IsNode e = (if is_node_type e then json_object (field e ''data'') else None)"
    by (rule importable_IsNode [of _ flows]) (simp add: Cons.prems(1))
  have "import_node num marshal e (?g ds) = ?g (ds @ [e])"
  proof (cases "is_node_type e")
    case True
    then have ok: "node_importable flows e" using Cons.prems(1) by simp
    then obtain d where d: "json_object (field e ''data'') = Some d" by (auto simp: node_importable_def split: option.splits)
    from Cons.prems(2) True have f: "elem_id e \<notin> elem_id ` {x \<in> set ds. is_node_type x}" by auto
    then have "map_of (gr_nodes (?g ds)) (elem_id e) = None" by (auto simp: map_of_eq_None_iff)
    with ok d N True f show ?thesis
      by (auto simp: import_node_def Let_def node_importable_def elem_id_def [symmetric] landed_nil case_prod_unfold rebuild_node_total
          assms(1) update_fresh image_image)
  qed (simp add: import_node_def N)
  moreover have "fold (import_node num marshal) es (?g (ds @ [e])) = ?g ((ds @ [e]) @ es)"
    by (rule Cons.IH) (use Cons.prems in simp_all)
  ultimately show ?case by simp
qed simp

definition imported :: "(string \<Rightarrow> int) \<Rightarrow> (json \<Rightarrow> go_error + bytes) \<Rightarrow> element list \<Rightarrow> element list \<Rightarrow> graph" where
  "imported num marshal es edges =
     \<lparr>gr_nodes = map (\<lambda>e. (elem_id e, landed num marshal edges e)) (filter is_node_type es),
      gr_order = map elem_id (filter is_node_type es), gr_errs = []\<rparr>"

lemma update_node_keyed:
  assumes "distinct (map f xs)" "k \<in> f ` set xs"
  shows "update_node k h \<lparr>gr_nodes = map (\<lambda>y. (f y, g y)) xs, gr_order = os, gr_errs = errs\<rparr> =
    \<lparr>gr_nodes = map (\<lambda>y. (f y, if f y = k then (g y)\<lparr>im_node := h (im_node (g y))\<rparr> else g y)) xs, gr_order = os, gr_errs = errs\<rparr>"
proof -
  from assms(2) obtain x where x: "x \<in> set xs" "k = f x" by auto
  have "f y = f x \<Longrightarrow> y \<in> set xs \<Longrightarrow> y = x" for y using assms(1) x by (auto simp: distinct_map inj_on_def)
  with assms(1) x show ?thesis by (auto simp: update_node_def map_of_keyed update_keyed)
qed

lemma landed_snoc:
  "landed num marshal (edges @ [d]) e =
     (let n = landed num marshal edges e;
          n1 = (if is_tiny_edge d \<and> GetStr (field d ''source'') = elem_id e
                then n\<lparr>im_node := (im_node n)\<lparr>tn_Edges := tn_Edges (im_node n) @ [imported_edge d]\<rparr>\<rparr> else n)
      in if is_tiny_edge d \<and> GetStr (field d ''target'') = elem_id e
         then n1\<lparr>im_node := (im_node n1)\<lparr>tn_Ports := tn_Ports (im_node n1) @ fst (import_edge_config marshal d)\<rparr>\<rparr> else n1)"
  by (simp add: landed_def Let_def)

lemma import_edge_step:
  assumes "\<forall>v. \<exists>b. marshal v = Inr b" "is_tiny_edge d \<longrightarrow> edge_importable flows (map elem_id (filter is_node_type es)) d"
    and "distinct (map elem_id (filter is_node_type es))"
  shows "import_edge marshal d (imported num marshal es edges) = imported num marshal es (edges @ [d])"
proof -
  have E: "IsEdge d = is_tiny_edge d" by (rule importable_IsEdge) (use assms(2) in blast)
  show ?thesis
  proof (cases "is_tiny_edge d")
    case False
    then have "landed num marshal (edges @ [d]) = landed num marshal edges" by (intro ext) (simp add: landed_snoc)
    with False E show ?thesis by (simp add: import_edge_def imported_def)
  next
    case True
    let ?ids = "elem_id ` set (filter is_node_type es)"
    have i: "GetStr (field d ''source'') \<in> ?ids" "GetStr (field d ''target'') \<in> ?ids"
      using assms(2) True by (auto simp: edge_importable_def)
    then have "map_of (gr_nodes (imported num marshal es edges)) (GetStr (field d ''source'')) \<noteq> None"
      "map_of (gr_nodes (imported num marshal es edges)) (GetStr (field d ''target'')) \<noteq> None"
      by (auto simp: imported_def map_of_eq_None_iff image_image)
    with True E show ?thesis
      by (auto simp: import_edge_def Let_def case_prod_unfold import_edge_config_total assms(1,3) imported_def
          update_node_keyed [OF assms(3) i(1)] update_node_keyed [OF assms(3) i(2)] landed_snoc)
  qed
qed

lemma import_edges:
  assumes "\<forall>v. \<exists>b. marshal v = Inr b" "\<forall>d\<in>set ds. is_tiny_edge d \<longrightarrow> edge_importable flows (map elem_id (filter is_node_type es)) d"
    and "distinct (map elem_id (filter is_node_type es))"
  shows "fold (import_edge marshal) ds (imported num marshal es edges) = imported num marshal es (edges @ ds)"
  using assms(2)
proof (induction ds arbitrary: edges)
  case (Cons d ds)
  have "import_edge marshal d (imported num marshal es edges) = imported num marshal es (edges @ [d])"
    by (rule import_edge_step [OF assms(1) _ assms(3), of _ flows]) (use Cons.prems in simp)
  then show ?case using Cons by simp
qed simp

text \<open>C25: the nodes and the \<open>tinyEdge\<close> edges of an export without validation errors all land. When the identifiers of
  its nodes are distinct and the encoder does not fail on decoded values, the import reports no error; the nodes are
  those of the node elements, in their order, each rebuilt from its element with exactly the \<open>tinyEdge\<close> elements that
  name it as source and the mappings of those that name it as target. Each such edge names a source and a
  target that were imported, so none of them is lost, and every node and \<open>tinyEdge\<close> belongs to a flow of the export.
  The other elements that pass the validation, of type \<open>edge\<close> or without a type, are exactly what the import
  ignores: it does the same without them.\<close>

theorem validated_import_lands:
  assumes "fst (ValidateProjectImport title data) = []" "\<forall>v. \<exists>b. marshal v = Inr b"
    and "distinct (import_nodeIDs (px_Elements data))"
  shows "NodesFromGraphElements num marshal (px_Elements data) =
      \<lparr>gr_nodes = map (\<lambda>e. (elem_id e, landed num marshal (px_Elements data) e)) (filter is_node_type (px_Elements data)),
       gr_order = import_nodeIDs (px_Elements data), gr_errs = []\<rparr> \<and>
    (\<forall>e \<in> set (px_Elements data).
       (is_node_type e \<longrightarrow> GetStr (field e ''flow'') \<in> ef_ResourceName ` set (px_TinyFlows data)) \<and>
       (is_tiny_edge e \<longrightarrow> GetStr (field e ''flow'') \<in> ef_ResourceName ` set (px_TinyFlows data) \<and>
          GetStr (field e ''source'') \<in> set (import_nodeIDs (px_Elements data)) \<and>
          GetStr (field e ''target'') \<in> set (import_nodeIDs (px_Elements data))) \<and>
       (is_node_type e \<or> is_tiny_edge e \<or> GetStr (field e ''type'') \<in> {''edge'', []})) \<and>
    NodesFromGraphElements num marshal (filter (\<lambda>e. is_node_type e \<or> is_tiny_edge e) (px_Elements data)) =
      NodesFromGraphElements num marshal (px_Elements data)"
proof -
  let ?es = "px_Elements data"
  note ok = accepted_elements [OF assms(1)]
  have ids: "import_nodeIDs ?es = map elem_id (filter is_node_type ?es)"
    using ok(1) by (auto simp: import_nodeIDs_def filter_id_conv node_importable_def)
  then have d: "distinct (map elem_id (filter is_node_type ?es))" using assms(3) by simp
  have "fold (import_node num marshal) ?es \<lparr>gr_nodes = [], gr_order = [], gr_errs = []\<rparr> = imported num marshal ?es []"
    using import_nodes [OF assms(2), of ?es "import_flows data" "[]"] ok(1) d by (simp add: imported_def)
  moreover have "fold (import_edge marshal) ?es (imported num marshal ?es []) = imported num marshal ?es ([] @ ?es)"
    by (rule import_edges [OF assms(2) _ d, of _ "import_flows data"]) (use ok(2) ids in auto)
  ultimately have "NodesFromGraphElements num marshal ?es = imported num marshal ?es ?es" by (simp add: NodesFromGraphElements_def)
  moreover have "(is_node_type e \<longrightarrow> GetStr (field e ''flow'') \<in> ef_ResourceName ` set (px_TinyFlows data)) \<and>
       (is_tiny_edge e \<longrightarrow> GetStr (field e ''flow'') \<in> ef_ResourceName ` set (px_TinyFlows data) \<and>
          GetStr (field e ''source'') \<in> set (import_nodeIDs ?es) \<and> GetStr (field e ''target'') \<in> set (import_nodeIDs ?es)) \<and>
       (is_node_type e \<or> is_tiny_edge e \<or> GetStr (field e ''type'') \<in> {''edge'', []})"
    if "e \<in> set ?es" for e
    using ok [OF that] accepted_types [OF assms(1) that] by (auto simp: node_importable_def edge_importable_def import_flows_def)
  ultimately show ?thesis by (simp add: imported_def ids other_elements_ignored)
qed

definition sample_export :: project_export where
  "sample_export =
     \<lparr>px_TinyFlows = [\<lparr>ef_ResourceName = ''main'', ef_Name = ''Main''\<rparr>],
      px_Elements =
        [[(''id'', JStr ''a''), (''type'', JStr ''tinyNode''), (''flow'', JStr ''main''),
          (''data'', JObj [(''component'', JStr ''ticker''), (''module'', JStr ''common'')])],
         [(''id'', JStr ''e''), (''type'', JStr ''tinyEdge''), (''flow'', JStr ''main''), (''source'', JStr ''a''), (''target'', JStr ''b''),
          (''sourceHandle'', JStr ''out''), (''targetHandle'', JStr ''in''),
          (''data'', JObj [(''configuration'', JObj [(''x'', JStr ''{{$.y}}'')])])],
         [(''id'', JStr ''b''), (''type'', JStr ''tinyNode''), (''flow'', JStr ''main''),
          (''data'', JObj [(''component'', JStr ''debug''), (''module'', JStr ''common''),
            (''handles'', JArr [JObj [(''id'', JStr ''in''), (''type'', JStr ''target'')]])])]],
      px_Pages = [\<lparr>ep_Name = ''p'', ep_Title = ''P'', ep_Widgets = [\<lparr>ew_Port = ''a:_control'', ew_Name = ''w'', ew_SchemaPatch = []\<rparr>]\<rparr>]\<rparr>"

lemma sample_export_valid:
  "fst (ValidateProjectImport (\<lambda>s. s) sample_export) = []" "distinct (import_nodeIDs (px_Elements sample_export))"
  by code_simp+

theorem validated_import_lands_witness:
  "gr_order (NodesFromGraphElements (\<lambda>_. 0) (\<lambda>_. Inr ''{}'') (px_Elements sample_export)) = [''a'', ''b''] \<and>
   gr_errs (NodesFromGraphElements (\<lambda>_. 0) (\<lambda>_. Inr ''{}'') (px_Elements sample_export)) = []"
proof -
  have "import_nodeIDs (px_Elements sample_export) = [''a'', ''b'']" by code_simp
  with validated_import_lands [OF sample_export_valid(1) _ sample_export_valid(2), of "\<lambda>_. Inr ''{}''" "\<lambda>_. 0"] show ?thesis by simp
qed

end
