(* ===== verification/Edge_Validation.thy ===== *)
theory Edge_Validation
  imports Port_Simulation Import_Validation Redaction
begin

section \<open>Validation of an edge\<close>

text \<open>
  \<open>src/pkg/utils/edge_validation.go\<close>, \<open>settings_validation.go\<close> and \<open>expression.go\<close>: an edge is checked by evaluating its
  configuration against what its source would carry and validating the outcome against the schema of its target.

  The schema library is the record \<open>schema_lib\<close>: it compiles the bytes of a schema, and a compiled schema accepts a value or
  answers with a tree of causes or with another error.
\<close>

datatype validation_error = ValidationError (ve_Instance: string) (ve_Keyword: string) (ve_Message: string) (ve_Causes: "validation_error list")

datatype verdict = Accepted | Rejected validation_error | Failed go_error

record schema_lib =
  sl_AddResource :: "bytes \<Rightarrow> go_error option"
  sl_Compile :: "bytes \<Rightarrow> go_error + (json \<Rightarrow> verdict)"
  sl_Marshal :: "json \<Rightarrow> go_error + bytes"

definition ErrEdgeUnverifiable :: go_error where
  "ErrEdgeUnverifiable = ErrNew ''edge cannot be verified without a scenario''"

definition IsUnverifiable :: "go_error option \<Rightarrow> bool" where
  "IsUnverifiable err = (case err of None \<Rightarrow> False | Some e \<Rightarrow> ErrEdgeUnverifiable \<in> set (err_chain e))"

text \<open>\<open>fmt.Errorf\<close> with the sentinel wrapped in front of a message.\<close>

definition unverifiable :: "string \<Rightarrow> go_error" where
  "unverifiable msg = ForeignError (err_msg ErrEdgeUnverifiable @ '': '' @ msg) None (Some ErrEdgeUnverifiable)"

subsection \<open>Error messages\<close>

definition isUnverifiableEvalError :: "string \<Rightarrow> bool" where
  "isUnverifiableEvalError msg =
     (let lower = to_lower msg
      in contains_str lower ''not parsed yet'' \<or> contains_str lower ''is null'' \<or> contains_str lower ''null value'' \<or>
         contains_str lower ''key not found'' \<or> contains_str lower ''no such key'')"

function leaf_cause :: "validation_error \<Rightarrow> validation_error" where
  "leaf_cause e = (case ve_Causes e of [] \<Rightarrow> e | c # _ \<Rightarrow> leaf_cause c)"
  by pat_completeness auto
termination
proof (relation "measure size")
  fix e c cs assume "ve_Causes e = c # cs"
  then show "(c, e) \<in> measure size" by (cases e) auto
qed simp

declare leaf_cause.simps [simp del]

definition isUnverifiableSchemaError :: "validation_error \<Rightarrow> bool" where
  "isUnverifiableSchemaError e =
     (let msg = to_lower (ve_Message (leaf_cause e))
      in contains_str msg ''got null'' \<or> (contains_str msg ''expected'' \<and> contains_str msg ''null''))"

text \<open>What follows the last occurrence of a pattern.\<close>

fun after_last :: "string \<Rightarrow> string \<Rightarrow> string option" where
  "after_last pat [] = (if pat = [] then Some [] else None)"
| "after_last pat (c # s) =
     (case after_last pat s of
        Some r \<Rightarrow> Some r
      | None \<Rightarrow> if has_prefix (c # s) pat then Some (drop (length pat) (c # s)) else None)"

definition extractDefName :: "string \<Rightarrow> string" where
  "extractDefName keywordLocation =
     (case after_last ''$defs/'' keywordLocation of
        None \<Rightarrow> []
      | Some rest \<Rightarrow> takeWhile (\<lambda>c. c \<noteq> CHR ''/'') rest)"

definition formatValidationError :: "validation_error \<Rightarrow> go_error" where
  "formatValidationError e =
     (let leaf = leaf_cause e; path = (if ve_Instance leaf = [] then ''/'' else ve_Instance leaf); defName = extractDefName (ve_Keyword leaf)
      in if defName \<noteq> [] then ErrNew (path @ '': does not match linked '' @ defName @ '' schema: '' @ ve_Message leaf)
         else ErrNew (path @ '': '' @ ve_Message leaf))"

subsection \<open>The hint\<close>

definition name_start :: "char \<Rightarrow> bool" where
  "name_start c = (is_alnum c \<and> \<not> is_digit c \<or> c = CHR ''_'')"

definition name_char :: "char \<Rightarrow> bool" where
  "name_char c = (is_alnum c \<or> c = CHR ''_'')"

text \<open>One segment of a path at the head of a string: a member or an index.\<close>

definition path_segment :: "string \<Rightarrow> (string \<times> string) option" where
  "path_segment s =
     (case s of
        c # d # r \<Rightarrow>
          if c = CHR ''.'' \<and> name_start d then Some (c # d # takeWhile name_char r, dropWhile name_char r)
          else if c = CHR ''['' \<and> is_digit d
            then (case dropWhile is_digit r of
                    e # t \<Rightarrow> if e = CHR '']'' then Some (c # d # takeWhile is_digit r @ [e], t) else None
                  | [] \<Rightarrow> None)
          else None
      | _ \<Rightarrow> None)"

lemma dropWhile_Cons_length: "dropWhile P r = e # t \<Longrightarrow> length t < length r"
  by (metis length_Cons length_dropWhile_le less_eq_Suc_le)

lemma path_segment_shorter: "path_segment s = Some (m, r) \<Longrightarrow> length r < length s"
  by (auto simp: path_segment_def less_Suc_eq_le length_dropWhile_le le_SucI dest!: dropWhile_Cons_length split: list.splits if_splits)

function path_segments :: "string \<Rightarrow> string \<times> string" where
  "path_segments s =
     (case path_segment s of
        None \<Rightarrow> ([], s)
      | Some (m, r) \<Rightarrow> (case path_segments r of (ms, t) \<Rightarrow> (m @ ms, t)))"
  by pat_completeness auto
termination by (relation "measure length") (auto dest: path_segment_shorter)

declare path_segments.simps [simp del]

lemma path_segments_length: "length (snd (path_segments s)) \<le> length s"
proof (induction s rule: path_segments.induct)
  case (1 s)
  show ?case
  proof (cases "path_segment s")
    case (Some p)
    obtain m r where p: "p = (m, r)" by fastforce
    have "length (snd (path_segments r)) \<le> length r" by (rule 1 [OF Some p [symmetric]])
    with Some p path_segment_shorter [of s m r] show ?thesis by (subst path_segments.simps) (simp add: case_prod_unfold)
  qed (simp add: path_segments.simps)
qed

lemma path_segments_rest: "(ms, t) = path_segments s \<Longrightarrow> length t \<le> length s"
  using path_segments_length [of s] by (metis snd_conv)

function jsonPathRefRe :: "string \<Rightarrow> string list" where
  "jsonPathRefRe [] = []"
| "jsonPathRefRe (c # s) =
     (let (ms, t) = path_segments s
      in if c = CHR ''$'' \<and> ms \<noteq> [] then (c # ms) # jsonPathRefRe t else jsonPathRefRe s)"
  by pat_completeness auto
termination
  by (relation "measure length") (auto simp: less_Suc_eq_le dest!: path_segments_rest)

definition leafFieldName :: "string \<Rightarrow> string" where
  "leafFieldName path =
     (let seg = (case cut_last (CHR ''.'') path of None \<Rightarrow> path | Some (_, b) \<Rightarrow> b)
      in if list_ex (\<lambda>c. c \<in> set ''[]$'') seg then [] else seg)"

text \<open>The walk over the source data; it stops once two hits are known.\<close>

fun find_walk :: "string \<Rightarrow> json \<Rightarrow> string \<Rightarrow> string list \<Rightarrow> string list"
  and find_members :: "string \<Rightarrow> json gomap \<Rightarrow> string \<Rightarrow> string list \<Rightarrow> string list" where
  "find_walk name (JObj ms) path hits = (if length hits > 1 then hits else find_members name ms path hits)"
| "find_walk name (JArr (v # vs)) path hits = (if length hits > 1 then hits else find_walk name v (path @ ''[0]'') hits)"
| "find_walk name (JArr []) path hits = hits"
| "find_walk name JNull path hits = hits"
| "find_walk name (JBool b) path hits = hits"
| "find_walk name (JNum n) path hits = hits"
| "find_walk name (JStr s) path hits = hits"
| "find_members name [] path hits = hits"
| "find_members name ((k, child) # ms) path hits =
     (let cp = path @ ''.'' @ k; hits' = (if k = name then hits @ [''$'' @ cp] else hits)
      in find_members name ms path (find_walk name child cp hits'))"

definition findFieldPath :: "json \<Rightarrow> string \<Rightarrow> string" where
  "findFieldPath root name = (case find_walk name root [] [] of [h] \<Rightarrow> h | _ \<Rightarrow> [])"

definition quote_tick :: string where "quote_tick = [CHR 0x60]"

definition hint_for :: "json \<Rightarrow> string \<Rightarrow> string option" where
  "hint_for root p =
     (let name = leafFieldName p; correct = findFieldPath root name
      in if name \<noteq> [] \<and> correct \<noteq> [] \<and> correct \<noteq> p
         then Some (''field '' @ quote_tick @ name @ quote_tick @ '' is at '' @ quote_tick @ correct @ quote_tick @ '', not '' @
                    quote_tick @ p @ quote_tick)
         else None)"

definition pathHint :: "json \<Rightarrow> string \<Rightarrow> string" where
  "pathHint root errStr = (case first_some (hint_for root) (jsonPathRefRe errStr) of None \<Rightarrow> [] | Some h \<Rightarrow> h)"

subsection \<open>The check\<close>

definition expression_error :: "json \<Rightarrow> bool \<Rightarrow> string \<times> go_error \<Rightarrow> go_error" where
  "expression_error portDataNode sourceHasRealData e =
     (let evalError = ''{{'' @ fst e @ ''}}: '' @ err_msg (snd e); msg = ''expression error: '' @ evalError;
          hint = pathHint portDataNode evalError
      in if sourceHasRealData \<and> hint \<noteq> [] then ErrNew (msg @ em_dash @ hint)
         else if isUnverifiableEvalError evalError then unverifiable msg
         else ErrNew msg)"

definition schema_error :: "verdict \<Rightarrow> go_error option" where
  "schema_error v =
     (case v of
        Accepted \<Rightarrow> None
      | Failed e \<Rightarrow> Some e
      | Rejected e \<Rightarrow>
        Some (if isUnverifiableSchemaError e then unverifiable (err_msg (formatValidationError e)) else formatValidationError e))"

text \<open>The first half of the check compiles the schema of the target, the second evaluates the configuration.\<close>

definition compile_schema :: "schema_lib \<Rightarrow> json \<Rightarrow> go_error + (json \<Rightarrow> verdict)" where
  "compile_schema lib sch =
     (case sl_Marshal lib sch of
        Inl e \<Rightarrow> Inl e
      | Inr b \<Rightarrow>
        (let schemaBytes = (if b = [] then ''{}'' else b)
         in case sl_AddResource lib schemaBytes of
              Some e \<Rightarrow> Inl (ErrNew (''port schema is invalid: '' @ err_msg e))
            | None \<Rightarrow>
              (case sl_Compile lib schemaBytes of
                 Inl e \<Rightarrow> Inl (ErrNew (''schema compile error: '' @ err_msg e))
               | Inr validate \<Rightarrow> Inr validate)))"

definition evaluate_edge :: "sim_env \<Rightarrow> json \<Rightarrow> bytes \<Rightarrow> go_error + json \<times> json \<times> expr_errors" where
  "evaluate_edge env incomingPortData edgeConfiguration =
     (case se_Marshal env incomingPortData of
        Inl e \<Rightarrow> Inl (ErrNew (''unable to marshal simulated port data: '' @ err_msg e))
      | Inr incomingPortBytes \<Rightarrow>
        (case aj_Unmarshal (se_ajson env) incomingPortBytes of
           Inl e \<Rightarrow> Inl (ErrNew (''unable to create ajson node: '' @ err_msg e))
         | Inr portDataNode \<Rightarrow>
           (case Eval (se_ajson env) (sim_callback (se_ajson env) portDataNode) (se_num env)
                   (if edgeConfiguration = [] then ''{}'' else edgeConfiguration) of
              Inl e \<Rightarrow> Inl (ErrNew (''eval error: '' @ err_msg e))
            | Inr (portDataConfig, evalErrors) \<Rightarrow> Inr (portDataNode, portDataConfig, evalErrors))))"

definition ValidateEdgeSchema ::
  "schema_lib \<Rightarrow> sim_env \<Rightarrow> json option \<Rightarrow> json \<Rightarrow> bytes \<Rightarrow> bool \<Rightarrow> go_error option" where
  "ValidateEdgeSchema lib env portSchema incomingPortData edgeConfiguration sourceHasRealData =
     (case portSchema of
        None \<Rightarrow> None
      | Some sch \<Rightarrow>
        (case compile_schema lib sch of
           Inl e \<Rightarrow> Some e
         | Inr validate \<Rightarrow>
           (case evaluate_edge env incomingPortData edgeConfiguration of
              Inl e \<Rightarrow> Some e
            | Inr (portDataNode, portDataConfig, []) \<Rightarrow> schema_error (validate (placeholderForAbsentSecrets portDataConfig))
            | Inr (portDataNode, portDataConfig, e # _) \<Rightarrow> Some (expression_error portDataNode sourceHasRealData e))))"

text \<open>The outer \<open>None\<close> is a simulation that did not finish; the inner one is a valid edge.\<close>

definition ValidateEdgeWithPrecomputedMaps ::
  "schema_lib \<Rightarrow> sim_env \<Rightarrow> 'r generator \<Rightarrow> nat \<Rightarrow> nat \<Rightarrow> string \<Rightarrow> bytes \<Rightarrow> bytes \<Rightarrow> 'r \<Rightarrow> go_error option option" where
  "ValidateEdgeWithPrecomputedMaps lib env gn fuel depth sourcePortFullName edgeConfiguration edgeSchemaBytes rnd =
     (if edgeSchemaBytes = [] then Some None
      else
        (case aj_Unmarshal (se_ajson env) edgeSchemaBytes of
           Inl e \<Rightarrow> Some (Some (ErrNew (''invalid edge schema: '' @ err_msg e)))
         | Inr edgeSchema \<Rightarrow>
           (case SimulatePortDataFromMaps env gn fuel depth sourcePortFullName rnd of
              None \<Rightarrow> None
            | Some (Inl e, _) \<Rightarrow> Some (Some (ErrNew (''cannot get port data: '' @ err_msg e)))
            | Some (Inr portData, _) \<Rightarrow>
              Some (ValidateEdgeSchema lib env (Some edgeSchema) portData edgeConfiguration
                (map_of (se_runtimeData env) sourcePortFullName \<noteq> None)))))"

subsection \<open>Property names\<close>

record property_mismatch =
  pm_DefName :: string
  pm_EdgeKey :: string
  pm_ExpectedKey :: string

definition def_properties :: "json gomap \<Rightarrow> string \<Rightarrow> json gomap option" where
  "def_properties defs defName = Option.bind (map_of defs defName) object_props"

definition closest_key :: "string \<Rightarrow> json gomap \<Rightarrow> string" where
  "closest_key edgeKey targetProps =
     (case find (\<lambda>(k, _). to_lower k = to_lower edgeKey) targetProps of None \<Rightarrow> [] | Some (k, _) \<Rightarrow> k)"

definition def_mismatches :: "json gomap \<Rightarrow> json gomap \<Rightarrow> string \<Rightarrow> property_mismatch list" where
  "def_mismatches edgeDefs targetDefs defName =
     (case (def_properties edgeDefs defName, def_properties targetDefs defName) of
        (Some edgeProps, Some targetProps) \<Rightarrow>
          map (\<lambda>(k, _). \<lparr>pm_DefName = defName, pm_EdgeKey = k, pm_ExpectedKey = closest_key k targetProps\<rparr>)
            (filter (\<lambda>(k, _). \<not> has_key targetProps k) edgeProps)
      | _ \<Rightarrow> [])"

definition CrossValidateEdgeSchemaKeys :: "json option \<Rightarrow> json option \<Rightarrow> property_mismatch list" where
  "CrossValidateEdgeSchemaKeys edgeSchema targetPortSchema =
     (case (edgeSchema, targetPortSchema) of
        (Some e, Some t) \<Rightarrow>
          (case (Option.bind (get_key e ''$defs'') json_object, Option.bind (get_key t ''$defs'') json_object) of
             (Some edgeDefs, Some targetDefs) \<Rightarrow> concat (map (def_mismatches edgeDefs targetDefs \<circ> fst) edgeDefs)
           | _ \<Rightarrow> [])
      | _ \<Rightarrow> [])"

definition ValidateEdgeSchemaKeys :: "(bytes \<Rightarrow> go_error + json) \<Rightarrow> bytes \<Rightarrow> bytes \<Rightarrow> string" where
  "ValidateEdgeSchemaKeys unmarshal edgeSchemaBytes targetPortSchemaBytes =
     (if edgeSchemaBytes = [] \<or> targetPortSchemaBytes = [] then []
      else
        (case (unmarshal edgeSchemaBytes, unmarshal targetPortSchemaBytes) of
           (Inr edgeSchema, Inr targetSchema) \<Rightarrow>
             (case CrossValidateEdgeSchemaKeys (Some edgeSchema) (Some targetSchema) of
                [] \<Rightarrow> []
              | m # _ \<Rightarrow>
                ''property '' @ quoted (pm_EdgeKey m) @ '' in '' @ pm_DefName m @
                (if pm_ExpectedKey m \<noteq> [] then '' does not match target port (expected '' @ quoted (pm_ExpectedKey m) @ '')''
                 else '' does not exist in target port schema'') @ em_dash @ ''value will be lost at runtime'')
         | _ \<Rightarrow> []))"

subsection \<open>Required settings\<close>

fun isBlankValue :: "json \<Rightarrow> bool" where
  "isBlankValue JNull = True"
| "isBlankValue (JStr t) = (trim_space t = [])"
| "isBlankValue (JObj ms) = (ms = [])"
| "isBlankValue (JArr vs) = (vs = [])"
| "isBlankValue _ = False"

definition resolveLocalRef :: "json gomap \<Rightarrow> string \<Rightarrow> json gomap option" where
  "resolveLocalRef root ref =
     (if \<not> has_prefix ref ''#/$defs/'' then None
      else (case json_object (field root ''$defs'') of
              None \<Rightarrow> None
            | Some defs \<Rightarrow> json_object (field defs (trim_prefix ref ''#/$defs/''))))"

definition settingsShape :: "json gomap \<Rightarrow> json gomap \<times> string list" where
  "settingsShape sch =
     (let ref = GetStr (field sch ''$ref'');
          obj = (if ref = [] then sch else (case resolveLocalRef sch ref of None \<Rightarrow> sch | Some o' \<Rightarrow> o'))
      in (case json_object (field obj ''properties'') of None \<Rightarrow> [] | Some props \<Rightarrow> props,
          case json_array (field obj ''required'') of None \<Rightarrow> [] | Some rs \<Rightarrow> List.map_filter json_string rs))"

fun firstNonEmpty :: "string list \<Rightarrow> string" where
  "firstNonEmpty [] = []"
| "firstNonEmpty (v # vs) = (if v \<noteq> [] then v else firstNonEmpty vs)"

definition setting_issue :: "json gomap \<Rightarrow> json gomap \<Rightarrow> json gomap \<Rightarrow> string \<Rightarrow> string option" where
  "setting_issue sch props config name =
     (if equal_fold name ''context'' then None
      else
        (case json_object (field props name) of
           None \<Rightarrow> None
         | Some prop \<Rightarrow>
           (let def = (case resolveLocalRef sch (GetStr (field prop ''$ref'')) of None \<Rightarrow> prop | Some d \<Rightarrow> d)
            in if \<not> GetBool (field def ''configurable'') \<or> \<not> isBlankValue (field config name) then None
               else
                 (let title = firstNonEmpty [GetStr (field def ''title''), GetStr (field prop ''title''), name];
                      d = firstNonEmpty [GetStr (field def ''description''), GetStr (field prop ''description'')]
                  in Some (''REQUIRED SETTING NOT SET: '' @ quote_tick @ title @ quote_tick @ '' on this node has no schema/example.'' @
                       (if d \<noteq> [] then '' '' @ d else []))))))"

definition SettingsIssues :: "(bytes \<Rightarrow> go_error + json) \<Rightarrow> bytes \<Rightarrow> bytes \<Rightarrow> string list" where
  "SettingsIssues unmarshal settingsSchema settingsConfig =
     (if settingsSchema = [] then []
      else
        (case unmarshal settingsSchema of
           Inr (JObj sch) \<Rightarrow>
             (let (props, required) = settingsShape sch;
                  config = (case (if settingsConfig = [] then Inr JNull else unmarshal settingsConfig) of Inr (JObj c) \<Rightarrow> c | _ \<Rightarrow> [])
              in if props = [] then [] else List.map_filter (setting_issue sch props config) required)
         | _ \<Rightarrow> []))"

subsection \<open>Trying an expression\<close>

record run_expression_request =
  rx_Expression :: string
  rx_Data :: string
  rx_Schema :: string

record run_expression_response =
  rr_Result :: string
  rr_ValidSchema :: bool
  rr_ValidationError :: string

definition RunExpression :: "schema_lib \<Rightarrow> ajson \<Rightarrow> run_expression_request \<Rightarrow> go_error + run_expression_response" where
  "RunExpression lib aj req =
     (if rx_Expression req = [] then Inl (ErrNew ''expression is required'')
      else if rx_Data req = [] then Inl (ErrNew ''data is required'')
      else
        (case aj_Unmarshal aj (rx_Data req) of
           Inl e \<Rightarrow> Inl (WrapError ''failed to parse data: '' e)
         | Inr node \<Rightarrow>
           (case aj_Eval aj node (rx_Expression req) of
              Inl e \<Rightarrow> Inl (WrapError ''failed to evaluate expression: '' e)
            | Inr v \<Rightarrow>
              (case sl_Marshal lib v of
                 Inl e \<Rightarrow> Inl (WrapError ''failed to marshal result: '' e)
               | Inr result \<Rightarrow>
                 if rx_Schema req = [] \<or> rx_Schema req = ''{}'' then Inr \<lparr>rr_Result = result, rr_ValidSchema = True, rr_ValidationError = []\<rparr>
                 else
                   (case sl_AddResource lib (rx_Schema req) of
                      Some e \<Rightarrow> Inl (WrapError ''failed to add schema resource: '' e)
                    | None \<Rightarrow>
                      (case sl_Compile lib (rx_Schema req) of
                         Inl e \<Rightarrow> Inl (WrapError ''failed to compile schema: '' e)
                       | Inr validate \<Rightarrow>
                         Inr (case validate v of
                            Accepted \<Rightarrow> \<lparr>rr_Result = result, rr_ValidSchema = True, rr_ValidationError = []\<rparr>
                          | Rejected e \<Rightarrow>
                            \<lparr>rr_Result = result, rr_ValidSchema = False,
                             rr_ValidationError = ve_Keyword (leaf_cause e) @ '' '' @ ve_Message (leaf_cause e)\<rparr>
                          | Failed e \<Rightarrow> \<lparr>rr_Result = result, rr_ValidSchema = False, rr_ValidationError = err_msg e\<rparr>)))))))"

definition PreviewEdgeMapping ::
  "sim_env \<Rightarrow> string \<Rightarrow> string \<Rightarrow> go_error + string \<times> string list" where
  "PreviewEdgeMapping env configuration sourceData =
     (if configuration = [] then Inr (''{}'', [])
      else
        (case (if sourceData = [] then Inr None else map_sum id Some (aj_Unmarshal (se_ajson env) sourceData)) of
           Inl e \<Rightarrow> Inl (WrapError ''failed to parse source data: '' e)
         | Inr sourceNode \<Rightarrow>
           (case Eval (se_ajson env)
                   (\<lambda>expression. case sourceNode of None \<Rightarrow> Inl (ErrNew ''no source data available'') | Some n \<Rightarrow> aj_Eval (se_ajson env) n expression)
                   (se_num env) configuration of
              Inl e \<Rightarrow> Inl (WrapError ''failed to evaluate configuration: '' e)
            | Inr (result, errs) \<Rightarrow>
              (case se_Marshal env result of
                 Inl e \<Rightarrow> Inl (WrapError ''failed to marshal result: '' e)
               | Inr resultJSON \<Rightarrow> Inr (resultJSON, map (\<lambda>(x, e). x @ '': '' @ err_msg e) errs)))))"

subsection \<open>Properties\<close>

text \<open>Every place of a field name in the source data, without stopping early.\<close>

fun occurrences :: "string \<Rightarrow> json \<Rightarrow> string \<Rightarrow> string list" where
  "occurrences name (JObj ms) path =
     concat (map (\<lambda>(k, v). (if k = name then [''$'' @ path @ ''.'' @ k] else []) @ occurrences name v (path @ ''.'' @ k)) ms)"
| "occurrences name (JArr vs) path = (case vs of [] \<Rightarrow> [] | v # _ \<Rightarrow> occurrences name v (path @ ''[0]''))"
| "occurrences name _ path = []"

lemma take2_append: "take 2 xs = take 2 ys \<Longrightarrow> take 2 (xs @ zs) = take 2 (ys @ zs)"
  by (cases xs rule: remdups_adj.cases; cases ys rule: remdups_adj.cases) auto

lemma find_walk_hits:
  "take 2 (find_walk name v path hits) = take 2 (hits @ occurrences name v path)"
  "take 2 (find_members name ms path hits) = take 2 (hits @ occurrences name (JObj ms) path)"
proof (induction name v path hits and name ms path hits rule: find_walk_find_members.induct)
  case (9 name k child ms path hits)
  let ?cp = "path @ ''.'' @ k" and ?hits = "if k = name then hits @ [''$'' @ path @ ''.'' @ k] else hits"
  have "take 2 (find_members name ((k, child) # ms) path hits) = take 2 (find_walk name child ?cp ?hits @ occurrences name (JObj ms) path)"
    using "9.IH"(2) by (simp add: Let_def)
  also have "\<dots> = take 2 ((?hits @ occurrences name child ?cp) @ occurrences name (JObj ms) path)"
    using "9.IH"(1) by (intro take2_append) (simp add: Let_def)
  finally show ?case by (auto simp: Let_def)
qed auto

lemma take2_single: "take 2 xs = take 2 ys \<Longrightarrow> (case xs of [h] \<Rightarrow> h | _ \<Rightarrow> d) = (case ys of [h] \<Rightarrow> h | _ \<Rightarrow> d)"
  by (cases xs rule: remdups_adj.cases; cases ys rule: remdups_adj.cases) auto

text \<open>The path a hint suggests is the only place of the field in the source data: stopping at the second hit gives the answer of the full
  search, which is empty when the field is nowhere or in more than one place.\<close>

theorem field_path_unique:
  "findFieldPath root name = (case occurrences name root [] of [h] \<Rightarrow> h | _ \<Rightarrow> [])"
  unfolding findFieldPath_def using find_walk_hits(1) [of name root "[]" "[]"] by (intro take2_single) simp

lemma expression_error_unverifiable:
  "IsUnverifiable (Some (expression_error node real e)) \<longleftrightarrow>
     isUnverifiableEvalError (''{{'' @ fst e @ ''}}: '' @ err_msg (snd e)) \<and>
     \<not> (real \<and> pathHint node (''{{'' @ fst e @ ''}}: '' @ err_msg (snd e)) \<noteq> [])"
  by (auto simp: expression_error_def Let_def IsUnverifiable_def unverifiable_def ErrEdgeUnverifiable_def)

text \<open>An edge is valid exactly when its schema compiles, its configuration evaluates without any expression error against the source data,
  and the target accepts the outcome with credentials stood in for. An expression error is a failure, softened to "unverifiable" only for
  the messages that tell of a missing value and never when recorded data gives a hint.\<close>

theorem edge_verdict:
  "(ValidateEdgeSchema lib env (Some sch) incoming config real = None \<longleftrightarrow>
     (\<exists>validate node out. compile_schema lib sch = Inr validate \<and> evaluate_edge env incoming config = Inr (node, out, []) \<and>
        validate (placeholderForAbsentSecrets out) = Accepted)) \<and>
   (\<forall>validate node out e errs. compile_schema lib sch = Inr validate \<longrightarrow> evaluate_edge env incoming config = Inr (node, out, e # errs) \<longrightarrow>
      ValidateEdgeSchema lib env (Some sch) incoming config real \<noteq> None \<and>
      (IsUnverifiable (ValidateEdgeSchema lib env (Some sch) incoming config real) \<longleftrightarrow>
         isUnverifiableEvalError (''{{'' @ fst e @ ''}}: '' @ err_msg (snd e)) \<and>
         \<not> (real \<and> pathHint node (''{{'' @ fst e @ ''}}: '' @ err_msg (snd e)) \<noteq> [])))"
proof -
  have accepted: "schema_error v = None \<longleftrightarrow> v = Accepted" for v by (cases v) (simp_all add: schema_error_def)
  have "ValidateEdgeSchema lib env (Some sch) incoming config real = None \<longleftrightarrow>
     (\<exists>validate node out. compile_schema lib sch = Inr validate \<and> evaluate_edge env incoming config = Inr (node, out, []) \<and>
        validate (placeholderForAbsentSecrets out) = Accepted)"
    by (auto simp: ValidateEdgeSchema_def accepted split: sum.split list.split)
  then show ?thesis by (simp add: ValidateEdgeSchema_def expression_error_unverifiable)
qed

definition accepting_lib :: schema_lib where
  "accepting_lib = \<lparr>sl_AddResource = \<lambda>_. None, sl_Compile = \<lambda>_. Inr (\<lambda>_. Accepted), sl_Marshal = \<lambda>_. Inr ''{}''\<rparr>"

theorem edge_verdict_witness:
  "ValidateEdgeSchema accepting_lib looped_env (Some (JObj [])) (JObj []) [] False = None"
proof -
  have "compile_schema accepting_lib (JObj []) = Inr (\<lambda>_. Accepted)" by (simp add: compile_schema_def accepting_lib_def)
  moreover have "evaluate_edge looped_env (JObj []) [] = Inr (JObj [], JObj [], [])" by code_simp
  ultimately show ?thesis using edge_verdict [of accepting_lib looped_env "JObj []" "JObj []" "[]" False] by blast
qed

lemma placeholder_keeps: "json_at v p = Some x \<Longrightarrow> leaf x \<Longrightarrow> json_at (placeholderForAbsentSecrets v) p = Some x"
proof (induction p arbitrary: v)
  case Nil
  then show ?case by (cases x) (auto simp: leaf_def)
next
  case (Cons k p)
  then obtain ms y where v: "v = JObj ms" "map_of ms k = Some y" "json_at y p = Some x"
    by (cases v) (auto simp: get_key_def split: option.splits)
  have "y \<noteq> JNull" using v(3) Cons.prems(2) by (cases p) (auto simp: leaf_def get_key_def)
  moreover have "map_of (map (\<lambda>m. (fst m, if snd m = JNull \<and> secretKeyRe (fst m) then JStr simulatedSecretPlaceholder
      else placeholderForAbsentSecrets (snd m))) ms) k =
    map_option (\<lambda>y. if y = JNull \<and> secretKeyRe k then JStr simulatedSecretPlaceholder else placeholderForAbsentSecrets y) (map_of ms k)"
    by (induction ms) auto
  ultimately show ?case using v Cons by simp
qed

lemma def_mismatches_Nil:
  "def_mismatches ed td n = [] \<longleftrightarrow>
     (\<forall>ep tp k. def_properties ed n = Some ep \<longrightarrow> def_properties td n = Some tp \<longrightarrow> has_key ep k \<longrightarrow> has_key tp k)"
proof (cases "def_properties ed n"; cases "def_properties td n")
  fix ep tp assume p: "def_properties ed n = Some ep" "def_properties td n = Some tp"
  have "filter (\<lambda>(k, _). \<not> has_key tp k) ep = [] \<longleftrightarrow> (\<forall>k \<in> fst ` set ep. has_key tp k)" by (auto simp: filter_empty_conv)
  also have "\<dots> \<longleftrightarrow> (\<forall>k. has_key ep k \<longrightarrow> has_key tp k)" by (simp add: Ball_def has_key_def map_of_eq_None_iff)
  finally show ?thesis by (simp add: def_mismatches_def p)
qed (simp_all add: def_mismatches_def)

text \<open>The check of property names is silent exactly when nothing gets lost: for every definition that edge and target both describe
  with properties, each property of the edge is one of the target.\<close>

theorem edge_keys_checked:
  assumes "eb \<noteq> []" "tb \<noteq> []" "unmarshal eb = Inr e" "unmarshal tb = Inr t"
    and "get_key e ''$defs'' = Some (JObj ed)" "get_key t ''$defs'' = Some (JObj td)"
  shows "ValidateEdgeSchemaKeys unmarshal eb tb = [] \<longleftrightarrow>
    (\<forall>n ep tp k. def_properties ed n = Some ep \<longrightarrow> def_properties td n = Some tp \<longrightarrow> has_key ep k \<longrightarrow> has_key tp k)"
proof -
  have "ValidateEdgeSchemaKeys unmarshal eb tb = [] \<longleftrightarrow> CrossValidateEdgeSchemaKeys (Some e) (Some t) = []"
    using assms(1-4) by (cases "CrossValidateEdgeSchemaKeys (Some e) (Some t)") (simp_all add: ValidateEdgeSchemaKeys_def)
  also have "\<dots> \<longleftrightarrow> (\<forall>n \<in> fst ` set ed. def_mismatches ed td n = [])"
    using assms(5,6) by (simp add: CrossValidateEdgeSchemaKeys_def)
  finally have "ValidateEdgeSchemaKeys unmarshal eb tb = [] \<longleftrightarrow> (\<forall>n \<in> fst ` set ed. def_mismatches ed td n = [])" .
  moreover have "n \<in> fst ` set ed" if "def_properties ed n = Some ep" for n ep
    using that by (force simp: def_properties_def bind_eq_Some_conv dest!: map_of_SomeD)
  ultimately show ?thesis unfolding def_mismatches_Nil by blast
qed

theorem edge_keys_checked_witness:
  "ValidateEdgeSchemaKeys (\<lambda>b. Inr (JObj [(''$defs'', JObj [(''Route'', JObj [(''properties'', JObj [(if b = ''e'' then ''routeName'' else ''route'', JNull)])])])]))
     ''e'' ''t'' \<noteq> []"
proof -
  let ?defs = "\<lambda>k. [(''Route'', JObj [(''properties'', JObj [(k, JNull)])])]"
  have "def_properties (?defs k) ''Route'' = Some [(k, JNull)]" for k by (simp add: def_properties_def object_props_def)
  note p = this
  let ?u = "\<lambda>b. Inr (JObj [(''$defs'', JObj (?defs (if b = ''e'' then ''routeName'' else ''route'')))]) :: go_error + json"
  have "ValidateEdgeSchemaKeys ?u ''e'' ''t'' = [] \<longleftrightarrow>
      (\<forall>n ep tp k. def_properties (?defs ''routeName'') n = Some ep \<longrightarrow> def_properties (?defs ''route'') n = Some tp \<longrightarrow> has_key ep k \<longrightarrow> has_key tp k)"
    by (rule edge_keys_checked [where e = "JObj [(''$defs'', JObj (?defs ''routeName''))]" and t = "JObj [(''$defs'', JObj (?defs ''route''))]"]) simp_all
  moreover have "has_key [(''routeName'', JNull)] ''routeName''" "\<not> has_key [(''route'', JNull)] ''routeName''" by (simp_all add: has_key_def)
  ultimately show ?thesis using p by blast
qed

end
