(* ===== verification/Durable_Run.thy ===== *)
theory Durable_Run
  imports Tiny_Prelude "HOL-Library.Multiset"
begin

unbundle bit_operations_syntax

section \<open>Durable runs, step keys and the step ledger\<close>

text \<open>
  \<open>src/module/run.go\<close>, \<open>src/module/ledger.go\<close> and \<open>src/module/usage.go\<close>: the identity of a
  durable run as it threads through one handler invocation, the idempotency keys of its emits, the
  records the step ledger holds, and the metering sink of a hop. The mutexes of the sources make
  each operation atomic, so an invocation is a sequence of operations on the record. A context is
  the run it carries, if any. Fresh UUIDs are arguments.
\<close>

record emit_record =
  er_To :: string
  er_From :: string
  er_EdgeID :: string
  er_StepKey :: string
  er_Data :: bytes
  er_ReplySubject :: string
  er_ReplyTarget :: string
  er_ReplyDeadline :: int

record run =
  run_RunID :: string
  run_StepKey :: string
  run_ReplySubject :: string
  run_ReplyTarget :: string
  run_ReplyDeadline :: int
  run_seq :: "string \<Rightarrow> nat"
  run_emits :: "emit_record list"

type_synonym run_ctx = "run option"

definition NewRun :: "string \<Rightarrow> string \<Rightarrow> run" where
  "NewRun runID stepKey =
     \<lparr>run_RunID = runID, run_StepKey = stepKey, run_ReplySubject = [], run_ReplyTarget = [],
      run_ReplyDeadline = 0, run_seq = (\<lambda>_. 0), run_emits = []\<rparr>"

definition WithReply :: "run \<Rightarrow> string \<Rightarrow> string \<Rightarrow> int \<Rightarrow> run" where
  "WithReply r subject target deadline =
     r\<lparr>run_ReplySubject := subject, run_ReplyTarget := target, run_ReplyDeadline := deadline\<rparr>"

definition run_IsReplyHop :: "run \<Rightarrow> string \<Rightarrow> bool" where
  "run_IsReplyHop r addr =
     (run_ReplySubject r \<noteq> [] \<and> run_ReplyTarget r \<noteq> [] \<and> addr = run_ReplyTarget r)"

definition MintRun :: "string \<Rightarrow> run" where
  "MintRun uuid = NewRun uuid (uuid @ ''.root'')"

subsection \<open>Step keys\<close>

definition fnv_prime :: "64 word" where "fnv_prime = 1099511628211"
definition fnv_offset :: "64 word" where "fnv_offset = 14695981039346656037"

text \<open>One byte of \<open>hash/fnv\<close>'s 64-bit FNV-1a: exclusive or, then multiply.\<close>

definition fnv_step :: "64 word \<Rightarrow> char \<Rightarrow> 64 word" where
  "fnv_step h c = (h XOR word_of_nat (of_char c)) * fnv_prime"

definition fnv64a :: "string \<Rightarrow> 64 word" where
  "fnv64a s = foldl fnv_step fnv_offset s"

definition step_key :: "string \<Rightarrow> string \<Rightarrow> string \<Rightarrow> nat \<Rightarrow> string" where
  "step_key runID parent edgeID n =
     runID @ ''.'' @ hex16 (fnv64a (parent @ ''|'' @ edgeID @ ''|'' @ nat_dec n))"

definition NextStepKey :: "run \<Rightarrow> string \<Rightarrow> string \<times> run" where
  "NextStepKey r edgeID =
     (let n = run_seq r edgeID
      in (step_key (run_RunID r) (run_StepKey r) edgeID n,
          r\<lparr>run_seq := (run_seq r)(edgeID := n + 1)\<rparr>))"

definition RecordEmit :: "run \<Rightarrow> emit_record \<Rightarrow> run" where
  "RecordEmit r e = r\<lparr>run_emits := run_emits r @ [e]\<rparr>"

definition Emits :: "run \<Rightarrow> emit_record list" where
  "Emits r = run_emits r"

subsection \<open>Runs on contexts\<close>

definition WithRun :: "run_ctx \<Rightarrow> run \<Rightarrow> run_ctx" where
  "WithRun ctx r = Some r"

definition RunFrom :: "run_ctx \<Rightarrow> run option" where
  "RunFrom ctx = ctx"

definition BeginRun :: "string \<Rightarrow> run_ctx \<Rightarrow> run_ctx \<times> string" where
  "BeginRun uuid ctx =
     (case RunFrom ctx of
        Some r \<Rightarrow> (ctx, run_RunID r)
      | None \<Rightarrow> let r = MintRun uuid in (WithRun ctx r, run_RunID r))"

definition BeginRunWithReply ::
  "string \<Rightarrow> run_ctx \<Rightarrow> string \<Rightarrow> string \<Rightarrow> int \<Rightarrow> run_ctx \<times> string" where
  "BeginRunWithReply uuid ctx subject target deadline =
     (case RunFrom ctx of
        Some r \<Rightarrow> (ctx, run_RunID r)
      | None \<Rightarrow> let r = WithReply (MintRun uuid) subject target deadline
                in (WithRun ctx r, run_RunID r))"

definition RunID :: "run_ctx \<Rightarrow> string option" where
  "RunID ctx = map_option run_RunID (RunFrom ctx)"

subsection \<open>Ledger records\<close>

datatype step_status = StepDone | StepFailed

record step_record =
  sr_Node :: string
  sr_Status :: step_status
  sr_Error :: string
  sr_Emits :: "emit_record list"
  sr_StartedAt :: int
  sr_CompletedAt :: int
  sr_DurationMs :: int

definition StepLedgerKey :: "string \<Rightarrow> string" where
  "StepLedgerKey stepKey = ''step/'' @ stepKey"

subsection \<open>Metering\<close>

text \<open>
  The sink of one hop. Amounts are of any type with the operations \<open>float64\<close> has, so nothing is
  assumed of rounding; \<open>None\<close> is the nil map of a sink that was never added to.
\<close>

type_synonym 'n usage_sink = "'n gomap option"

definition usage_add :: "'n::{zero,plus} usage_sink \<Rightarrow> string \<Rightarrow> 'n \<Rightarrow> 'n usage_sink" where
  "usage_add s unit amount =
     (let counts = (case s of None \<Rightarrow> [] | Some m \<Rightarrow> m);
          old = (case map_of counts unit of None \<Rightarrow> 0 | Some a \<Rightarrow> a)
      in Some (AList.update unit (old + amount) counts))"

definition usage_total :: "'n usage_sink \<Rightarrow> 'n gomap option" where
  "usage_total s = (case s of None \<Rightarrow> None | Some m \<Rightarrow> if m = [] then None else Some m)"

definition Meter :: "'n::{zero,plus,ord} usage_sink option \<Rightarrow> string \<Rightarrow> 'n \<Rightarrow> 'n usage_sink option" where
  "Meter ctx unit amount =
     (if unit = [] \<or> amount \<le> 0 then ctx
      else (case ctx of None \<Rightarrow> None | Some s \<Rightarrow> Some (usage_add s unit amount)))"

subsection \<open>Lemmas on the hash\<close>

lemma fnv_prime_invertible: "fnv_prime * 14886173955864302971 = 1"
  by (simp add: fnv_prime_def)

lemma fnv_prime_cancel: "a * fnv_prime = b * fnv_prime \<longleftrightarrow> a = b"
proof
  assume "a * fnv_prime = b * fnv_prime"
  then have "a * fnv_prime * 14886173955864302971 = b * fnv_prime * 14886173955864302971" by simp
  then show "a = b" by (simp only: mult.assoc fnv_prime_invertible mult_1_right)
qed simp

lemma xor_left_cancel: "(a XOR b :: 'a::len word) = a XOR c \<longleftrightarrow> b = c"
  by (metis xor.assoc xor_self_eq xor.left_neutral)

lemma byte_word_inject: "(word_of_nat (of_char c) :: 64 word) = word_of_nat (of_char d) \<longleftrightarrow> c = d"
proof
  assume eq: "(word_of_nat (of_char c) :: 64 word) = word_of_nat (of_char d)"
  have small: "of_char x < (256::nat)" for x :: char by simp
  have "of_char x < (18446744073709551616 :: nat)" for x :: char
    by (rule less_trans [OF small]) simp
  then have "unat (word_of_nat (of_char x) :: 64 word) = of_char x" for x :: char
    by (simp add: unat_of_nat)
  with eq have "(of_char c :: nat) = of_char d" by metis
  then show "c = d" by simp
qed simp

lemma fnv_step_inject_state: "fnv_step h c = fnv_step h' c \<longleftrightarrow> h = h'"
  by (metis fnv_step_def fnv_prime_cancel xor.commute xor_left_cancel)

lemma fnv_step_inject_byte: "fnv_step h c = fnv_step h d \<longleftrightarrow> c = d"
  by (simp add: fnv_step_def fnv_prime_cancel xor_left_cancel byte_word_inject)

lemma foldl_fnv_inject: "foldl fnv_step h s = foldl fnv_step h' s \<longleftrightarrow> h = h'"
  by (induction s arbitrary: h h') (simp_all add: fnv_step_inject_state)

text \<open>Two strings that differ in exactly one byte have different hashes.\<close>

lemma fnv64a_one_byte: "fnv64a (p @ c # s) = fnv64a (p @ d # s) \<longleftrightarrow> c = d"
  by (simp add: fnv64a_def foldl_fnv_inject fnv_step_inject_byte)


lemma hex_digit_inject: "a < 16 \<Longrightarrow> b < 16 \<Longrightarrow> hex_digit a = hex_digit b \<longleftrightarrow> a = b"
  by (auto simp: hex_digit_def split: if_splits)

lemma digits_determine:
  fixes x y :: nat
  shows "(\<And>i. i < n \<Longrightarrow> x div 16 ^ i mod 16 = y div 16 ^ i mod 16) \<Longrightarrow> x mod 16 ^ n = y mod 16 ^ n"
proof (induction n)
  case (Suc n)
  have split: "z mod 16 ^ Suc n = 16 ^ n * (z div 16 ^ n mod 16) + z mod 16 ^ n" for z :: nat
    by (simp only: power_Suc2 mod_mult2_eq)
  have "x mod 16 ^ n = y mod 16 ^ n" by (rule Suc.IH) (simp add: Suc.prems)
  moreover have "x div 16 ^ n mod 16 = y div 16 ^ n mod 16" by (simp add: Suc.prems)
  ultimately show ?case by (simp only: split)
qed simp

lemma hex16_inject [simp]: "hex16 v = hex16 w \<longleftrightarrow> v = w"
proof
  assume eq: "hex16 v = hex16 w"
  have "unat v div 16 ^ i mod 16 = unat w div 16 ^ i mod 16" if "i < 16" for i
  proof -
    have idx: "[0..<16] ! (15 - i) = 15 - i" by (subst nth_upt) auto
    have "hex16 v ! (15 - i) = hex16 w ! (15 - i)" using eq by simp
    then have "hex_digit (unat v div 16 ^ i mod 16) = hex_digit (unat w div 16 ^ i mod 16)"
      using that idx by (simp add: hex16_def)
    then show ?thesis by (simp add: hex_digit_inject)
  qed
  then have "unat v mod 16 ^ 16 = unat w mod 16 ^ 16" by (rule digits_determine)
  moreover have "unat x < 16 ^ 16" for x :: "64 word"
    using unsigned_less [of x] by simp
  ultimately have "unat v = unat w" by (simp del: power_numeral)
  then show "v = w" by (rule unsigned_word_eqI)
qed simp

subsection \<open>Lemmas on runs\<close>

lemma NextStepKey_frame [simp]:
  "run_RunID (snd (NextStepKey r e)) = run_RunID r"
  "run_StepKey (snd (NextStepKey r e)) = run_StepKey r"
  "run_ReplySubject (snd (NextStepKey r e)) = run_ReplySubject r"
  "run_ReplyTarget (snd (NextStepKey r e)) = run_ReplyTarget r"
  "run_ReplyDeadline (snd (NextStepKey r e)) = run_ReplyDeadline r"
  "run_emits (snd (NextStepKey r e)) = run_emits r"
  by (simp_all add: NextStepKey_def Let_def)

lemma NextStepKey_fst: "fst (NextStepKey r e) = step_key (run_RunID r) (run_StepKey r) e (run_seq r e)"
  by (simp add: NextStepKey_def Let_def)

lemma NextStepKey_seq: "run_seq (snd (NextStepKey r e)) = (run_seq r)(e := Suc (run_seq r e))"
  by (simp add: NextStepKey_def Let_def)

lemma RecordEmit_frame [simp]:
  "run_RunID (RecordEmit r x) = run_RunID r" "run_StepKey (RecordEmit r x) = run_StepKey r"
  "run_ReplySubject (RecordEmit r x) = run_ReplySubject r"
  "run_ReplyTarget (RecordEmit r x) = run_ReplyTarget r"
  "run_ReplyDeadline (RecordEmit r x) = run_ReplyDeadline r" "run_seq (RecordEmit r x) = run_seq r"
  "run_emits (RecordEmit r x) = run_emits r @ [x]"
  by (simp_all add: RecordEmit_def)

lemma NewRun_simps [simp]:
  "run_RunID (NewRun i k) = i" "run_StepKey (NewRun i k) = k" "run_ReplySubject (NewRun i k) = []"
  "run_ReplyTarget (NewRun i k) = []" "run_ReplyDeadline (NewRun i k) = 0"
  "run_seq (NewRun i k) = (\<lambda>_. 0)" "run_emits (NewRun i k) = []"
  by (simp_all add: NewRun_def)

lemma length_step_key: "length (step_key i p e n) = length i + 17"
  by (simp add: step_key_def)

text \<open>
  The keys an invocation hands out when its emits are scheduled in the order \<open>es\<close>: each emit names
  its edge and gets the next key of that edge.
\<close>

fun emit_keys :: "run \<Rightarrow> string list \<Rightarrow> (string \<times> string) list" where
  "emit_keys r [] = []"
| "emit_keys r (e # es) = (e, fst (NextStepKey r e)) # emit_keys (snd (NextStepKey r e)) es"

lemma emit_keys_of_edge:
  "map snd (filter (\<lambda>p. fst p = e) (emit_keys r es)) =
     map (step_key (run_RunID r) (run_StepKey r) e) [run_seq r e ..< run_seq r e + count_list es e]"
proof (induction es arbitrary: r)
  case (Cons x es)
  show ?case
  proof (cases "x = e")
    case True
    then show ?thesis
      using Cons.IH [of "snd (NextStepKey r e)"]
      by (simp add: NextStepKey_fst NextStepKey_seq upt_conv_Cons del: upt_Suc)
  next
    case False
    then show ?thesis
      using Cons.IH [of "snd (NextStepKey r x)"] by (simp add: NextStepKey_seq)
  qed
qed simp

lemma nat_dec_single: "n < 10 \<Longrightarrow> nat_dec n = [digit_char n]"
  by (subst nat_dec.simps) simp

lemma step_key_distinct:
  assumes "m < 10" and "n < 10"
  shows "step_key i p e m = step_key i p e n \<longleftrightarrow> m = n"
proof -
  have "digit_char m = digit_char n \<longleftrightarrow> m = n"
    using assms by (metis digit_char_of_char add_left_cancel)
  then show ?thesis
    using assms fnv64a_one_byte [of "p @ CHR ''|'' # e @ ''|''" "digit_char m" "[]" "digit_char n"]
    by (simp add: step_key_def nat_dec_single)
qed

lemma step_keys_distinct: "n \<le> 10 \<Longrightarrow> distinct (map (step_key i p e) [m ..< n])"
  by (auto simp: distinct_map step_key_distinct intro!: inj_onI)

subsection \<open>Properties\<close>

text \<open>C6: step keys do not depend on the scheduling of a fan-out. However the emits of an
  invocation to different edges interleave, the keys one edge receives are, in order, those of the
  ordinals of that edge counted up from the edge's counter (0, 1, 2 and so on in a fresh run), one
  per emit. So two schedules with the same emits per edge give every edge the same keys, and a
  redelivered invocation re-emits identical keys. As long as the ordinals stay below ten the keys
  of an edge are pairwise different.\<close>

theorem step_keys_schedule_independent:
  assumes "mset es = mset es'"
  shows "map snd (filter (\<lambda>p. fst p = e) (emit_keys r es)) =
       map (step_key (run_RunID r) (run_StepKey r) e) [run_seq r e ..< run_seq r e + count_list es e] \<and>
     map snd (filter (\<lambda>p. fst p = e) (emit_keys r es')) =
       map snd (filter (\<lambda>p. fst p = e) (emit_keys r es)) \<and>
     (run_seq r e + count_list es e \<le> 10 \<longrightarrow>
       distinct (map snd (filter (\<lambda>p. fst p = e) (emit_keys r es))))"
proof -
  have "count_list es e = count_list es' e"
    using assms by (metis count_mset)
  then show ?thesis by (simp add: emit_keys_of_edge step_keys_distinct)
qed

theorem step_keys_schedule_independent_witness:
  "mset [''a'', ''b'', ''a''] = mset [''b'', ''a'', ''a''] \<and>
   map snd (filter (\<lambda>p. fst p = ''a'') (emit_keys (MintRun ''r'') [''a'', ''b'', ''a''])) =
     [step_key ''r'' ''r.root'' ''a'' 0, step_key ''r'' ''r.root'' ''a'' 1] \<and>
   map snd (filter (\<lambda>p. fst p = ''a'') (emit_keys (MintRun ''r'') [''b'', ''a'', ''a''])) =
     [step_key ''r'' ''r.root'' ''a'' 0, step_key ''r'' ''r.root'' ''a'' 1] \<and>
   distinct (map snd (filter (\<lambda>p. fst p = ''a'') (emit_keys (MintRun ''r'') [''a'', ''b'', ''a''])))"
proof -
  have h: "mset [''a'', ''b'', ''a''] = mset [''b'', ''a'', ''a'']" by simp
  have run: "run_RunID (MintRun ''r'') = ''r''" "run_StepKey (MintRun ''r'') = ''r.root''"
    "run_seq (MintRun ''r'') ''a'' = 0" by (simp_all add: MintRun_def)
  have keys: "map (step_key ''r'' ''r.root'' ''a'') [0 ..< 0 + count_list [''a'', ''b'', ''a''] ''a''] =
      [step_key ''r'' ''r.root'' ''a'' 0, step_key ''r'' ''r.root'' ''a'' 1]"
    by (simp add: upt_rec)
  have few: "0 + count_list [''a'', ''b'', ''a''] ''a'' \<le> 10" by simp
  note r = step_keys_schedule_independent [OF h, of "''a''" "MintRun ''r''", unfolded run keys]
  show ?thesis using h r few by metis
qed

text \<open>The first ten emits of an invocation over one edge get pairwise different step keys, each
  of the run's identifier, a dot and sixteen hexadecimal digits, whatever the chain depth. The
  broker's de-duplication on the key therefore never merges two of them.\<close>

theorem step_keys_of_one_edge_distinct:
  assumes "count_list es e \<le> 10"
  shows "distinct (map snd (filter (\<lambda>p. fst p = e) (emit_keys (NewRun i k) es))) \<and>
     list_all (\<lambda>key. has_prefix key (i @ ''.'') \<and> length key = length i + 17)
       (map snd (filter (\<lambda>p. fst p = e) (emit_keys (NewRun i k) es)))"
proof -
  have keys: "map snd (filter (\<lambda>p. fst p = e) (emit_keys (NewRun i k) es)) =
      map (step_key i k e) [0 ..< count_list es e]"
    by (simp add: emit_keys_of_edge)
  have "distinct (map (step_key i k e) [0 ..< count_list es e])"
    using assms by (rule step_keys_distinct)
  moreover have "has_prefix (step_key i k e n) (i @ ''.'')" for n
    by (simp add: step_key_def has_prefix_def)
  ultimately show ?thesis
    by (simp add: keys list_all_iff length_step_key)
qed

theorem step_keys_of_one_edge_distinct_witness:
  "count_list [''x'', ''y'', ''x''] ''x'' \<le> 10 \<and>
   distinct (map snd (filter (\<lambda>p. fst p = ''x'') (emit_keys (NewRun ''run'' ''p'') [''x'', ''y'', ''x''])))"
proof -
  have h: "count_list [''x'', ''y'', ''x''] ''x'' \<le> 10" by simp
  show ?thesis using h step_keys_of_one_edge_distinct [OF h, of "''run''" "''p''"] by blast
qed

text \<open>Beginning a run is idempotent. A context that carries a run keeps it unchanged, with its
  reply address, and one that carries none gets a run whose seed step key is its own identifier
  followed by \<open>.root\<close>; either way \<open>RunID\<close> of the new context is the identifier returned.\<close>

theorem BeginRun_idempotent:
  "BeginRun u (fst (BeginRun u' ctx)) = BeginRun u' ctx \<and>
   BeginRunWithReply u (fst (BeginRunWithReply u' ctx s t d)) s2 t2 d2 = BeginRunWithReply u' ctx s t d \<and>
   RunID (fst (BeginRun u ctx)) = Some (snd (BeginRun u ctx)) \<and>
   RunID (fst (BeginRunWithReply u ctx s t d)) = Some (snd (BeginRunWithReply u ctx s t d)) \<and>
   (ctx = None \<longrightarrow> map_option run_StepKey (fst (BeginRun u ctx)) = Some (u @ ''.root''))"
  by (cases ctx)
    (simp_all add: BeginRun_def BeginRunWithReply_def RunID_def RunFrom_def WithRun_def MintRun_def
      WithReply_def Let_def)

theorem BeginRun_idempotent_witness:
  "map_option run_StepKey (fst (BeginRun ''u'' None)) = Some ''u.root''"
  using BeginRun_idempotent [of "''u''" "''v''" None "[]" "[]" 0 "[]" "[]" 0] by simp

lemma Meter_positive:
  "0 < (a::'n::linordered_idom) \<Longrightarrow> u \<noteq> [] \<Longrightarrow> Meter (Some s) u a = Some (usage_add s u a)"
  by (simp add: Meter_def)

end
