(* ===== verification/Edge_Dispatch.thy ===== *)
theory Edge_Dispatch
  imports Error_Contract Durable_Run Node_Model
begin

section \<open>Messages and the dispatch of one edge\<close>

text \<open>
  \<open>src/internal/scheduler/runner/msg.go\<close> and, from \<open>runner.go\<close>, the retry loop of an edge
  (\<open>sendToEdgeWithRetry\<close>, \<open>backoffDelay\<close>) and the fan-out of an emission over its edges.

  The transport is the argument \<open>h\<close>, a function that takes the state of the outside world and a
  message and returns the new state, a reply and an error. Waiting between two attempts is the
  argument \<open>slp\<close>: it returns \<open>None\<close> when the timer fires and the context's error when the
  context is done first. The goroutines of a fan-out run one send each; the sends are executed in
  an order that is an argument, and the facts proved hold for every order. The bookkeeping of cancel
  functions is the list \<open>ds_inflight\<close> of edges that have one.

  A message is a value: the depth that a delivery inside the process writes through the pointer of a message is not seen by a
  later attempt. Nor are the sends of a fan-out interleaved: each is one step of the order.

  The operations of \<open>float64\<close> are an argument of \<open>backoffDelay\<close>, so no property of rounding is used.
\<close>

record 'v msg =
  msg_EdgeID :: string
  msg_From :: string
  msg_To :: string
  msg_Data :: bytes
  msg_Depth :: int
  msg_Mode :: string
  msg_RunID :: string
  msg_StepKey :: string
  msg_ReplySubject :: string
  msg_ReplyTarget :: string
  msg_ReplyDeadline :: int
  msg_Resp :: "'v option"

definition IsReplyHop :: "'v msg \<Rightarrow> bool" where
  "IsReplyHop m = (msg_ReplySubject m \<noteq> [] \<and> msg_ReplyTarget m \<noteq> [] \<and> msg_To m = msg_ReplyTarget m)"

type_synonym ('w, 'v) handler = "'w \<Rightarrow> 'v msg \<Rightarrow> 'w \<times> 'v any \<times> go_error option"
type_synonym 'w sleep = "'w \<Rightarrow> int \<Rightarrow> 'w \<times> go_error option"

record 'w dispatch =
  ds_world :: 'w
  ds_run :: "run option"
  ds_inflight :: "string list"

subsection \<open>Backoff\<close>

record 'f float_ops =
  f_of_int :: "int \<Rightarrow> 'f"
  f_mult :: "'f \<Rightarrow> 'f \<Rightarrow> 'f"
  f_parse :: "string \<Rightarrow> 'f option"
  f_ge_one :: "'f \<Rightarrow> bool"
  f_to_int :: "'f \<Rightarrow> int"

definition second :: int where "second = 10 ^ 9"
definition millisecond :: int where "millisecond = 10 ^ 6"

definition backoff_initial :: "retry_policy option \<Rightarrow> int" where
  "backoff_initial policy = (case policy of
     Some p \<Rightarrow> if rp_InitialDelayMs p > 0 then wrap64 (rp_InitialDelayMs p * millisecond) else second
   | None \<Rightarrow> second)"

definition backoff_max :: "retry_policy option \<Rightarrow> int" where
  "backoff_max policy = (case policy of
     Some p \<Rightarrow> if rp_MaxDelayMs p > 0 then wrap64 (rp_MaxDelayMs p * millisecond) else 30 * second
   | None \<Rightarrow> 30 * second)"

definition backoff_coefficient :: "'f float_ops \<Rightarrow> retry_policy option \<Rightarrow> 'f" where
  "backoff_coefficient F policy = (case policy of
     Some p \<Rightarrow>
       if rp_BackoffCoefficient p \<noteq> [] then
         (case f_parse F (rp_BackoffCoefficient p) of
            Some v \<Rightarrow> if f_ge_one F v then v else f_of_int F 2
          | None \<Rightarrow> f_of_int F 2)
       else f_of_int F 2
   | None \<Rightarrow> f_of_int F 2)"

definition backoffDelay :: "'f float_ops \<Rightarrow> retry_policy option \<Rightarrow> nat \<Rightarrow> int" where
  "backoffDelay F policy attempt =
     (let d = ((\<lambda>x. f_mult F x (backoff_coefficient F policy)) ^^ (attempt - 1))
                (f_of_int F (backoff_initial policy))
      in if f_to_int F d > backoff_max policy then backoff_max policy else f_to_int F d)"

subsection \<open>The retry loop\<close>

definition defaultMaxAttempts :: nat where "defaultMaxAttempts = 3"

definition max_attempts :: "retry_policy option \<Rightarrow> nat" where
  "max_attempts policy = (case policy of
     Some p \<Rightarrow> if rp_MaxAttempts p > 0 then nat (rp_MaxAttempts p) else defaultMaxAttempts
   | None \<Rightarrow> defaultMaxAttempts)"

definition code_blocked :: "retry_policy option \<Rightarrow> go_error \<Rightarrow> bool" where
  "code_blocked policy err =
     (let code = ErrorCode (Some err)
      in code \<noteq> [] \<and> (case policy of Some p \<Rightarrow> list_ex (\<lambda>b. b = code) (rp_NonRetryableErrorCodes p)
                        | None \<Rightarrow> False))"

text \<open>
  The loop from attempt \<open>attempt\<close> on with \<open>left\<close> attempts to go. Besides the world it returns the
  errors of the failed attempts in order, as the log has them, and the outcome.
\<close>

fun retry_loop ::
  "('w, 'v) handler \<Rightarrow> 'w sleep \<Rightarrow> 'f float_ops \<Rightarrow> retry_policy option \<Rightarrow> 'v msg \<Rightarrow> nat \<Rightarrow> nat
     \<Rightarrow> go_error option \<Rightarrow> 'w \<Rightarrow> 'w \<times> go_error list \<times> 'v any \<times> go_error option" where
  "retry_loop h slp F policy m attempt 0 lastErr w = (w, [], ANil, lastErr)"
| "retry_loop h slp F policy m attempt (Suc left) lastErr w =
     (case h w m of
        (w1, res, None) \<Rightarrow> (w1, [], res, None)
      | (w1, res, Some err) \<Rightarrow>
        (if \<not> ShouldRetry (Some err) then (w1, [err], ANil, Some err)
         else if code_blocked policy err then (w1, [err], ANil, Some err)
         else if left = 0 then (w1, [err], ANil, Some err)
         else (case slp w1 (backoffDelay F policy attempt) of
                 (w2, Some e) \<Rightarrow> (w2, [err], ANil, Some e)
               | (w2, None) \<Rightarrow>
                 (let (w3, errs, out) =
                        retry_loop h slp F policy m (Suc attempt) left (Some err) w2
                  in (w3, err # errs, out)))))"

definition edge_msg :: "tiny_edge \<Rightarrow> string \<Rightarrow> string \<Rightarrow> bytes \<Rightarrow> 'v option \<Rightarrow> 'v msg" where
  "edge_msg edge fromPort edgeTo dataBytes resp =
     \<lparr>msg_EdgeID = ed_ID edge, msg_From = fromPort, msg_To = edgeTo, msg_Data = dataBytes, msg_Depth = 0,
      msg_Mode = [], msg_RunID = [], msg_StepKey = [], msg_ReplySubject = [], msg_ReplyTarget = [],
      msg_ReplyDeadline = 0, msg_Resp = resp\<rparr>"

text \<open>Stamping an outgoing hop with the run identity and its idempotency key.\<close>

definition stamp :: "run \<Rightarrow> string \<Rightarrow> 'v msg \<Rightarrow> run \<times> 'v msg" where
  "stamp r edgeID m =
     (let (key, r') = NextStepKey r edgeID
      in (r', m\<lparr>msg_RunID := run_RunID r, msg_StepKey := key, msg_ReplySubject := run_ReplySubject r,
                msg_ReplyTarget := run_ReplyTarget r, msg_ReplyDeadline := run_ReplyDeadline r\<rparr>))"

definition emit_of :: "'v msg \<Rightarrow> emit_record" where
  "emit_of m =
     \<lparr>er_To = msg_To m, er_From = msg_From m, er_EdgeID = msg_EdgeID m, er_StepKey = msg_StepKey m,
      er_Data = msg_Data m, er_ReplySubject = msg_ReplySubject m, er_ReplyTarget = msg_ReplyTarget m,
      er_ReplyDeadline = msg_ReplyDeadline m\<rparr>"

definition sendToEdgeWithRetry ::
  "('w, 'v) handler \<Rightarrow> 'w sleep \<Rightarrow> 'f float_ops \<Rightarrow> tiny_edge \<Rightarrow> string \<Rightarrow> string \<Rightarrow> bytes
     \<Rightarrow> 'v option \<Rightarrow> 'w dispatch \<Rightarrow> 'w dispatch \<times> 'v any \<times> go_error option" where
  "sendToEdgeWithRetry h slp F edge fromPort edgeTo dataBytes resp d =
     (let inflight = (if ed_ID edge \<noteq> [] then List.insert (ed_ID edge) (ds_inflight d) else ds_inflight d);
          policy = ed_RetryPolicy edge;
          m0 = edge_msg edge fromPort edgeTo dataBytes resp;
          (run1, m) = (case ds_run d of
             None \<Rightarrow> (None, m0)
           | Some r \<Rightarrow> let (r', m') = stamp r (ed_ID edge) m0 in (Some r', m'));
          (w, errs, res, err) = retry_loop h slp F policy m 1 (max_attempts policy) None (ds_world d);
          run2 = (if err = None then map_option (\<lambda>r. RecordEmit r (emit_of m)) run1 else run1);
          done = (if ed_ID edge \<noteq> [] then removeAll (ed_ID edge) inflight else inflight)
      in (\<lparr>ds_world = w, ds_run = run2, ds_inflight = done\<rparr>, if err = None then res else ANil, err))"

subsection \<open>Fan-out\<close>

text \<open>Unique destinations: the first edge of each concatenation of port and target.\<close>

fun unique_edges :: "string list \<Rightarrow> tiny_edge list \<Rightarrow> tiny_edge list" where
  "unique_edges seen [] = []"
| "unique_edges seen (e # es) =
     (if (ed_Port e @ ed_To e) \<in> set seen then unique_edges seen es
      else e # unique_edges ((ed_Port e @ ed_To e) # seen) es)"

text \<open>The sends of the goroutines, in the order they are scheduled, collecting results and errors.\<close>

fun fan_out ::
  "('w, 'v) handler \<Rightarrow> 'w sleep \<Rightarrow> 'f float_ops \<Rightarrow> ('v \<Rightarrow> bool) \<Rightarrow> string \<Rightarrow> bytes \<Rightarrow> 'v option
     \<Rightarrow> tiny_edge list \<Rightarrow> 'w dispatch \<Rightarrow> 'w dispatch \<times> 'v any list \<times> go_error list" where
  "fan_out h slp F isnil fromPort dataBytes resp [] d = (d, [], [])"
| "fan_out h slp F isnil fromPort dataBytes resp (e # es) d =
     (let (d1, res, err) = sendToEdgeWithRetry h slp F e fromPort (ed_To e) dataBytes resp d;
          (d2, results, errors) = fan_out h slp F isnil fromPort dataBytes resp es d1
      in (d2,
          (if err = None \<and> (case res of ANil \<Rightarrow> False | AVal v \<Rightarrow> \<not> isnil v | AErr e \<Rightarrow> True)
           then res # results else results),
          (case err of Some x \<Rightarrow> x # errors | None \<Rightarrow> errors)))"

definition fan_in :: "'v any list \<Rightarrow> go_error list \<Rightarrow> 'v any \<times> go_error option" where
  "fan_in results errors =
     (case results of
        r # _ \<Rightarrow> (r, None)
      | [] \<Rightarrow> (case errors of e # _ \<Rightarrow> (ANil, Some e) | [] \<Rightarrow> (ANil, None)))"

subsection \<open>Lemmas on the retry loop\<close>

text \<open>
  An observed transport: the world carries a log of every message handed to the transport and the
  error it answered.
\<close>

definition observed :: "('w, 'v) handler \<Rightarrow> (('v msg \<times> go_error option) list \<times> 'w, 'v) handler" where
  "observed h = (\<lambda>(log, w) m. let (w', res, err) = h w m in ((log @ [(m, err)], w'), res, err))"

definition unobserved :: "'w sleep \<Rightarrow> ('l \<times> 'w) sleep" where
  "unobserved slp = (\<lambda>(log, w) d. let (w', e) = slp w d in ((log, w'), e))"

definition retried :: "retry_policy option \<Rightarrow> go_error \<Rightarrow> bool" where
  "retried policy e = (ShouldRetry (Some e) \<and> \<not> code_blocked policy e)"

text \<open>What a log of attempts looks like: one message, every failure but the last retried.\<close>

definition attempts_of ::
  "retry_policy option \<Rightarrow> 'v msg \<Rightarrow> go_error option \<Rightarrow> ('v msg \<times> go_error option) list \<Rightarrow> bool" where
  "attempts_of policy m err es =
     (es \<noteq> [] \<and> list_all (\<lambda>a. fst a = m) es \<and>
      list_all (\<lambda>a. case snd a of Some e \<Rightarrow> retried policy e | None \<Rightarrow> False) (butlast es) \<and>
      (err = None \<longleftrightarrow> snd (last es) = None))"

lemma attempts_of_Cons:
  "attempts_of policy m err es \<Longrightarrow> retried policy e \<Longrightarrow> attempts_of policy m err ((m, Some e) # es)"
  by (simp add: attempts_of_def)

lemma attempts_of_single: "(err = None \<longleftrightarrow> e = None) \<Longrightarrow> attempts_of policy m err [(m, e)]"
  by (simp add: attempts_of_def)

lemma retry_loop_again:
  assumes "h w m = (w1, r, Some e)" "retried policy e" "slp w1 (backoffDelay F policy attempt) = (w2, None)"
  shows "retry_loop h slp F policy m attempt (Suc (Suc left)) lastErr w =
     (let (w3, errs, out) = retry_loop h slp F policy m (Suc attempt) (Suc left) (Some e) w2
      in (w3, e # errs, out))"
  using assms by (simp add: retried_def del: retry_loop.simps(2))
    (subst retry_loop.simps(2), simp add: retried_def del: retry_loop.simps(2))

lemma retry_loop_attempts:
  "retry_loop (observed h) (unobserved slp) F policy m attempt (Suc left) lastErr (log, w) =
     ((log', w'), errs, res, err) \<Longrightarrow>
   \<exists>es. log' = log @ es \<and> attempts_of policy m err es \<and> length es \<le> Suc left"
proof (induction left arbitrary: attempt lastErr log w errs)
  case 0
  obtain w1 r1 e1 where h: "h w m = (w1, r1, e1)" by (cases "h w m") auto
  have "log' = log @ [(m, e1)] \<and> (err = None \<longleftrightarrow> e1 = None)"
    using 0 h by (auto simp: observed_def split: option.splits if_splits)
  then show ?case using attempts_of_single by (metis One_nat_def length_Cons list.size(3) order_refl)
next
  case (Suc left)
  obtain w1 r1 e1 where h: "h w m = (w1, r1, e1)" by (cases "h w m") auto
  show ?case
  proof (cases "\<exists>e. e1 = Some e \<and> retried policy e")
    case False
    then have "log' = log @ [(m, e1)] \<and> (err = None \<longleftrightarrow> e1 = None)"
      using Suc.prems h by (auto simp: observed_def retried_def split: option.splits if_splits)
    then show ?thesis using attempts_of_single
      by (metis One_nat_def Suc_le_mono length_Cons list.size(3) zero_le)
  next
    case True
    then obtain e where e: "e1 = Some e" "retried policy e" by blast
    obtain w2 se where s: "slp w1 (backoffDelay F policy attempt) = (w2, se)" by fastforce
    show ?thesis
    proof (cases se)
      case (Some x)
      then have "log' = log @ [(m, Some e)] \<and> err = Some x"
        using Suc.prems h e s by (auto simp: observed_def unobserved_def retried_def)
      then show ?thesis using attempts_of_single [of err "Some e"]
        by (metis One_nat_def Suc_le_mono length_Cons list.size(3) option.discI zero_le)
    next
      case None
      have "observed h (log, w) m = ((log @ [(m, Some e)], w1), r1, Some e)"
        "unobserved slp (log @ [(m, Some e)], w1) (backoffDelay F policy attempt) =
          ((log @ [(m, Some e)], w2), None)"
        using h e s None by (simp_all add: observed_def unobserved_def)
      note retry_loop_again [where h = "observed h" and slp = "unobserved slp" and w = "(log, w)"
          and F = F and left = left and lastErr = lastErr, OF this(1) e(2) this(2)]
      then obtain errs' where "retry_loop (observed h) (unobserved slp) F policy m (Suc attempt) (Suc left)
          (Some e) (log @ [(m, Some e)], w2) = ((log', w'), errs', res, err)"
        using Suc.prems by (auto simp: case_prod_unfold Let_def prod_eq_iff simp del: retry_loop.simps(2))
      from Suc.IH [OF this] obtain es where es: "log' = (log @ [(m, Some e)]) @ es"
        "attempts_of policy m err es" "length es \<le> Suc left" by blast
      show ?thesis
        by (rule exI [of _ "(m, Some e) # es"]) (use es e(2) attempts_of_Cons in auto)
    qed
  qed
qed

lemma max_attempts_pos: "\<exists>n. max_attempts policy = Suc n"
proof -
  have "0 < max_attempts policy"
    by (auto simp: max_attempts_def defaultMaxAttempts_def split: option.splits)
  then show ?thesis by (simp add: gr0_conv_Suc)
qed

subsection \<open>Lemmas on sending and fanning out\<close>

text \<open>The message that goes out on an edge in a given run context, and the run after stamping.\<close>

definition outgoing ::
  "run option \<Rightarrow> tiny_edge \<Rightarrow> string \<Rightarrow> string \<Rightarrow> bytes \<Rightarrow> 'v option \<Rightarrow> 'v msg" where
  "outgoing r edge fromPort edgeTo dataBytes resp =
     (let m0 = edge_msg edge fromPort edgeTo dataBytes resp
      in case r of None \<Rightarrow> m0 | Some r \<Rightarrow> snd (stamp r (ed_ID edge) m0))"

lemma outgoing_fields:
  "msg_To (outgoing r e f t b p) = t" "msg_From (outgoing r e f t b p) = f"
  "msg_EdgeID (outgoing r e f t b p) = ed_ID e" "msg_Data (outgoing r e f t b p) = b"
  by (auto simp: outgoing_def edge_msg_def stamp_def case_prod_unfold Let_def split: option.splits)

lemma outgoing_run_fields:
  "msg_RunID (outgoing (Some r) e f t b p) = run_RunID r"
  "msg_StepKey (outgoing (Some r) e f t b p) = fst (NextStepKey r (ed_ID e))"
  "msg_ReplySubject (outgoing (Some r) e f t b p) = run_ReplySubject r"
  "msg_ReplyTarget (outgoing (Some r) e f t b p) = run_ReplyTarget r"
  "msg_ReplyDeadline (outgoing (Some r) e f t b p) = run_ReplyDeadline r"
  by (simp_all add: outgoing_def stamp_def case_prod_unfold Let_def)

lemma stamp_run: "fst (stamp r i m) = snd (NextStepKey r i)"
  by (simp add: stamp_def case_prod_unfold Let_def)

lemma removeAll_insert: "removeAll x (List.insert x xs) = removeAll x xs"
  by (simp add: List.insert_def)

text \<open>A send is the retry loop on one message, and a record of the hop if it got through.\<close>

lemma sendToEdge_conv:
  "sendToEdgeWithRetry h slp F edge fromPort edgeTo dataBytes resp d =
     (let m = outgoing (ds_run d) edge fromPort edgeTo dataBytes resp;
          (w, errs, res, err) = retry_loop h slp F (ed_RetryPolicy edge) m 1
             (max_attempts (ed_RetryPolicy edge)) None (ds_world d)
      in (\<lparr>ds_world = w,
           ds_run = map_option (\<lambda>r. let r' = snd (NextStepKey r (ed_ID edge))
              in if err = None then RecordEmit r' (emit_of m) else r') (ds_run d),
           ds_inflight = (if ed_ID edge \<noteq> [] then removeAll (ed_ID edge) (ds_inflight d) else ds_inflight d)\<rparr>,
          if err = None then res else ANil, err))"
  by (auto simp: sendToEdgeWithRetry_def outgoing_def stamp_run case_prod_unfold Let_def option.map_comp
      comp_def removeAll_insert split: option.splits)

lemma sendToEdge_run:
  assumes "retry_loop h slp F (ed_RetryPolicy edge) (outgoing (Some r) edge fromPort edgeTo b p) 1
      (max_attempts (ed_RetryPolicy edge)) None (ds_world d) = (w, errs, res, err)"
    and "ds_run d = Some r"
  shows "sendToEdgeWithRetry h slp F edge fromPort edgeTo b p d =
     (\<lparr>ds_world = w,
       ds_run = Some (if err = None
          then RecordEmit (snd (NextStepKey r (ed_ID edge))) (emit_of (outgoing (Some r) edge fromPort edgeTo b p))
          else snd (NextStepKey r (ed_ID edge))),
       ds_inflight = (if ed_ID edge \<noteq> [] then removeAll (ed_ID edge) (ds_inflight d) else ds_inflight d)\<rparr>,
      if err = None then res else ANil, err)"
  unfolding sendToEdge_conv assms(2) Let_def assms(1) by simp

lemma RecordEmit_NextStepKey:
  "RecordEmit (snd (NextStepKey r i)) x =
     r\<lparr>run_seq := (run_seq r)(i := run_seq r i + 1), run_emits := run_emits r @ [x]\<rparr>"
  by (simp add: NextStepKey_def RecordEmit_def Let_def)

lemma snd_NextStepKey:
  "snd (NextStepKey r i) = r\<lparr>run_seq := (run_seq r)(i := run_seq r i + 1), run_emits := run_emits r @ []\<rparr>"
  by (simp add: NextStepKey_def Let_def)

text \<open>A transport that accepts every message.\<close>

definition reliable :: "('w, 'v) handler \<Rightarrow> bool" where
  "reliable h = (\<forall>w m. snd (snd (h w m)) = None)"

lemma retry_loop_reliable:
  "reliable h \<Longrightarrow> retry_loop h slp F policy m attempt (Suc left) lastErr w =
     (fst (h w m), [], fst (snd (h w m)), None)"
proof -
  assume "reliable h"
  then have "snd (snd (h w m)) = None" by (simp add: reliable_def)
  then show ?thesis by (cases "h w m") simp
qed

lemma send_reliable:
  assumes "reliable h" "ds_run d = Some r"
  shows "ds_run (fst (sendToEdgeWithRetry h slp F edge fromPort edgeTo b p d)) =
     Some (RecordEmit (snd (NextStepKey r (ed_ID edge))) (emit_of (outgoing (Some r) edge fromPort edgeTo b p)))"
    and "snd (snd (sendToEdgeWithRetry h slp F edge fromPort edgeTo b p d)) = None"
proof -
  obtain n where n: "max_attempts (ed_RetryPolicy edge) = Suc n" using max_attempts_pos by blast
  show "ds_run (fst (sendToEdgeWithRetry h slp F edge fromPort edgeTo b p d)) =
     Some (RecordEmit (snd (NextStepKey r (ed_ID edge))) (emit_of (outgoing (Some r) edge fromPort edgeTo b p)))"
    "snd (snd (sendToEdgeWithRetry h slp F edge fromPort edgeTo b p d)) = None"
    unfolding sendToEdge_conv n retry_loop_reliable [OF assms(1)] by (simp_all add: assms(2) Let_def)
qed

lemma RecordEmit_simps [simp]:
  "run_emits (RecordEmit r e) = run_emits r @ [e]" "run_seq (RecordEmit r e) = run_seq r"
  "run_RunID (RecordEmit r e) = run_RunID r" "run_StepKey (RecordEmit r e) = run_StepKey r"
  "run_ReplySubject (RecordEmit r e) = run_ReplySubject r"
  "run_ReplyTarget (RecordEmit r e) = run_ReplyTarget r"
  "run_ReplyDeadline (RecordEmit r e) = run_ReplyDeadline r"
  by (simp_all add: RecordEmit_def)

lemma outgoing_other_edge:
  assumes "ed_ID e' \<noteq> i" "r' = RecordEmit (snd (NextStepKey r i)) x"
  shows "outgoing (Some r') e' f t b p = outgoing (Some r) e' f t b p"
  using assms by (simp add: outgoing_def stamp_def NextStepKey_def Let_def)

lemma fan_out_reliable_emits:
  "reliable h \<Longrightarrow> ds_run d = Some r \<Longrightarrow> distinct (map ed_ID es) \<Longrightarrow>
   \<exists>r'. ds_run (fst (fan_out h slp F isnil f b p es d)) = Some r' \<and>
     run_emits r' = run_emits r @ map (\<lambda>e. emit_of (outgoing (Some r) e f (ed_To e) b p)) es"
proof (induction es arbitrary: d r)
  case (Cons e es)
  define d1 where "d1 = fst (sendToEdgeWithRetry h slp F e f (ed_To e) b p d)"
  define r1 where "r1 = RecordEmit (snd (NextStepKey r (ed_ID e))) (emit_of (outgoing (Some r) e f (ed_To e) b p))"
  have d1: "ds_run d1 = Some r1" unfolding d1_def r1_def by (rule send_reliable(1) [OF Cons.prems(1,2)])
  have tail: "fst (fan_out h slp F isnil f b p (e # es) d) = fst (fan_out h slp F isnil f b p es d1)"
    by (simp add: d1_def case_prod_unfold Let_def)
  obtain r' where r': "ds_run (fst (fan_out h slp F isnil f b p es d1)) = Some r'"
    "run_emits r' = run_emits r1 @ map (\<lambda>e. emit_of (outgoing (Some r1) e f (ed_To e) b p)) es"
    using Cons.IH [OF Cons.prems(1) d1] Cons.prems(3) by auto
  have "outgoing (Some r1) x f (ed_To x) b p = outgoing (Some r) x f (ed_To x) b p" if "x \<in> set es" for x
    using that Cons.prems(3) by (intro outgoing_other_edge [OF _ r1_def]) (auto simp: image_iff)
  then have "map (\<lambda>e. emit_of (outgoing (Some r1) e f (ed_To e) b p)) es =
      map (\<lambda>e. emit_of (outgoing (Some r) e f (ed_To e) b p)) es" by simp
  then show ?case using r' tail by (simp add: r1_def)
qed simp

lemma unique_edges_keys:
  "distinct (map (\<lambda>e. ed_Port e @ ed_To e) (unique_edges seen es)) \<and>
   (\<lambda>e. ed_Port e @ ed_To e) ` set (unique_edges seen es) =
     (\<lambda>e. ed_Port e @ ed_To e) ` set es - set seen \<and>
   subseq (unique_edges seen es) es"
  by (induction seen es rule: unique_edges.induct) (auto simp: image_iff)

subsection \<open>Lemmas on the backoff\<close>

text \<open>
  Doubling is exact in \<open>float64\<close> for integers whose double is at most $2^{53}$, and so is the
  conversion of such an integer in either direction.
\<close>

definition float_exact :: "'f float_ops \<Rightarrow> bool" where
  "float_exact F =
     ((\<forall>i. 0 \<le> i \<longrightarrow> i \<le> 2 ^ 53 \<longrightarrow> f_to_int F (f_of_int F i) = i) \<and>
      (\<forall>i. 0 \<le> i \<longrightarrow> 2 * i \<le> 2 ^ 53 \<longrightarrow> f_mult F (f_of_int F i) (f_of_int F 2) = f_of_int F (2 * i)))"

definition int_floats :: "int float_ops" where
  "int_floats = \<lparr>f_of_int = (\<lambda>i. i), f_mult = (*), f_parse = (\<lambda>_. None), f_ge_one = (\<lambda>x. 1 \<le> x),
     f_to_int = (\<lambda>i. i)\<rparr>"

lemma int_floats_exact: "float_exact int_floats"
  by (simp add: float_exact_def int_floats_def)

lemma doubling:
  assumes "float_exact F" "0 \<le> i"
  shows "i * 2 ^ n \<le> 2 ^ 53 \<Longrightarrow> ((\<lambda>x. f_mult F x (f_of_int F 2)) ^^ n) (f_of_int F i) = f_of_int F (i * 2 ^ n)"
proof (induction n)
  case (Suc n)
  have "i * 2 ^ n \<le> 2 ^ 53" using Suc.prems assms(2) by simp
  then have "((\<lambda>x. f_mult F x (f_of_int F 2)) ^^ Suc n) (f_of_int F i) = f_mult F (f_of_int F (i * 2 ^ n)) (f_of_int F 2)"
    using Suc.IH by simp
  also have "\<dots> = f_of_int F (2 * (i * 2 ^ n))"
  proof -
    have "0 \<le> i * 2 ^ n" "2 * (i * 2 ^ n) \<le> 2 ^ 53" using assms(2) Suc.prems by simp_all
    then show ?thesis using assms(1) by (simp add: float_exact_def)
  qed
  finally show ?case by (simp add: mult.left_commute)
qed simp

subsection \<open>Properties\<close>

text \<open>C3: what the retry loop of an edge sends. Over any transport, one dispatch hands the transport
  at least one and at most \<open>max_attempts\<close> messages; they are all the same message, so every attempt
  of a durable hop carries the same step key; every failed attempt that is followed by another was
  marked retryable by the component and its code is not on the policy's list; and the dispatch
  succeeds exactly if its last attempt did.\<close>

theorem edge_retry_contract:
  assumes "sendToEdgeWithRetry (observed h) (unobserved slp) F edge fromPort edgeTo b p
      \<lparr>ds_world = (log, w), ds_run = r, ds_inflight = fl\<rparr> = (d', res, err)"
  shows "\<exists>es. fst (ds_world d') = log @ es \<and> length es \<le> max_attempts (ed_RetryPolicy edge) \<and>
     attempts_of (ed_RetryPolicy edge) (outgoing r edge fromPort edgeTo b p) err es"
proof -
  let ?m = "outgoing r edge fromPort edgeTo b p"
  obtain n where n: "max_attempts (ed_RetryPolicy edge) = Suc n" using max_attempts_pos by blast
  obtain log' w' errs res' where loop: "retry_loop (observed h) (unobserved slp) F (ed_RetryPolicy edge) ?m 1
      (Suc n) None (log, w) = ((log', w'), errs, res', err)"
    and "ds_world d' = (log', w')"
    using assms unfolding sendToEdge_conv n
    by (auto simp: case_prod_unfold Let_def prod_eq_iff simp del: retry_loop.simps)
  then show ?thesis using retry_loop_attempts [OF loop] n by auto
qed

text \<open>A hop is recorded for re-drive exactly if it got through. In a durable run the outgoing
  message carries the run, the next step key of its edge and the reply address; after a successful
  dispatch the run has recorded that hop, with that step key, payload and reply address, and after a
  failed one it has recorded nothing; without a run nothing is stamped or recorded.\<close>

theorem emit_recorded_iff_sent:
  "(case sendToEdgeWithRetry h slp F edge fromPort edgeTo b p d of (d', res, err) \<Rightarrow>
     ds_run d' = (case ds_run d of
        None \<Rightarrow> None
      | Some r \<Rightarrow> Some (r\<lparr>run_seq := (run_seq r)(ed_ID edge := run_seq r (ed_ID edge) + 1),
           run_emits := run_emits r @
             (if err = None
              then [\<lparr>er_To = edgeTo, er_From = fromPort, er_EdgeID = ed_ID edge,
                     er_StepKey = step_key (run_RunID r) (run_StepKey r) (ed_ID edge) (run_seq r (ed_ID edge)),
                     er_Data = b, er_ReplySubject = run_ReplySubject r, er_ReplyTarget = run_ReplyTarget r,
                     er_ReplyDeadline = run_ReplyDeadline r\<rparr>]
              else [])\<rparr>)))"
proof (cases "ds_run d")
  case None
  then show ?thesis by (simp add: sendToEdge_conv case_prod_unfold Let_def)
next
  case (Some r)
  have "emit_of (outgoing (Some r) edge fromPort edgeTo b p) =
      \<lparr>er_To = edgeTo, er_From = fromPort, er_EdgeID = ed_ID edge,
       er_StepKey = step_key (run_RunID r) (run_StepKey r) (ed_ID edge) (run_seq r (ed_ID edge)),
       er_Data = b, er_ReplySubject = run_ReplySubject r, er_ReplyTarget = run_ReplyTarget r,
       er_ReplyDeadline = run_ReplyDeadline r\<rparr>"
    by (simp add: emit_of_def outgoing_fields outgoing_run_fields NextStepKey_def Let_def)
  note emit = this
  obtain w errs res err where loop: "retry_loop h slp F (ed_RetryPolicy edge)
      (outgoing (Some r) edge fromPort edgeTo b p) 1 (max_attempts (ed_RetryPolicy edge)) None (ds_world d) =
      (w, errs, res, err)" by (metis prod.collapse)
  show ?thesis
  proof (cases err)
    case None
    then show ?thesis unfolding sendToEdge_run [OF loop Some] emit Some RecordEmit_NextStepKey
      by (simp only: prod.case option.case if_True simp_thms dispatch.simps)
  next
    case (Some x)
    then show ?thesis unfolding sendToEdge_run [OF loop \<open>ds_run d = Some r\<close>] \<open>ds_run d = Some r\<close> snd_NextStepKey
      by (simp only: prod.case option.case if_False simp_thms option.distinct dispatch.simps)
  qed
qed

text \<open>C7: what a fan-out records does not depend on the order in which its goroutines run. Over a
  transport that accepts every message, two orders of the same edges with distinct identifiers
  record the same hops, one for each edge.\<close>

theorem fan_out_order_independent:
  assumes "reliable h" and "distinct (map ed_ID es)" and "mset es = mset es'" and "ds_run d = Some r"
  shows "mset (run_emits (the (ds_run (fst (fan_out h slp F isnil f b p es d))))) =
       mset (run_emits (the (ds_run (fst (fan_out h slp F isnil f b p es' d))))) \<and>
     length (run_emits (the (ds_run (fst (fan_out h slp F isnil f b p es d))))) =
       length (run_emits r) + length es"
proof -
  have "distinct (map ed_ID es')"
    using assms(2) mset_eq_imp_distinct_iff [of "map ed_ID es" "map ed_ID es'"] assms(3) by simp
  from fan_out_reliable_emits [OF assms(1,4) this] obtain r2 where
    r2: "ds_run (fst (fan_out h slp F isnil f b p es' d)) = Some r2"
      "run_emits r2 = run_emits r @ map (\<lambda>e. emit_of (outgoing (Some r) e f (ed_To e) b p)) es'" by blast
  from fan_out_reliable_emits [OF assms(1,4,2)] obtain r1 where
    r1: "ds_run (fst (fan_out h slp F isnil f b p es d)) = Some r1"
      "run_emits r1 = run_emits r @ map (\<lambda>e. emit_of (outgoing (Some r) e f (ed_To e) b p)) es" by blast
  show ?thesis using r1 r2 assms(3) by (simp add: mset_map)
qed

definition sample_edge :: "string \<Rightarrow> string \<Rightarrow> string \<Rightarrow> tiny_edge" where
  "sample_edge i port target = \<lparr>ed_ID = i, ed_Port = port, ed_To = target, ed_FlowID = ''f'', ed_RetryPolicy = None\<rparr>"

definition accept_all :: "(nat, string) handler" where
  "accept_all w m = (w + 1, ANil, None)"

definition no_sleep :: "'w sleep" where
  "no_sleep w d = (w, None)"

text \<open>A transport whose first answer is a failure marked retryable.\<close>

definition flaky :: "(nat, string) handler" where
  "flaky w m = (w + 1, ANil, if w = 0 then Some (RetryError (ErrNew ''503'') True) else None)"

theorem edge_retry_contract_witness:
  "\<exists>es. fst (ds_world (fst (sendToEdgeWithRetry (observed flaky) (unobserved no_sleep) int_floats
       (sample_edge ''e1'' ''out'' ''n:in'') ''m:out'' ''n:in'' ''{}'' None
       \<lparr>ds_world = ([], 0), ds_run = None, ds_inflight = []\<rparr>))) = [] @ es \<and>
     length es \<le> max_attempts None \<and>
     attempts_of None (outgoing None (sample_edge ''e1'' ''out'' ''n:in'') ''m:out'' ''n:in'' ''{}'' None) None es"
proof -
  let ?r = "sendToEdgeWithRetry (observed flaky) (unobserved no_sleep) int_floats
       (sample_edge ''e1'' ''out'' ''n:in'') ''m:out'' ''n:in'' ''{}'' None
       \<lparr>ds_world = ([], 0), ds_run = None, ds_inflight = []\<rparr>"
  have "snd (snd ?r) = None" by code_simp
  then have "?r = (fst ?r, fst (snd ?r), None)" by (metis prod.collapse)
  from edge_retry_contract [OF this] show ?thesis by (simp add: sample_edge_def)
qed

theorem fan_out_order_independent_witness:
  "mset (run_emits (the (ds_run (fst (fan_out accept_all no_sleep int_floats (\<lambda>_. False) ''m:out'' ''{}'' None
       [sample_edge ''a'' ''out'' ''x:in'', sample_edge ''b'' ''out'' ''y:in'']
       \<lparr>ds_world = 0, ds_run = Some (MintRun ''u''), ds_inflight = []\<rparr>))))) =
   mset (run_emits (the (ds_run (fst (fan_out accept_all no_sleep int_floats (\<lambda>_. False) ''m:out'' ''{}'' None
       [sample_edge ''b'' ''out'' ''y:in'', sample_edge ''a'' ''out'' ''x:in'']
       \<lparr>ds_world = 0, ds_run = Some (MintRun ''u''), ds_inflight = []\<rparr>)))))"
proof -
  let ?es = "[sample_edge ''a'' ''out'' ''x:in'', sample_edge ''b'' ''out'' ''y:in'']"
  let ?es' = "[sample_edge ''b'' ''out'' ''y:in'', sample_edge ''a'' ''out'' ''x:in'']"
  have h: "reliable accept_all" "distinct (map ed_ID ?es)" "mset ?es = mset ?es'"
    by (simp_all add: reliable_def accept_all_def sample_edge_def)
  show ?thesis
    by (rule fan_out_order_independent [THEN conjunct1, OF h]) simp
qed

text \<open>The wait between attempts. It never exceeds the policy's cap, whatever the coefficient; with
  the default policy the first 24 waits double from one second up to the cap of thirty.\<close>

theorem backoffDelay_bounds:
  "backoffDelay F policy n \<le> backoff_max policy \<and>
   (float_exact F \<and> n \<in> {1..24} \<longrightarrow> backoffDelay F None n = min (second * 2 ^ (n - 1)) (30 * second))"
proof -
  have "backoffDelay F None n = min (second * 2 ^ (n - 1)) (30 * second)" if F: "float_exact F" and n: "n \<in> {1..24}"
  proof -
    have "(2::int) ^ (n - 1) \<le> 2 ^ 23" using n by (intro power_increasing) auto
    then have le: "second * 2 ^ (n - 1) \<le> 2 ^ 53" by (simp add: second_def)
    have "((\<lambda>x. f_mult F x (f_of_int F 2)) ^^ (n - 1)) (f_of_int F second) = f_of_int F (second * 2 ^ (n - 1))"
      by (rule doubling [OF F _ le]) (simp add: second_def)
    moreover have "f_to_int F (f_of_int F (second * 2 ^ (n - 1))) = second * 2 ^ (n - 1)"
      using F le by (simp add: float_exact_def second_def)
    ultimately show ?thesis
      by (simp add: backoffDelay_def backoff_coefficient_def backoff_initial_def backoff_max_def)
  qed
  then show ?thesis by (auto simp: backoffDelay_def Let_def)
qed

theorem backoffDelay_bounds_witness: "backoffDelay int_floats None 6 = 30 * second"
proof -
  have "backoffDelay int_floats None 6 = min (second * 2 ^ (6 - 1)) (30 * second)"
    using backoffDelay_bounds [of int_floats None 6] int_floats_exact by simp
  then show ?thesis by (simp add: second_def)
qed

text \<open>Destinations are deduplicated by the concatenation of port and target. The edges that
  remain have distinct concatenations, every concatenation keeps its first edge, and order is
  kept; but two edges from different ports to different targets can share a concatenation, and then
  the second is never sent.\<close>

theorem unique_edges_concat:
  "distinct (map (\<lambda>e. ed_Port e @ ed_To e) (unique_edges [] es)) \<and>
   (\<lambda>e. ed_Port e @ ed_To e) ` set (unique_edges [] es) = (\<lambda>e. ed_Port e @ ed_To e) ` set es \<and>
   subseq (unique_edges [] es) es \<and>
   unique_edges [] [sample_edge ''1'' ''out'' ''put:in'', sample_edge ''2'' ''outp'' ''ut:in''] =
     [sample_edge ''1'' ''out'' ''put:in'']"
  using unique_edges_keys [of "[]" es] by (simp add: sample_edge_def)

end
