(* ===== verification/Wire_Transport.thy ===== *)
theory Wire_Transport
  imports Edge_Dispatch Naming
begin

section \<open>The wire between modules\<close>

text \<open>
  \<open>src/internal/transport/nats.go\<close> and \<open>jetstream.go\<close>: how a message becomes a NATS message with headers, how the
  receiver turns it back and settles it with the broker, and how replies and errors travel. \<open>src/pkg/wire\<close>: the
  publications of external callers, in the same headers.

  The broker and its client are a library: the record \<open>broker\<close> has the calls the code makes, over a world of any
  type. A message arrives with the headers and the data it was sent with. Trace headers are left out: they have
  names of their own. A caller has a connection: the check for a missing one is left out. A \<open>[]byte\<close> that may be \<open>nil\<close> is an option.
\<close>

record nats_msg =
  nm_Subject :: string
  nm_Reply :: string
  nm_Data :: bytes
  nm_Header :: "string gomap"

record 'w broker =
  bk_Request :: "'w \<Rightarrow> nats_msg \<Rightarrow> 'w \<times> (go_error + nats_msg)"
  bk_Publish :: "'w \<Rightarrow> nats_msg \<Rightarrow> 'w \<times> go_error option"
  bk_Subscribe :: "'w \<Rightarrow> string \<Rightarrow> 'w \<times> go_error option"
  bk_Await :: "'w \<Rightarrow> string \<Rightarrow> 'w \<times> (go_error + nats_msg)"
  bk_StreamPublish :: "'w \<Rightarrow> nats_msg \<Rightarrow> 'w \<times> (go_error + bool)"
  bk_NewInbox :: "'w \<Rightarrow> string"

definition headerFrom :: string where "headerFrom = ''x-from''"
definition headerTo :: string where "headerTo = ''x-to''"
definition headerEdgeID :: string where "headerEdgeID = ''x-edge-id''"
definition headerMessageDepth :: string where "headerMessageDepth = ''x-message-depth''"
definition headerError :: string where "headerError = ''x-error''"
definition headerErrorCode :: string where "headerErrorCode = ''x-error-code''"
definition headerEmpty :: string where "headerEmpty = ''x-empty''"
definition headerReplyInbox :: string where "headerReplyInbox = ''x-reply-inbox''"
definition headerMode :: string where "headerMode = ''x-mode''"
definition headerRunID :: string where "headerRunID = ''x-run-id''"
definition headerStepKey :: string where "headerStepKey = ''x-step-key''"
definition headerReplySubject :: string where "headerReplySubject = ''x-reply-subject''"
definition headerReplyTarget :: string where "headerReplyTarget = ''x-reply-target''"
definition headerReplyDeadline :: string where "headerReplyDeadline = ''x-reply-deadline''"
definition natsMsgIDHeader :: string where "natsMsgIDHeader = ''Nats-Msg-Id''"

lemmas header_names [wire_simps] =
  headerFrom_def headerTo_def headerEdgeID_def headerMessageDepth_def headerError_def headerErrorCode_def headerEmpty_def
  headerReplyInbox_def headerMode_def headerRunID_def headerStepKey_def headerReplySubject_def headerReplyTarget_def
  headerReplyDeadline_def natsMsgIDHeader_def

definition header_Get :: "string gomap \<Rightarrow> string \<Rightarrow> string" where
  "header_Get h k = (case map_of h k of None \<Rightarrow> [] | Some v \<Rightarrow> v)"

definition header_Set :: "string \<Rightarrow> string \<Rightarrow> string gomap \<Rightarrow> string gomap" where
  "header_Set k v h = AList.update k v h"

lemma header_Get_Nil [simp]: "header_Get [] k = []"
  by (simp add: header_Get_def)

lemma header_Get_Set [simp]: "header_Get (header_Set k v h) k' = (if k' = k then v else header_Get h k')"
  by (simp add: header_Get_def header_Set_def update_conv')

definition SubjectFor :: "string \<Rightarrow> string" where
  "SubjectFor moduleName = ''tinymodule.'' @ moduleName @ ''.msg''"

definition SubjectForSystem :: "string \<Rightarrow> string" where
  "SubjectForSystem moduleName = ''tinymodule.'' @ moduleName @ ''.sysmsg''"

definition full_name_error :: "string \<Rightarrow> go_error" where
  "full_name_error name = ErrNew (''node name '' @ name @ '' is invalid, separator not found'')"

subsection \<open>Requests\<close>

definition set_depth :: "'v msg \<Rightarrow> string gomap \<Rightarrow> string gomap" where
  "set_depth m h = (if msg_Depth m > 0 then header_Set headerMessageDepth (itoa (msg_Depth m)) h else h)"

text \<open>The headers every hop carries.\<close>

definition hop_headers :: "'v msg \<Rightarrow> string gomap \<Rightarrow> string gomap" where
  "hop_headers m h =
     header_Set headerEdgeID (msg_EdgeID m) (header_Set headerTo (msg_To m) (header_Set headerFrom (msg_From m) h))"

definition core_request :: "string \<Rightarrow> 'v msg \<Rightarrow> nats_msg" where
  "core_request moduleName m =
     \<lparr>nm_Subject = SubjectFor moduleName, nm_Reply = [], nm_Data = msg_Data m,
      nm_Header = set_depth m (header_Set natsMsgIDHeader (msg_EdgeID m) (hop_headers m []))\<rparr>"

text \<open>What a sender makes of a reply: the error it carries, or its data.\<close>

definition read_reply :: "nats_msg \<Rightarrow> bytes option \<times> go_error option" where
  "read_reply r =
     (let e = header_Get (nm_Header r) headerError; code = header_Get (nm_Header r) headerErrorCode
      in if e \<noteq> [] then (None, if code \<noteq> [] then NonRetryable code (Some (ErrNew e)) else Some (ErrNew e))
         else if header_Get (nm_Header r) headerEmpty = ''1'' \<or> nm_Data r = [] then (None, None)
         else (Some (nm_Data r), None))"

definition NATS_Handler :: "'w broker \<Rightarrow> 'v msg \<Rightarrow> 'w \<Rightarrow> 'w \<times> bytes option \<times> go_error option" where
  "NATS_Handler B m w =
     (case ParseFullName (msg_To m) of
        None \<Rightarrow> (w, None, Some (full_name_error (msg_To m)))
      | Some (moduleName, _) \<Rightarrow>
        (case bk_Request B w (core_request moduleName m) of
           (w', Inl err) \<Rightarrow> (w', None, Some (WrapError (''nats request to '' @ moduleName @ '': '') err))
         | (w', Inr reply) \<Rightarrow> (w', read_reply reply)))"

definition js_request :: "string \<Rightarrow> string \<Rightarrow> 'v msg \<Rightarrow> nats_msg" where
  "js_request moduleName inbox m =
     \<lparr>nm_Subject = SubjectFor moduleName, nm_Reply = [], nm_Data = msg_Data m,
      nm_Header = set_depth m (hop_headers m (header_Set headerReplyInbox inbox []))\<rparr>"

definition durable_headers :: "'v msg \<Rightarrow> string gomap" where
  "durable_headers m =
     (let h1 = header_Set headerRunID (msg_RunID m) (hop_headers m []);
          h2 = (if msg_StepKey m \<noteq> []
                then header_Set natsMsgIDHeader (msg_StepKey m) (header_Set headerStepKey (msg_StepKey m) h1) else h1);
          h3 = (if msg_ReplySubject m \<noteq> [] then
                  (let h = header_Set headerReplyTarget (msg_ReplyTarget m) (header_Set headerReplySubject (msg_ReplySubject m) h2)
                   in if msg_ReplyDeadline m > 0 then header_Set headerReplyDeadline (itoa (msg_ReplyDeadline m)) h else h)
                else h2)
      in set_depth m h3)"

definition durable_request :: "string \<Rightarrow> 'v msg \<Rightarrow> nats_msg" where
  "durable_request moduleName m =
     \<lparr>nm_Subject = SubjectFor moduleName, nm_Reply = [], nm_Data = msg_Data m, nm_Header = durable_headers m\<rparr>"

definition addressed_reply :: "'v msg \<Rightarrow> nats_msg" where
  "addressed_reply m = \<lparr>nm_Subject = msg_ReplySubject m, nm_Reply = [], nm_Data = msg_Data m, nm_Header = []\<rparr>"

text \<open>
  The reply hop goes to the subject of the instance that waits; whether it got there is not reported. Any other
  hop is stored in the stream, and the call returns when the broker has stored it or dropped it as a duplicate.
\<close>

definition publishDurable :: "'w broker \<Rightarrow> string \<Rightarrow> 'v msg \<Rightarrow> 'w \<Rightarrow> 'w \<times> bytes option \<times> go_error option" where
  "publishDurable B moduleName m w =
     (if IsReplyHop m then (fst (bk_Publish B w (addressed_reply m)), None, None)
      else (case bk_StreamPublish B w (durable_request moduleName m) of
              (w', Inl err) \<Rightarrow> (w', None, Some (WrapError (''jetstream durable publish to '' @ moduleName @ '': '') err))
            | (w', Inr duplicate) \<Rightarrow> (w', None, None)))"

definition JetStream_Handler :: "'w broker \<Rightarrow> 'v msg \<Rightarrow> 'w \<Rightarrow> 'w \<times> bytes option \<times> go_error option" where
  "JetStream_Handler B m w =
     (case ParseFullName (msg_To m) of
        None \<Rightarrow> (w, None, Some (full_name_error (msg_To m)))
      | Some (moduleName, _) \<Rightarrow>
        if msg_RunID m \<noteq> [] then publishDurable B moduleName m w
        else
          (let inbox = bk_NewInbox B w
           in case bk_Subscribe B w inbox of
                (w1, Some err) \<Rightarrow> (w1, None, Some (WrapError ''jetstream subscribe inbox: '' err))
              | (w1, None) \<Rightarrow>
                (case bk_StreamPublish B w1 (js_request moduleName inbox m) of
                   (w2, Inl err) \<Rightarrow> (w2, None, Some (WrapError (''jetstream publish to '' @ moduleName @ '': '') err))
                 | (w2, Inr _) \<Rightarrow>
                   (case bk_Await B w2 inbox of
                      (w3, Inl err) \<Rightarrow> (w3, None, Some err)
                    | (w3, Inr reply) \<Rightarrow> (w3, read_reply reply)))))"

subsection \<open>Receipt\<close>

definition depth_of :: "string gomap \<Rightarrow> int" where
  "depth_of h = (let d = header_Get h headerMessageDepth in if d \<noteq> [] then fst (atoi d) else 0)"

definition core_incoming :: "nats_msg \<Rightarrow> 'v msg" where
  "core_incoming m =
     (let h = nm_Header m
      in \<lparr>msg_EdgeID = header_Get h headerEdgeID, msg_From = header_Get h headerFrom, msg_To = header_Get h headerTo,
          msg_Data = nm_Data m, msg_Depth = depth_of h, msg_Mode = header_Get h headerMode, msg_RunID = [], msg_StepKey = [],
          msg_ReplySubject = [], msg_ReplyTarget = [], msg_ReplyDeadline = 0, msg_Resp = None\<rparr>)"

definition js_incoming :: "nats_msg \<Rightarrow> 'v msg" where
  "js_incoming m =
     (let h = nm_Header m; d = header_Get h headerReplyDeadline
      in (core_incoming m)\<lparr>msg_RunID := header_Get h headerRunID, msg_StepKey := header_Get h headerStepKey,
           msg_ReplySubject := header_Get h headerReplySubject, msg_ReplyTarget := header_Get h headerReplyTarget,
           msg_ReplyDeadline := (if d \<noteq> [] then fst (atoi d) else 0)\<rparr>)"

definition error_reply :: "string \<Rightarrow> go_error \<Rightarrow> nats_msg" where
  "error_reply subject err =
     (let h = header_Set headerError (err_msg err) []; code = ErrorCode (Some err)
      in \<lparr>nm_Subject = subject, nm_Reply = [], nm_Data = [],
          nm_Header = (if code \<noteq> [] then header_Set headerErrorCode code h else h)\<rparr>)"

definition empty_reply :: "string \<Rightarrow> nats_msg" where
  "empty_reply subject = \<lparr>nm_Subject = subject, nm_Reply = [], nm_Data = [], nm_Header = header_Set headerEmpty ''1'' []\<rparr>"

definition data_reply :: "string \<Rightarrow> bytes \<Rightarrow> nats_msg" where
  "data_reply subject payload = \<lparr>nm_Subject = subject, nm_Reply = [], nm_Data = payload, nm_Header = []\<rparr>"

text \<open>
  The encoding of a result: a value that is bytes already is passed on, any other is marshalled, and a value that
  cannot be marshalled becomes an empty payload. \<open>isnil\<close> and \<open>as_bytes\<close> look at the dynamic type of the value.
\<close>

record 'v payload_ops =
  po_isnil :: "'v \<Rightarrow> bool"
  po_as_bytes :: "'v \<Rightarrow> bytes option"
  po_marshal :: "'v any \<Rightarrow> go_error + bytes"

definition marshalled :: "'v payload_ops \<Rightarrow> 'v any \<Rightarrow> bytes" where
  "marshalled P res = (case po_marshal P res of Inl _ \<Rightarrow> [] | Inr b \<Rightarrow> b)"

definition success_reply :: "'v payload_ops \<Rightarrow> string \<Rightarrow> 'v any \<Rightarrow> nats_msg" where
  "success_reply P subject res =
     (case res of
        ANil \<Rightarrow> empty_reply subject
      | AVal v \<Rightarrow>
        if po_isnil P v then empty_reply subject
        else (case po_as_bytes P v of Some b \<Rightarrow> data_reply subject b | None \<Rightarrow> data_reply subject (marshalled P res))
      | AErr e \<Rightarrow> data_reply subject (marshalled P res))"

definition reply_for :: "'v payload_ops \<Rightarrow> string \<Rightarrow> 'v any \<Rightarrow> go_error option \<Rightarrow> nats_msg" where
  "reply_for P subject res err =
     (case err of Some e \<Rightarrow> error_reply subject e | None \<Rightarrow> success_reply P subject res)"

text \<open>The core receiver answers on the reply subject of the NATS message, if it has one.\<close>

definition NATS_handleIncoming ::
  "'v payload_ops \<Rightarrow> 'w broker \<Rightarrow> ('w, 'v) handler \<Rightarrow> nats_msg \<Rightarrow> 'w \<Rightarrow> 'w \<times> nats_msg option" where
  "NATS_handleIncoming P B h m w =
     (case h w (core_incoming m) of
        (w', res, err) \<Rightarrow>
          if nm_Reply m = [] then (w', None)
          else (let reply = reply_for P (nm_Reply m) res err in (fst (bk_Publish B w' reply), Some reply)))"

text \<open>The durable receiver answers on the inbox named in the headers and settles the message with the broker.\<close>

datatype settle = Ack | Nak | Term

definition JetStream_handleIncoming ::
  "'v payload_ops \<Rightarrow> 'w broker \<Rightarrow> ('w, 'v) handler \<Rightarrow> nats_msg \<Rightarrow> 'w \<Rightarrow> 'w \<times> nats_msg option \<times> settle" where
  "JetStream_handleIncoming P B h m w =
     (case h w (js_incoming m) of
        (w', res, err) \<Rightarrow>
          (let inbox = header_Get (nm_Header m) headerReplyInbox;
               (w'', reply) = (if inbox = [] then (w', None)
                 else let r = reply_for P inbox res err in (fst (bk_Publish B w' r), Some r))
           in (w'', reply,
               (case err of
                  None \<Rightarrow> Ack
                | Some e \<Rightarrow> if inbox = [] \<and> ShouldRetry (Some e) then Nak else Term))))"

definition edgeMaxDeliver :: nat where "edgeMaxDeliver = 3"

text \<open>
  The deliveries of one stored message: the broker delivers it again after a \<open>Nak\<close>, at most \<open>left\<close> times in all. The
  result lists how each delivery was settled.
\<close>

fun deliveries ::
  "'v payload_ops \<Rightarrow> 'w broker \<Rightarrow> ('w, 'v) handler \<Rightarrow> nats_msg \<Rightarrow> nat \<Rightarrow> 'w \<Rightarrow> 'w \<times> settle list" where
  "deliveries P B h m 0 w = (w, [])"
| "deliveries P B h m (Suc left) w =
     (case JetStream_handleIncoming P B h m w of
        (w', _, Nak) \<Rightarrow> (let (w'', ss) = deliveries P B h m left w' in (w'', Nak # ss))
      | (w', _, s) \<Rightarrow> (w', [s]))"

subsection \<open>External publications\<close>

record publish_options =
  op_EdgeID :: string
  op_From :: string
  op_WaitForReply :: bool

definition publish_msg :: "string \<Rightarrow> string \<Rightarrow> string \<Rightarrow> bytes \<Rightarrow> publish_options \<Rightarrow> nats_msg" where
  "publish_msg moduleName targetNode name data opts =
     (let h1 = header_Set headerTo (targetNode @ '':'' @ name) [];
          h2 = (if op_From opts \<noteq> [] then header_Set headerFrom (op_From opts) h1 else h1);
          h3 = (if op_EdgeID opts \<noteq> [] then header_Set headerEdgeID (op_EdgeID opts) h2 else h2)
      in \<lparr>nm_Subject = (if has_prefix name ''_'' then SubjectForSystem moduleName else SubjectFor moduleName),
          nm_Reply = [], nm_Data = data, nm_Header = h3\<rparr>)"

definition Publish ::
  "'w broker \<Rightarrow> string \<Rightarrow> string \<Rightarrow> bytes \<Rightarrow> publish_options \<Rightarrow> 'w \<Rightarrow> 'w \<times> bytes option \<times> go_error option" where
  "Publish B targetNode name data opts w =
     (if CHR '':'' \<in> set targetNode
      then (w, None, Some (ErrNew (''targetNode must be the bare node FQN without :port '' @ [CHR 0xE2, CHR 0x80, CHR 0x94] @ '' got '' @ quoted targetNode)))
      else
        (case ParseFullName targetNode of
           None \<Rightarrow> (w, None, Some (WrapError ''parse target node: '' (full_name_error targetNode)))
         | Some (moduleName, _) \<Rightarrow>
           (let m = publish_msg moduleName targetNode name data opts
            in if \<not> op_WaitForReply opts then
                 (case bk_Publish B w m of
                    (w', Some err) \<Rightarrow> (w', None, Some (WrapError ''publish: '' err))
                  | (w', None) \<Rightarrow> (w', None, None))
               else
                 (let inbox = bk_NewInbox B w
                  in case bk_Subscribe B w inbox of
                       (w1, Some err) \<Rightarrow> (w1, None, Some (WrapError ''subscribe reply inbox: '' err))
                     | (w1, None) \<Rightarrow>
                       (case bk_Publish B w1 (m\<lparr>nm_Reply := inbox, nm_Header := header_Set headerReplyInbox inbox (nm_Header m)\<rparr>) of
                          (w2, Some err) \<Rightarrow> (w2, None, Some (WrapError ''publish: '' err))
                        | (w2, None) \<Rightarrow>
                          (case bk_Await B w2 inbox of
                             (w3, Inl err) \<Rightarrow> (w3, None, Some err)
                           | (w3, Inr reply) \<Rightarrow> (w3, read_reply reply)))))))"

definition rpc_msg :: "string \<Rightarrow> string \<Rightarrow> bytes \<Rightarrow> string \<Rightarrow> nats_msg" where
  "rpc_msg moduleName componentName data inbox =
     \<lparr>nm_Subject = SubjectFor moduleName, nm_Reply = [], nm_Data = data,
      nm_Header = header_Set headerReplyInbox inbox (header_Set headerMode ''rpc'' (header_Set headerTo componentName []))\<rparr>"

definition PublishRPC ::
  "'w broker \<Rightarrow> string \<Rightarrow> string \<Rightarrow> bytes \<Rightarrow> 'w \<Rightarrow> 'w \<times> bytes option \<times> go_error option" where
  "PublishRPC B moduleName componentName data w =
     (if moduleName = [] then (w, None, Some (ErrNew ''moduleName is required''))
      else if componentName = [] then (w, None, Some (ErrNew ''componentName is required''))
      else
        (let inbox = bk_NewInbox B w
         in case bk_Subscribe B w inbox of
              (w1, Some err) \<Rightarrow> (w1, None, Some (WrapError ''subscribe reply inbox: '' err))
            | (w1, None) \<Rightarrow>
              (case bk_Publish B w1 (rpc_msg moduleName componentName data inbox) of
                 (w2, Some err) \<Rightarrow> (w2, None, Some (WrapError ''publish rpc: '' err))
               | (w2, None) \<Rightarrow>
                 (case bk_Await B w2 inbox of
                    (w3, Inl err) \<Rightarrow> (w3, None, Some err)
                  | (w3, Inr reply) \<Rightarrow> (w3, read_reply reply)))))"

subsection \<open>Properties\<close>

text \<open>
  A message as a runner sends it has a depth that counts up from 0 and, with its deadline, fits in 64 bits. Its mode
  and its response configuration do not travel.
\<close>

definition depth_ok :: "'v msg \<Rightarrow> bool" where
  "depth_ok m = (0 \<le> msg_Depth m \<and> msg_Depth m \<le> max_int64)"

definition sendable :: "'v msg \<Rightarrow> bool" where
  "sendable m = (depth_ok m \<and> msg_ReplyDeadline m \<le> max_int64)"

definition on_wire :: "'v msg \<Rightarrow> 'v msg" where
  "on_wire m = m\<lparr>msg_Mode := [], msg_Resp := None\<rparr>"

definition without_run :: "'v msg \<Rightarrow> 'v msg" where
  "without_run m =
     (on_wire m)\<lparr>msg_RunID := [], msg_StepKey := [], msg_ReplySubject := [], msg_ReplyTarget := [], msg_ReplyDeadline := 0\<rparr>"

text \<open>A reply target and a deadline travel only with a reply subject, and a deadline only when it is positive.\<close>

definition reply_on_wire :: "'v msg \<Rightarrow> 'v msg" where
  "reply_on_wire m =
     m\<lparr>msg_ReplyTarget := (if msg_ReplySubject m = [] then [] else msg_ReplyTarget m),
       msg_ReplyDeadline := (if msg_ReplySubject m = [] then 0 else max 0 (msg_ReplyDeadline m))\<rparr>"

lemma itoa_not_Nil [simp]: "itoa i \<noteq> []"
  by (simp add: itoa_def)

lemma atoi_itoa_nonneg: "0 \<le> i \<Longrightarrow> i \<le> max_int64 \<Longrightarrow> fst (atoi (itoa i)) = i"
  by (simp add: atoi_itoa max_int64_def)

lemma depth_of_set:
  assumes "depth_ok m" and "header_Get h headerMessageDepth = []"
  shows "depth_of (set_depth m h) = msg_Depth m"
  using assms by (auto simp: depth_of_def set_depth_def Let_def depth_ok_def atoi_itoa_nonneg)

lemma header_Get_set_depth [simp]: "k \<noteq> headerMessageDepth \<Longrightarrow> header_Get (set_depth m h) k = header_Get h k"
  by (simp add: set_depth_def)

lemma core_incoming_hop:
  assumes "depth_ok m" "nm_Data n = msg_Data m" "nm_Header n = set_depth m h" "header_Get h headerMessageDepth = []"
    and "header_Get h headerEdgeID = msg_EdgeID m" "header_Get h headerFrom = msg_From m" "header_Get h headerTo = msg_To m"
    and "header_Get h headerMode = []"
  shows "core_incoming n = without_run m"
proof -
  have names: "headerEdgeID \<noteq> headerMessageDepth" "headerFrom \<noteq> headerMessageDepth" "headerTo \<noteq> headerMessageDepth"
    "headerMode \<noteq> headerMessageDepth" by (simp_all add: wire_simps)
  show ?thesis
    using assms depth_of_set [OF assms(1,4)] names
    by (simp add: core_incoming_def without_run_def on_wire_def Let_def)
qed

lemma core_request_incoming: "depth_ok m \<Longrightarrow> core_incoming (core_request moduleName m) = without_run m"
  by (rule core_incoming_hop [where h = "header_Set natsMsgIDHeader (msg_EdgeID m) (hop_headers m [])"])
    (simp_all add: core_request_def hop_headers_def wire_simps)

lemma js_request_incoming: "depth_ok m \<Longrightarrow> js_incoming (js_request moduleName inbox m) = without_run m"
proof -
  assume a: "depth_ok m"
  have "core_incoming (js_request moduleName inbox m) = without_run m"
    by (rule core_incoming_hop [where h = "hop_headers m (header_Set headerReplyInbox inbox [])"])
      (simp_all add: a js_request_def hop_headers_def wire_simps)
  then show ?thesis
    by (simp add: js_incoming_def js_request_def Let_def hop_headers_def set_depth_def without_run_def on_wire_def wire_simps)
qed

lemma durable_request_core: "depth_ok m \<Longrightarrow> core_incoming (durable_request moduleName m) = without_run m"
  by (rule core_incoming_hop [OF _ _ trans [OF _ durable_headers_def [unfolded Let_def]]])
    (simp_all add: durable_request_def hop_headers_def Let_def wire_simps)

lemma without_run_js [simp]: "without_run (js_incoming n) = without_run (core_incoming n)"
  by (simp add: js_incoming_def without_run_def on_wire_def Let_def)

lemma without_run_idem [simp]: "without_run (without_run m) = without_run m"
  by (simp add: without_run_def on_wire_def)

lemma without_run_sel [simp]:
  "msg_Depth (without_run m) = msg_Depth m" "msg_To (without_run m) = msg_To m" "msg_From (without_run m) = msg_From m"
  "msg_EdgeID (without_run m) = msg_EdgeID m" "msg_Data (without_run m) = msg_Data m"
  by (simp_all add: without_run_def on_wire_def)

lemma without_run_eqD:
  assumes "without_run m = without_run n"
  shows "msg_Depth m = msg_Depth n \<and> msg_To m = msg_To n \<and> msg_From m = msg_From n \<and> msg_EdgeID m = msg_EdgeID n \<and>
    msg_Data m = msg_Data n"
  using arg_cong [OF assms, of msg_Depth] arg_cong [OF assms, of msg_To] arg_cong [OF assms, of msg_From]
    arg_cong [OF assms, of msg_EdgeID] arg_cong [OF assms, of msg_Data] by simp

text \<open>
  What every wire promises: the message that arrives is the one that was sent, up to the fields a wire may not
  carry. The client of a wire is the chain of deliveries, which rests on the depth.
\<close>

locale wire =
  fixes encode :: "string \<Rightarrow> 'v msg \<Rightarrow> 'n" and decode :: "'n \<Rightarrow> 'v msg"
  assumes carries: "depth_ok m \<Longrightarrow> without_run (decode (encode moduleName m)) = without_run m"
begin

lemma arrives:
  assumes "depth_ok m"
  shows "msg_Depth (decode (encode moduleName m)) = msg_Depth m"
    and "msg_To (decode (encode moduleName m)) = msg_To m"
    and "msg_From (decode (encode moduleName m)) = msg_From m"
    and "msg_EdgeID (decode (encode moduleName m)) = msg_EdgeID m"
    and "msg_Data (decode (encode moduleName m)) = msg_Data m"
  using without_run_eqD [OF carries [OF assms, of moduleName]] by simp_all

end

interpretation core_wire: wire core_request core_incoming
  by unfold_locales (simp add: core_request_incoming)

interpretation stream_wire: wire "\<lambda>moduleName. js_request moduleName inbox" js_incoming for inbox
  by unfold_locales (metis js_request_incoming without_run_idem)

interpretation durable_wire: wire durable_request js_incoming
  by unfold_locales (simp add: durable_request_core)

lemma durable_request_incoming:
  assumes "sendable m"
  shows "js_incoming (durable_request moduleName m) = on_wire (reply_on_wire m)"
proof -
  let ?n = "durable_request moduleName m"
  have "core_incoming ?n = without_run m" using assms by (simp add: durable_request_core sendable_def)
  moreover have "header_Get (nm_Header ?n) headerRunID = msg_RunID m" "header_Get (nm_Header ?n) headerStepKey = msg_StepKey m"
    "header_Get (nm_Header ?n) headerReplySubject = msg_ReplySubject m"
    "header_Get (nm_Header ?n) headerReplyTarget = (if msg_ReplySubject m = [] then [] else msg_ReplyTarget m)"
    "header_Get (nm_Header ?n) headerReplyDeadline =
      (if msg_ReplySubject m \<noteq> [] \<and> msg_ReplyDeadline m > 0 then itoa (msg_ReplyDeadline m) else [])"
    by (simp_all add: durable_request_def durable_headers_def hop_headers_def Let_def set_depth_def wire_simps)
  ultimately show ?thesis
    using assms
    by (auto simp: js_incoming_def Let_def without_run_def on_wire_def reply_on_wire_def sendable_def atoi_itoa_nonneg)
qed

lemma deliveries_shape:
  "\<exists>k tail. snd (deliveries P B h m n w) = replicate k Nak @ tail \<and>
     (tail = [] \<and> k = n \<or> (\<exists>s. tail = [s] \<and> s \<noteq> Nak \<and> k < n))"
proof (induction n arbitrary: w)
  case (Suc n)
  obtain w' r s where i: "JetStream_handleIncoming P B h m w = (w', r, s)" by (metis prod_cases3)
  show ?case
  proof (cases s)
    case Nak
    obtain k tail where "snd (deliveries P B h m n w') = replicate k Nak @ tail"
      "tail = [] \<and> k = n \<or> (\<exists>s. tail = [s] \<and> s \<noteq> Nak \<and> k < n)" using Suc.IH by blast
    then have "snd (deliveries P B h m (Suc n) w) = replicate (Suc k) Nak @ tail \<and>
        (tail = [] \<and> Suc k = Suc n \<or> (\<exists>s. tail = [s] \<and> s \<noteq> Nak \<and> Suc k < Suc n))"
      by (simp add: i Nak case_prod_unfold Let_def)
    then show ?thesis by blast
  qed (rule exI [of _ 0], simp add: i)+
qed simp

lemma nak_only_without_inbox:
  "snd (snd (JetStream_handleIncoming P B h m w)) = Nak \<Longrightarrow> header_Get (nm_Header m) headerReplyInbox = []"
  by (auto simp: JetStream_handleIncoming_def case_prod_unfold Let_def split: option.splits if_splits)

lemma deliveries_once_with_inbox:
  "header_Get (nm_Header m) headerReplyInbox \<noteq> [] \<Longrightarrow> length (snd (deliveries P B h m n w)) \<le> 1"
proof (cases n)
  case (Suc k)
  assume a: "header_Get (nm_Header m) headerReplyInbox \<noteq> []"
  obtain w' r s where i: "JetStream_handleIncoming P B h m w = (w', r, s)" by (metis prod_cases3)
  then have "s \<noteq> Nak" using nak_only_without_inbox [of P B h m w] a by auto
  then show ?thesis by (cases s) (simp_all add: Suc i)
qed simp

text \<open>C15: a hop arrives as it was sent. A durable hop comes out of the stream as the message that was published,
  with its run, its step key, its edge, its ports, its payload and its depth; its reply target and its deadline
  arrive exactly when it names a reply subject, a deadline that is not positive arriving as 0, and neither is sent
  without a subject. Its step key, when it has one, is also the identifier the broker deduplicates on. A hop without
  a run keeps its edge, its ports, its payload and its depth on both wires. The core wire has no headers for a run:
  what it delivers is the message without one. The mode and the response configuration of the sender stay behind.
  The hop is assumed to have a depth that is not negative, and a depth and a deadline that fit in 64 bits.\<close>

theorem hop_roundtrip:
  assumes "sendable m"
  shows "js_incoming (durable_request moduleName m) = on_wire (reply_on_wire m) \<and>
    (msg_StepKey m \<noteq> [] \<longrightarrow> header_Get (nm_Header (durable_request moduleName m)) natsMsgIDHeader = msg_StepKey m) \<and>
    js_incoming (js_request moduleName inbox m) = without_run m \<and>
    core_incoming (core_request moduleName m) = without_run m"
proof -
  have "msg_StepKey m \<noteq> [] \<longrightarrow> header_Get (nm_Header (durable_request moduleName m)) natsMsgIDHeader = msg_StepKey m"
    by (simp add: durable_request_def durable_headers_def hop_headers_def Let_def set_depth_def wire_simps)
  then show ?thesis
    using assms durable_request_incoming [OF assms]
    by (simp add: js_request_incoming core_request_incoming sendable_def)
qed

text \<open>What the broker is told about a stored message. It is delivered at most three times; every delivery but the
  last was answered with a negative acknowledgement, which only happens to a hop nobody waits for whose failure
  is retryable; a hop with a reply inbox is delivered once.\<close>

theorem deliveries_bounded:
  "\<exists>k tail. snd (deliveries P B h m edgeMaxDeliver w) = replicate k Nak @ tail \<and>
     (tail = [] \<and> k = 3 \<or> (\<exists>s. tail = [s] \<and> s \<noteq> Nak \<and> k < 3)) \<and>
     (header_Get (nm_Header m) headerReplyInbox = [] \<or> length (snd (deliveries P B h m edgeMaxDeliver w)) \<le> 1)"
  using deliveries_shape [of P B h m edgeMaxDeliver w] deliveries_once_with_inbox [of m P B h edgeMaxDeliver w]
  by (fastforce simp: edgeMaxDeliver_def)

text \<open>C22: a failure that crosses the wire is never retried by its sender. The reply carries the message and the code of
  the failure but not whether it is retryable, so the error the sender sees has the same code and fails the
  retry predicate, whatever the component had marked: the dispatch of the edge stops after one attempt.\<close>

theorem remote_failure_not_retried:
  assumes "err_msg e \<noteq> []"
  shows "\<exists>e'. read_reply (reply_for P subject res (Some e)) = (None, Some e') \<and>
    ErrorCode (Some e') = ErrorCode (Some e) \<and> \<not> ShouldRetry (Some e') \<and> \<not> retried policy e'"
proof (cases "ErrorCode (Some e) = []")
  case True
  then have "read_reply (reply_for P subject res (Some e)) = (None, Some (ErrNew (err_msg e)))"
    using assms by (simp add: read_reply_def reply_for_def error_reply_def Let_def wire_simps)
  moreover have "ErrorCode (Some (ErrNew (err_msg e))) = []" by (simp add: ErrorCode_def)
  ultimately show ?thesis using True by (auto simp: retried_def)
next
  case False
  then have "read_reply (reply_for P subject res (Some e)) =
      (None, Some (CodedError (ErrorCode (Some e)) (Some (ErrNew (err_msg e)))))"
    using assms by (simp add: read_reply_def reply_for_def error_reply_def NonRetryable_def Let_def wire_simps)
  then show ?thesis by (auto simp: retried_def)
qed

lemma reply_for_subject [simp]: "nm_Subject (reply_for P subject res err) = subject"
  by (auto simp: reply_for_def error_reply_def success_reply_def empty_reply_def data_reply_def Let_def split: option.split any.split)

text \<open>A tool call over the core wire is never answered. \<open>PublishRPC\<close> names its inbox in a header only; the durable
  receiver replies to that inbox, while the core receiver replies to the reply subject of the message, which the
  call leaves empty.\<close>

theorem rpc_reply_needs_stream:
  assumes "inbox \<noteq> []"
  shows "snd (NATS_handleIncoming P B h (rpc_msg moduleName componentName data inbox) w) = None \<and>
    (\<exists>reply. fst (snd (JetStream_handleIncoming P B h (rpc_msg moduleName componentName data inbox) w)) = Some reply \<and>
       nm_Subject reply = inbox)"
  using assms
  by (simp add: NATS_handleIncoming_def JetStream_handleIncoming_def rpc_msg_def case_prod_unfold Let_def wire_simps)

text \<open>The reply hop of a durable run goes to the instance that waits and to nobody else. It is published with its
  payload on the reply subject, never to the stream, and counts as sent whether or not anybody listens; every
  other durable hop is published once, to the stream of the target module.\<close>

theorem reply_hop_addressed:
  "publishDurable B moduleName m w =
     (if IsReplyHop m
      then (fst (bk_Publish B w \<lparr>nm_Subject = msg_ReplySubject m, nm_Reply = [], nm_Data = msg_Data m, nm_Header = []\<rparr>), None, None)
      else (fst (bk_StreamPublish B w (durable_request moduleName m)), None,
            case snd (bk_StreamPublish B w (durable_request moduleName m)) of
              Inl err \<Rightarrow> Some (WrapError (''jetstream durable publish to '' @ moduleName @ '': '') err) | Inr _ \<Rightarrow> None))"
  by (simp add: publishDurable_def addressed_reply_def case_prod_unfold split: sum.split)

definition sample_wire_hop :: "string msg" where
  "sample_wire_hop = (edge_msg (sample_edge ''e1'' ''out'' ''f.m.n:in'') ''f.m.s:out'' ''f.m.n:in'' ''hello'' None)
     \<lparr>msg_Depth := 4, msg_RunID := ''r1'', msg_StepKey := ''r1.k'', msg_ReplySubject := ''_INBOX.1'',
      msg_ReplyTarget := ''f.m.s:response'', msg_ReplyDeadline := 99\<rparr>"

definition sample_payloads :: "string payload_ops" where
  "sample_payloads = \<lparr>po_isnil = (\<lambda>_. False), po_as_bytes = (\<lambda>v. Some v), po_marshal = (\<lambda>_. Inr [])\<rparr>"

definition quiet_broker :: "nat broker" where
  "quiet_broker = \<lparr>bk_Request = (\<lambda>w m. (w, Inr m)), bk_Publish = (\<lambda>w m. (w, None)), bk_Subscribe = (\<lambda>w s. (w, None)),
     bk_Await = (\<lambda>w s. (w, Inl CtxDeadlineExceeded)), bk_StreamPublish = (\<lambda>w m. (Suc w, Inr False)), bk_NewInbox = (\<lambda>w. ''_INBOX.2'')\<rparr>"

theorem hop_roundtrip_witness:
  "js_incoming (durable_request ''m'' sample_wire_hop) = on_wire sample_wire_hop \<and>
   msg_ReplyTarget sample_wire_hop = ''f.m.s:response'' \<and>
   header_Get (nm_Header (durable_request ''m'' sample_wire_hop)) natsMsgIDHeader = ''r1.k'' \<and>
   msg_RunID (core_incoming (core_request ''m'' sample_wire_hop) :: string msg) = []"
proof -
  have ok: "sendable sample_wire_hop"
    by (simp add: sample_wire_hop_def edge_msg_def sendable_def depth_ok_def max_int64_def)
  have reply: "reply_on_wire sample_wire_hop = sample_wire_hop"
    by (simp add: reply_on_wire_def sample_wire_hop_def edge_msg_def)
  have fields: "msg_ReplyTarget sample_wire_hop = ''f.m.s:response''" "msg_StepKey sample_wire_hop = ''r1.k''"
    by (simp_all add: sample_wire_hop_def)
  note arrived = hop_roundtrip [OF ok, where moduleName = "''m''", unfolded reply fields]
  then show ?thesis using fields(1) by (simp add: without_run_def)
qed

theorem remote_failure_not_retried_witness:
  "\<exists>e'. read_reply (reply_for sample_payloads ''_INBOX.1'' ANil (Some (RetryError (ErrNew ''busy'') True))) = (None, Some e') \<and>
     \<not> ShouldRetry (Some e') \<and> ShouldRetry (Some (RetryError (ErrNew ''busy'') True))"
  using remote_failure_not_retried [of "RetryError (ErrNew ''busy'') True" sample_payloads "''_INBOX.1''" ANil None]
  by (auto simp: ShouldRetry_def IsRetryable_def IsPermanent_def)

theorem rpc_reply_needs_stream_witness:
  "snd (NATS_handleIncoming sample_payloads quiet_broker accept_all (rpc_msg ''m'' ''echo'' ''x'' ''_INBOX.1'') 0) = None \<and>
   fst (snd (JetStream_handleIncoming sample_payloads quiet_broker accept_all (rpc_msg ''m'' ''echo'' ''x'' ''_INBOX.1'') 0)) \<noteq> None"
  using rpc_reply_needs_stream [of "''_INBOX.1''" sample_payloads quiet_broker accept_all "''m''" "''echo''" "''x''" 0] by auto

end
