(* ===== verification/State_Backends.thy ===== *)
theory State_Backends
  imports Error_Contract
begin

section \<open>The state of a component and its two backends\<close>

text \<open>
  \<open>src/pkg/state/metadata.go\<close>, \<open>factory.go\<close> and \<open>jetstream.go\<close>, the backends of the
  \<open>module.State\<close> interface (\<open>src/module/state.go\<close>).

  The metadata backend keeps an overlay of recent writes over a cached Kubernetes object. What the
  controller-runtime reader answers at the moment of a call is the argument \<open>rd\<close>: \<open>None\<close> when there
  is no reader, otherwise an error or the metadata of the node. The clock is the argument \<open>now\<close>, in
  nanoseconds. A reconcile-port updater is a value of \<open>meta_update\<close>, collected in emission order. A
  \<open>[]byte\<close> that may be \<open>nil\<close> is an option.

  The execution-scoped backend calls a JetStream key-value bucket, a library the sources do not
  contain: it is the record \<open>kv\<close> of its four operations over a bucket state of any type, and
  \<open>kv_lawful\<close> says what the backend relies on.
\<close>

subsection \<open>encoding/base64, standard encoding\<close>

definition b64_char :: "nat \<Rightarrow> char" where
  "b64_char i =
     (if i < 26 then char_of (65 + i) else if i < 52 then char_of (71 + i)
      else if i < 62 then char_of (i - 4) else if i = 62 then CHR ''+'' else CHR ''/'')"

definition b64_val :: "char \<Rightarrow> nat option" where
  "b64_val c =
     (let n = of_char c
      in if 65 \<le> n \<and> n \<le> 90 then Some (n - 65) else if 97 \<le> n \<and> n \<le> 122 then Some (n - 71)
         else if 48 \<le> n \<and> n \<le> 57 then Some (n + 4) else if n = 43 then Some 62
         else if n = 47 then Some 63 else None)"

fun b64_encode :: "bytes \<Rightarrow> string" where
  "b64_encode (a # b # c # s) =
     b64_char (of_char a div 4) # b64_char (of_char a mod 4 * 16 + of_char b div 16)
     # b64_char (of_char b mod 16 * 4 + of_char c div 64) # b64_char (of_char c mod 64) # b64_encode s"
| "b64_encode [a, b] =
     [b64_char (of_char a div 4), b64_char (of_char a mod 4 * 16 + of_char b div 16),
      b64_char (of_char b mod 16 * 4), CHR ''='']"
| "b64_encode [a] =
     [b64_char (of_char a div 4), b64_char (of_char a mod 4 * 16), CHR ''='', CHR ''='']"
| "b64_encode [] = []"

text \<open>Decoding four characters at a time, on input without line breaks.\<close>

fun b64_quads :: "string \<Rightarrow> bytes option" where
  "b64_quads [] = Some []"
| "b64_quads (p # q # r # t # s) =
     (case (b64_val p, b64_val q) of
        (Some v1, Some v2) \<Rightarrow>
          (if r = CHR ''='' then
             (if t = CHR ''='' \<and> s = [] then Some [char_of (v1 * 4 + v2 div 16)] else None)
           else (case b64_val r of
             None \<Rightarrow> None
           | Some v3 \<Rightarrow>
             (if t = CHR ''='' then
                (if s = [] then Some [char_of (v1 * 4 + v2 div 16), char_of (v2 mod 16 * 16 + v3 div 4)]
                 else None)
              else (case (b64_val t, b64_quads s) of
                (Some v4, Some rest) \<Rightarrow>
                  Some (char_of (v1 * 4 + v2 div 16) # char_of (v2 mod 16 * 16 + v3 div 4)
                    # char_of (v3 mod 4 * 64 + v4) # rest)
              | _ \<Rightarrow> None))))
      | _ \<Rightarrow> None)"
| "b64_quads _ = None"

definition b64_decode :: "string \<Rightarrow> bytes option" where
  "b64_decode s = b64_quads (filter (\<lambda>c. c \<noteq> CHR 0x0A \<and> c \<noteq> CHR 0x0D) s)"

subsection \<open>The metadata backend\<close>

definition MaxStateBytes :: int where "MaxStateBytes = 900 * 1024"

definition ErrStateTooLarge :: go_error where
  "ErrStateTooLarge = ErrNew ''state size exceeds cap''"

definition keyPrefix :: string where "keyPrefix = ''_state/''"

definition pendingTTL :: int where "pendingTTL = 5 * 10 ^ 9"

record pendingEntry =
  pe_value :: "bytes option"
  pe_addedAt :: int

datatype meta_update = MetaPut string string | MetaDelete string

text \<open>The closures that \<open>Set\<close> and \<open>Delete\<close> emit; a \<open>nil\<close> metadata map is an empty one.\<close>

fun apply_update :: "meta_update \<Rightarrow> string gomap \<Rightarrow> string gomap" where
  "apply_update (MetaPut k v) md = AList.update k v md"
| "apply_update (MetaDelete k) md = AList.delete k md"

type_synonym reader = "(go_error + string gomap) option"

record MetadataState =
  ms_pending :: "pendingEntry gomap"
  ms_has_emit :: bool
  ms_emitted :: "meta_update list"

definition NewMetadataState :: "bool \<Rightarrow> MetadataState" where
  "NewMetadataState emit = \<lparr>ms_pending = [], ms_has_emit = emit, ms_emitted = []\<rparr>"

text \<open>The entry of the overlay for a key, if it has not expired.\<close>

definition live_entry :: "int \<Rightarrow> MetadataState \<Rightarrow> string \<Rightarrow> pendingEntry option" where
  "live_entry now m key =
     (case map_of (ms_pending m) key of
        Some e \<Rightarrow> if now - pe_addedAt e < pendingTTL then Some e else None
      | None \<Rightarrow> None)"

definition MetadataState_Get ::
  "reader \<Rightarrow> int \<Rightarrow> MetadataState \<Rightarrow> string \<Rightarrow> bytes option \<times> bool \<times> go_error option" where
  "MetadataState_Get rd now m key =
     (case live_entry now m key of
        Some e \<Rightarrow> (if pe_value e = None then (None, False, None) else (pe_value e, True, None))
      | None \<Rightarrow>
        (case rd of
           None \<Rightarrow> (None, False, None)
         | Some (Inl err) \<Rightarrow> (None, False, Some err)
         | Some (Inr md) \<Rightarrow>
           (case map_of md (keyPrefix @ key) of
              None \<Rightarrow> (None, False, None)
            | Some encoded \<Rightarrow>
              (case b64_decode encoded of
                 None \<Rightarrow> (None, True, Some (ErrNew ''illegal base64 data''))
               | Some decoded \<Rightarrow> (Some decoded, True, None)))))"

definition size_step :: "string \<Rightarrow> string \<times> string \<Rightarrow> int \<times> string \<Rightarrow> int \<times> string" where
  "size_step fullKey kv acc =
     (case (kv, acc) of ((k, v), (current, existing)) \<Rightarrow>
        if \<not> has_prefix k keyPrefix then (current, existing)
        else (current + int (length k) + int (length v), if k = fullKey then v else existing))"

definition too_large :: "int \<Rightarrow> go_error" where
  "too_large n =
     ForeignError (err_msg ErrStateTooLarge @ '': write would bring total to '' @ itoa n
         @ '' bytes (cap '' @ itoa MaxStateBytes
         @ ''). Evict older keys via Delete() before retrying.'')
       None (Some ErrStateTooLarge)"

definition guardSize ::
  "reader \<Rightarrow> int \<Rightarrow> MetadataState \<Rightarrow> string \<Rightarrow> string \<Rightarrow> go_error option" where
  "guardSize rd now m fullKey newEncoded =
     (case rd of
        None \<Rightarrow> None
      | Some (Inl err) \<Rightarrow> None
      | Some (Inr md) \<Rightarrow>
        (let (current, existing) = fold (size_step fullKey) md (0, []);
             (current, existing) =
               (case live_entry now m (trim_prefix fullKey keyPrefix) of
                  None \<Rightarrow> (current, existing)
                | Some entry \<Rightarrow>
                  (case pe_value entry of
                     None \<Rightarrow> (current, existing)
                   | Some v \<Rightarrow>
                     (let pendingEncoded = b64_encode v
                      in if existing \<noteq> pendingEncoded
                         then (current - int (length existing) + int (length pendingEncoded)
                                 + (if existing = [] then int (length fullKey) else 0), pendingEncoded)
                         else (current, existing))));
             delta = (if existing = [] then int (length fullKey) + int (length newEncoded)
                      else int (length newEncoded) - int (length existing))
         in if current + delta > MaxStateBytes then Some (too_large (current + delta)) else None))"

definition emit_update :: "meta_update \<Rightarrow> MetadataState \<Rightarrow> MetadataState" where
  "emit_update u m = (if ms_has_emit m then m\<lparr>ms_emitted := ms_emitted m @ [u]\<rparr> else m)"

definition MetadataState_Set ::
  "reader \<Rightarrow> int \<Rightarrow> MetadataState \<Rightarrow> string \<Rightarrow> bytes option \<Rightarrow> MetadataState \<times> go_error option" where
  "MetadataState_Set rd now m key val =
     (let encoded = b64_encode (case val of None \<Rightarrow> [] | Some v \<Rightarrow> v);
          fullKey = keyPrefix @ key
      in case guardSize rd now m fullKey encoded of
           Some err \<Rightarrow> (m, Some err)
         | None \<Rightarrow>
           (let m = m\<lparr>ms_pending :=
                  AList.update key \<lparr>pe_value = val, pe_addedAt = now\<rparr> (ms_pending m)\<rparr>
            in (emit_update (MetaPut fullKey encoded) m, None)))"

definition MetadataState_Delete ::
  "int \<Rightarrow> MetadataState \<Rightarrow> string \<Rightarrow> MetadataState \<times> go_error option" where
  "MetadataState_Delete now m key =
     (let m = m\<lparr>ms_pending :=
            AList.update key \<lparr>pe_value = None, pe_addedAt = now\<rparr> (ms_pending m)\<rparr>
      in (emit_update (MetaDelete (keyPrefix @ key)) m, None))"

definition overlay_key ::
  "string \<Rightarrow> int \<Rightarrow> string \<times> pendingEntry \<Rightarrow> string list \<Rightarrow> string list" where
  "overlay_key pfx now ke keys =
     (case ke of (k, e) \<Rightarrow>
        if \<not> has_prefix k pfx then keys
        else if now - pe_addedAt e \<ge> pendingTTL then keys
        else if pe_value e = None then removeAll k keys
        else List.insert k keys)"

definition MetadataState_List ::
  "reader \<Rightarrow> int \<Rightarrow> MetadataState \<Rightarrow> string \<Rightarrow> go_error + string list" where
  "MetadataState_List rd now m pfx =
     (let cached =
            (case rd of
               None \<Rightarrow> Inr []
             | Some (Inl err) \<Rightarrow> Inl err
             | Some (Inr md) \<Rightarrow>
               Inr (remdups (map (\<lambda>k. drop (length keyPrefix) k)
                 (filter (\<lambda>k. has_prefix k (keyPrefix @ pfx)) (map fst md)))))
      in case cached of
           Inl err \<Rightarrow> Inl err
         | Inr keys \<Rightarrow> Inr (sort (fold (overlay_key pfx now) (ms_pending m) keys)))"

subsection \<open>The execution-scoped backend\<close>

datatype kv_error = ErrKeyNotFound | ErrNoKeysFound | KvFailure go_error

record 'b kv =
  kv_get :: "'b \<Rightarrow> string \<Rightarrow> kv_error + bytes"
  kv_put :: "'b \<Rightarrow> string \<Rightarrow> bytes \<Rightarrow> 'b \<times> kv_error option"
  kv_delete :: "'b \<Rightarrow> string \<Rightarrow> 'b \<times> kv_error option"
  kv_keys :: "'b \<Rightarrow> kv_error + string list"

definition kv_err :: "kv_error \<Rightarrow> go_error" where
  "kv_err e = (case e of ErrKeyNotFound \<Rightarrow> ErrNew ''nats: key not found''
     | ErrNoKeysFound \<Rightarrow> ErrNew ''nats: no keys found'' | KvFailure x \<Rightarrow> x)"

definition key_char :: "char \<Rightarrow> bool" where
  "key_char c = (is_alnum c \<or> c \<in> set ''-_/.='')"

text \<open>\<open>strings.Map\<close> visits runes, so a multi-byte character becomes one underscore.\<close>

function sanitizeKey :: "string \<Rightarrow> string" where
  "sanitizeKey [] = []"
| "sanitizeKey (c # s) =
     (if key_char c then c # sanitizeKey s
      else CHR ''_'' # sanitizeKey (drop (rune_width (c # s)) (c # s)))"
  by pat_completeness auto
termination
proof (relation "measure length")
  fix c :: char and s
  show "(drop (rune_width (c # s)) (c # s), c # s) \<in> measure length"
    using rune_width_pos [of "c # s"] by simp
qed auto

definition newExecState :: "string \<Rightarrow> string" where
  "newExecState runID = sanitizeKey (''exec/'' @ runID @ ''/'')"

definition full_key :: "string \<Rightarrow> string \<Rightarrow> string" where
  "full_key ns key = ns @ sanitizeKey key"

definition JetStreamState_Get ::
  "'b kv \<Rightarrow> string \<Rightarrow> 'b \<Rightarrow> string \<Rightarrow> bytes option \<times> bool \<times> go_error option" where
  "JetStreamState_Get kv ns b key =
     (case kv_get kv b (full_key ns key) of
        Inl ErrKeyNotFound \<Rightarrow> (None, False, None)
      | Inl err \<Rightarrow> (None, False, Some (kv_err err))
      | Inr v \<Rightarrow> (Some v, True, None))"

definition JetStreamState_Set ::
  "'b kv \<Rightarrow> string \<Rightarrow> 'b \<Rightarrow> string \<Rightarrow> bytes \<Rightarrow> 'b \<times> go_error option" where
  "JetStreamState_Set kv ns b key val =
     (let (b', err) = kv_put kv b (full_key ns key) val in (b', map_option kv_err err))"

definition JetStreamState_Delete ::
  "'b kv \<Rightarrow> string \<Rightarrow> 'b \<Rightarrow> string \<Rightarrow> 'b \<times> go_error option" where
  "JetStreamState_Delete kv ns b key =
     (let (b', err) = kv_delete kv b (full_key ns key)
      in if err = Some ErrKeyNotFound then (b', None) else (b', map_option kv_err err))"

definition JetStreamState_List ::
  "'b kv \<Rightarrow> string \<Rightarrow> 'b \<Rightarrow> string \<Rightarrow> go_error + string list" where
  "JetStreamState_List kv ns b pfx =
     (let match = ns @ sanitizeKey pfx
      in case kv_keys kv b of
           Inl ErrNoKeysFound \<Rightarrow> Inr []
         | Inl err \<Rightarrow> Inl (kv_err err)
         | Inr keys \<Rightarrow> Inr (sort (map (\<lambda>k. trim_prefix k ns) (filter (\<lambda>k. has_prefix k match) keys))))"

text \<open>
  Which backend a handle addresses: the metadata of the node, the router over it, or the
  execution namespace of a run.
\<close>

datatype state_handle = NodeHandle | RouterHandle | ExecHandle string

definition ScopeExecution :: string where "ScopeExecution = ''execution''"

text \<open>\<open>ScopedFactory.For\<close>: the flag says whether there is a broker.\<close>

definition ScopedFactory_For :: "bool \<Rightarrow> state_handle" where
  "ScopedFactory_For has_kv = (if has_kv then RouterHandle else NodeHandle)"

fun Scoped :: "bool \<Rightarrow> state_handle \<Rightarrow> string \<Rightarrow> string \<Rightarrow> state_handle" where
  "Scoped has_kv NodeHandle scope i = NodeHandle"
| "Scoped has_kv RouterHandle scope i =
     (if scope = ScopeExecution \<and> has_kv \<and> i \<noteq> [] then ExecHandle (newExecState i) else NodeHandle)"
| "Scoped has_kv (ExecHandle ns) scope i =
     (if scope = ScopeExecution \<and> i \<noteq> [] then ExecHandle (newExecState i) else ExecHandle ns)"

fun handle_Get ::
  "reader \<Rightarrow> int \<Rightarrow> 'b kv \<Rightarrow> MetadataState \<times> 'b \<Rightarrow> state_handle \<Rightarrow> string
     \<Rightarrow> bytes option \<times> bool \<times> go_error option" where
  "handle_Get rd now kv (m, b) (ExecHandle ns) key = JetStreamState_Get kv ns b key"
| "handle_Get rd now kv (m, b) _ key = MetadataState_Get rd now m key"

fun handle_Set ::
  "reader \<Rightarrow> int \<Rightarrow> 'b kv \<Rightarrow> MetadataState \<times> 'b \<Rightarrow> state_handle \<Rightarrow> string \<Rightarrow> bytes
     \<Rightarrow> (MetadataState \<times> 'b) \<times> go_error option" where
  "handle_Set rd now kv (m, b) (ExecHandle ns) key v =
     (let (b', e) = JetStreamState_Set kv ns b key v in ((m, b'), e))"
| "handle_Set rd now kv (m, b) _ key v =
     (let (m', e) = MetadataState_Set rd now m key (Some v) in ((m', b), e))"

subsection \<open>The contract of module.State\<close>

datatype state_op = OpSet string bytes | OpDelete string

fun op_key :: "state_op \<Rightarrow> string" where
  "op_key (OpSet k v) = k"
| "op_key (OpDelete k) = k"

text \<open>A sequence of writes, and whether every one of them succeeded.\<close>

fun run_ops ::
  "('s \<Rightarrow> string \<Rightarrow> bytes \<Rightarrow> 's \<times> go_error option) \<Rightarrow> ('s \<Rightarrow> string \<Rightarrow> 's \<times> go_error option)
     \<Rightarrow> state_op list \<Rightarrow> 's \<Rightarrow> 's \<times> bool" where
  "run_ops setf delf [] s = (s, True)"
| "run_ops setf delf (OpSet k v # ops) s =
     (let (s', e) = setf s k v; (t, ok) = run_ops setf delf ops s' in (t, e = None \<and> ok))"
| "run_ops setf delf (OpDelete k # ops) s =
     (let (s', e) = delf s k; (t, ok) = run_ops setf delf ops s' in (t, e = None \<and> ok))"

text \<open>
  A sequence of writes to the metadata backend, each at its own time and with its own answer of the
  reader. The second result lists the writes that were accepted, with their times.
\<close>

fun run_timed ::
  "(reader \<times> int \<times> state_op) list \<Rightarrow> MetadataState \<Rightarrow> MetadataState \<times> (int \<times> state_op) list" where
  "run_timed [] m = (m, [])"
| "run_timed ((rd, t, OpSet k v) # ops) m =
     (let (m', e) = MetadataState_Set rd t m k (Some v); (m'', acc) = run_timed ops m'
      in (m'', if e = None then (t, OpSet k v) # acc else acc))"
| "run_timed ((rd, t, OpDelete k) # ops) m =
     (let (m', e) = MetadataState_Delete t m k; (m'', acc) = run_timed ops m'
      in (m'', if e = None then (t, OpDelete k) # acc else acc))"

definition last_accepted :: "(int \<times> state_op) list \<Rightarrow> string \<Rightarrow> (int \<times> state_op) option" where
  "last_accepted acc k = find (\<lambda>a. op_key (snd a) = k) (rev acc)"

text \<open>The last write of a sequence that concerns a key, and what a read finds after it.\<close>

definition last_op :: "(string \<Rightarrow> string) \<Rightarrow> state_op list \<Rightarrow> string \<Rightarrow> state_op option" where
  "last_op canon ops k = find (\<lambda>opn. canon (op_key opn) = canon k) (rev ops)"

fun after_op ::
  "state_op option \<Rightarrow> bytes option \<times> bool \<times> go_error option
     \<Rightarrow> bytes option \<times> bool \<times> go_error option" where
  "after_op None before = before"
| "after_op (Some (OpSet k v)) before = (Some v, True, None)"
| "after_op (Some (OpDelete k)) before = (None, False, None)"

lemma after_op_some: "after_op (Some opn) x = after_op (Some opn) y"
  by (cases opn) simp_all

lemma find_append_option:
  "find P (xs @ ys) = (case find P xs of None \<Rightarrow> find P ys | Some x \<Rightarrow> Some x)"
  by (induction xs) auto

text \<open>
  What a component may rely on, whichever backend it was given: a write is read back, a deletion
  is seen, and neither disturbs a key with another canonical form.
\<close>

locale state_backend =
  fixes canon :: "string \<Rightarrow> string"
    and getf :: "'s \<Rightarrow> string \<Rightarrow> bytes option \<times> bool \<times> go_error option"
    and setf :: "'s \<Rightarrow> string \<Rightarrow> bytes \<Rightarrow> 's \<times> go_error option"
    and delf :: "'s \<Rightarrow> string \<Rightarrow> 's \<times> go_error option"
  assumes set_same: "setf s k v = (s', None) \<Longrightarrow> canon k' = canon k \<Longrightarrow> getf s' k' = (Some v, True, None)"
    and set_other: "setf s k v = (s', e) \<Longrightarrow> canon k' \<noteq> canon k \<Longrightarrow> getf s' k' = getf s k'"
    and del_same: "delf s k = (s', None) \<Longrightarrow> canon k' = canon k \<Longrightarrow> getf s' k' = (None, False, None)"
    and del_other: "delf s k = (s', e) \<Longrightarrow> canon k' \<noteq> canon k \<Longrightarrow> getf s' k' = getf s k'"
begin

lemma get_after_op:
  assumes "run_ops setf delf [opn] s = (t, True)"
  shows "getf t k = after_op (last_op canon [opn] k) (getf s k)"
  using assms
  by (cases opn) (auto simp: last_op_def Let_def split: prod.splits
      intro: set_same del_same set_other del_other)

lemma last_write_wins:
  "run_ops setf delf ops s = (t, True) \<Longrightarrow> getf t k = after_op (last_op canon ops k) (getf s k)"
proof (induction ops arbitrary: s)
  case Nil
  then show ?case by (simp add: last_op_def)
next
  case (Cons opn ops)
  obtain s' where s': "run_ops setf delf [opn] s = (s', True)" "run_ops setf delf ops s' = (t, True)"
    using Cons.prems by (cases opn) (auto simp: case_prod_unfold Let_def prod_eq_iff)
  have "getf t k = after_op (last_op canon ops k) (after_op (last_op canon [opn] k) (getf s k))"
    using Cons.IH [OF s'(2)] get_after_op [OF s'(1)] by simp
  moreover have "last_op canon (opn # ops) k =
      (case last_op canon ops k of None \<Rightarrow> last_op canon [opn] k | x \<Rightarrow> x)"
    by (simp add: last_op_def find_append_option split: option.splits)
  ultimately show ?case by (simp add: after_op_some split: option.splits)
qed

end

subsection \<open>Lemmas on base64\<close>

lemma b64_char_val: "i < 64 \<Longrightarrow> b64_val (b64_char i) = Some i"
  by (auto simp: b64_char_def b64_val_def Let_def)

lemma b64_char_plain: "i < 64 \<Longrightarrow> b64_char i \<notin> {CHR ''='', CHR 0x0A, CHR 0x0D}"
  using b64_char_val [of i] by (auto simp: b64_val_def)

lemma length_b64_encode: "length (b64_encode s) = 4 * ((length s + 2) div 3)"
proof (induction s rule: b64_encode.induct)
  case (1 a b c s)
  have "(length (a # b # c # s) + 2) div 3 = (length s + 2) div 3 + 1" by simp
  with 1 show ?case by (simp add: Let_def)
qed (auto simp: Let_def)

lemma sextets:
  fixes a b :: char
  shows "of_char a div 4 < (64::nat)" "of_char a mod 4 * 16 + of_char b div 16 < (64::nat)"
    "of_char a mod 4 * 16 < (64::nat)"
    "of_char a mod 16 * 4 + of_char b div 64 < (64::nat)" "of_char a mod 16 * 4 < (64::nat)"
    "of_char a mod 64 < (64::nat)"
proof -
  have "of_char a < (256::nat)" "of_char b < (256::nat)" by (rule nat_of_char_less_256)+
  then have "of_char a div 4 < (64::nat)" "of_char b div 16 < (16::nat)" "of_char b div 64 < (4::nat)"
    by (simp_all add: less_mult_imp_div_less)
  moreover have "of_char a mod 4 < (4::nat)" "of_char a mod 16 < (16::nat)" by simp_all
  ultimately show "of_char a div 4 < (64::nat)" "of_char a mod 4 * 16 + of_char b div 16 < (64::nat)"
    "of_char a mod 4 * 16 < (64::nat)"
    "of_char a mod 16 * 4 + of_char b div 64 < (64::nat)" "of_char a mod 16 * 4 < (64::nat)"
    "of_char a mod 64 < (64::nat)"
    by linarith+
qed

lemma octets:
  fixes b :: char
  shows "of_char b div 16 div 16 = (0::nat)" "of_char b div 16 mod 16 = (of_char b div 16 :: nat)"
    "of_char b div 64 div 4 = (0::nat)" "of_char b div 64 mod 4 = (of_char b div 64 :: nat)"
proof -
  have "of_char b < (256::nat)" by (rule nat_of_char_less_256)
  then have "of_char b div 16 < (16::nat)" "of_char b div 64 < (4::nat)"
    by (simp_all add: less_mult_imp_div_less)
  then show "of_char b div 16 div 16 = (0::nat)" "of_char b div 16 mod 16 = (of_char b div 16 :: nat)"
    "of_char b div 64 div 4 = (0::nat)" "of_char b div 64 mod 4 = (of_char b div 64 :: nat)"
    by simp_all
qed

lemmas b64_group = sextets octets b64_char_val

lemma b64_char_not_pad: "i < 64 \<Longrightarrow> b64_char i \<noteq> CHR ''=''"
  and b64_char_no_break: "i < 64 \<Longrightarrow> b64_char i \<noteq> CHR 0x0A \<and> b64_char i \<noteq> CHR 0x0D"
  using b64_char_plain [of i] by auto

lemma b64_quads_encode: "b64_quads (b64_encode s) = Some s"
  by (induction s rule: b64_encode.induct)
    (simp_all add: b64_group b64_char_not_pad)

lemma b64_encode_no_breaks: "c \<in> set (b64_encode s) \<Longrightarrow> c \<noteq> CHR 0x0A \<and> c \<noteq> CHR 0x0D"
  by (induction s rule: b64_encode.induct) (auto simp: sextets b64_char_no_break)

lemma b64_decode_encode [simp]: "b64_decode (b64_encode s) = Some s"
proof -
  have "filter (\<lambda>c. c \<noteq> CHR 0x0A \<and> c \<noteq> CHR 0x0D) (b64_encode s) = b64_encode s"
    using b64_encode_no_breaks by (auto simp: filter_id_conv)
  then show ?thesis by (simp add: b64_decode_def b64_quads_encode)
qed

subsection \<open>Lemmas on the metadata backend\<close>

lemma live_entry_update:
  "live_entry now (emit_update u (m\<lparr>ms_pending := AList.update k e (ms_pending m)\<rparr>)) k' =
     (if k' = k then if now - pe_addedAt e < pendingTTL then Some e else None else live_entry now m k')"
  by (simp add: live_entry_def emit_update_def update_conv')

lemma pendingTTL_pos [simp]: "0 < pendingTTL"
  by (simp add: pendingTTL_def)

lemma MetadataState_Set_ok:
  assumes "MetadataState_Set rd now m k v = (m', None)"
  shows "m' = emit_update (MetaPut (keyPrefix @ k) (b64_encode (case v of None \<Rightarrow> [] | Some v \<Rightarrow> v)))
     (m\<lparr>ms_pending := AList.update k \<lparr>pe_value = v, pe_addedAt = now\<rparr> (ms_pending m)\<rparr>)"
  using assms by (auto simp: MetadataState_Set_def Let_def split: option.splits)

lemma MetadataState_Set_err: "MetadataState_Set rd now m k v = (m', Some e) \<Longrightarrow> m' = m"
  by (auto simp: MetadataState_Set_def Let_def split: option.splits)

interpretation ms: state_backend id "MetadataState_Get rd now"
  "\<lambda>m k v. MetadataState_Set rd now m k (Some v)" "MetadataState_Delete now" for rd now
proof
  fix s k v s' k'
  assume "MetadataState_Set rd now s k (Some v) = (s', None)" "id k' = id k"
  then show "MetadataState_Get rd now s' k' = (Some v, True, None)"
    by (auto dest!: MetadataState_Set_ok simp: MetadataState_Get_def live_entry_update)
next
  fix s k v s' e k'
  assume a: "MetadataState_Set rd now s k (Some v) = (s', e)" "id k' \<noteq> id k"
  show "MetadataState_Get rd now s' k' = MetadataState_Get rd now s k'"
  proof (cases e)
    case None
    with a show ?thesis
      by (auto dest!: MetadataState_Set_ok simp: MetadataState_Get_def live_entry_update)
  next
    case (Some x)
    with a show ?thesis by (auto dest: MetadataState_Set_err)
  qed
qed (auto simp: MetadataState_Delete_def Let_def MetadataState_Get_def live_entry_update)

lemma MetadataState_instant:
  assumes "run_ops (\<lambda>m k v. MetadataState_Set rd now m k (Some v)) (MetadataState_Delete now) ops m = (m', True)"
  shows "MetadataState_Get rd now m' k = after_op (last_op id ops k) (MetadataState_Get rd now m k)"
  using assms by (rule ms.last_write_wins)

text \<open>What a read finds one operation later, the read and the operation each at its own time.\<close>

lemma live_entry_New [simp]: "live_entry now (NewMetadataState b) k = None"
  by (simp add: live_entry_def NewMetadataState_def)

lemma five_seconds: "pendingTTL = 5 * 1000 * 1000 * 1000"
  by (simp add: pendingTTL_def)

lemma Get_entry:
  "MetadataState_Get rd now (emit_update u (m\<lparr>ms_pending := AList.update k e (ms_pending m)\<rparr>)) k' =
     (if k' \<noteq> k then MetadataState_Get rd now m k'
      else if now - pe_addedAt e < pendingTTL
      then (if pe_value e = None then (None, False, None) else (pe_value e, True, None))
      else MetadataState_Get rd now (NewMetadataState True) k')"
  by (cases "k' = k") (simp_all add: MetadataState_Get_def live_entry_update)

fun entry_of :: "int \<Rightarrow> state_op \<Rightarrow> pendingEntry" where
  "entry_of t (OpSet k v) = \<lparr>pe_value = Some v, pe_addedAt = t\<rparr>"
| "entry_of t (OpDelete k) = \<lparr>pe_value = None, pe_addedAt = t\<rparr>"

lemma run_timed_cases:
  assumes "run_timed ((rd, t, opn) # ops) m = (m', acc)"
  obtains (refused) "run_timed ops m = (m', acc)" "rd \<noteq> None" "\<And>k. opn \<noteq> OpDelete k"
  | (accepted) u acc' where "acc = (t, opn) # acc'"
      "run_timed ops (emit_update u
         (m\<lparr>ms_pending := AList.update (op_key opn) (entry_of t opn) (ms_pending m)\<rparr>)) = (m', acc')"
proof (cases opn)
  case (OpDelete k)
  show thesis
    by (rule accepted [of "tl acc" "MetaDelete (keyPrefix @ k)"])
      (use assms OpDelete in \<open>auto simp: MetadataState_Delete_def split: prod.splits\<close>)
next
  case (OpSet k v)
  obtain m1 e where m1: "MetadataState_Set rd t m k (Some v) = (m1, e)" by (cases "MetadataState_Set rd t m k (Some v)")
  show thesis
  proof (cases e)
    case None
    then have "m1 = emit_update (MetaPut (keyPrefix @ k) (b64_encode v))
        (m\<lparr>ms_pending := AList.update k (entry_of t opn) (ms_pending m)\<rparr>)"
      using m1 OpSet MetadataState_Set_ok by fastforce
    then show thesis
      by (intro accepted [of "tl acc" "MetaPut (keyPrefix @ k) (b64_encode v)"])
        (use assms OpSet m1 None in \<open>auto split: prod.splits\<close>)
  next
    case (Some x)
    have "m1 = m" using m1 Some MetadataState_Set_err by blast
    moreover have "rd \<noteq> None"
      using m1 Some by (cases rd) (simp_all add: MetadataState_Set_def guardSize_def Let_def)
    ultimately show thesis
      using assms OpSet m1 Some by (intro refused) (auto split: prod.splits)
  qed
qed

lemma last_accepted_Nil [simp]: "last_accepted [] k = None"
  by (simp add: last_accepted_def)

lemma last_accepted_Cons:
  "last_accepted (a # acc) k =
     (case last_accepted acc k of None \<Rightarrow> if op_key (snd a) = k then Some a else None | Some b \<Rightarrow> Some b)"
  by (simp add: last_accepted_def find_append_option split: option.splits)

lemma timed_read:
  "run_timed ops m = (m', acc) \<Longrightarrow>
   MetadataState_Get rd now m' k =
     (case last_accepted acc k of
        None \<Rightarrow> MetadataState_Get rd now m k
      | Some (t, opn) \<Rightarrow>
        if now - t < pendingTTL
        then (case opn of OpSet _ v \<Rightarrow> (Some v, True, None) | OpDelete _ \<Rightarrow> (None, False, None))
        else MetadataState_Get rd now (NewMetadataState True) k)"
proof (induction ops arbitrary: m acc)
  case (Cons x ops)
  obtain rd' t opn where x: "x = (rd', t, opn)" by (cases x)
  from Cons.prems [unfolded x] show ?case
  proof (cases rule: run_timed_cases)
    case refused
    show ?thesis by (rule Cons.IH [OF refused(1)])
  next
    case (accepted u acc')
    show ?thesis
      unfolding Cons.IH [OF accepted(2)] accepted(1)
      by (cases opn) (auto simp: last_accepted_Cons Get_entry split: option.splits)
  qed
qed simp

lemma timed_accepted:
  "run_timed ops m = (m', acc) \<Longrightarrow>
   list_all (\<lambda>(rd, t, opn). rd = None \<or> (\<exists>k. opn = OpDelete k)) ops \<Longrightarrow> acc = map snd ops"
proof (induction ops arbitrary: m acc)
  case (Cons x ops)
  obtain rd' t opn where x: "x = (rd', t, opn)" by (cases x)
  from Cons.prems(1) [unfolded x] show ?case
  proof (cases rule: run_timed_cases)
    case refused
    then show ?thesis using Cons.prems(2) x by auto
  next
    case (accepted u acc')
    then show ?thesis using Cons.IH [OF accepted(2)] Cons.prems(2) x by simp
  qed
qed simp

definition state_size :: "string gomap \<Rightarrow> int" where
  "state_size md =
     sum_list (map (\<lambda>(k, v). if has_prefix k keyPrefix then int (length k) + int (length v) else 0) md)"

lemma state_size_update:
  "has_prefix fk keyPrefix \<Longrightarrow> state_size (AList.update fk v md) =
     state_size md + (case map_of md fk of Some w \<Rightarrow> int (length v) - int (length w)
                      | None \<Rightarrow> int (length fk) + int (length v))"
  by (induction md) (auto simp: state_size_def split: option.splits)

lemma fold_size_step:
  "distinct (map fst md) \<Longrightarrow> has_prefix fk keyPrefix \<Longrightarrow>
   fold (size_step fk) md (c, e) = (c + state_size md, case map_of md fk of Some v \<Rightarrow> v | None \<Rightarrow> e)"
proof (induction md arbitrary: c e)
  case (Cons x md)
  obtain k v where x: "x = (k, v)" by (cases x)
  have "k = fk \<Longrightarrow> map_of md fk = None" using Cons.prems x by (auto simp: map_of_eq_None_iff)
  then show ?case using Cons x
    by (auto simp: size_step_def state_size_def split: option.splits)
qed (simp add: state_size_def)

text \<open>The guard never underestimates: it accepts only when the updated metadata is under the cap.\<close>

lemma guardSize_sound:
  assumes "guardSize (Some (Inr md)) now m fk enc = None" "distinct (map fst md)" "has_prefix fk keyPrefix"
  shows "state_size (AList.update fk enc md) \<le> MaxStateBytes"
proof (cases "map_of md fk")
  case None
  then show ?thesis using assms
    by (auto simp: guardSize_def fold_size_step state_size_update Let_def
        split: option.splits if_splits)
next
  case (Some w)
  then show ?thesis using assms(1) unfolding state_size_update [OF assms(3)]
    by (auto simp: guardSize_def fold_size_step [OF assms(2,3)] Let_def simp del: map_of_eq_Some_iff
        split: option.splits if_splits)
qed

subsection \<open>Lemmas on the execution-scoped backend\<close>

lemma sanitizeKey_chars: "list_all key_char (sanitizeKey s)"
  by (induction s rule: sanitizeKey.induct) (auto simp: key_char_def)

lemma sanitizeKey_id: "list_all key_char s \<Longrightarrow> sanitizeKey s = s"
  by (induction s) auto

lemma sanitizeKey_append: "list_all key_char s \<Longrightarrow> sanitizeKey (s @ t) = s @ sanitizeKey t"
  by (induction s) auto

definition kv_lawful :: "'b kv \<Rightarrow> bool" where
  "kv_lawful kv =
     ((\<forall>b k v b'. kv_put kv b k v = (b', None) \<longrightarrow> kv_get kv b' k = Inr v) \<and>
      (\<forall>b k v b' e k'. kv_put kv b k v = (b', e) \<longrightarrow> k' \<noteq> k \<longrightarrow> kv_get kv b' k' = kv_get kv b k') \<and>
      (\<forall>b k b' e. kv_delete kv b k = (b', e) \<longrightarrow> e = None \<or> e = Some ErrKeyNotFound
         \<longrightarrow> kv_get kv b' k = Inl ErrKeyNotFound) \<and>
      (\<forall>b k b' e k'. kv_delete kv b k = (b', e) \<longrightarrow> k' \<noteq> k \<longrightarrow> kv_get kv b' k' = kv_get kv b k'))"

lemma kv_lawfulD:
  assumes "kv_lawful kv"
  shows "kv_put kv b k v = (b', None) \<Longrightarrow> kv_get kv b' k = Inr v"
    and "kv_put kv b k v = (b', e) \<Longrightarrow> k' \<noteq> k \<Longrightarrow> kv_get kv b' k' = kv_get kv b k'"
    and "kv_delete kv b k = (b', e) \<Longrightarrow> e = None \<or> e = Some ErrKeyNotFound
      \<Longrightarrow> kv_get kv b' k = Inl ErrKeyNotFound"
    and "kv_delete kv b k = (b', e) \<Longrightarrow> k' \<noteq> k \<Longrightarrow> kv_get kv b' k' = kv_get kv b k'"
  using assms unfolding kv_lawful_def by blast+

lemma JetStream_backend:
  assumes "kv_lawful kv"
  shows "state_backend sanitizeKey (JetStreamState_Get kv ns) (JetStreamState_Set kv ns)
    (JetStreamState_Delete kv ns)"
proof
  note law = kv_lawfulD [OF assms]
  fix b k v b' k'
  assume "JetStreamState_Set kv ns b k v = (b', None)" "sanitizeKey k' = sanitizeKey k"
  then show "JetStreamState_Get kv ns b' k' = (Some v, True, None)"
    using law(1) by (auto simp: JetStreamState_Set_def JetStreamState_Get_def full_key_def split: prod.splits)
next
  fix b k v b' e k'
  assume "JetStreamState_Set kv ns b k v = (b', e)" "sanitizeKey k' \<noteq> sanitizeKey k"
  then have "kv_get kv b' (full_key ns k') = kv_get kv b (full_key ns k')"
    using kv_lawfulD(2) [OF assms] by (auto simp: JetStreamState_Set_def full_key_def split: prod.splits)
  then show "JetStreamState_Get kv ns b' k' = JetStreamState_Get kv ns b k'"
    by (simp add: JetStreamState_Get_def)
next
  fix b k b' k'
  assume "JetStreamState_Delete kv ns b k = (b', None)" "sanitizeKey k' = sanitizeKey k"
  then have "kv_get kv b' (full_key ns k') = Inl ErrKeyNotFound"
    using kv_lawfulD(3) [OF assms]
    by (auto simp: JetStreamState_Delete_def full_key_def split: prod.splits if_splits)
  then show "JetStreamState_Get kv ns b' k' = (None, False, None)"
    by (simp add: JetStreamState_Get_def)
next
  fix b k b' e k'
  assume "JetStreamState_Delete kv ns b k = (b', e)" "sanitizeKey k' \<noteq> sanitizeKey k"
  then have "kv_get kv b' (full_key ns k') = kv_get kv b (full_key ns k')"
    using kv_lawfulD(4) [OF assms]
    by (auto simp: JetStreamState_Delete_def full_key_def split: prod.splits if_splits)
  then show "JetStreamState_Get kv ns b' k' = JetStreamState_Get kv ns b k'"
    by (simp add: JetStreamState_Get_def)
qed

text \<open>A bucket held in memory, which satisfies what the backend relies on.\<close>

definition mem_kv :: "bytes gomap kv" where
  "mem_kv =
     \<lparr>kv_get = \<lambda>b k. (case map_of b k of Some v \<Rightarrow> Inr v | None \<Rightarrow> Inl ErrKeyNotFound),
      kv_put = \<lambda>b k v. (AList.update k v b, None),
      kv_delete = \<lambda>b k. (AList.delete k b, None),
      kv_keys = \<lambda>b. if b = [] then Inl ErrNoKeysFound else Inr (map fst b)\<rparr>"

lemma mem_kv_lawful: "kv_lawful mem_kv"
  by (auto simp: kv_lawful_def mem_kv_def update_conv' delete_conv')

interpretation mem: state_backend sanitizeKey "JetStreamState_Get mem_kv ns" "JetStreamState_Set mem_kv ns"
  "JetStreamState_Delete mem_kv ns" for ns
  by (rule JetStream_backend [OF mem_kv_lawful])

text \<open>A bucket that stores every value it is given.\<close>

definition kv_stores :: "'b kv \<Rightarrow> bool" where
  "kv_stores kv = (kv_lawful kv \<and> (\<forall>b k v. snd (kv_put kv b k v) = None))"

lemma mem_kv_stores: "kv_stores mem_kv"
  using mem_kv_lawful by (simp add: kv_stores_def mem_kv_def)

text \<open>The same bucket seen from a world that carries a log beside it.\<close>

definition unobserved_kv :: "'w kv \<Rightarrow> ('l \<times> 'w) kv" where
  "unobserved_kv kv =
     \<lparr>kv_get = (\<lambda>b k. kv_get kv (snd b) k),
      kv_put = (\<lambda>b k v. ((fst b, fst (kv_put kv (snd b) k v)), snd (kv_put kv (snd b) k v))),
      kv_delete = (\<lambda>b k. ((fst b, fst (kv_delete kv (snd b) k)), snd (kv_delete kv (snd b) k))),
      kv_keys = (\<lambda>b. kv_keys kv (snd b))\<rparr>"

lemma newExecState_parts:
  "list_all key_char r \<Longrightarrow> newExecState r = ''exec/'' @ r @ ''/''"
  unfolding newExecState_def by (rule sanitizeKey_id) (auto simp: key_char_def is_alnum_def)

text \<open>Namespaces of runs whose identifiers hold no slash do not overlap.\<close>

lemma namespaces_disjoint:
  assumes "list_all key_char r" "list_all key_char r'" "CHR ''/'' \<notin> set r" "CHR ''/'' \<notin> set r'" "r \<noteq> r'"
  shows "full_key (newExecState r) k \<noteq> full_key (newExecState r') k'"
proof
  assume eq: "full_key (newExecState r) k = full_key (newExecState r') k'"
  have tw: "takeWhile (\<lambda>c. c \<noteq> CHR ''/'') (q @ CHR ''/'' # x) = q" if "CHR ''/'' \<notin> set q" for q x
    using that by (simp add: takeWhile_append)
  have "r @ CHR ''/'' # sanitizeKey k = r' @ CHR ''/'' # sanitizeKey k'"
    using eq by (simp add: full_key_def newExecState_parts assms)
  then have "r = r'" using tw [OF assms(3)] tw [OF assms(4)] by metis
  with assms(5) show False by simp
qed

subsection \<open>The persisted metadata as a backend\<close>

text \<open>The updater each write emits, and the metadata read by a replica that has made no write.\<close>

fun update_of :: "state_op \<Rightarrow> meta_update" where
  "update_of (OpSet k v) = MetaPut (keyPrefix @ k) (b64_encode v)"
| "update_of (OpDelete k) = MetaDelete (keyPrefix @ k)"

abbreviation replica_Get :: "int \<Rightarrow> string gomap \<Rightarrow> string \<Rightarrow> bytes option \<times> bool \<times> go_error option" where
  "replica_Get t md k \<equiv> MetadataState_Get (Some (Inr md)) t (NewMetadataState True) k"

lemma replica_Get_conv:
  "replica_Get t md k =
     (case map_of md (keyPrefix @ k) of
        None \<Rightarrow> (None, False, None)
      | Some encoded \<Rightarrow> (case b64_decode encoded of
          None \<Rightarrow> (None, True, Some (ErrNew ''illegal base64 data''))
        | Some decoded \<Rightarrow> (Some decoded, True, None)))"
  by (simp add: MetadataState_Get_def live_entry_def NewMetadataState_def)

interpretation persisted: state_backend id "replica_Get t"
  "\<lambda>md k v. (apply_update (update_of (OpSet k v)) md, None)"
  "\<lambda>md k. (apply_update (update_of (OpDelete k)) md, None)" for t
  by unfold_locales (auto simp: replica_Get_conv update_conv' delete_conv')

lemma run_persisted:
  "run_ops (\<lambda>md k v. (apply_update (update_of (OpSet k v)) md, None))
     (\<lambda>md k. (apply_update (update_of (OpDelete k)) md, None)) ops md =
   (fold apply_update (map update_of ops) md, True)"
proof (induction ops arbitrary: md)
  case (Cons opn ops)
  then show ?case by (cases opn) simp_all
qed simp

lemma run_ops_emitted:
  "ms_has_emit m \<Longrightarrow>
   run_ops (\<lambda>m k v. MetadataState_Set rd now m k (Some v)) (MetadataState_Delete now) ops m = (m', True) \<Longrightarrow>
   ms_emitted m' = ms_emitted m @ map update_of ops"
proof (induction ops arbitrary: m)
  case (Cons opn ops)
  show ?case
  proof (cases opn)
    case (OpSet k v)
    obtain m1 where m1: "MetadataState_Set rd now m k (Some v) = (m1, None)"
      "run_ops (\<lambda>m k v. MetadataState_Set rd now m k (Some v)) (MetadataState_Delete now) ops m1 = (m', True)"
      using Cons.prems(2) OpSet by (auto simp: Let_def split: prod.splits)
    have e: "ms_has_emit m1" "ms_emitted m1 = ms_emitted m @ [update_of opn]"
      using MetadataState_Set_ok [OF m1(1)] Cons.prems(1) OpSet by (simp_all add: emit_update_def)
    show ?thesis using Cons.IH [OF e(1) m1(2)] e(2) by simp
  next
    case (OpDelete k)
    have e: "ms_has_emit (fst (MetadataState_Delete now m k))"
      "ms_emitted (fst (MetadataState_Delete now m k)) = ms_emitted m @ [update_of opn]"
      using Cons.prems(1) OpDelete by (simp_all add: MetadataState_Delete_def emit_update_def)
    show ?thesis using Cons.IH [OF e(1)] e(2) Cons.prems(2) OpDelete
      by (auto simp: Let_def case_prod_unfold prod_eq_iff)
  qed
qed simp

subsection \<open>Properties\<close>

text \<open>C12: read your writes, for the length of the overlay window. After any sequence of writes and
  deletions, each at its own time and against whatever the cache answered then, a read at any later
  time finds for a key what the last accepted operation on it left, if that operation is less than
  five seconds old; when it is older, the read finds what the cache holds at the time of the read;
  and for a key no accepted operation touched it finds what it would have found before. A refused
  write has no effect. When every operation is a deletion or a write made without a reader, all of them
  are accepted.\<close>

theorem MetadataState_last_write_wins:
  assumes "run_timed ops m = (m', acc)"
  shows "MetadataState_Get rd now m' k =
       (case last_accepted acc k of
          None \<Rightarrow> MetadataState_Get rd now m k
        | Some (t, opn) \<Rightarrow>
          if now - t < 5 * 1000 * 1000 * 1000
          then (case opn of OpSet _ v \<Rightarrow> (Some v, True, None) | OpDelete _ \<Rightarrow> (None, False, None))
          else MetadataState_Get rd now (NewMetadataState True) k) \<and>
     (list_all (\<lambda>(rd', t, opn). rd' = None \<or> (\<exists>k'. opn = OpDelete k')) ops \<longrightarrow> acc = map snd ops)"
  unfolding five_seconds [symmetric] using timed_read [OF assms] timed_accepted [OF assms] by blast

theorem MetadataState_last_write_wins_witness:
  "MetadataState_Get None 5000000002
     (fst (run_timed [(None, 0, OpSet ''a'' ''1''), (None, 1, OpSet ''b'' ''2''), (None, 2, OpDelete ''b''),
        (None, 3, OpSet ''a'' ''3'')] (NewMetadataState True))) ''a'' = (Some ''3'', True, None) \<and>
   MetadataState_Get (Some (Inr [(''_state/a'', ''eA=='')])) 5000000003
     (fst (run_timed [(None, 0, OpSet ''a'' ''1''), (None, 1, OpSet ''b'' ''2''), (None, 2, OpDelete ''b''),
        (None, 3, OpSet ''a'' ''3'')] (NewMetadataState True))) ''a'' = (Some ''x'', True, None)"
proof -
  let ?ops = "[(None, 0, OpSet ''a'' ''1''), (None, 1, OpSet ''b'' ''2''), (None, 2, OpDelete ''b''),
    (None, 3, OpSet ''a'' ''3'')] :: (reader \<times> int \<times> state_op) list"
  let ?r = "run_timed ?ops (NewMetadataState True)"
  have run: "?r = (fst ?r, snd ?r)" by simp
  have acc: "snd ?r = map snd ?ops"
    using MetadataState_last_write_wins [OF run] by simp
  have last_a: "last_accepted (snd ?r) ''a'' = Some (3, OpSet ''a'' ''3'')"
    unfolding acc by (simp add: last_accepted_def)
  have cached: "MetadataState_Get (Some (Inr [(''_state/a'', ''eA=='')])) 5000000003
      (NewMetadataState True) ''a'' = (Some ''x'', True, None)" by code_simp
  have "MetadataState_Get None 5000000002 (fst ?r) ''a'' = (Some ''3'', True, None)"
    using MetadataState_last_write_wins [OF run, of None 5000000002 "''a''"] unfolding last_a by simp
  moreover have "MetadataState_Get (Some (Inr [(''_state/a'', ''eA=='')])) 5000000003 (fst ?r) ''a'' =
      (Some ''x'', True, None)"
    using MetadataState_last_write_wins [OF run, of "Some (Inr [(''_state/a'', ''eA=='')])" 5000000003 "''a''"]
    unfolding last_a cached by simp
  ultimately show ?thesis by blast
qed

text \<open>Replicas converge. The updaters a sequence of successful writes emits, applied in order
  to the node's metadata, let a replica that has made no write of its own read for every key
  exactly what the last operation of the sequence left: each value survives the base64 encoding and
  each deletion is seen, and a key the sequence did not touch reads as before.\<close>

theorem MetadataState_replicas_converge:
  assumes "ms_has_emit m"
    and "run_ops (\<lambda>m k v. MetadataState_Set rd now m k (Some v)) (MetadataState_Delete now) ops m = (m', True)"
  shows "\<exists>us. ms_emitted m' = ms_emitted m @ us \<and>
     replica_Get t (fold apply_update us md) k = after_op (last_op id ops k) (replica_Get t md k)"
proof (intro exI conjI)
  show "ms_emitted m' = ms_emitted m @ map update_of ops" by (rule run_ops_emitted [OF assms])
  show "replica_Get t (fold apply_update (map update_of ops) md) k =
      after_op (last_op id ops k) (replica_Get t md k)"
    by (rule persisted.last_write_wins [OF run_persisted])
qed

theorem MetadataState_replicas_converge_witness:
  "\<exists>us. ms_emitted (fst (run_ops (\<lambda>m k v. MetadataState_Set None 0 m k (Some v)) (MetadataState_Delete 0)
        [OpSet ''a'' ''hello''] (NewMetadataState True))) = us \<and>
     replica_Get 0 (fold apply_update us []) ''a'' = (Some ''hello'', True, None)"
proof -
  let ?r = "run_ops (\<lambda>m k v. MetadataState_Set None 0 m k (Some v)) (MetadataState_Delete 0)
      [OpSet ''a'' ''hello''] (NewMetadataState True)"
  have "ms_has_emit (NewMetadataState True)" "?r = (fst ?r, True)"
    by (simp_all add: MetadataState_Set_def guardSize_def NewMetadataState_def)
  from MetadataState_replicas_converge [OF this, where t = 0 and md = "[]" and k = "''a''"] show ?thesis
    by (auto simp: last_op_def NewMetadataState_def)
qed

text \<open>The size guard is sound for one write at a time. When a write is accepted against the
  metadata in the cache, the metadata with that write applied holds at most \<open>MaxStateBytes\<close> bytes
  of state, whatever the overlay holds for the key.\<close>

theorem Set_respects_cap:
  assumes "MetadataState_Set (Some (Inr md)) now m key (Some v) = (m', None)" and "distinct (map fst md)"
  shows "state_size (apply_update (update_of (OpSet key v)) md) \<le> MaxStateBytes"
proof -
  have "guardSize (Some (Inr md)) now m (keyPrefix @ key) (b64_encode v) = None"
    using assms(1) by (auto simp: MetadataState_Set_def Let_def split: option.splits)
  then show ?thesis using guardSize_sound [OF _ assms(2)] by simp
qed

theorem Set_respects_cap_witness:
  "state_size (apply_update (update_of (OpSet ''a'' ''hello'')) [(''_state/b'', ''eA=='')]) \<le> MaxStateBytes"
proof -
  let ?md = "[(''_state/b'', ''eA=='')]"
  have "snd (MetadataState_Set (Some (Inr ?md)) 0 (NewMetadataState True) ''a'' (Some ''hello'')) = None"
    by code_simp
  then have "MetadataState_Set (Some (Inr ?md)) 0 (NewMetadataState True) ''a'' (Some ''hello'') =
      (fst (MetadataState_Set (Some (Inr ?md)) 0 (NewMetadataState True) ''a'' (Some ''hello'')), None)"
    by (simp add: prod_eq_iff)
  then show ?thesis by (rule Set_respects_cap) simp
qed

text \<open>The cap can be passed by writes to several keys within one overlay window. The guard
  counts the cache and the pending write of the same key only, so two writes of 600000 bytes to
  different keys of an empty node are both accepted and the persisted state exceeds the cap.\<close>

theorem guard_ignores_other_pending_keys:
  "\<exists>m1 m2. MetadataState_Set (Some (Inr [])) now (NewMetadataState True) ''a''
       (Some (replicate 600000 (CHR ''x''))) = (m1, None) \<and>
     MetadataState_Set (Some (Inr [])) now m1 ''b'' (Some (replicate 600000 (CHR ''x''))) = (m2, None) \<and>
     state_size (fold apply_update (ms_emitted m2) []) > MaxStateBytes"
proof -
  let ?v = "replicate 600000 (CHR ''x'')"
  have ok: "MetadataState_Set (Some (Inr [])) now m k (Some ?v) =
      (emit_update (MetaPut (keyPrefix @ k) (b64_encode ?v))
        (m\<lparr>ms_pending := AList.update k \<lparr>pe_value = Some ?v, pe_addedAt = now\<rparr> (ms_pending m)\<rparr>), None)"
    if "length k = 1" "live_entry now m k = None" for m k
    using that by (simp add: MetadataState_Set_def guardSize_def length_b64_encode MaxStateBytes_def
        keyPrefix_def trim_prefix_def has_prefix_def Let_def)
  show ?thesis
    by (simp add: ok live_entry_update live_entry_def NewMetadataState_def emit_update_def)
      (simp add: state_size_def keyPrefix_def has_prefix_def length_b64_encode MaxStateBytes_def)
qed

text \<open>Execution-scoped state is durable and shared. On any bucket that keeps what it was given,
  every pod that opens the state of a run reads for a key what the last successful operation on a
  key with the same sanitised form left, through whichever pod it went.\<close>

theorem JetStreamState_last_write_wins:
  assumes "kv_lawful kv"
    and "run_ops (JetStreamState_Set kv (newExecState r)) (JetStreamState_Delete kv (newExecState r)) ops b
      = (b', True)"
  shows "JetStreamState_Get kv (newExecState r) b' k =
     after_op (last_op sanitizeKey ops k) (JetStreamState_Get kv (newExecState r) b k)"
  by (rule state_backend.last_write_wins [OF JetStream_backend [OF assms(1)] assms(2)])

theorem JetStreamState_last_write_wins_witness:
  "JetStreamState_Get mem_kv (newExecState ''r1'')
     (fst (run_ops (JetStreamState_Set mem_kv (newExecState ''r1''))
        (JetStreamState_Delete mem_kv (newExecState ''r1''))
        [OpSet ''turn/0'' ''x'', OpSet ''turn 0'' ''y''] [])) ''turn_0'' = (Some ''y'', True, None)"
proof -
  let ?r = "run_ops (JetStreamState_Set mem_kv (newExecState ''r1''))
      (JetStreamState_Delete mem_kv (newExecState ''r1''))
      [OpSet ''turn/0'' ''x'', OpSet ''turn 0'' ''y''] []"
  have "?r = (fst ?r, True)" by (simp add: JetStreamState_Set_def mem_kv_def)
  from JetStreamState_last_write_wins [OF mem_kv_lawful this, of "''turn_0''"] show ?thesis
    by (simp add: last_op_def key_char_def is_alnum_def is_digit_def less_eq_char_def byte_in_def)
qed

text \<open>Runs are isolated. For run identifiers in the key alphabet without a slash, such as the
  UUIDs the runtime mints, no write or deletion in the state of one run changes what any key of
  another run reads, whether or not the operation succeeds.\<close>

theorem run_state_isolated:
  assumes "kv_lawful kv" and "list_all key_char r" and "list_all key_char r'"
    and "CHR ''/'' \<notin> set r" and "CHR ''/'' \<notin> set r'" and "r \<noteq> r'"
  shows "JetStreamState_Get kv (newExecState r') (fst (JetStreamState_Set kv (newExecState r) b k v)) k' =
       JetStreamState_Get kv (newExecState r') b k' \<and>
     JetStreamState_Get kv (newExecState r') (fst (JetStreamState_Delete kv (newExecState r) b k)) k' =
       JetStreamState_Get kv (newExecState r') b k'"
proof -
  have ne: "full_key (newExecState r') k' \<noteq> full_key (newExecState r) k"
    using namespaces_disjoint assms(2-6) by metis
  have "JetStreamState_Get kv (newExecState r') (fst (JetStreamState_Set kv (newExecState r) b k v)) k' =
       JetStreamState_Get kv (newExecState r') b k'"
    using kv_lawfulD(2) [OF assms(1) _ ne]
    by (auto simp: JetStreamState_Get_def JetStreamState_Set_def split: prod.splits)
  moreover have "JetStreamState_Get kv (newExecState r') (fst (JetStreamState_Delete kv (newExecState r) b k)) k' =
       JetStreamState_Get kv (newExecState r') b k'"
    using kv_lawfulD(4) [OF assms(1) _ ne]
    by (auto simp: JetStreamState_Get_def JetStreamState_Delete_def split: prod.splits)
  ultimately show ?thesis by blast
qed

theorem run_state_isolated_witness:
  "JetStreamState_Get mem_kv (newExecState ''b'') (fst (JetStreamState_Set mem_kv (newExecState ''a'') [] ''k'' ''v''))
     ''k'' = JetStreamState_Get mem_kv (newExecState ''b'') [] ''k''"
proof -
  have "list_all key_char ''a''" "list_all key_char ''b''"
    by (simp_all add: key_char_def is_alnum_def less_eq_char_def)
  then show ?thesis
    using run_state_isolated [OF mem_kv_lawful, of "''a''" "''b''" "[]" "''k''" "''v''" "''k''"] by simp
qed

end
