(* ===== verification/Debounce.thy ===== *)
theory Debounce
  imports Tiny_Prelude
begin

section \<open>The reconcile debouncer and the batching of node updates\<close>

text \<open>
  \<open>src/internal/scheduler/runner/debouncer.go\<close> and the way \<open>Runner.DataHandler\<close>
  (\<open>runner.go\<close>, lines 862--961) batches node updaters behind it. The debouncer's own fields are the
  record \<open>debouncer\<close>; its operations are functions on it. Timers are numbered: \<open>db_timer\<close> is the
  one the field \<open>timer\<close> refers to, \<open>sy_running\<close> are the timers that have not fired and
  \<open>sy_waiting\<close> the callbacks of fired timers that have not yet taken the mutex, so the window in
  which a timer fires while another goroutine holds the lock is part of the model.

  The step relation \<open>db_step\<close> interleaves any number of emitting goroutines with the timers:
  appending an updater, calling \<open>Debounce\<close>, a timer firing, a callback taking the pending function,
  and the function running are separate steps, as they are separately locked in the code.
\<close>

record 'f debouncer =
  db_timer :: "nat option"
  db_pendingUpdate :: "'f option"
  db_pending :: bool

definition NewReconcileDebouncer :: "'f debouncer" where
  "NewReconcileDebouncer = \<lparr>db_timer = None, db_pendingUpdate = None, db_pending = False\<rparr>"

text \<open>\<open>Debounce\<close>, with the number a new timer would get; the second result is the timer it starts.\<close>

definition Debounce :: "nat \<Rightarrow> 'f \<Rightarrow> 'f debouncer \<Rightarrow> 'f debouncer \<times> nat option \<times> bool" where
  "Debounce fresh update d =
     (let wasDebounced = db_pending d;
          d = d\<lparr>db_pendingUpdate := Some update, db_pending := True\<rparr>
      in if db_timer d \<noteq> None then (d, None, wasDebounced)
         else (d\<lparr>db_timer := Some fresh\<rparr>, Some fresh, False))"

text \<open>The locked part of the timer's callback: the function to call, if any.\<close>

definition timer_callback :: "'f debouncer \<Rightarrow> 'f debouncer \<times> 'f option" where
  "timer_callback d =
     (d\<lparr>db_pendingUpdate := None, db_pending := False, db_timer := None\<rparr>, db_pendingUpdate d)"

text \<open>The locked part of \<open>Flush\<close>: the timer to stop and the function to call.\<close>

definition Flush :: "'f debouncer \<Rightarrow> 'f debouncer \<times> nat option \<times> 'f option" where
  "Flush d =
     (d\<lparr>db_timer := None, db_pendingUpdate := None, db_pending := False\<rparr>, db_timer d, db_pendingUpdate d)"

definition Stop :: "'f debouncer \<Rightarrow> 'f debouncer \<times> nat option" where
  "Stop d = (d\<lparr>db_timer := None, db_pendingUpdate := None, db_pending := False\<rparr>, db_timer d)"

definition IsPending :: "'f debouncer \<Rightarrow> bool" where
  "IsPending d = db_pending d"

subsection \<open>The debouncer among goroutines\<close>

record ('f, 'u) sys =
  sy_db :: "'f debouncer"
  sy_running :: "nat list"
  sy_waiting :: "nat list"
  sy_next :: nat
  sy_owing :: "'f list"
  sy_taken :: "'f list"
  sy_updaters :: "'u list"
  sy_patches :: "('f \<times> 'u list) list"
  sy_emitted :: "'u list"

definition init_sys :: "('f, 'u) sys" where
  "init_sys = \<lparr>sy_db = NewReconcileDebouncer, sy_running = [], sy_waiting = [], sy_next = 0, sy_owing = [],
     sy_taken = [], sy_updaters = [], sy_patches = [], sy_emitted = []\<rparr>"

text \<open>A goroutine appends its updater to \<open>pendingNodeUpdaters\<close> and owes a call of \<open>Debounce\<close>.\<close>

definition append_updater :: "'u \<Rightarrow> 'f \<Rightarrow> ('f, 'u) sys \<Rightarrow> ('f, 'u) sys" where
  "append_updater u f s =
     s\<lparr>sy_updaters := sy_updaters s @ [u], sy_emitted := sy_emitted s @ [u], sy_owing := sy_owing s @ [f]\<rparr>"

text \<open>An emission on the control port owes the call without an updater.\<close>

definition control_emit :: "'f \<Rightarrow> ('f, 'u) sys \<Rightarrow> ('f, 'u) sys" where
  "control_emit f s = s\<lparr>sy_owing := sy_owing s @ [f]\<rparr>"

definition call_debounce :: "'f \<Rightarrow> ('f, 'u) sys \<Rightarrow> ('f, 'u) sys" where
  "call_debounce f s =
     (let (d, started, _) = Debounce (sy_next s) f (sy_db s)
      in s\<lparr>sy_db := d, sy_owing := remove1 f (sy_owing s),
           sy_running := (case started of Some i \<Rightarrow> i # sy_running s | None \<Rightarrow> sy_running s),
           sy_next := Suc (sy_next s)\<rparr>)"

definition expire :: "nat \<Rightarrow> ('f, 'u) sys \<Rightarrow> ('f, 'u) sys" where
  "expire i s = s\<lparr>sy_running := removeAll i (sy_running s), sy_waiting := i # sy_waiting s\<rparr>"

definition callback :: "nat \<Rightarrow> ('f, 'u) sys \<Rightarrow> ('f, 'u) sys" where
  "callback i s =
     (let (d, fn) = timer_callback (sy_db s)
      in s\<lparr>sy_db := d, sy_waiting := removeAll i (sy_waiting s),
           sy_taken := sy_taken s @ (case fn of Some f \<Rightarrow> [f] | None \<Rightarrow> [])\<rparr>)"

definition flush :: "('f, 'u) sys \<Rightarrow> ('f, 'u) sys" where
  "flush s =
     (let (d, stopped, fn) = Flush (sy_db s)
      in s\<lparr>sy_db := d,
           sy_running := (case stopped of Some i \<Rightarrow> removeAll i (sy_running s) | None \<Rightarrow> sy_running s),
           sy_taken := sy_taken s @ (case fn of Some f \<Rightarrow> [f] | None \<Rightarrow> [])\<rparr>)"

text \<open>The debounced function itself: take every pending updater and patch the node with them.\<close>

definition run_update :: "'f \<Rightarrow> ('f, 'u) sys \<Rightarrow> ('f, 'u) sys" where
  "run_update f s =
     s\<lparr>sy_taken := remove1 f (sy_taken s), sy_updaters := [],
       sy_patches := sy_patches s @ [(f, sy_updaters s)]\<rparr>"

inductive db_step :: "('f, 'u) sys \<Rightarrow> ('f, 'u) sys \<Rightarrow> bool" where
  step_append: "db_step s (append_updater u f s)"
| step_control: "db_step s (control_emit f s)"
| step_debounce: "f \<in> set (sy_owing s) \<Longrightarrow> db_step s (call_debounce f s)"
| step_expire: "i \<in> set (sy_running s) \<Longrightarrow> db_step s (expire i s)"
| step_callback: "i \<in> set (sy_waiting s) \<Longrightarrow> db_step s (callback i s)"
| step_flush: "db_step s (flush s)"
| step_run: "f \<in> set (sy_taken s) \<Longrightarrow> db_step s (run_update f s)"

inductive db_reachable :: "('f, 'u) sys \<Rightarrow> bool" where
  reach_init: "db_reachable init_sys"
| reach_step: "db_reachable s \<Longrightarrow> db_step s t \<Longrightarrow> db_reachable t"

inductive_cases db_stepE: "db_step s t"

subsection \<open>Invariants\<close>

definition db_inv :: "('f, 'u) sys \<Rightarrow> bool" where
  "db_inv s =
     ((db_pending (sy_db s) \<longleftrightarrow> db_pendingUpdate (sy_db s) \<noteq> None) \<and>
      (db_pending (sy_db s) \<longleftrightarrow> db_timer (sy_db s) \<noteq> None) \<and>
      (case db_timer (sy_db s) of Some i \<Rightarrow> i \<in> set (sy_running s) \<union> set (sy_waiting s) | None \<Rightarrow> True) \<and>
      (sy_updaters s \<noteq> [] \<longrightarrow> db_pending (sy_db s) \<or> sy_owing s \<noteq> [] \<or> sy_taken s \<noteq> []) \<and>
      concat (map snd (sy_patches s)) @ sy_updaters s = sy_emitted s)"

lemmas db_ops = append_updater_def control_emit_def call_debounce_def expire_def callback_def flush_def
  run_update_def Debounce_def timer_callback_def Flush_def Let_def

text \<open>A callback of an older timer may take a newer update; the field then refers to no timer.\<close>

lemma db_inv_init: "db_inv init_sys"
  by (simp add: db_inv_def init_sys_def NewReconcileDebouncer_def)

lemma db_inv_step: "db_step s t \<Longrightarrow> db_inv s \<Longrightarrow> db_inv t"
  by (erule db_stepE) (auto simp: db_inv_def db_ops split: option.splits if_splits)

lemma db_inv_reachable: "db_reachable s \<Longrightarrow> db_inv s"
  by (induction rule: db_reachable.induct) (auto intro: db_inv_init db_inv_step)

text \<open>A function the debouncer holds leaves it only for a newer one or to be run.\<close>

lemma held_function_kept:
  "db_step s t \<Longrightarrow> db_pendingUpdate (sy_db s) = Some f \<Longrightarrow>
     db_pendingUpdate (sy_db t) \<noteq> None \<or> f \<in> set (sy_taken t)"
  by (erule db_stepE) (auto simp: db_ops split: option.splits if_splits)

subsection \<open>Progress\<close>

text \<open>The steps that need no new emission and no flush.\<close>

inductive db_progress :: "('f, 'u) sys \<Rightarrow> ('f, 'u) sys \<Rightarrow> bool" where
  prog_debounce: "f \<in> set (sy_owing s) \<Longrightarrow> db_progress s (call_debounce f s)"
| prog_expire: "i \<in> set (sy_running s) \<Longrightarrow> db_progress s (expire i s)"
| prog_callback: "i \<in> set (sy_waiting s) \<Longrightarrow> db_progress s (callback i s)"
| prog_run: "f \<in> set (sy_taken s) \<Longrightarrow> db_progress s (run_update f s)"

lemma db_progress_step: "db_progress s t \<Longrightarrow> db_step s t"
  by (induction rule: db_progress.induct) (auto intro: db_step.intros)

definition delivers :: "('f, 'u) sys \<Rightarrow> bool" where
  "delivers s = (\<exists>t. db_progress\<^sup>*\<^sup>* s t \<and> sy_updaters t = [] \<and> sy_emitted t = sy_emitted s)"

lemma delivers_step: "db_progress s t \<Longrightarrow> sy_emitted t = sy_emitted s \<Longrightarrow> delivers t \<Longrightarrow> delivers s"
  unfolding delivers_def by (metis converse_rtranclp_into_rtranclp)

lemma delivers_taken: "sy_taken s \<noteq> [] \<Longrightarrow> delivers s"
proof -
  assume "sy_taken s \<noteq> []"
  then have "db_progress s (run_update (hd (sy_taken s)) s)" by (intro prog_run) simp
  moreover have "sy_updaters (run_update (hd (sy_taken s)) s) = []"
    "sy_emitted (run_update (hd (sy_taken s)) s) = sy_emitted s"
    by (simp_all add: run_update_def)
  ultimately show ?thesis unfolding delivers_def by (metis r_into_rtranclp)
qed

lemma delivers_waiting:
  assumes "i \<in> set (sy_waiting s)" "db_pendingUpdate (sy_db s) \<noteq> None"
  shows "delivers s"
proof (rule delivers_step [OF prog_callback [OF assms(1)]])
  show "delivers (callback i s)"
    by (rule delivers_taken) (use assms(2) in \<open>auto simp: callback_def timer_callback_def\<close>)
qed (simp add: callback_def timer_callback_def)

lemma delivers_pending:
  assumes "db_inv s" "db_pending (sy_db s)"
  shows "delivers s"
proof -
  obtain i where i: "i \<in> set (sy_running s) \<or> i \<in> set (sy_waiting s)" "db_pendingUpdate (sy_db s) \<noteq> None"
    using assms by (auto simp: db_inv_def)
  show ?thesis
  proof (cases "i \<in> set (sy_waiting s)")
    case True
    then show ?thesis using i(2) by (rule delivers_waiting)
  next
    case False
    then have "i \<in> set (sy_running s)" using i(1) by simp
    then show ?thesis
    proof (rule delivers_step [OF prog_expire])
      show "delivers (expire i s)"
        by (rule delivers_waiting [of i]) (use i(2) in \<open>auto simp: expire_def\<close>)
    qed (simp add: expire_def)
  qed
qed

lemma delivers_owing:
  assumes "db_inv s" "sy_owing s \<noteq> []"
  shows "delivers s"
proof -
  let ?f = "hd (sy_owing s)"
  have mem: "?f \<in> set (sy_owing s)" using assms(2) by simp
  have "db_inv (call_debounce ?f s)" using db_inv_step [OF step_debounce [OF mem]] assms(1) by blast
  moreover have "db_pending (sy_db (call_debounce ?f s))"
    by (simp add: call_debounce_def Debounce_def Let_def split: option.splits)
  ultimately have "delivers (call_debounce ?f s)" by (rule delivers_pending)
  then show ?thesis
    by (rule delivers_step [OF prog_debounce [OF mem], rotated])
      (simp add: call_debounce_def Debounce_def Let_def)
qed

subsection \<open>Properties\<close>

text \<open>C8: node updates are never lost, repeated or reordered by the batching. In every state reachable
  by any interleaving of emitting goroutines, timers, callbacks and flushes, the batches handed to the
  node patches so far, followed by the updaters still pending, are exactly the updaters emitted, in
  emission order. While updaters are pending, the debouncer holds a function that will take them, or
  such a function has been taken and is about to run, or a goroutine still owes its call of
  \<open>Debounce\<close>. A debouncer that holds a function refers to a timer that is running or whose callback
  waits for the lock, and no step drops a held function: it is either superseded by a newer one or
  handed out to be run.\<close>

theorem updates_preserved:
  assumes "db_reachable s"
  shows "concat (map snd (sy_patches s)) @ sy_updaters s = sy_emitted s \<and>
    (sy_updaters s \<noteq> [] \<longrightarrow>
      db_pendingUpdate (sy_db s) \<noteq> None \<or> sy_owing s \<noteq> [] \<or> sy_taken s \<noteq> []) \<and>
    (db_pendingUpdate (sy_db s) \<noteq> None \<longrightarrow>
      db_pending (sy_db s) \<and> (\<exists>i. db_timer (sy_db s) = Some i \<and> i \<in> set (sy_running s) \<union> set (sy_waiting s))) \<and>
    (\<forall>t f. db_step s t \<longrightarrow> db_pendingUpdate (sy_db s) = Some f \<longrightarrow>
      db_pendingUpdate (sy_db t) \<noteq> None \<or> f \<in> set (sy_taken t))"
  using db_inv_reachable [OF assms] held_function_kept by (fastforce simp: db_inv_def)

text \<open>C9: no update is stranded. From every reachable state, the timers and goroutines already under
  way, without a new emission or a flush, can carry every updater emitted so far into a patch: a
  pending updater always has a running timer, a callback waiting for the lock, a function about to run
  or a goroutine about to call \<open>Debounce\<close>.\<close>

theorem updates_delivered:
  assumes "db_reachable s"
  shows "\<exists>t. db_progress\<^sup>*\<^sup>* s t \<and> concat (map snd (sy_patches t)) = sy_emitted s"
proof -
  have inv: "db_inv s" by (rule db_inv_reachable [OF assms])
  have "delivers s"
  proof (cases "sy_updaters s = []")
    case True
    then show ?thesis unfolding delivers_def by blast
  next
    case False
    then show ?thesis using inv delivers_pending delivers_owing delivers_taken by (auto simp: db_inv_def)
  qed
  then obtain t where t: "db_progress\<^sup>*\<^sup>* s t" "sy_updaters t = []" "sy_emitted t = sy_emitted s"
    unfolding delivers_def by blast
  from t(1) have "db_inv t"
    using inv by (induction rule: rtranclp_induct) (auto intro: db_inv_step db_progress_step)
  then show ?thesis using t by (auto simp: db_inv_def)
qed

text \<open>Two emissions whose calls of \<open>Debounce\<close> are merged into one patch.\<close>

definition merged_run :: "(nat, string) sys" where
  "merged_run = run_update 1 (callback 0 (expire 0 (call_debounce 1 (append_updater ''b'' 1
     (call_debounce 0 (append_updater ''a'' 0 init_sys))))))"

lemma merged_run_reachable: "db_reachable merged_run"
  unfolding merged_run_def
  by (intro reach_step [OF _ step_run] reach_step [OF _ step_callback] reach_step [OF _ step_expire]
      reach_step [OF _ step_debounce] reach_step [OF _ step_append] reach_init) code_simp+

text \<open>An updater is pending and its function is held when \<open>Flush\<close> is called.\<close>

definition held_run :: "(nat, string) sys" where
  "held_run = call_debounce 0 (append_updater ''a'' 0 init_sys)"

lemma held_run_reachable: "db_reachable held_run"
  unfolding held_run_def
  by (intro reach_step [OF _ step_debounce] reach_step [OF _ step_append] reach_init) code_simp

theorem updates_preserved_witness:
  "concat (map snd (sy_patches held_run)) @ sy_updaters held_run = sy_emitted held_run \<and>
   sy_updaters held_run = [''a''] \<and> db_pendingUpdate (sy_db held_run) = Some 0 \<and>
   (\<exists>i. db_timer (sy_db held_run) = Some i \<and> i \<in> set (sy_running held_run) \<union> set (sy_waiting held_run)) \<and>
   0 \<in> set (sy_taken (flush held_run))"
proof -
  have state: "sy_updaters held_run = [''a'']" "db_pendingUpdate (sy_db held_run) = Some 0"
    "db_pendingUpdate (sy_db (flush held_run)) = None"
    by code_simp+
  note keeps = updates_preserved [OF held_run_reachable]
  then have "db_pendingUpdate (sy_db (flush held_run)) \<noteq> None \<or> 0 \<in> set (sy_taken (flush held_run))"
    using state(2) step_flush [of held_run] by blast
  then show ?thesis using keeps state by blast
qed

theorem updates_delivered_witness:
  "\<exists>t. db_progress\<^sup>*\<^sup>* merged_run t \<and> concat (map snd (sy_patches t)) = [''a'', ''b'']"
proof -
  have "sy_emitted merged_run = [''a'', ''b'']" by code_simp
  then show ?thesis using updates_delivered [OF merged_run_reachable] by simp
qed

end
