(* ===== verification/Runner_Model.thy ===== *)
theory Runner_Model
  imports Edge_Dispatch State_Backends Redaction Debounce Expression_Eval
begin

section \<open>The runner of a node\<close>

text \<open>
  \<open>src/internal/scheduler/runner/runner.go\<close>: a runner embeds one component instance, delivers messages
  to it (\<open>MsgHandler\<close>), sends what it emits (\<open>DataHandler\<close>, \<open>outputHandler\<close>), keeps the node
  it was given (\<open>SetNode\<close>) and reports its status (\<open>ReadStatus\<close>).

  A component is a record of its operations over a state \<open>'s\<close> of its own. Its \<open>Handle\<close> is a program
  (\<open>prog\<close>): it returns a result, emits on a port and goes on with the result of the emission, starts a
  durable run, or panics; each step carries the component's state at that moment. Payloads are values of
  any type \<open>'v\<close>. The world outside the runner is \<open>'w\<close>; it holds the execution bucket, which
  the record \<open>e_kv\<close> operates on.

  The record \<open>renv\<close> collects the code the runner calls that is not its own: the JSON and JSON-path
  libraries, the schema generator, comparison of payloads, the wait between attempts, the order in which the goroutines of a
  fan-out run, and the readings of the clock and of the random source during one call. Logging, tracing
  and metrics have no effect on the rest and are left out; the gauge of busy edges is the map
  \<open>rn_activeEdges\<close>.
\<close>

definition FromSignal :: string where "FromSignal = ''signal''"

record 'v port =
  pt_Name :: string
  pt_Label :: string
  pt_Position :: int
  pt_Source :: bool
  pt_Schema :: "bytes option"
  pt_Configuration :: "'v option"
  pt_ResponseConfiguration :: "'v option"

datatype ('s, 'v) prog =
    Ret 's "'v result"
  | Emit 's string "'v any" "'v result \<Rightarrow> ('s, 'v) prog"
  | StartRun string string string int "string \<Rightarrow> ('s, 'v) prog"
  | Panic 's go_error

record ('s, 'v) component =
  cp_Name :: string
  cp_Description :: string
  cp_Info :: string
  cp_Tags :: "string list"
  cp_Ports :: "'s \<Rightarrow> 'v port list"
  cp_Handle :: "'s \<Rightarrow> run option \<Rightarrow> string \<Rightarrow> 'v \<Rightarrow> ('s, 'v) prog"
  cp_OnSettings :: "('s \<Rightarrow> 'v \<Rightarrow> 's \<times> go_error option) option"
  cp_OnControl :: "('s \<Rightarrow> 'v \<Rightarrow> 's \<times> go_error option) option"
  cp_OnDestroy :: "('s \<Rightarrow> string gomap \<Rightarrow> 's) option"

record ('s, 'v) runner =
  rn_node :: tiny_node
  rn_name :: string
  rn_flowName :: string
  rn_projectName :: string
  rn_declaredSecrets :: "string list"
  rn_execDurable :: bool
  rn_comp :: 's
  rn_nodePorts :: "'v port list option"
  rn_portMsg :: "'v gomap"
  rn_settingsSecretAt :: "int gomap"
  rn_debouncer :: "tiny_node debouncer"
  rn_timers :: nat
  rn_updaters :: "'v list"
  rn_activeEdges :: "int gomap"
  rn_inflight :: "string list"
  rn_state :: "state_handle option"
  rn_meta :: MetadataState
  rn_runCtxDone :: bool
  rn_closed :: bool

record ('w, 'v, 'f) renv =
  e_marshal :: "'v any \<Rightarrow> go_error + bytes"
  e_unmarshal :: "'v \<Rightarrow> bytes \<Rightarrow> go_error + 'v"
  e_ajson :: ajson
  e_num :: "string \<Rightarrow> string"
  e_decode :: "'v \<Rightarrow> json \<Rightarrow> go_error + 'v"
  e_encode_record :: "step_record \<Rightarrow> bytes option"
  e_isnil :: "'v \<Rightarrow> bool"
  e_hasSecret :: "'v \<Rightarrow> bool"
  e_equal :: "'v \<Rightarrow> 'v \<Rightarrow> bool"
  e_isUpdater :: "'v \<Rightarrow> bool"
  e_codec :: json_codec
  e_createSchema :: "'v \<Rightarrow> bytes option"
  e_sched :: "tiny_edge list \<Rightarrow> tiny_edge list"
  e_sleep :: "'w sleep"
  e_floats :: "'f float_ops"
  e_kv :: "'w kv"
  e_has_kv :: bool
  e_reader :: reader
  e_now :: int
  e_started :: int
  e_completed :: int
  e_duration :: int
  e_uuid :: string
  e_uuidErr :: "go_error option"

subsection \<open>Construction, ports and status\<close>

definition NewRunner :: "'s \<Rightarrow> tiny_node \<Rightarrow> ('s, 'v) runner" where
  "NewRunner cmp zeroNode =
     \<lparr>rn_node = zeroNode, rn_name = [], rn_flowName = [], rn_projectName = [], rn_declaredSecrets = [],
      rn_execDurable = False, rn_comp = cmp, rn_nodePorts = None, rn_portMsg = [],
      rn_settingsSecretAt = [], rn_debouncer = NewReconcileDebouncer, rn_timers = 0, rn_updaters = [],
      rn_activeEdges = [], rn_inflight = [], rn_state = None, rn_meta = NewMetadataState True,
      rn_runCtxDone = False, rn_closed = False\<rparr>"

definition getNodePorts ::
  "('s, 'v) component \<Rightarrow> ('s, 'v) runner \<Rightarrow> ('s, 'v) runner \<times> 'v port list" where
  "getNodePorts C rn = (let ps = cp_Ports C (rn_comp rn) in (rn\<lparr>rn_nodePorts := Some ps\<rparr>, ps))"

definition getPorts ::
  "('s, 'v) component \<Rightarrow> ('s, 'v) runner \<Rightarrow> ('s, 'v) runner \<times> 'v port list" where
  "getPorts C rn = (case rn_nodePorts rn of Some ps \<Rightarrow> (rn, ps) | None \<Rightarrow> getNodePorts C rn)"

definition InvalidatePortCache :: "('s, 'v) runner \<Rightarrow> ('s, 'v) runner" where
  "InvalidatePortCache rn = rn\<lparr>rn_nodePorts := None\<rparr>"

definition find_port :: "string \<Rightarrow> 'v port list \<Rightarrow> 'v port option" where
  "find_port name ps = find (\<lambda>p. pt_Name p = name) ps"

definition HasPort :: "('s, 'v) component \<Rightarrow> ('s, 'v) runner \<Rightarrow> string \<Rightarrow> ('s, 'v) runner \<times> bool" where
  "HasPort C rn name = (let (rn', ps) = getPorts C rn in (rn', find_port name ps \<noteq> None))"

definition GetPort ::
  "('s, 'v) component \<Rightarrow> ('s, 'v) runner \<Rightarrow> string \<Rightarrow> ('s, 'v) runner \<times> 'v port option" where
  "GetPort C rn name = (let (rn', ps) = getPorts C rn in (rn', find_port name ps))"

definition getPortConfig :: "('s, 'v) runner \<Rightarrow> string \<Rightarrow> string \<Rightarrow> port_config option" where
  "getPortConfig rn from name =
     find (\<lambda>pc. pc_From pc = from \<and> pc_Port pc = name) (tn_Ports (rn_node rn))"

definition port_status_of :: "('w, 'v, 'f) renv \<Rightarrow> 'v port \<Rightarrow> port_status" where
  "port_status_of E np =
     \<lparr>ps_Name = pt_Name np, ps_Label = pt_Label np, ps_Position = pt_Position np, ps_Source = pt_Source np,
      ps_Schema = (if pt_Schema np \<noteq> None then pt_Schema np
        else (case pt_Configuration np of Some conf \<Rightarrow> e_createSchema E conf | None \<Rightarrow> None)),
      ps_Configuration = (case pt_Configuration np of
          None \<Rightarrow> None
        | Some conf \<Rightarrow>
          (case e_marshal E (AVal conf) of
             Inl err \<Rightarrow> redactPortConfiguration (e_codec E) []
           | Inr data \<Rightarrow> redactPortConfiguration (e_codec E) data))\<rparr>"

definition ReadStatus ::
  "('w, 'v, 'f) renv \<Rightarrow> ('s, 'v) component \<Rightarrow> ('s, 'v) runner \<Rightarrow> node_status \<Rightarrow> ('s, 'v) runner \<times> node_status" where
  "ReadStatus E C rn status =
     (let (rn', all_ports) = getNodePorts C rn;
          ports = filter (\<lambda>p. pt_Name p \<notin> {ReconcilePort, ClientPort, IdentityPort}) all_ports;
          sorted_ports = sort_key pt_Name ports
      in (rn', status\<lparr>ns_Status := ''OK'', ns_Error := False,
            ns_Ports := map (port_status_of E) sorted_ports,
            ns_Component := \<lparr>cs_Description = cp_Description C, cs_Info = cp_Info C, cs_Tags = cp_Tags C\<rparr>\<rparr>))"

subsection \<open>The node of a runner\<close>

text \<open>The edges whose in-flight sends are cancelled when the node is replaced.\<close>

definition cancelRemovedEdges :: "('s, 'v) runner \<Rightarrow> tiny_edge list \<Rightarrow> tiny_edge list \<Rightarrow> string list" where
  "cancelRemovedEdges rn oldEdges newEdges =
     map ed_ID (filter (\<lambda>e. ed_ID e \<notin> ed_ID ` set newEdges \<and> ed_ID e \<in> set (rn_inflight rn)) oldEdges)"

definition SetNode ::
  "json_codec \<Rightarrow> ('s, 'v) runner \<Rightarrow> tiny_node \<Rightarrow> ('s, 'v) runner \<times> string list" where
  "SetNode codec rn node =
     (let oldEdges = tn_Edges (rn_node rn);
          rn1 = rn\<lparr>rn_flowName := get_label (tn_Labels node) FlowNameLabel,
            rn_projectName := get_label (tn_Labels node) ProjectNameLabel,
            rn_execDurable := (get_label (tn_Labels node) ExecutionModeLabel = ExecutionModeDurable),
            rn_name := tn_Name node, rn_node := node,
            rn_declaredSecrets := declaredSecretNames codec node\<rparr>;
          cancelled = cancelRemovedEdges rn1 oldEdges (tn_Edges node)
      in (InvalidatePortCache rn1, cancelled))"

text \<open>
  \<open>Stop\<close> flushes the debouncer, whose pending function patches the captured node with the pending
  updaters; the patch is the second result. \<open>StopWithoutCleanup\<close> does not call \<open>OnDestroy\<close>.
\<close>

definition flush_runner :: "('s, 'v) runner \<Rightarrow> ('s, 'v) runner \<times> (tiny_node \<times> 'v list) option" where
  "flush_runner rn =
     (let (d, _, fn) = Flush (rn_debouncer rn)
      in case fn of
           None \<Rightarrow> (rn\<lparr>rn_debouncer := d\<rparr>, None)
         | Some node \<Rightarrow> (rn\<lparr>rn_debouncer := d, rn_updaters := []\<rparr>, Some (node, rn_updaters rn)))"

definition StopWithoutCleanup :: "('s, 'v) runner \<Rightarrow> ('s, 'v) runner \<times> (tiny_node \<times> 'v list) option" where
  "StopWithoutCleanup rn =
     (let (rn1, patch) = flush_runner rn in (rn1\<lparr>rn_runCtxDone := True, rn_closed := True\<rparr>, patch))"

definition Stop ::
  "('s, 'v) component \<Rightarrow> ('s, 'v) runner \<Rightarrow> ('s, 'v) runner \<times> (tiny_node \<times> 'v list) option" where
  "Stop C rn =
     (let (rn1, patch) = flush_runner rn;
          rn2 = rn1\<lparr>rn_runCtxDone := True\<rparr>;
          metadata = (case ns_Metadata (tn_Status (rn_node rn2)) of None \<Rightarrow> [] | Some m \<Rightarrow> m);
          rn3 = (case cp_OnDestroy C of None \<Rightarrow> rn2 | Some f \<Rightarrow> rn2\<lparr>rn_comp := f (rn_comp rn2) metadata\<rparr>)
      in (rn3\<lparr>rn_closed := True\<rparr>, patch))"

subsection \<open>Emissions\<close>

definition outputHandler ::
  "('w, 'v, 'f) renv \<Rightarrow> ('s, 'v) component \<Rightarrow> ('w, 'v) handler option \<Rightarrow> string \<Rightarrow> 'v any
     \<Rightarrow> ('s, 'v) runner \<times> 'w \<times> run option \<Rightarrow> (('s, 'v) runner \<times> 'w \<times> run option) \<times> 'v any \<times> go_error option" where
  "outputHandler E C handler name data st =
     (case st of (rn, w, run) \<Rightarrow>
        (case e_marshal E data of
           Inl err \<Rightarrow> (st, ANil, Some err)
         | Inr dataBytes \<Rightarrow>
           (case handler of
              None \<Rightarrow> (st, ANil, None)
            | Some h \<Rightarrow>
              (let d = \<lparr>ds_world = w, ds_run = run, ds_inflight = rn_inflight rn\<rparr>
               in if fst (ParseFullPortName name) \<noteq> [] then
                    (let edge = \<lparr>ed_ID = [], ed_Port = [], ed_To = [], ed_FlowID = [], ed_RetryPolicy = None\<rparr>;
                         (d', res, err) =
                           sendToEdgeWithRetry h (e_sleep E) (e_floats E) edge [] name dataBytes None d
                     in ((rn\<lparr>rn_inflight := ds_inflight d'\<rparr>, ds_world d', ds_run d'), res, err))
                  else
                    (let (rn1, ports) = getPorts C rn;
                         resp = (case find_port name ports of Some p \<Rightarrow> pt_ResponseConfiguration p | None \<Rightarrow> None);
                         edges = filter (\<lambda>e. ed_Port e = name) (unique_edges [] (tn_Edges (rn_node rn)));
                         (d', results, errors) = fan_out h (e_sleep E) (e_floats E) (e_isnil E)
                           (GetPortFullName (rn_name rn) name) dataBytes resp (e_sched E edges) d;
                         (res, err) = fan_in results errors
                     in ((rn1\<lparr>rn_inflight := ds_inflight d'\<rparr>, ds_world d', ds_run d'), res, err))))))"

definition debounce_patch :: "('s, 'v) runner \<Rightarrow> ('s, 'v) runner" where
  "debounce_patch rn =
     (let (d, started, _) = Debounce (rn_timers rn) (rn_node rn) (rn_debouncer rn)
      in rn\<lparr>rn_debouncer := d, rn_timers := Suc (rn_timers rn)\<rparr>)"

definition DataHandler ::
  "('w, 'v, 'f) renv \<Rightarrow> ('s, 'v) component \<Rightarrow> ('w, 'v) handler option \<Rightarrow> string \<Rightarrow> 'v any
     \<Rightarrow> ('s, 'v) runner \<times> 'w \<times> run option \<Rightarrow> (('s, 'v) runner \<times> 'w \<times> run option) \<times> 'v result" where
  "DataHandler E C handler name data st =
     (case st of (rn, w, run) \<Rightarrow>
        if name = ControlPort then ((debounce_patch (InvalidatePortCache rn), w, run), Result ANil)
        else if name = ReconcilePort then
          (let rn1 = (case data of
                 AVal v \<Rightarrow> if e_isUpdater E v then rn\<lparr>rn_updaters := rn_updaters rn @ [v]\<rparr> else rn
               | _ \<Rightarrow> rn)
           in ((debounce_patch rn1, w, run), Result ANil))
        else (case e_uuidErr E of
                Some err \<Rightarrow> (st, Fail (Some err))
              | None \<Rightarrow>
                (case outputHandler E C handler name data st of
                   (st', res, Some err) \<Rightarrow> (st', Fail (Some err))
                 | (st', res, None) \<Rightarrow> (st', Ok res))))"

text \<open>
  Running a component. A run that the component starts itself rides the contexts of its later
  emissions: the component is taken to emit with the context \<open>BeginRun\<close> gave it. In Go it may also go on with
  the context it had before, whose emissions belong to no run; those are not represented. A panic is turned into
  an error and leaves the response empty.
\<close>

primrec run_prog ::
  "('w, 'v, 'f) renv \<Rightarrow> ('s, 'v) component \<Rightarrow> ('w, 'v) handler option \<Rightarrow> ('s, 'v) prog
     \<Rightarrow> ('s, 'v) runner \<times> 'w \<times> run option \<Rightarrow> (('s, 'v) runner \<times> 'w \<times> run option) \<times> 'v result \<times> go_error option" where
  "run_prog E C handler (Ret s r) = (\<lambda>(rn, w, run). ((rn\<lparr>rn_comp := s\<rparr>, w, run), r, result_Err r))"
| "run_prog E C handler (Emit s name data k) = (\<lambda>(rn, w, run).
     (case DataHandler E C handler name data (rn\<lparr>rn_comp := s\<rparr>, w, run) of
        (st', r) \<Rightarrow> run_prog E C handler (k r) st'))"
| "run_prog E C handler (StartRun uuid subject target deadline k) = (\<lambda>(rn, w, run).
     (case BeginRunWithReply uuid run subject target deadline of
        (run', i) \<Rightarrow> run_prog E C handler (k i) (rn, w, run')))"
| "run_prog E C handler (Panic s e) = (\<lambda>(rn, w, run). ((rn\<lparr>rn_comp := s\<rparr>, w, run), Result ANil, Some e))"

subsection \<open>Deliveries\<close>

definition secretResolveTTL :: int where "secretResolveTTL = 60 * 10 ^ 9"

definition secretResolveTTLLapsed :: "int \<Rightarrow> ('s, 'v) runner \<Rightarrow> string \<Rightarrow> bool" where
  "secretResolveTTLLapsed now rn name =
     (case map_of (rn_settingsSecretAt rn) name of
        None \<Rightarrow> True
      | Some prev \<Rightarrow> now - prev \<ge> secretResolveTTL)"

definition call_capability ::
  "('s \<Rightarrow> 'v \<Rightarrow> 's \<times> go_error option) option \<Rightarrow> 'v \<Rightarrow> ('s, 'v) runner \<Rightarrow> ('s, 'v) runner \<times> 'v result" where
  "call_capability cap data rn =
     (case cap of
        None \<Rightarrow> (rn, Result ANil)
      | Some f \<Rightarrow> (case f (rn_comp rn) data of
                    (s, Some err) \<Rightarrow> (rn\<lparr>rn_comp := s\<rparr>, Fail (Some err))
                  | (s, None) \<Rightarrow> (rn\<lparr>rn_comp := s\<rparr>, Result ANil)))"

definition dispatchCapability ::
  "('s, 'v) component \<Rightarrow> ('s, 'v) runner \<Rightarrow> string \<Rightarrow> 'v \<Rightarrow> (('s, 'v) runner \<times> 'v result) \<times> bool" where
  "dispatchCapability C rn name data =
     (if name = SettingsPort then (call_capability (cp_OnSettings C) data rn, True)
      else if name = ControlPort then (call_capability (cp_OnControl C) data rn, True)
      else if name \<in> {ReconcilePort, ClientPort, IdentityPort} then ((rn, Result ANil), True)
      else ((rn, Result ANil), False))"

text \<open>The state a durable hop reads and writes its ledger records in.\<close>

definition exec_handle :: "('w, 'v, 'f) renv \<Rightarrow> state_handle \<Rightarrow> string \<Rightarrow> state_handle" where
  "exec_handle E h runID = Scoped (e_has_kv E) h ScopeExecution runID"

definition step_recorded :: "('w, 'v, 'f) renv \<Rightarrow> ('s, 'v) runner \<Rightarrow> 'w \<Rightarrow> 'v msg \<Rightarrow> bool" where
  "step_recorded E rn w m =
     (msg_StepKey m \<noteq> [] \<and>
      (case rn_state rn of
         None \<Rightarrow> False
       | Some h \<Rightarrow>
         fst (snd (handle_Get (e_reader E) (e_now E) (e_kv E) (rn_meta rn, w)
           (exec_handle E h (msg_RunID m)) (StepLedgerKey (msg_StepKey m))))))"

text \<open>The run identity of a delivery, \<open>None\<close> when the step is already recorded.\<close>

definition run_identity ::
  "('w, 'v, 'f) renv \<Rightarrow> ('s, 'v) runner \<Rightarrow> 'w \<Rightarrow> run option \<Rightarrow> 'v msg \<Rightarrow> string \<Rightarrow> run option option" where
  "run_identity E rn w ctx m name =
     (if msg_RunID m \<noteq> [] then
        (if step_recorded E rn w m then None
         else Some (WithRun ctx (NewRun (msg_RunID m) (msg_StepKey m))))
      else if rn_execDurable rn \<and> \<not> has_prefix name ''_'' then Some (WithRun ctx (MintRun (e_uuid E)))
      else Some ctx)"

definition port_data ::
  "('w, 'v, 'f) renv \<Rightarrow> ('s, 'v) runner \<Rightarrow> 'v msg \<Rightarrow> string \<Rightarrow> 'v \<Rightarrow> go_error + 'v" where
  "port_data E rn m name conf =
     (if msg_From m = FromSignal then e_unmarshal E conf (msg_Data m)
      else (case getPortConfig rn (msg_From m) name of
              Some pc \<Rightarrow>
                if pc_Configuration pc \<noteq> [] then
                  (case aj_Unmarshal (e_ajson E) (msg_Data m) of
                     Inl err \<Rightarrow> Inl (WrapError ''ajson parse requestData payload error: '' err)
                   | Inr request \<Rightarrow>
                     (case Eval (e_ajson E) (edge_callback (e_ajson E) request) (e_num E) (pc_Configuration pc) of
                        Inl err \<Rightarrow> Inl (WrapError ''eval port edge settings config: '' err)
                      | Inr (configurationMap, exprErrors) \<Rightarrow>
                        (case e_decode E conf configurationMap of
                           Inl err \<Rightarrow> Inl (WrapError ''map decode from config map to port input type: '' err)
                         | Inr v \<Rightarrow> Inr v)))
                else Inr conf
            | None \<Rightarrow> Inr conf))"

text \<open>Settings that did not change are skipped, unless a secret behind them may have.\<close>

definition settings_skip :: "('w, 'v, 'f) renv \<Rightarrow> ('s, 'v) runner \<Rightarrow> string \<Rightarrow> 'v \<Rightarrow> bool" where
  "settings_skip E rn name data =
     (name = SettingsPort \<and>
      (case map_of (rn_portMsg rn) name of
         None \<Rightarrow> False
       | Some prev \<Rightarrow>
         e_equal E data prev \<and> (\<not> e_hasSecret E data \<or> \<not> secretResolveTTLLapsed (e_now E) rn name)))"

definition remember_settings :: "('w, 'v, 'f) renv \<Rightarrow> ('s, 'v) runner \<Rightarrow> string \<Rightarrow> 'v \<Rightarrow> ('s, 'v) runner" where
  "remember_settings E rn name data =
     (if name = SettingsPort then
        (let rn1 = rn\<lparr>rn_portMsg := AList.update name data (rn_portMsg rn)\<rparr>
         in if e_hasSecret E data
            then rn1\<lparr>rn_settingsSecretAt := AList.update name (e_now E) (rn_settingsSecretAt rn)\<rparr>
            else rn1)
      else rn)"

definition step_record_of ::
  "('w, 'v, 'f) renv \<Rightarrow> ('s, 'v) runner \<Rightarrow> run \<Rightarrow> go_error option \<Rightarrow> step_record" where
  "step_record_of E rn run err =
     \<lparr>sr_Node = rn_name rn,
      sr_Status = (if err = None then StepDone else StepFailed),
      sr_Error = (case err of None \<Rightarrow> [] | Some e \<Rightarrow> err_msg e),
      sr_Emits = Emits run, sr_StartedAt = e_started E, sr_CompletedAt = e_completed E,
      sr_DurationMs = e_duration E div 10 ^ 6\<rparr>"

definition writeStepRecord ::
  "('w, 'v, 'f) renv \<Rightarrow> run option \<Rightarrow> go_error option \<Rightarrow> ('s, 'v) runner \<times> 'w \<Rightarrow> ('s, 'v) runner \<times> 'w" where
  "writeStepRecord E ctx handleErr st =
     (case st of (rn, w) \<Rightarrow>
        (case (RunFrom ctx, rn_state rn) of
           (Some run, Some h) \<Rightarrow>
             (case e_encode_record E (step_record_of E rn run handleErr) of
                None \<Rightarrow> (rn, w)
              | Some b \<Rightarrow>
                (case handle_Set (e_reader E) (e_now E) (e_kv E) (rn_meta rn, w)
                        (exec_handle E h (run_RunID run)) (StepLedgerKey (run_StepKey run)) b of
                   ((meta, w'), _) \<Rightarrow> (rn\<lparr>rn_meta := meta\<rparr>, w')))
         | _ \<Rightarrow> (rn, w)))"

text \<open>The gauge of a busy edge is set while the component handles the message and then cleared.\<close>

definition setGauge :: "int \<Rightarrow> string \<Rightarrow> ('s, 'v) runner \<Rightarrow> ('s, 'v) runner" where
  "setGauge val edgeID rn =
     (if edgeID = [] then rn else rn\<lparr>rn_activeEdges := AList.update edgeID val (rn_activeEdges rn)\<rparr>)"

definition clearGauge :: "string \<Rightarrow> ('s, 'v) runner \<Rightarrow> ('s, 'v) runner" where
  "clearGauge edgeID rn = rn\<lparr>rn_activeEdges := AList.delete edgeID (rn_activeEdges rn)\<rparr>"

text \<open>The guarded call of the component and the ledger record after it.\<close>

definition handle_message ::
  "('w, 'v, 'f) renv \<Rightarrow> ('s, 'v) component \<Rightarrow> ('w, 'v) handler option \<Rightarrow> 'v msg \<Rightarrow> string \<Rightarrow> 'v \<Rightarrow> run option
     \<Rightarrow> ('s, 'v) runner \<times> 'w \<Rightarrow> (('s, 'v) runner \<times> 'w) \<times> 'v any \<times> go_error option" where
  "handle_message E C handler m name data ctx st =
     (case st of (rn, w) \<Rightarrow>
        (let rn1 = setGauge (e_started E div 10 ^ 9) (msg_EdgeID m) rn;
             ((rn2, resp0), handled) = dispatchCapability C rn1 name data;
             ((rn3, w3, run3), resp, err) =
               (if handled then ((rn2, w, ctx), resp0, result_Err resp0)
                else run_prog E C handler (cp_Handle C (rn_comp rn2) ctx name data) (rn2, w, ctx));
             rn4 = clearGauge (msg_EdgeID m) rn3;
             ctx' = (case ctx of None \<Rightarrow> None | Some _ \<Rightarrow> run3)
         in (writeStepRecord E ctx' err (rn4, w3), result_Value resp, err)))"

definition MsgHandler ::
  "('w, 'v, 'f) renv \<Rightarrow> ('s, 'v) component \<Rightarrow> ('w, 'v) handler option \<Rightarrow> run option \<Rightarrow> 'v msg
     \<Rightarrow> ('s, 'v) runner \<times> 'w \<Rightarrow> (('s, 'v) runner \<times> 'w) \<times> 'v any \<times> go_error option" where
  "MsgHandler E C handler ctx m st =
     (case st of (rn, w) \<Rightarrow>
        (let name = snd (ParseFullPortName (msg_To m))
         in if name = [] then (st, ANil, Some (ErrNew ''input port is empty''))
            else
              (case run_identity E rn w ctx m name of
                 None \<Rightarrow> (st, ANil, None)
               | Some ctx1 \<Rightarrow>
                 (let (rn1, ports) = getPorts C rn
                  in case find_port name ports of
                       None \<Rightarrow> ((rn1, w), ANil, None)
                     | Some np \<Rightarrow>
                       (case pt_Configuration np of
                          None \<Rightarrow> ((rn1, w), ANil, None)
                        | Some conf \<Rightarrow>
                          (case port_data E rn1 m name conf of
                             Inl err \<Rightarrow> ((rn1, w), ANil, Some err)
                           | Inr data \<Rightarrow>
                             if settings_skip E rn1 name data then ((rn1, w), ANil, None)
                             else
                               (let rn2 = remember_settings E rn1 name data
                                in case e_uuidErr E of
                                     Some err \<Rightarrow> ((rn2, w), ANil, Some err)
                                   | None \<Rightarrow> handle_message E C handler m name data ctx1 (rn2, w))))))))"

subsection \<open>What a delivery leaves alone\<close>

text \<open>The parts of a runner that no emission and no component call changes.\<close>

definition same_identity :: "('s, 'v) runner \<Rightarrow> ('s, 'v) runner \<Rightarrow> bool" where
  "same_identity rn rn' =
     (rn_node rn' = rn_node rn \<and> rn_name rn' = rn_name rn \<and> rn_execDurable rn' = rn_execDurable rn \<and>
      rn_state rn' = rn_state rn \<and> rn_meta rn' = rn_meta rn \<and> rn_declaredSecrets rn' = rn_declaredSecrets rn)"

lemma same_identity_refl [simp]: "same_identity rn rn"
  by (simp add: same_identity_def)

lemma same_identity_trans: "same_identity a b \<Longrightarrow> same_identity b c \<Longrightarrow> same_identity a c"
  by (simp add: same_identity_def)

lemma getPorts_identity: "same_identity rn (fst (getPorts C rn))"
  by (simp add: getPorts_def getNodePorts_def same_identity_def Let_def split: option.splits)

lemma outputHandler_identity:
  "same_identity rn (fst (fst (outputHandler E C handler name data (rn, w, run))))"
  using getPorts_identity [of rn C]
  by (simp add: outputHandler_def case_prod_unfold Let_def same_identity_def split: sum.split option.split)

lemma DataHandler_identity:
  "same_identity rn (fst (fst (DataHandler E C handler name data (rn, w, run))))"
proof -
  have "same_identity rn (fst (fst (outputHandler E C handler name data (rn, w, run))))"
    by (rule outputHandler_identity)
  then show ?thesis
    by (auto simp: DataHandler_def debounce_patch_def InvalidatePortCache_def same_identity_def case_prod_unfold
        Let_def split: option.split any.split)
qed

lemma run_prog_identity:
  "same_identity (fst st) (fst (fst (run_prog E C handler p st)))"
proof (induction p arbitrary: st)
  case (Ret s r)
  then show ?case by (simp add: same_identity_def case_prod_unfold)
next
  case (Emit s name data k)
  obtain rn w run where st: "st = (rn, w, run)" by (cases st)
  let ?d = "DataHandler E C handler name data (rn\<lparr>rn_comp := s\<rparr>, w, run)"
  have "same_identity rn (rn\<lparr>rn_comp := s\<rparr>)" by (simp add: same_identity_def)
  moreover have "same_identity (rn\<lparr>rn_comp := s\<rparr>) (fst (fst ?d))" by (rule DataHandler_identity)
  moreover have "same_identity (fst (fst ?d)) (fst (fst (run_prog E C handler (k (snd ?d)) (fst ?d))))"
    by (rule Emit.IH) (rule rangeI)
  ultimately show ?case by (auto simp: st case_prod_unfold intro: same_identity_trans)
next
  case (StartRun uuid subject target deadline k)
  obtain rn w run where st: "st = (rn, w, run)" by (cases st)
  have "same_identity rn (fst (fst (run_prog E C handler (k i) (rn, w, r))))" for i r
    using StartRun.IH [OF rangeI [of k i], of "(rn, w, r)"] by simp
  then show ?case by (simp add: st case_prod_unfold)
next
  case (Panic s e)
  then show ?case by (simp add: same_identity_def case_prod_unfold)
qed

lemma call_capability_identity: "same_identity rn (fst (call_capability cap data rn))"
  by (auto simp: call_capability_def same_identity_def split: option.splits prod.splits)

lemma dispatchCapability_identity: "same_identity rn (fst (fst (dispatchCapability C rn name data)))"
  by (simp add: dispatchCapability_def call_capability_identity)

text \<open>
  Where a delivery reaches the component: the port, the payload, the run context and the runner as it
  then stands.
\<close>

definition accepts ::
  "('w, 'v, 'f) renv \<Rightarrow> ('s, 'v) component \<Rightarrow> run option \<Rightarrow> 'v msg \<Rightarrow> ('s, 'v) runner \<times> 'w
     \<Rightarrow> (string \<times> 'v \<times> run option \<times> ('s, 'v) runner) option" where
  "accepts E C ctx m st =
     (case st of (rn, w) \<Rightarrow>
        (let name = snd (ParseFullPortName (msg_To m)); (rn1, ports) = getPorts C rn
         in case (run_identity E rn w ctx m name, find_port name ports) of
              (Some ctx1, Some np) \<Rightarrow>
                (case pt_Configuration np of
                   None \<Rightarrow> None
                 | Some conf \<Rightarrow>
                   (case port_data E rn1 m name conf of
                      Inl _ \<Rightarrow> None
                    | Inr data \<Rightarrow>
                      if name = [] \<or> settings_skip E rn1 name data \<or> e_uuidErr E \<noteq> None then None
                      else Some (name, data, ctx1, remember_settings E rn1 name data)))
            | _ \<Rightarrow> None))"

lemma MsgHandler_accepts:
  "accepts E C ctx m (rn, w) = Some (name, data, ctx1, rn2) \<Longrightarrow>
   MsgHandler E C handler ctx m (rn, w) = handle_message E C handler m name data ctx1 (rn2, w)"
  by (auto simp: accepts_def MsgHandler_def Let_def case_prod_unfold split: option.splits sum.splits if_splits)

lemma accepts_identity:
  "accepts E C ctx m (rn, w) = Some (name, data, ctx1, rn2) \<Longrightarrow> same_identity rn rn2"
  using getPorts_identity [of rn C]
  by (auto simp: accepts_def remember_settings_def Let_def case_prod_unfold same_identity_def
      split: option.splits sum.splits if_splits)

lemma accepts_run:
  "accepts E C ctx m (rn, w) = Some (name, data, ctx1, rn2) \<Longrightarrow> msg_RunID m \<noteq> [] \<Longrightarrow>
   name = snd (ParseFullPortName (msg_To m)) \<and> name \<noteq> [] \<and> ctx1 = Some (NewRun (msg_RunID m) (msg_StepKey m))"
  by (auto simp: accepts_def run_identity_def WithRun_def Let_def case_prod_unfold
      split: option.splits sum.splits if_splits)

text \<open>A component call keeps the identity of the run it was given.\<close>

definition same_run :: "run \<Rightarrow> run option \<Rightarrow> bool" where
  "same_run r x = (\<exists>r'. x = Some r' \<and> run_RunID r' = run_RunID r \<and> run_StepKey r' = run_StepKey r \<and>
     run_ReplySubject r' = run_ReplySubject r \<and> run_ReplyTarget r' = run_ReplyTarget r \<and>
     run_ReplyDeadline r' = run_ReplyDeadline r)"

lemma same_run_refl [simp]: "same_run r (Some r)"
  by (simp add: same_run_def)

lemma same_run_trans: "same_run r (Some r') \<Longrightarrow> same_run r' x \<Longrightarrow> same_run r x"
  by (auto simp: same_run_def)

lemma send_same_run:
  "ds_run d = Some r \<Longrightarrow> same_run r (ds_run (fst (sendToEdgeWithRetry h slp F edge f t b p d)))"
  by (auto simp: sendToEdge_conv case_prod_unfold Let_def same_run_def)

lemma fan_out_same_run:
  "ds_run d = Some r \<Longrightarrow> same_run r (ds_run (fst (fan_out h slp F isnil f b p es d)))"
proof (induction es arbitrary: d r)
  case (Cons e es)
  let ?d1 = "fst (sendToEdgeWithRetry h slp F e f (ed_To e) b p d)"
  obtain r1 where r1: "ds_run ?d1 = Some r1" "same_run r (Some r1)"
    using send_same_run [OF Cons.prems, of h slp F e f "ed_To e" b p] by (auto simp: same_run_def)
  show ?case using same_run_trans [OF r1(2) Cons.IH [OF r1(1)]] by (simp add: case_prod_unfold Let_def)
qed simp

lemma outputHandler_same_run:
  "same_run r (snd (snd (fst (outputHandler E C handler name data (rn, w, Some r)))))"
  by (auto simp: outputHandler_def case_prod_unfold Let_def intro!: send_same_run fan_out_same_run
      split: sum.split option.split)

lemma DataHandler_same_run:
  "same_run r (snd (snd (fst (DataHandler E C handler name data (rn, w, Some r)))))"
  using outputHandler_same_run [of r E C handler name data rn w]
  by (auto simp: DataHandler_def case_prod_unfold Let_def split: option.split any.split)

lemma run_prog_same_run:
  "same_run r (snd (snd (fst (run_prog E C handler p (rn, w, Some r)))))"
proof (induction p arbitrary: rn w r)
  case (Emit s name data k)
  let ?d = "DataHandler E C handler name data (rn\<lparr>rn_comp := s\<rparr>, w, Some r)"
  obtain rn1 w1 r1 where d: "fst ?d = (rn1, w1, Some r1)" "same_run r (Some r1)"
    using DataHandler_same_run [of r E C handler name data "rn\<lparr>rn_comp := s\<rparr>" w]
    by (cases "fst ?d") (auto simp: same_run_def)
  have "same_run r1 (snd (snd (fst (run_prog E C handler (k (snd ?d)) (rn1, w1, Some r1)))))"
    by (rule Emit.IH) (rule rangeI)
  then show ?case using d same_run_trans by (simp add: case_prod_unfold)
next
  case (StartRun uuid subject target deadline k)
  then show ?case by (simp add: BeginRunWithReply_def RunFrom_def)
qed simp_all

subsection \<open>Lemmas on the ledger\<close>

lemma exec_handle_router:
  "e_has_kv E \<Longrightarrow> i \<noteq> [] \<Longrightarrow> exec_handle E RouterHandle i = ExecHandle (newExecState i)"
  by (simp add: exec_handle_def)

text \<open>After a step record is written, the step counts as recorded for every later delivery.\<close>

lemma writeStepRecord_recorded:
  assumes "kv_stores (e_kv E)" "e_has_kv E" "e_encode_record E (step_record_of E rn r err) = Some b"
    and "rn_state rn = Some RouterHandle" "run_RunID r \<noteq> []" "run_StepKey r \<noteq> []"
    and "writeStepRecord E (Some r) err (rn, w) = (rn', w')"
    and "e_kv E' = e_kv E" "e_has_kv E'" "msg_RunID m = run_RunID r" "msg_StepKey m = run_StepKey r"
  shows "rn' = rn \<and> step_recorded E' rn' w' m"
proof -
  let ?k = "full_key (newExecState (run_RunID r)) (StepLedgerKey (run_StepKey r))"
  obtain w1 where w1: "kv_put (e_kv E) w ?k b = (w1, None)"
    using assms(1) unfolding kv_stores_def by (metis prod.collapse)
  have "rn' = rn" "w' = w1"
    using assms(7) w1 by (auto simp: writeStepRecord_def RunFrom_def assms(3,4) exec_handle_router [OF assms(2,5)]
        JetStreamState_Set_def)
  moreover have "kv_get (e_kv E) w1 ?k = Inr b"
    using kv_lawfulD(1) [OF _ w1] assms(1) by (simp add: kv_stores_def)
  ultimately show ?thesis
    using assms(4,5,6) by (simp add: step_recorded_def assms(8-11) exec_handle_router JetStreamState_Get_def)
qed

lemma MsgHandler_recorded:
  "snd (ParseFullPortName (msg_To m)) \<noteq> [] \<Longrightarrow> msg_RunID m \<noteq> [] \<Longrightarrow> step_recorded E rn w m \<Longrightarrow>
   MsgHandler E C handler ctx m (rn, w) = ((rn, w), ANil, None)"
  by (simp add: MsgHandler_def run_identity_def Let_def)

text \<open>A delivery that reaches the component ends with the write of its ledger record.\<close>

lemma handle_message_writes:
  assumes "handle_message E C handler m name data (Some r) (rn, w) = ((rn', w'), res, err)"
  shows "\<exists>rn4 w3 r3. same_identity rn rn4 \<and> same_run r (Some r3) \<and>
     writeStepRecord E (Some r3) err (rn4, w3) = (rn', w')"
proof -
  let ?rn1 = "setGauge (e_started E div 10 ^ 9) (msg_EdgeID m) rn"
  let ?d = "dispatchCapability C ?rn1 name data"
  let ?rn2 = "fst (fst ?d)"
  define out where "out = (if snd ?d then ((?rn2, w, Some r), snd (fst ?d), result_Err (snd (fst ?d)))
      else run_prog E C handler (cp_Handle C (rn_comp ?rn2) (Some r) name data) (?rn2, w, Some r))"
  have "same_identity rn ?rn1" by (simp add: setGauge_def same_identity_def)
  moreover have "same_identity ?rn1 ?rn2" by (rule dispatchCapability_identity)
  moreover have "same_identity ?rn2 (fst (fst out))"
    using run_prog_identity [of "(?rn2, w, Some r)" E C handler] by (simp add: out_def)
  moreover have "same_identity (fst (fst out)) (clearGauge (msg_EdgeID m) (fst (fst out)))"
    by (simp add: clearGauge_def same_identity_def)
  ultimately have "same_identity rn (clearGauge (msg_EdgeID m) (fst (fst out)))"
    by (blast intro: same_identity_trans)
  moreover have "same_run r (snd (snd (fst out)))"
    using run_prog_same_run [of r E C handler _ ?rn2 w] by (simp add: out_def)
  moreover have "writeStepRecord E (snd (snd (fst out))) err (clearGauge (msg_EdgeID m) (fst (fst out)), fst (snd (fst out))) = (rn', w')"
    using assms by (auto simp: handle_message_def out_def case_prod_unfold Let_def)
  moreover from calculation(2) obtain r3 where "snd (snd (fst out)) = Some r3" by (auto simp: same_run_def)
  ultimately show ?thesis by auto
qed

text \<open>A durable hop that reached its component counts as recorded afterwards.\<close>

lemma delivered_hop_recorded:
  assumes "kv_stores (e_kv E)" and "e_has_kv E" and "\<And>rec. e_encode_record E rec \<noteq> None"
    and "rn_state rn = Some RouterHandle" and "msg_RunID m \<noteq> []" and "msg_StepKey m \<noteq> []"
    and "accepts E C ctx m (rn, w) = Some (name, data, ctx1, rn2)"
    and "e_kv E' = e_kv E" and "e_has_kv E'"
    and "MsgHandler E C handler ctx m (rn, w) = ((rn', w'), res, err)"
  shows "snd (ParseFullPortName (msg_To m)) \<noteq> [] \<and> step_recorded E' rn' w' m"
proof -
  let ?r = "NewRun (msg_RunID m) (msg_StepKey m)"
  have n: "name = snd (ParseFullPortName (msg_To m))" "name \<noteq> []" "ctx1 = Some ?r"
    using accepts_run [OF assms(7,5)] by blast+
  have "handle_message E C handler m name data (Some ?r) (rn2, w) = ((rn', w'), res, err)"
    using MsgHandler_accepts [OF assms(7)] n(3) assms(10) by simp
  from handle_message_writes [OF this] obtain rn4 w3 r3 where
    x: "same_identity rn2 rn4" "same_run ?r (Some r3)" "writeStepRecord E (Some r3) err (rn4, w3) = (rn', w')"
    by blast
  have r3: "run_RunID r3 = msg_RunID m" "run_StepKey r3 = msg_StepKey m"
    using x(2) by (simp_all add: same_run_def NewRun_def)
  obtain b where b: "e_encode_record E (step_record_of E rn4 r3 err) = Some b" using assms(3) by blast
  have st: "rn_state rn4 = Some RouterHandle"
    using accepts_identity [OF assms(7)] x(1) assms(4) by (simp add: same_identity_def)
  have "step_recorded E' rn' w' m"
    by (rule writeStepRecord_recorded [THEN conjunct2, OF assms(1,2) b st _ _ x(3) assms(8,9)])
      (simp_all add: r3 assms(5,6))
  then show ?thesis using n(1,2) by simp
qed

subsection \<open>Properties of deliveries\<close>

text \<open>C1: a durable hop runs at most once. If a delivery of a hop reaches the component, on a bucket that
  stores what it is given and with records that encode, then every later delivery of the same message to
  the runner as it was left, by whatever transport and at whatever time, changes nothing and reports
  success without calling the component, also when the first delivery failed.\<close>

theorem durable_hop_at_most_once:
  assumes "kv_stores (e_kv E)" and "e_has_kv E" and "\<And>rec. e_encode_record E rec \<noteq> None"
    and "rn_state rn = Some RouterHandle" and "msg_RunID m \<noteq> []" and "msg_StepKey m \<noteq> []"
    and "accepts E C ctx m (rn, w) = Some (name, data, ctx1, rn2)"
    and "e_kv E' = e_kv E" and "e_has_kv E'"
  shows "MsgHandler E' C handler' ctx' m (fst (MsgHandler E C handler ctx m (rn, w))) =
     (fst (MsgHandler E C handler ctx m (rn, w)), ANil, None)"
proof -
  obtain rn' w' res err where mh: "MsgHandler E C handler ctx m (rn, w) = ((rn', w'), res, err)"
    by (metis prod.collapse)
  from delivered_hop_recorded [OF assms mh] have "MsgHandler E' C handler' ctx' m (rn', w') = ((rn', w'), ANil, None)"
    using assms(5) by (blast intro: MsgHandler_recorded)
  then show ?thesis unfolding mh by simp
qed

text \<open>A runner of a component that forwards what it gets, for the concrete cases below.\<close>

definition sample_component :: "(nat, string) component" where
  "sample_component =
     \<lparr>cp_Name = ''echo'', cp_Description = [], cp_Info = [], cp_Tags = [],
      cp_Ports = (\<lambda>_. [\<lparr>pt_Name = ''in'', pt_Label = [], pt_Position = 0, pt_Source = False, pt_Schema = None,
         pt_Configuration = Some ''{}'', pt_ResponseConfiguration = None\<rparr>]),
      cp_Handle = (\<lambda>n ctx name v. Emit (n + 1) ''out'' (AVal v) (\<lambda>r. Ret (n + 1) r)),
      cp_OnSettings = None, cp_OnControl = None, cp_OnDestroy = None\<rparr>"

definition sample_env :: "'w kv \<Rightarrow> 'w sleep \<Rightarrow> ('w, string, int) renv" where
  "sample_env kv slp =
     \<lparr>e_marshal = (\<lambda>x. case x of AVal v \<Rightarrow> Inr v | _ \<Rightarrow> Inr ''null''), e_unmarshal = (\<lambda>_ b. Inr b),
      e_ajson = sample_ajson, e_num = id, e_decode = (\<lambda>v j. Inr v),
      e_encode_record = (\<lambda>r. Some ''rec''), e_isnil = (\<lambda>_. False), e_hasSecret = (\<lambda>_. False),
      e_equal = (=), e_isUpdater = (\<lambda>_. False), e_codec = sample_codec, e_createSchema = (\<lambda>_. None),
      e_sched = (\<lambda>es. es), e_sleep = slp, e_floats = int_floats, e_kv = kv, e_has_kv = True,
      e_reader = None, e_now = 0, e_started = 0, e_completed = 1, e_duration = 1, e_uuid = ''u'',
      e_uuidErr = None\<rparr>"

definition sample_runner :: "(nat, string) runner" where
  "sample_runner =
     (fst (SetNode sample_codec (NewRunner 0 sample_node)
        (sample_node\<lparr>tn_Name := ''n'', tn_Edges := [sample_edge ''e1'' ''out'' ''x:in'']\<rparr>)))
     \<lparr>rn_state := Some RouterHandle\<rparr>"

definition sample_hop :: "string msg" where
  "sample_hop = (edge_msg (sample_edge ''e0'' ''out'' ''n:in'') ''m:out'' ''n:in'' ''hello'' None)
     \<lparr>msg_RunID := ''r1'', msg_StepKey := ''k1'', msg_ReplySubject := ''_INBOX.1'', msg_ReplyTarget := ''x:in''\<rparr>"

definition store_handler :: "(bytes gomap, string) handler" where
  "store_handler w m = (w, ANil, None)"

theorem durable_hop_at_most_once_witness:
  "MsgHandler (sample_env mem_kv no_sleep) sample_component (Some store_handler) None sample_hop
     (fst (MsgHandler (sample_env mem_kv no_sleep) sample_component (Some store_handler) None sample_hop (sample_runner, []))) =
   (fst (MsgHandler (sample_env mem_kv no_sleep) sample_component (Some store_handler) None sample_hop (sample_runner, [])),
    ANil, None)"
proof -
  let ?E = "sample_env mem_kv no_sleep :: (bytes gomap, string, int) renv"
  have acc: "accepts ?E sample_component None sample_hop (sample_runner, []) \<noteq> None"
    by code_simp
  then obtain name data ctx1 rn2 where
    a: "accepts ?E sample_component None sample_hop (sample_runner, []) = Some (name, data, ctx1, rn2)"
    by (metis not_None_eq prod_cases4)
  show ?thesis
    by (rule durable_hop_at_most_once [OF _ _ _ _ _ _ a])
      (simp_all add: sample_env_def mem_kv_stores sample_runner_def sample_hop_def edge_msg_def)
qed

subsection \<open>What a delivery sends\<close>

text \<open>An observed log grows only by messages that satisfy a predicate.\<close>

definition grows :: "('v msg \<Rightarrow> bool) \<Rightarrow> ('v msg \<times> go_error option) list \<Rightarrow> ('v msg \<times> go_error option) list \<Rightarrow> bool" where
  "grows P log log' = (\<exists>es. log' = log @ es \<and> list_all (\<lambda>a. P (fst a)) es)"

lemma grows_refl [simp]: "grows P log log"
  by (simp add: grows_def)

lemma grows_trans: "grows P a b \<Longrightarrow> grows P b c \<Longrightarrow> grows P a c"
  by (auto simp: grows_def)

text \<open>A message of the run \<open>r\<close>: its identity and its reply address.\<close>

definition of_run :: "run \<Rightarrow> 'v msg \<Rightarrow> bool" where
  "of_run r m = (msg_RunID m = run_RunID r \<and> msg_ReplySubject m = run_ReplySubject r \<and>
     msg_ReplyTarget m = run_ReplyTarget r \<and> msg_ReplyDeadline m = run_ReplyDeadline r)"

lemma of_run_same: "same_run r (Some r') \<Longrightarrow> grows (of_run r') a b = grows (of_run r) a b"
  by (auto simp: same_run_def of_run_def grows_def)

lemma of_run_New:
  "of_run (NewRun i k) m \<longleftrightarrow> msg_RunID m = i \<and> msg_ReplySubject m = [] \<and> msg_ReplyTarget m = [] \<and> msg_ReplyDeadline m = 0"
  by (simp add: of_run_def NewRun_def)

lemma send_grows:
  assumes "ds_run d = Some r"
  shows "grows (of_run r) (fst (ds_world d))
    (fst (ds_world (fst (sendToEdgeWithRetry (observed h) (unobserved slp) F edge f t b p d))))"
proof -
  obtain log w where lw: "ds_world d = (log, w)" by (cases "ds_world d")
  let ?m = "outgoing (Some r) edge f t b p"
  obtain n where n: "max_attempts (ed_RetryPolicy edge) = Suc n" using max_attempts_pos by blast
  obtain log' w' errs res err where loop: "retry_loop (observed h) (unobserved slp) F (ed_RetryPolicy edge) ?m 1
      (Suc n) None (log, w) = ((log', w'), errs, res, err)" by (metis prod.collapse)
  have "ds_world (fst (sendToEdgeWithRetry (observed h) (unobserved slp) F edge f t b p d)) = (log', w')"
    by (subst sendToEdge_run [where r = r and w = "(log', w')" and errs = errs and res = res and err = err])
      (simp_all only: lw n loop assms dispatch.simps fst_conv)
  moreover obtain es where "log' = log @ es" "attempts_of (ed_RetryPolicy edge) ?m err es"
    using retry_loop_attempts [OF loop] by blast
  moreover have "of_run r ?m" by (simp add: of_run_def outgoing_run_fields)
  ultimately show ?thesis by (auto simp: lw grows_def attempts_of_def list_all_iff)
qed

lemma fan_out_grows:
  "ds_run d = Some r \<Longrightarrow> grows (of_run r) (fst (ds_world d))
     (fst (ds_world (fst (fan_out (observed h) (unobserved slp) F isnil f b p es d))))"
proof (induction es arbitrary: d r)
  case (Cons e es)
  let ?d1 = "fst (sendToEdgeWithRetry (observed h) (unobserved slp) F e f (ed_To e) b p d)"
  obtain r1 where r1: "ds_run ?d1 = Some r1" "same_run r (Some r1)"
    using send_same_run [OF Cons.prems, of "observed h" "unobserved slp" F e f "ed_To e" b p]
    by (auto simp: same_run_def)
  have "grows (of_run r) (fst (ds_world d)) (fst (ds_world ?d1))" by (rule send_grows [OF Cons.prems])
  moreover have "grows (of_run r) (fst (ds_world ?d1))
      (fst (ds_world (fst (fan_out (observed h) (unobserved slp) F isnil f b p es ?d1))))"
    using Cons.IH [OF r1(1)] by (simp only: of_run_same [OF r1(2)])
  ultimately show ?case using grows_trans by (fastforce simp: case_prod_unfold Let_def)
qed simp

lemma DataHandler_grows:
  assumes "e_sleep E = unobserved slp"
  shows "grows (of_run r) (fst w) (fst (fst (snd (fst (DataHandler E C (Some (observed h)) name data (rn, w, Some r))))))"
proof -
  have "grows (of_run r) (fst w) (fst (fst (snd (fst (outputHandler E C (Some (observed h)) name data (rn, w, Some r))))))"
  proof (cases "e_marshal E data")
    case (Inr b)
    let ?d = "\<lparr>ds_world = w, ds_run = Some r, ds_inflight = rn_inflight rn\<rparr>"
    show ?thesis
    proof (cases "fst (ParseFullPortName name) = []")
      case True
      then show ?thesis using fan_out_grows [of ?d r] Inr assms
        by (simp add: outputHandler_def case_prod_unfold Let_def)
    next
      case False
      then show ?thesis using send_grows [of ?d r] Inr assms
        by (simp add: outputHandler_def case_prod_unfold Let_def)
    qed
  qed (simp add: outputHandler_def)
  then show ?thesis
    by (auto simp: DataHandler_def case_prod_unfold Let_def split: option.split any.split)
qed

lemma run_prog_grows:
  assumes "e_sleep E = unobserved slp"
  shows "grows (of_run r) (fst w) (fst (fst (snd (fst (run_prog E C (Some (observed h)) p (rn, w, Some r))))))"
proof (induction p arbitrary: rn w r)
  case (Emit s name data k)
  let ?d = "DataHandler E C (Some (observed h)) name data (rn\<lparr>rn_comp := s\<rparr>, w, Some r)"
  obtain rn1 w1 r1 where d: "fst ?d = (rn1, w1, Some r1)" "same_run r (Some r1)"
    using DataHandler_same_run [of r E C "Some (observed h)" name data "rn\<lparr>rn_comp := s\<rparr>" w]
    by (cases "fst ?d") (auto simp: same_run_def)
  have "grows (of_run r) (fst w) (fst w1)"
    using DataHandler_grows [OF assms, of r w C h name data "rn\<lparr>rn_comp := s\<rparr>"] d(1) by simp
  moreover have "grows (of_run r) (fst w1)
      (fst (fst (snd (fst (run_prog E C (Some (observed h)) (k (snd ?d)) (rn1, w1, Some r1))))))"
    using Emit.IH [OF rangeI, of r1 w1 "snd ?d" rn1] by (simp only: of_run_same [OF d(2)])
  ultimately show ?case using d(1) grows_trans by (fastforce simp: case_prod_unfold)
next
  case (StartRun uuid subject target deadline k)
  then show ?case by (simp add: BeginRunWithReply_def RunFrom_def)
qed simp_all

lemma writeStepRecord_log:
  "e_kv E = unobserved_kv kv \<Longrightarrow> fst (snd (writeStepRecord E ctx err (rn, w))) = fst w"
proof -
  assume "e_kv E = unobserved_kv kv"
  then have "fst (snd (fst (handle_Set rd now (e_kv E) (meta, w) hd key b))) = fst w" for rd now meta hd key b
    by (cases hd) (auto simp: JetStreamState_Set_def unobserved_kv_def case_prod_unfold Let_def)
  then show ?thesis by (simp add: writeStepRecord_def case_prod_unfold split: option.split)
qed

text \<open>C13: every hop a durable step sends continues its run, and none carries the reply address. For a
  message of a run, each message handed to the transport during the delivery carries the run's
  identifier; but the run is rebuilt from the identifier and the step key alone, so the reply subject and
  the reply target are empty on all of them, whatever the incoming message carried.\<close>

theorem emissions_continue_run:
  assumes "e_sleep E = unobserved slp" and "e_kv E = unobserved_kv kv" and "msg_RunID m \<noteq> []"
    and "MsgHandler E C (Some (observed h)) ctx m (rn, (log, w)) = ((rn', (log', w')), res, err)"
  shows "grows (\<lambda>m'. msg_RunID m' = msg_RunID m \<and> msg_ReplySubject m' = [] \<and> msg_ReplyTarget m' = []) log log'"
proof (cases "accepts E C ctx m (rn, (log, w))")
  case None
  then have "fst (snd (fst (MsgHandler E C (Some (observed h)) ctx m (rn, (log, w))))) = log"
    by (auto simp: accepts_def MsgHandler_def Let_def case_prod_unfold
        split: option.splits sum.splits if_splits)
  then show ?thesis using assms(4) by simp
next
  case (Some x)
  obtain name data ctx1 rn2 where x: "accepts E C ctx m (rn, (log, w)) = Some (name, data, ctx1, rn2)"
    using Some by (metis prod_cases4)
  let ?r = "NewRun (msg_RunID m) (msg_StepKey m)"
  have r: "ctx1 = Some ?r" using accepts_run [OF x assms(3)] by simp
  have "grows (of_run ?r) log (fst (snd (fst (handle_message E C (Some (observed h)) m name data (Some ?r) (rn2, (log, w))))))"
  proof -
    let ?rn1 = "setGauge (e_started E div 10 ^ 9) (msg_EdgeID m) rn2"
    let ?d = "dispatchCapability C ?rn1 name data"
    have "grows (of_run ?r) log (fst (fst (snd (fst (run_prog E C (Some (observed h)) p (fst (fst ?d), (log, w), Some ?r))))))" for p
      using run_prog_grows [OF assms(1), of ?r "(log, w)"] by simp
    then show ?thesis
      by (simp add: handle_message_def case_prod_unfold Let_def writeStepRecord_log [OF assms(2)])
  qed
  then show ?thesis
    using assms(4) MsgHandler_accepts [OF x] r by (auto simp: grows_def list_all_iff of_run_New)
qed

theorem emissions_continue_run_witness:
  "grows (\<lambda>m'. msg_RunID m' = ''r1'' \<and> msg_ReplySubject m' = [] \<and> msg_ReplyTarget m' = []) []
     (fst (snd (fst (MsgHandler (sample_env (unobserved_kv mem_kv) (unobserved no_sleep)) sample_component
        (Some (observed store_handler)) None sample_hop (sample_runner, ([], [])))))) \<and>
   map (\<lambda>a. msg_To (fst a)) (fst (snd (fst (MsgHandler (sample_env (unobserved_kv mem_kv) (unobserved no_sleep))
        sample_component (Some (observed store_handler)) None sample_hop (sample_runner, ([], [])))))) = [''x:in'']"
proof
  let ?E = "sample_env (unobserved_kv mem_kv) (unobserved no_sleep) :: ((string msg \<times> go_error option) list \<times> bytes gomap, string, int) renv"
  let ?r = "MsgHandler ?E sample_component (Some (observed store_handler)) None sample_hop (sample_runner, ([], []))"
  have eq: "?r = ((fst (fst ?r), (fst (snd (fst ?r)), snd (snd (fst ?r)))), fst (snd ?r), snd (snd ?r))" by simp
  have h: "e_sleep ?E = unobserved no_sleep" "e_kv ?E = unobserved_kv mem_kv" "msg_RunID sample_hop \<noteq> []"
    by (simp_all add: sample_env_def sample_hop_def)
  have "msg_RunID sample_hop = ''r1''" by (simp add: sample_hop_def)
  then show "grows (\<lambda>m'. msg_RunID m' = ''r1'' \<and> msg_ReplySubject m' = [] \<and> msg_ReplyTarget m' = []) [] (fst (snd (fst ?r)))"
    using emissions_continue_run [OF h eq] by simp
  show "map (\<lambda>a. msg_To (fst a)) (fst (snd (fst ?r))) = [''x:in'']"
    by (simp add: MsgHandler_def sample_hop_def edge_msg_def ParseFullPortName_def run_identity_def
        step_recorded_def sample_runner_def SetNode_def InvalidatePortCache_def NewRunner_def exec_handle_def
        sample_env_def unobserved_kv_def mem_kv_def JetStreamState_Get_def WithRun_def getPorts_def
        getNodePorts_def sample_component_def find_port_def port_data_def getPortConfig_def sample_node_def
        FromSignal_def settings_skip_def remember_settings_def SettingsPort_def handle_message_def
        setGauge_def dispatchCapability_def ControlPort_def ReconcilePort_def ClientPort_def IdentityPort_def
        DataHandler_def outputHandler_def sample_edge_def sendToEdgeWithRetry_def edge_msg_def stamp_def
        NextStepKey_def NewRun_def max_attempts_def defaultMaxAttempts_def numeral_3_eq_3 observed_def
        store_handler_def fan_in_def writeStepRecord_def RunFrom_def RecordEmit_def clearGauge_def
        JetStreamState_Set_def Ok_def Let_def NewPortConfig_def NewPortConfigWithSchema_def GetPortFullName_def)
qed

text \<open>System ports never reach \<open>Component.Handle\<close>. A delivery to one of the five system ports has the
  same effect and the same answer whatever the component's \<open>Handle\<close> does.\<close>

theorem system_ports_bypass_Handle:
  assumes "snd (ParseFullPortName (msg_To m)) \<in> {SettingsPort, ControlPort, ReconcilePort, ClientPort, IdentityPort}"
  shows "MsgHandler E (C\<lparr>cp_Handle := H\<rparr>) handler ctx m st = MsgHandler E C handler ctx m st"
proof -
  let ?C = "C\<lparr>cp_Handle := H\<rparr>" and ?name = "snd (ParseFullPortName (msg_To m))"
  have ports: "getPorts ?C = getPorts C" by (auto simp: getPorts_def getNodePorts_def Let_def split: option.split)
  have "dispatchCapability ?C rn ?name data = dispatchCapability C rn ?name data \<and>
      snd (dispatchCapability C rn ?name data)" for rn data
    using assms by (auto simp: dispatchCapability_def)
  then have hm: "handle_message E ?C handler m ?name data c s = handle_message E C handler m ?name data c s" for data c s
    by (simp add: handle_message_def case_prod_unfold Let_def)
  show ?thesis unfolding MsgHandler_def Let_def ports hm ..
qed

theorem system_ports_bypass_Handle_witness:
  "MsgHandler (sample_env mem_kv no_sleep) (sample_component\<lparr>cp_Handle := (\<lambda>n ctx name v. Panic n (ErrNew ''boom''))\<rparr>)
     (Some store_handler) None (sample_hop\<lparr>msg_To := ''n:_settings''\<rparr>) (sample_runner, []) =
   MsgHandler (sample_env mem_kv no_sleep) sample_component (Some store_handler) None
     (sample_hop\<lparr>msg_To := ''n:_settings''\<rparr>) (sample_runner, [])"
  by (rule system_ports_bypass_Handle) (simp add: ParseFullPortName_def SettingsPort_def)

text \<open>Replacing the node. The in-flight sends cancelled are exactly those of the edges the new node no
  longer has; the runner takes name, labels and declared secrets from the new node, and the next
  question about ports asks the component again.\<close>

theorem SetNode_spec:
  "set (snd (SetNode codec rn node)) =
     ed_ID ` set (tn_Edges (rn_node rn)) \<inter> set (rn_inflight rn) - ed_ID ` set (tn_Edges node) \<and>
   rn_node (fst (SetNode codec rn node)) = node \<and> rn_name (fst (SetNode codec rn node)) = tn_Name node \<and>
   (rn_execDurable (fst (SetNode codec rn node)) \<longleftrightarrow> get_label (tn_Labels node) ExecutionModeLabel = ''durable'') \<and>
   snd (getPorts C (fst (SetNode codec rn node))) = cp_Ports C (rn_comp rn)"
  by (auto simp: SetNode_def cancelRemovedEdges_def InvalidatePortCache_def getPorts_def getNodePorts_def
      ExecutionModeDurable_def Let_def)

text \<open>The published status. Its ports are the component's ports without the three internal ones, ordered
  by name, and each configuration in it went through the redaction of credentials.\<close>

theorem ReadStatus_spec:
  "map ps_Name (ns_Ports (snd (ReadStatus E C rn status))) =
     sort (filter (\<lambda>n. n \<notin> {ReconcilePort, ClientPort, IdentityPort}) (map pt_Name (cp_Ports C (rn_comp rn)))) \<and>
   list_all (\<lambda>p. ps_Configuration p = None \<or> (\<exists>data. ps_Configuration p = redactPortConfiguration (e_codec E) data))
     (ns_Ports (snd (ReadStatus E C rn status))) \<and>
   ns_Status (snd (ReadStatus E C rn status)) = ''OK'' \<and> ns_Metadata (snd (ReadStatus E C rn status)) = ns_Metadata status"
proof -
  let ?ps = "filter (\<lambda>p. pt_Name p \<notin> {ReconcilePort, ClientPort, IdentityPort}) (cp_Ports C (rn_comp rn))"
  have "map pt_Name (sort_key pt_Name ?ps) = sort (map pt_Name ?ps)"
    by (rule sym, rule properties_for_sort) simp_all
  moreover have "map pt_Name ?ps =
      filter (\<lambda>n. n \<notin> {ReconcilePort, ClientPort, IdentityPort}) (map pt_Name (cp_Ports C (rn_comp rn)))"
    by (simp add: filter_map comp_def)
  ultimately have names: "map pt_Name (sort_key pt_Name ?ps) =
      sort (filter (\<lambda>n. n \<notin> {ReconcilePort, ClientPort, IdentityPort}) (map pt_Name (cp_Ports C (rn_comp rn))))"
    by simp
  have conf: "ps_Configuration (port_status_of E p) = None \<or>
      (\<exists>data. ps_Configuration (port_status_of E p) = redactPortConfiguration (e_codec E) data)" for p
    by (auto simp: port_status_of_def split: option.splits sum.splits)
  have "ns_Ports (snd (ReadStatus E C rn status)) = map (port_status_of E) (sort_key pt_Name ?ps)"
    by (simp add: ReadStatus_def getNodePorts_def Let_def)
  moreover have "ps_Name \<circ> port_status_of E = pt_Name" by (auto simp: port_status_of_def)
  ultimately show ?thesis using names conf
    by (simp add: list_all_iff ReadStatus_def getNodePorts_def Let_def)
qed

end
