(* ===== verification/Scheduler_Model.thy ===== *)
theory Scheduler_Model
  imports Runner_Model
begin

section \<open>The scheduler\<close>

text \<open>
  \<open>src/internal/scheduler/scheduler.go\<close> and \<open>rpc.go\<close>: the registry of components, the running instances,
  the routing of messages to them and the reconciliation of a node with its instance.

  The components of a module share one state type \<open>'s\<close>. An instance is the component it was made from
  with its runner, under the name of its node. The calls of the external backoff library poll the
  instances until one answers or the library gives up; the states of the scheduler at these polls are
  an argument, since other goroutines change it meanwhile, and so is the error of a context that ends
  the wait. What a polling check caches is part of those states.
  The patch that a stopping instance flushes is returned. The emitter that a new instance is given has no counterpart: what a component
  emits through it outside a call of \<open>Handle\<close> is not represented.
\<close>

record node_identity =
  ni_NodeName :: string
  ni_Namespace :: string
  ni_FlowName :: string
  ni_ProjectName :: string

record ('s, 'v) module_component =
  mc_comp :: "('s, 'v) component"
  mc_Instance :: "'s option"
  mc_AgentTool :: "(string \<times> string) option"
  mc_OnIdentity :: "('s \<Rightarrow> node_identity \<Rightarrow> 's) option"
  mc_OnClient :: "('s \<Rightarrow> 's) option"
  mc_OnNATS :: "('s \<Rightarrow> bool \<Rightarrow> 's) option"
  mc_OnState :: "('s \<Rightarrow> state_handle \<Rightarrow> 's) option"
  mc_OnEmitter :: "('s \<Rightarrow> 's) option"
  mc_OnReconcile :: "('s \<Rightarrow> tiny_node \<Rightarrow> 's \<times> go_error option) option"

type_synonym ('s, 'v) node_instance = "('s, 'v) module_component \<times> ('s, 'v) runner"

record ('s, 'v) schedule =
  sc_components :: "('s, 'v) module_component gomap"
  sc_instances :: "('s, 'v) node_instance gomap"
  sc_hasClient :: bool
  sc_js :: bool
  sc_factory :: "state_handle option"

definition MaxMessageDepth :: int where "MaxMessageDepth = 256"

definition New :: "('s, 'v) schedule" where
  "New = \<lparr>sc_components = [], sc_instances = [], sc_hasClient = False, sc_js = False, sc_factory = None\<rparr>"

subsection \<open>The registry\<close>

definition Install :: "('s, 'v) module_component \<Rightarrow> ('s, 'v) schedule \<Rightarrow> ('s, 'v) schedule \<times> go_error option" where
  "Install c sc =
     (if cp_Name (mc_comp c) = [] then (sc, Some (ErrNew ''component name is invalid''))
      else (sc\<lparr>sc_components := AList.update (cp_Name (mc_comp c)) c (sc_components sc)\<rparr>, None))"

definition Destroy ::
  "string \<Rightarrow> ('s, 'v) schedule \<Rightarrow> ('s, 'v) schedule \<times> ('s, 'v) runner option \<times> (tiny_node \<times> 'v list) option" where
  "Destroy name sc =
     (case map_of (sc_instances sc) name of
        None \<Rightarrow> (sc, None, None)
      | Some (mc, rn) \<Rightarrow>
        (let (rn', patch) = Runner_Model.Stop (mc_comp mc) rn
         in (sc\<lparr>sc_instances := AList.delete name (sc_instances sc)\<rparr>, Some rn', patch)))"

definition HasInstance :: "('s, 'v) schedule \<Rightarrow> string \<Rightarrow> bool" where
  "HasInstance sc name = (map_of (sc_instances sc) name \<noteq> None)"

definition InstalledComponent :: "('s, 'v) schedule \<Rightarrow> string \<Rightarrow> ('s, 'v) module_component option" where
  "InstalledComponent sc name = map_of (sc_components sc) name"

definition destroy_of :: "string \<Rightarrow> string \<times> ('s, 'v) node_instance \<Rightarrow> ('s, 'v) schedule \<Rightarrow> ('s, 'v) schedule" where
  "destroy_of name item sc =
     (if cp_Name (mc_comp (fst (snd item))) = name then fst (Destroy (tn_Name (rn_node (snd (snd item)))) sc) else sc)"

definition Uninstall :: "string \<Rightarrow> ('s, 'v) schedule \<Rightarrow> ('s, 'v) schedule \<times> bool" where
  "Uninstall name sc =
     (if name = [] then (sc, False)
      else if map_of (sc_components sc) name = None then (sc, False)
      else (let sc1 = sc\<lparr>sc_components := AList.delete name (sc_components sc)\<rparr>
            in (fold (destroy_of name) (sc_instances sc1) sc1, True)))"

subsection \<open>Calls of a component as a tool\<close>

definition portConfigurationType :: "'v port list \<Rightarrow> string \<Rightarrow> go_error + 'v" where
  "portConfigurationType ports portName =
     (case find_port portName ports of
        None \<Rightarrow> Inl (ErrNew (''port '' @ quoted portName @ '' not found on component''))
      | Some p \<Rightarrow>
        (case pt_Configuration p of
           None \<Rightarrow> Inl (ErrNew (''port '' @ quoted portName @ '' has no Configuration shape''))
         | Some conf \<Rightarrow> Inr conf))"

record 'v rpc_capture =
  rc_port :: string
  rc_captured :: bool
  rc_payload :: "'v any"

definition rpcCapture_handler :: "string \<Rightarrow> 'v any \<Rightarrow> 'v rpc_capture \<Rightarrow> 'v rpc_capture \<times> 'v result" where
  "rpcCapture_handler name data c =
     (if name \<noteq> rc_port c then (c, Ok ANil)
      else if \<not> rc_captured c then (c\<lparr>rc_payload := data, rc_captured := True\<rparr>, Ok ANil)
      else (c, Ok ANil))"

text \<open>The component's program with the capture as its handler; \<open>None\<close> when it panics.\<close>

primrec run_rpc :: "('s, 'v) prog \<Rightarrow> run option \<times> 'v rpc_capture \<Rightarrow> ('v rpc_capture \<times> 'v result) option" where
  "run_rpc (Ret s r) = (\<lambda>(run, c). Some (c, r))"
| "run_rpc (Emit s name data k) = (\<lambda>(run, c).
     (case rpcCapture_handler name data c of (c', r) \<Rightarrow> run_rpc (k r) (run, c')))"
| "run_rpc (StartRun uuid subject target deadline k) = (\<lambda>(run, c).
     (case BeginRunWithReply uuid run subject target deadline of (run', i) \<Rightarrow> run_rpc (k i) (run', c)))"
| "run_rpc (Panic s e) = (\<lambda>(run, c). None)"

definition handleRPC ::
  "('w, 'v, 'f) renv \<Rightarrow> ('v \<Rightarrow> 'v) \<Rightarrow> run option \<Rightarrow> 'v msg \<Rightarrow> ('s, 'v) schedule \<Rightarrow> ('v any \<times> go_error option) option" where
  "handleRPC E zero ctx m sc =
     (let componentName = msg_To m
      in if componentName = [] then Some (ANil, Some (ErrNew ''rpc: msg.To is empty (need component name)''))
         else
           (case map_of (sc_components sc) componentName of
              None \<Rightarrow> Some (ANil, Some (ErrNew (''rpc: component '' @ quoted componentName @ '' not registered on this module'')))
            | Some c \<Rightarrow>
              (case mc_AgentTool c of
                 None \<Rightarrow> Some (ANil, Some (ErrNew (''rpc: component '' @ quoted componentName @ '' does not opt into AgentTool'')))
               | Some (inPort, outPort) \<Rightarrow>
                 (let inputPort = (if inPort = [] then ''in'' else inPort);
                      outputPort = (if outPort = [] then ''out'' else outPort)
                  in case mc_Instance c of
                       None \<Rightarrow> Some (ANil, Some (ErrNew (''rpc: '' @ componentName @ ''.Instance() returned nil'')))
                     | Some s \<Rightarrow>
                       (case portConfigurationType (cp_Ports (mc_comp c) s) inputPort of
                          Inl err \<Rightarrow> Some (ANil, Some (WrapError (''rpc: '' @ componentName @ '': '') err))
                        | Inr conf \<Rightarrow>
                          (case (if msg_Data m \<noteq> [] then e_unmarshal E conf (msg_Data m) else Inr (zero conf)) of
                             Inl err \<Rightarrow> Some (ANil, Some (WrapError (''rpc: unmarshal '' @ componentName @ '' input: '') err))
                           | Inr inp \<Rightarrow>
                             (case run_rpc (cp_Handle (mc_comp c) s ctx inputPort inp)
                                     (ctx, \<lparr>rc_port = outputPort, rc_captured = False, rc_payload = ANil\<rparr>) of
                                None \<Rightarrow> None
                              | Some (capture, result) \<Rightarrow>
                                Some (case result_Err result of
                                        Some err \<Rightarrow> (ANil, Some err)
                                      | None \<Rightarrow> if rc_captured capture then (rc_payload capture, None)
                                                else (result_Value result, None)))))))))"

subsection \<open>Routing\<close>

definition forward :: "int \<Rightarrow> ('w, 'v) handler \<Rightarrow> ('w, 'v) handler" where
  "forward depth h w m =
     (if snd (ParseFullPortName (msg_To m)) = [] then (w, ANil, Some (ErrNew ''empty port in handle's output''))
      else h w (m\<lparr>msg_Depth := depth + 1\<rparr>))"

definition sendMsg ::
  "('w, 'v, 'f) renv \<Rightarrow> ('w, 'v) handler \<Rightarrow> run option \<Rightarrow> 'v msg \<Rightarrow> ('s, 'v) node_instance \<Rightarrow> 'w
     \<Rightarrow> (('s, 'v) node_instance \<times> 'w) \<times> 'v any \<times> go_error option" where
  "sendMsg E h ctx m inst w =
     (let ((rn, w'), res, err) =
            MsgHandler E (mc_comp (fst inst)) (Some (forward (msg_Depth m) h)) ctx m (snd inst, w)
      in (((fst inst, rn), w'), res, err))"

datatype poll = PollOk | PollRetry go_error | PollStop go_error

text \<open>
  \<open>backoff.Retry\<close> over the states it polls: the first success or permanent error ends it; when the polls
  are used up it returns the error of the context, or else the last error. \<open>last\<close> is the error so far.
\<close>

fun backoff_Retry :: "('a \<Rightarrow> poll) \<Rightarrow> go_error option \<Rightarrow> 'a \<Rightarrow> 'a list \<Rightarrow> 'a \<times> go_error option" where
  "backoff_Retry op ctxErr sc views =
     (case op sc of
        PollOk \<Rightarrow> (sc, None)
      | PollStop err \<Rightarrow> (sc, Some err)
      | PollRetry err \<Rightarrow>
        (case views of
           [] \<Rightarrow> (sc, Some (case ctxErr of Some e \<Rightarrow> e | None \<Rightarrow> err))
         | v # vs \<Rightarrow> backoff_Retry op ctxErr v vs))"

declare backoff_Retry.simps [simp del]

definition poll_instance :: "string \<Rightarrow> ('s, 'v) schedule \<Rightarrow> poll" where
  "poll_instance nodeName sc =
     (if HasInstance sc nodeName then PollOk else PollRetry (ErrNew (''instance '' @ nodeName @ '' not found'')))"

definition poll_port :: "string \<Rightarrow> string \<Rightarrow> ('s, 'v) schedule \<Rightarrow> poll" where
  "poll_port nodeName name sc =
     (case map_of (sc_instances sc) nodeName of
        None \<Rightarrow> PollStop (ErrNew (''instance '' @ nodeName @ '' no longer exists''))
      | Some (mc, rn) \<Rightarrow>
        if snd (HasPort (mc_comp mc) rn name) then PollOk
        else PollRetry (ErrNew (''port '' @ name @ '' not ready on node '' @ nodeName)))"

text \<open>Running a message on the instance of a node; the instance is replaced by its new state.\<close>

definition deliver ::
  "('w, 'v, 'f) renv \<Rightarrow> ('w, 'v) handler \<Rightarrow> run option \<Rightarrow> 'v msg \<Rightarrow> string \<Rightarrow> ('s, 'v) schedule \<times> 'w
     \<Rightarrow> (('s, 'v) schedule \<times> 'w) \<times> 'v any \<times> go_error option" where
  "deliver E h ctx m nodeName st =
     (case st of (sc, w) \<Rightarrow>
        (case map_of (sc_instances sc) nodeName of
           None \<Rightarrow> (st, ANil, Some (ErrNew (''instance '' @ nodeName @ '' not found after retry'')))
         | Some inst \<Rightarrow>
           (let ((inst', w'), res, err) = sendMsg E h ctx m inst w
            in ((sc\<lparr>sc_instances := AList.update nodeName inst' (sc_instances sc)\<rparr>, w'), res, err))))"

definition depth_error :: go_error where
  "depth_error =
     PermanentError (ErrNew (''max message depth '' @ itoa MaxMessageDepth @ '' exceeded (possible cycle in flow graph)''))"

definition Handle ::
  "('w, 'v, 'f) renv \<Rightarrow> ('v \<Rightarrow> 'v) \<Rightarrow> ('w, 'v) handler \<Rightarrow> ('s, 'v) schedule list \<Rightarrow> ('s, 'v) schedule list \<Rightarrow> go_error option
     \<Rightarrow> run option \<Rightarrow> 'v msg \<Rightarrow> ('s, 'v) schedule \<times> 'w \<Rightarrow> ((('s, 'v) schedule \<times> 'w) \<times> 'v any \<times> go_error option) option" where
  "Handle E zero h views1 views2 ctxErr ctx m st =
     (case st of (sc, w) \<Rightarrow>
        if msg_Depth m > MaxMessageDepth then Some (st, ANil, Some depth_error)
        else if msg_Mode m = ''rpc'' then map_option (\<lambda>out. (st, out)) (handleRPC E zero ctx m sc)
        else
          (let (nodeName, name) = ParseFullPortName (msg_To m)
           in if name = ReconcilePort then Some (st, ANil, None)
              else
                (let (sc1, err1) = (if HasInstance sc nodeName then (sc, None)
                       else backoff_Retry (poll_instance nodeName) ctxErr sc views1)
                 in if err1 \<noteq> None
                    then Some ((sc1, w), ANil, Some (ErrNew (''instance '' @ nodeName @ '' not found after retry'')))
                    else
                      (let (sc2, err2) = (if poll_port nodeName name sc1 = PollOk then (sc1, None)
                             else backoff_Retry (poll_port nodeName name) ctxErr sc1 views2)
                       in case err2 of
                            Some err \<Rightarrow> Some ((sc2, w), ANil, Some err)
                          | None \<Rightarrow> Some (deliver E h ctx m nodeName (sc2, w))))))"

subsection \<open>Reconciling a node\<close>

definition call_opt :: "('s \<Rightarrow> 's) option \<Rightarrow> ('s, 'v) runner \<Rightarrow> ('s, 'v) runner" where
  "call_opt cap rn = (case cap of None \<Rightarrow> rn | Some f \<Rightarrow> rn\<lparr>rn_comp := f (rn_comp rn)\<rparr>)"

definition identity_of :: "tiny_node \<Rightarrow> node_identity" where
  "identity_of node =
     \<lparr>ni_NodeName = tn_Name node, ni_Namespace = tn_Namespace node,
      ni_FlowName = get_label (tn_Labels node) FlowNameLabel,
      ni_ProjectName = get_label (tn_Labels node) ProjectNameLabel\<rparr>"

text \<open>The instance of a node, made from the registered component when there is none.\<close>

definition get_or_create ::
  "json_codec \<Rightarrow> tiny_node \<Rightarrow> ('s, 'v) module_component \<Rightarrow> tiny_node \<Rightarrow> ('s, 'v) schedule
     \<Rightarrow> (('s, 'v) node_instance \<times> bool) option" where
  "get_or_create codec zeroNode cmp node sc =
     (case map_of (sc_instances sc) (tn_Name node) of
        Some inst \<Rightarrow> Some (inst, False)
      | None \<Rightarrow>
        (case mc_Instance cmp of
           None \<Rightarrow> None
         | Some s \<Rightarrow> Some ((cmp, fst (SetNode codec (NewRunner s zeroNode) node)), True)))"

text \<open>
  The capabilities in the order the scheduler calls them: identity, client, JetStream, and on the first
  update the state backend and the emitter.
\<close>

definition inject ::
  "('s, 'v) schedule \<Rightarrow> ('s, 'v) module_component \<Rightarrow> bool \<Rightarrow> tiny_node \<Rightarrow> ('s, 'v) runner \<Rightarrow> ('s, 'v) runner" where
  "inject sc mc isNew node rn =
     (let rn1 = call_opt (map_option (\<lambda>f s. f s (identity_of node)) (mc_OnIdentity mc)) rn;
          rn2 = (if sc_hasClient sc then call_opt (mc_OnClient mc) rn1 else rn1);
          rn3 = call_opt (map_option (\<lambda>f s. f s (sc_js sc)) (mc_OnNATS mc)) rn2
      in if isNew then
           (let rn4 = (case sc_factory sc of
                  None \<Rightarrow> rn3
                | Some backend \<Rightarrow>
                  call_opt (map_option (\<lambda>f s. f s backend) (mc_OnState mc))
                    (rn3\<lparr>rn_state := Some backend, rn_meta := NewMetadataState True\<rparr>))
            in call_opt (mc_OnEmitter mc) rn4)
         else rn3)"

definition settings_msg :: "tiny_node \<Rightarrow> 'v msg" where
  "settings_msg node =
     \<lparr>msg_EdgeID = [], msg_From = [], msg_To = GetPortFullName (tn_Name node) SettingsPort, msg_Data = ''{}'',
      msg_Depth = 0, msg_Mode = [], msg_RunID = [], msg_StepKey = [], msg_ReplySubject = [], msg_ReplyTarget = [],
      msg_ReplyDeadline = 0, msg_Resp = None\<rparr>"

definition roll_back ::
  "json_codec \<Rightarrow> tiny_node \<Rightarrow> go_error \<Rightarrow> ('s, 'v) runner \<Rightarrow> tiny_node \<Rightarrow> ('s, 'v) runner \<times> tiny_node" where
  "roll_back codec nodeBackup err rn node =
     (fst (SetNode codec rn nodeBackup),
      node\<lparr>tn_Status := (tn_Status node)\<lparr>ns_Status := err_msg err, ns_Error := True\<rparr>\<rparr>)"

definition put_instance :: "string \<Rightarrow> ('s, 'v) node_instance \<Rightarrow> ('s, 'v) schedule \<Rightarrow> ('s, 'v) schedule" where
  "put_instance name inst sc = sc\<lparr>sc_instances := AList.update name inst (sc_instances sc)\<rparr>"

definition call_reconcile ::
  "('s, 'v) module_component \<Rightarrow> tiny_node \<Rightarrow> ('s, 'v) runner \<Rightarrow> ('s, 'v) runner \<times> go_error option" where
  "call_reconcile mc node rn =
     (case mc_OnReconcile mc of
        None \<Rightarrow> (rn, None)
      | Some f \<Rightarrow> (case f (rn_comp rn) node of (s, e) \<Rightarrow> (rn\<lparr>rn_comp := s\<rparr>, e)))"

text \<open>The new node on its instance: the capabilities, the settings, and the status or the rollback.\<close>

definition apply_node ::
  "('w, 'v, 'f) renv \<Rightarrow> ('w, 'v) handler \<Rightarrow> run option \<Rightarrow> tiny_node \<Rightarrow> ('s, 'v) schedule \<Rightarrow> ('s, 'v) node_instance \<Rightarrow> bool
     \<Rightarrow> 'w \<Rightarrow> (('s, 'v) runner \<times> 'w) \<times> tiny_node" where
  "apply_node E h ctx node sc inst isNew w =
     (case inst of (mc, rn) \<Rightarrow>
        (let nodeBackup = rn_node rn;
             rn1 = inject sc mc isNew node (fst (SetNode (e_codec E) rn node));
             (rn2, rErr) = call_reconcile mc node rn1
         in case rErr of
              Some err \<Rightarrow> (let (rn3, node') = roll_back (e_codec E) nodeBackup err rn2 node in ((rn3, w), node'))
            | None \<Rightarrow>
              (let (((_, rn3), w'), _, err) = sendMsg E h ctx (settings_msg node) (mc, rn2) w
               in case err of
                    Some e \<Rightarrow> (let (rn4, node') = roll_back (e_codec E) nodeBackup e rn3 node in ((rn4, w'), node'))
                  | None \<Rightarrow>
                    (let (rn4, status) = ReadStatus E (mc_comp mc) rn3 (tn_Status node)
                     in ((rn4, w'), node\<lparr>tn_Status := status\<rparr>)))))"

text \<open>
  \<open>Update\<close>, with the node as it leaves it and the error it returns; \<open>None\<close> when it panics on a component
  that gives no instance.
\<close>

definition Update ::
  "('w, 'v, 'f) renv \<Rightarrow> tiny_node \<Rightarrow> ('w, 'v) handler \<Rightarrow> run option \<Rightarrow> tiny_node \<Rightarrow> ('s, 'v) schedule \<times> 'w
     \<Rightarrow> ((('s, 'v) schedule \<times> 'w) \<times> tiny_node \<times> go_error option) option" where
  "Update E zeroNode h ctx node st =
     (case st of (sc, w) \<Rightarrow>
        (case map_of (sc_components sc) (tn_Component node) of
           None \<Rightarrow> Some (st, node,
             NewPermanentError (Some (ErrNew (''component '' @ tn_Component node @ '' is not registered''))))
         | Some cmp \<Rightarrow>
           (case get_or_create (e_codec E) zeroNode cmp node sc of
              None \<Rightarrow> None
            | Some (inst, isNew) \<Rightarrow>
              (let ((rn', w'), node') = apply_node E h ctx node sc inst isNew w
               in Some ((put_instance (tn_Name node) (fst inst, rn') sc, w'), node', None)))))"

text \<open>Shutdown: every instance leaves the map and is stopped without \<open>OnDestroy\<close>.\<close>

definition stop_one ::
  "string \<Rightarrow> ('s, 'v) schedule \<times> (('s, 'v) runner \<times> (tiny_node \<times> 'v list) option) list
     \<Rightarrow> ('s, 'v) schedule \<times> (('s, 'v) runner \<times> (tiny_node \<times> 'v list) option) list" where
  "stop_one name st =
     (case map_of (sc_instances (fst st)) name of
        None \<Rightarrow> st
      | Some (mc, rn) \<Rightarrow>
        ((fst st)\<lparr>sc_instances := AList.delete name (sc_instances (fst st))\<rparr>, snd st @ [StopWithoutCleanup rn]))"

definition Start :: "('s, 'v) schedule \<Rightarrow> ('s, 'v) schedule \<times> (('s, 'v) runner \<times> (tiny_node \<times> 'v list) option) list" where
  "Start sc = fold stop_one (map fst (sc_instances sc)) (sc, [])"

subsection \<open>What a transport keeps, a delivery keeps\<close>

text \<open>
  An interface between the runner and what it calls: a transport, a wait and a bucket that keep an
  invariant of the outside world. Everything a delivery does to the world goes through them.
\<close>

locale world_invariant =
  fixes I :: "'w \<Rightarrow> bool" and h :: "('w, 'v) handler" and slp :: "'w sleep" and kv :: "'w kv"
  assumes h_keeps: "I w \<Longrightarrow> I (fst (h w m))"
    and sleep_keeps: "I w \<Longrightarrow> I (fst (slp w d))"
    and put_keeps: "I w \<Longrightarrow> I (fst (kv_put kv w k b))"
begin

lemma retry_loop_keeps: "I w \<Longrightarrow> I (fst (retry_loop h slp F policy m a n e w))"
proof (induction n arbitrary: a e w)
  case (Suc n)
  obtain w1 res err where h: "h w m = (w1, res, err)" by (metis prod_cases3)
  have w1: "I w1" using h_keeps [OF Suc.prems, of m] h by simp
  obtain w2 e2 where s: "slp w1 (backoffDelay F policy a) = (w2, e2)" by (metis prod.collapse)
  have w2: "I w2" using sleep_keeps [OF w1] s by (metis fst_conv)
  show ?case
    using w1 w2 Suc.IH [OF w2] by (auto simp: h s case_prod_unfold Let_def split: option.split)
qed simp

lemma send_keeps:
  "I (ds_world d) \<Longrightarrow> I (ds_world (fst (sendToEdgeWithRetry h slp F edge f t b p d)))"
  using retry_loop_keeps by (simp add: sendToEdgeWithRetry_def case_prod_unfold Let_def)

lemma fan_out_keeps: "I (ds_world d) \<Longrightarrow> I (ds_world (fst (fan_out h slp F isnil f b p es d)))"
proof (induction es arbitrary: d)
  case (Cons e es)
  then show ?case using send_keeps [OF Cons.prems, of F e f "ed_To e" b p] Cons.IH
    by (simp add: case_prod_unfold Let_def)
qed simp

lemma outputHandler_keeps:
  assumes "e_sleep E = slp" "I w"
  shows "I (fst (snd (fst (outputHandler E C (Some h) name data (rn, w, run)))))"
  using assms by (simp add: outputHandler_def case_prod_unfold Let_def send_keeps fan_out_keeps split: sum.split)

lemma DataHandler_keeps:
  assumes "e_sleep E = slp" "I w"
  shows "I (fst (snd (fst (DataHandler E C (Some h) name data (rn, w, run)))))"
  using assms(2) outputHandler_keeps [OF assms]
  by (auto simp: DataHandler_def case_prod_unfold Let_def split: option.split)

lemma run_prog_keeps:
  assumes "e_sleep E = slp"
  shows "I w \<Longrightarrow> I (fst (snd (fst (run_prog E C (Some h) p (rn, w, run)))))"
proof (induction p arbitrary: rn w run)
  case (Emit s name data k)
  let ?d = "DataHandler E C (Some h) name data (rn\<lparr>rn_comp := s\<rparr>, w, run)"
  have "I (fst (snd (fst ?d)))" by (rule DataHandler_keeps [OF assms Emit.prems])
  from Emit.IH [OF rangeI this, of "snd ?d" "fst (fst ?d)" "snd (snd (fst ?d))"]
  show ?case by (simp add: case_prod_unfold)
next
  case (StartRun uuid subject target deadline k)
  then show ?case using StartRun.IH [OF rangeI StartRun.prems] by (simp add: case_prod_unfold)
qed simp_all

lemma writeStepRecord_keeps:
  assumes "e_kv E = kv" "I w"
  shows "I (snd (writeStepRecord E ctx err (rn, w)))"
proof -
  have "I (snd (fst (handle_Set rd now (e_kv E) (meta, w) hd key b)))" for rd now meta hd key b
    using assms put_keeps
    by (cases hd) (auto simp: JetStreamState_Set_def case_prod_unfold Let_def)
  then show ?thesis using assms(2)
    by (simp add: writeStepRecord_def case_prod_unfold split: option.split)
qed

lemma MsgHandler_keeps:
  assumes "e_sleep E = slp" "e_kv E = kv" "I w"
  shows "I (snd (fst (MsgHandler E C (Some h) ctx m (rn, w))))"
proof (cases "accepts E C ctx m (rn, w)")
  case None
  then show ?thesis using assms(3)
    by (auto simp: accepts_def MsgHandler_def Let_def case_prod_unfold split: option.splits sum.splits if_splits)
next
  case (Some x)
  obtain name data ctx1 rn2 where x: "accepts E C ctx m (rn, w) = Some (name, data, ctx1, rn2)"
    using Some by (metis prod_cases4)
  show ?thesis
    unfolding MsgHandler_accepts [OF x] using assms(3)
    by (auto simp: handle_message_def case_prod_unfold Let_def
        intro!: writeStepRecord_keeps [OF assms(2)] run_prog_keeps [OF assms(1)])
qed

end

text \<open>The transport as the scheduler passes it on, over an observed log: what was sent has the depth of the message plus one.\<close>

definition sent_at :: "int \<Rightarrow> ('v msg \<times> go_error option) list \<times> 'w \<Rightarrow> bool" where
  "sent_at d w = list_all (\<lambda>a. msg_Depth (fst a) = d) (fst w)"

interpretation forwarded: world_invariant "sent_at (d + 1)" "forward d (observed h)" "unobserved slp" "unobserved_kv kv"
  for d :: int and h :: "('w, 'v) handler" and slp :: "'w sleep" and kv :: "'w kv"
  by unfold_locales
    (auto simp: sent_at_def forward_def observed_def unobserved_def unobserved_kv_def case_prod_unfold Let_def)

subsection \<open>Chains of hops\<close>

text \<open>
  One call of \<open>Handle\<close> with all it is given, and the messages it hands to the transport. In a chain each call
  handles a message that the call before it sent.
\<close>

record ('s, 'w, 'v, 'f) call =
  cl_env :: "(('v msg \<times> go_error option) list \<times> 'w, 'v, 'f) renv"
  cl_views1 :: "('s, 'v) schedule list"
  cl_views2 :: "('s, 'v) schedule list"
  cl_ctxErr :: "go_error option"
  cl_ctx :: "run option"
  cl_msg :: "'v msg"
  cl_sched :: "('s, 'v) schedule"
  cl_world :: 'w

definition sent :: "'w sleep \<Rightarrow> 'w kv \<Rightarrow> ('v \<Rightarrow> 'v) \<Rightarrow> ('w, 'v) handler \<Rightarrow> ('s, 'w, 'v, 'f) call \<Rightarrow> 'v msg list" where
  "sent slp kv zero h c =
     (case Handle ((cl_env c)\<lparr>e_sleep := unobserved slp, e_kv := unobserved_kv kv\<rparr>) zero (observed h)
             (cl_views1 c) (cl_views2 c) (cl_ctxErr c) (cl_ctx c) (cl_msg c) (cl_sched c, ([], cl_world c)) of
        None \<Rightarrow> []
      | Some r \<Rightarrow> map fst (fst (snd (fst r))))"

fun chain :: "'w sleep \<Rightarrow> 'w kv \<Rightarrow> ('v \<Rightarrow> 'v) \<Rightarrow> ('w, 'v) handler \<Rightarrow> ('s, 'w, 'v, 'f) call list \<Rightarrow> bool" where
  "chain slp kv zero h (c # d # cs) = (cl_msg d \<in> set (sent slp kv zero h c) \<and> chain slp kv zero h (d # cs))"
| "chain slp kv zero h _ = True"

lemma deliver_depth:
  assumes "e_sleep E = unobserved slp" "e_kv E = unobserved_kv kv"
  shows "sent_at (msg_Depth m + 1) (snd (fst (deliver E (observed h) ctx m n (sc, ([], w)))))"
proof -
  have nil: "sent_at (msg_Depth m + 1) ([], w)" by (simp add: sent_at_def)
  show ?thesis
    using forwarded.MsgHandler_keeps [OF assms nil] nil
    by (auto simp: deliver_def sendMsg_def case_prod_unfold Let_def split: option.split)
qed

text \<open>A call of \<open>Handle\<close> either leaves the world as it was or delivers a message within the depth limit.\<close>

lemma Handle_cases:
  assumes "Handle E zero h views1 views2 ctxErr ctx m (sc, w) = Some r"
  obtains "snd (fst r) = w"
  | sc' where "msg_Depth m \<le> MaxMessageDepth" "msg_Mode m \<noteq> ''rpc''"
      "r = deliver E h ctx m (fst (ParseFullPortName (msg_To m))) (sc', w)"
  using assms by (auto simp: Handle_def case_prod_unfold Let_def split: if_splits option.splits)

lemma sent_depth:
  assumes "m' \<in> set (sent slp kv zero h c)"
  shows "msg_Depth m' = msg_Depth (cl_msg c) + 1 \<and> msg_Depth (cl_msg c) \<le> MaxMessageDepth"
proof -
  let ?E = "(cl_env c)\<lparr>e_sleep := unobserved slp, e_kv := unobserved_kv kv\<rparr>"
  let ?H = "Handle ?E zero (observed h) (cl_views1 c) (cl_views2 c) (cl_ctxErr c) (cl_ctx c) (cl_msg c)
      (cl_sched c, ([], cl_world c))"
  from assms obtain r where r: "?H = Some r" and m': "m' \<in> set (map fst (fst (snd (fst r))))"
    by (cases ?H) (simp_all add: sent_def)
  show ?thesis
  proof (rule Handle_cases [OF r])
    assume "snd (fst r) = ([], cl_world c)"
    then show ?thesis using m' by simp
  next
    fix sc'
    assume le: "msg_Depth (cl_msg c) \<le> MaxMessageDepth"
      and rd: "r = deliver ?E (observed h) (cl_ctx c) (cl_msg c) (fst (ParseFullPortName (msg_To (cl_msg c)))) (sc', [], cl_world c)"
    have "sent_at (msg_Depth (cl_msg c) + 1) (snd (fst r))" unfolding rd by (rule deliver_depth) simp_all
    then show ?thesis using m' le by (auto simp: sent_at_def list_all_iff)
  qed
qed

lemma chain_depth:
  "chain slp kv zero h cs \<Longrightarrow> i < length cs \<Longrightarrow> msg_Depth (cl_msg (cs ! i)) = msg_Depth (cl_msg (hd cs)) + int i"
proof (induction slp kv zero h cs arbitrary: i rule: chain.induct)
  case (1 slp kv zero h c d cs)
  then show ?case using sent_depth [of "cl_msg d" slp kv zero h c] by (cases i) auto
qed auto

lemma chain_sent:
  "chain slp kv zero h cs \<Longrightarrow> Suc i < length cs \<Longrightarrow> cl_msg (cs ! Suc i) \<in> set (sent slp kv zero h (cs ! i))"
proof (induction slp kv zero h cs arbitrary: i rule: chain.induct)
  case (1 slp kv zero h c d cs)
  then show ?case by (cases i) auto
qed auto

subsection \<open>Instances and their nodes\<close>

lemma SetNode_node [simp]: "rn_node (fst (SetNode codec rn node)) = node"
  by (simp add: SetNode_def InvalidatePortCache_def Let_def)

lemma call_opt_node [simp]: "rn_node (call_opt cap rn) = rn_node rn"
  by (simp add: call_opt_def split: option.split)

lemma inject_node [simp]: "rn_node (inject sc mc isNew node rn) = rn_node rn"
  by (simp add: inject_def Let_def split: option.split)

lemma ReadStatus_node [simp]: "rn_node (fst (ReadStatus E C rn status)) = rn_node rn"
  by (simp add: ReadStatus_def getNodePorts_def Let_def)

lemma run_prog_node [simp]: "rn_node (fst (fst (run_prog E C h p (rn, w, ctx)))) = rn_node rn"
  using run_prog_identity [of "(rn, w, ctx)" E C h p] by (simp add: same_identity_def)

lemma writeStepRecord_node [simp]: "rn_node (fst (writeStepRecord E ctx err (rn, w))) = rn_node rn"
  by (simp add: writeStepRecord_def case_prod_unfold split: option.split)

lemma dispatchCapability_node [simp]: "rn_node (fst (fst (dispatchCapability C rn name data))) = rn_node rn"
  using dispatchCapability_identity [of rn C name data] by (simp add: same_identity_def)

lemma handle_message_node: "rn_node (fst (fst (handle_message E C h m name data ctx (rn, w)))) = rn_node rn"
  by (simp add: handle_message_def case_prod_unfold Let_def clearGauge_def setGauge_def)

lemma MsgHandler_node [simp]: "rn_node (fst (fst (MsgHandler E C h ctx m (rn, w)))) = rn_node rn"
proof (cases "accepts E C ctx m (rn, w)")
  case None
  then show ?thesis using getPorts_identity [of rn C]
    by (auto simp: accepts_def MsgHandler_def remember_settings_def same_identity_def Let_def case_prod_unfold
        split: option.splits sum.splits if_splits)
next
  case (Some x)
  obtain name data ctx1 rn2 where x: "accepts E C ctx m (rn, w) = Some (name, data, ctx1, rn2)"
    using Some by (metis prod_cases4)
  show ?thesis unfolding MsgHandler_accepts [OF x] handle_message_node
    using accepts_identity [OF x] by (simp add: same_identity_def)
qed

lemma sendMsg_instance:
  "fst (fst (fst (sendMsg E h ctx m (mc, rn) w))) = mc"
  "rn_node (snd (fst (fst (sendMsg E h ctx m (mc, rn) w)))) = rn_node rn"
  by (simp_all add: sendMsg_def case_prod_unfold Let_def)

text \<open>The instances: one for each name, and each runs the node it is filed under.\<close>

definition sched_inv :: "('s, 'v) schedule \<Rightarrow> bool" where
  "sched_inv sc =
     (distinct (map fst (sc_instances sc)) \<and> list_all (\<lambda>i. tn_Name (rn_node (snd (snd i))) = fst i) (sc_instances sc) \<and>
      distinct (map fst (sc_components sc)) \<and> list_all (\<lambda>c. cp_Name (mc_comp (snd c)) = fst c \<and> fst c \<noteq> []) (sc_components sc))"

lemma list_all_update:
  "list_all P xs \<Longrightarrow> P (k, v) \<Longrightarrow> list_all P (AList.update k v xs)"
  by (induction xs) auto

lemma list_all_delete: "list_all P xs \<Longrightarrow> list_all P (AList.delete k xs)"
  by (auto simp: list_all_iff AList.delete_eq)

lemma distinct_delete: "distinct (map fst xs) \<Longrightarrow> distinct (map fst (AList.delete k xs))"
  by (simp add: AList.delete_eq distinct_map_filter)

lemma sched_inv_New: "sched_inv New"
  by (simp add: sched_inv_def New_def)

lemma sched_inv_Install: "sched_inv sc \<Longrightarrow> sched_inv (fst (Install c sc))"
  by (simp add: sched_inv_def Install_def distinct_update list_all_update)

lemma sched_inv_Destroy: "sched_inv sc \<Longrightarrow> sched_inv (fst (Destroy name sc))"
  by (simp add: sched_inv_def Destroy_def case_prod_unfold Let_def list_all_delete distinct_delete split: option.split)

lemma sched_inv_put: "sched_inv sc \<Longrightarrow> tn_Name (rn_node (snd inst)) = name \<Longrightarrow> sched_inv (put_instance name inst sc)"
  by (simp add: sched_inv_def put_instance_def distinct_update list_all_update)

lemma sched_inv_node:
  "sched_inv sc \<Longrightarrow> map_of (sc_instances sc) name = Some (mc, rn) \<Longrightarrow> tn_Name (rn_node rn) = name"
  by (fastforce simp: sched_inv_def list_all_iff dest: map_of_SomeD)

lemma sched_inv_deliver: "sched_inv sc \<Longrightarrow> sched_inv (fst (fst (deliver E h ctx m name (sc, w))))"
proof (cases "map_of (sc_instances sc) name")
  case (Some inst)
  assume inv: "sched_inv sc"
  obtain mc rn where i: "map_of (sc_instances sc) name = Some (mc, rn)" using Some by (cases inst) auto
  have "sched_inv (put_instance name (fst (fst (sendMsg E h ctx m (mc, rn) w))) sc)"
    using sched_inv_node [OF inv i] by (intro sched_inv_put [OF inv]) (simp add: sendMsg_instance)
  then show ?thesis by (simp add: deliver_def i case_prod_unfold Let_def put_instance_def)
qed (simp add: deliver_def)

lemma backoff_keeps: "P sc \<Longrightarrow> list_all P views \<Longrightarrow> P (fst (backoff_Retry op ctxErr sc views))"
proof (induction views arbitrary: sc)
  case Nil
  then show ?case by (subst backoff_Retry.simps) (simp split: poll.split)
next
  case (Cons v vs)
  then show ?case by (subst backoff_Retry.simps) (simp split: poll.split)
qed

lemma sched_inv_Handle:
  assumes "sched_inv sc" "list_all sched_inv views1" "list_all sched_inv views2"
    and "Handle E zero h views1 views2 ctxErr ctx m (sc, w) = Some ((sc', w'), out)"
  shows "sched_inv sc'"
proof -
  let ?n = "fst (ParseFullPortName (msg_To m))" and ?p = "snd (ParseFullPortName (msg_To m))"
  let ?s1 = "if HasInstance sc ?n then (sc, None) else backoff_Retry (poll_instance ?n) ctxErr sc views1"
  let ?s2 = "if poll_port ?n ?p (fst ?s1) = PollOk then (fst ?s1, None) else backoff_Retry (poll_port ?n ?p) ctxErr (fst ?s1) views2"
  have s1: "sched_inv (fst ?s1)" using assms(1,2) backoff_keeps by auto
  have s2: "sched_inv (fst ?s2)" using s1 assms(3) backoff_keeps [of sched_inv "fst ?s1" views2] by simp
  have "sc' = sc \<or> sc' = fst ?s1 \<or> sc' = fst ?s2 \<or> sc' = fst (fst (deliver E h ctx m ?n (fst ?s2, w)))"
    using assms(4) unfolding Handle_def case_prod_unfold Let_def
    by (auto split: if_splits option.splits)
  then show ?thesis by (elim disjE) (simp_all only: assms(1) s1 s2 sched_inv_deliver)
qed

lemma Destroy_lookup:
  "map_of (sc_instances (fst (Destroy name sc))) = (map_of (sc_instances sc))(name := None)"
  by (auto simp: Destroy_def case_prod_unfold Let_def delete_conv' fun_eq_iff split: option.split)

lemma Destroy_components [simp]: "sc_components (fst (Destroy name sc)) = sc_components sc"
  by (simp add: Destroy_def case_prod_unfold Let_def split: option.split)

lemma destroy_all:
  assumes "sched_inv sc" "set items \<subseteq> set (sc_instances sc)" "distinct (map fst items)"
    and "\<And>k i. (k, i) \<in> set items \<Longrightarrow> map_of (sc_instances sc') k = Some i"
  shows "map_of (sc_instances (fold (destroy_of name) items sc')) =
      (\<lambda>k. case map_of items k of
             Some i \<Rightarrow> if cp_Name (mc_comp (fst i)) = name then None else map_of (sc_instances sc') k
           | None \<Rightarrow> map_of (sc_instances sc') k)
    \<and> sc_components (fold (destroy_of name) items sc') = sc_components sc'"
  using assms(2-4)
proof (induction items arbitrary: sc')
  case (Cons item items)
  obtain k mc rn where i: "item = (k, (mc, rn))" by (metis prod_cases3)
  have name: "tn_Name (rn_node rn) = k"
    using Cons.prems(1) assms(1) i by (fastforce simp: sched_inv_def list_all_iff)
  let ?s = "destroy_of name item sc'"
  have s: "map_of (sc_instances ?s) = (if cp_Name (mc_comp mc) = name then (map_of (sc_instances sc'))(k := None)
      else map_of (sc_instances sc'))" "sc_components ?s = sc_components sc'"
    by (simp_all add: destroy_of_def i name Destroy_lookup)
  have k: "k \<notin> fst ` set items" using Cons.prems(2) i by simp
  have "map_of (sc_instances ?s) k' = Some i'" if "(k', i') \<in> set items" for k' i'
    using Cons.prems(3) [of k' i'] that k s(1) by (auto simp: image_iff)
  then have IH: "map_of (sc_instances (fold (destroy_of name) items ?s)) =
      (\<lambda>k. case map_of items k of
             Some i \<Rightarrow> if cp_Name (mc_comp (fst i)) = name then None else map_of (sc_instances ?s) k
           | None \<Rightarrow> map_of (sc_instances ?s) k)
    \<and> sc_components (fold (destroy_of name) items ?s) = sc_components ?s"
    using Cons.prems(1,2) by (intro Cons.IH) auto
  have "map_of items k = None" using k by (simp add: map_of_eq_None_iff)
  then show ?case
    unfolding fold_simps IH [THEN conjunct1] IH [THEN conjunct2] s
    by (auto simp: i fun_eq_iff Cons.prems(3) split: option.split)
qed (auto simp: fun_eq_iff)

lemma Uninstall_lookup:
  assumes "sched_inv sc" "Uninstall name sc = (sc', True)"
  shows "map_of (sc_instances sc') k =
      (case map_of (sc_instances sc) k of
         Some i \<Rightarrow> if cp_Name (mc_comp (fst i)) = name then None else Some i
       | None \<Rightarrow> None)" (is ?A)
    and "map_of (sc_components sc') = (map_of (sc_components sc))(name := None)" (is ?B)
proof -
  let ?s = "sc\<lparr>sc_components := AList.delete name (sc_components sc)\<rparr>"
  have sc': "sc' = fold (destroy_of name) (sc_instances sc) ?s"
    using assms(2) by (auto simp: Uninstall_def Let_def split: if_splits)
  have d: "distinct (map fst (sc_instances sc))" using assms(1) by (simp add: sched_inv_def)
  have "map_of (sc_instances ?s) k = Some i" if "(k, i) \<in> set (sc_instances sc)" for k i
    using that d by simp
  from destroy_all [OF assms(1) subset_refl d this, of name] show ?A ?B
    by (simp_all add: sc' delete_conv' split: option.split)
qed

lemma sched_inv_fold: "sched_inv sc \<Longrightarrow> sched_inv (fold (destroy_of name) items sc)"
  by (induction items arbitrary: sc) (auto simp: destroy_of_def sched_inv_Destroy)

lemma sched_inv_Uninstall: "sched_inv sc \<Longrightarrow> sched_inv (fst (Uninstall name sc))"
proof -
  assume a: "sched_inv sc"
  have "sched_inv (sc\<lparr>sc_components := AList.delete name (sc_components sc)\<rparr>)"
    using a by (simp add: sched_inv_def list_all_delete distinct_delete)
  then show ?thesis using a by (simp add: Uninstall_def Let_def sched_inv_fold)
qed

subsection \<open>Updates\<close>

lemma call_reconcile_node [simp]: "rn_node (fst (call_reconcile mc node rn)) = rn_node rn"
  by (simp add: call_reconcile_def case_prod_unfold split: option.split)

lemma roll_back_node [simp]: "rn_node (fst (roll_back codec b err rn node)) = b"
  by (simp add: roll_back_def)

lemma roll_back_status [simp]:
  "snd (roll_back codec b err rn node) = node\<lparr>tn_Status := (tn_Status node)\<lparr>ns_Status := err_msg err, ns_Error := True\<rparr>\<rparr>"
  by (simp add: roll_back_def)

lemma ReadStatus_ok [simp]:
  "ns_Status (snd (ReadStatus E C rn status)) = ''OK''" "\<not> ns_Error (snd (ReadStatus E C rn status))"
  by (simp_all add: ReadStatus_def getNodePorts_def Let_def)

text \<open>The instance runs the new node when the status says OK, and the node it had when the status is an error.\<close>

lemma apply_node_outcome:
  "let r = apply_node E h ctx node sc (mc, rn) isNew w; rn' = fst (fst r); st = tn_Status (snd r)
   in rn_node rn' = node \<and> ns_Status st = ''OK'' \<and> \<not> ns_Error st \<or> rn_node rn' = rn_node rn \<and> ns_Error st"
proof -
  let ?r = "call_reconcile mc node (inject sc mc isNew node (fst (SetNode (e_codec E) rn node)))"
  let ?m = "sendMsg E h ctx (settings_msg node) (mc, fst ?r) w"
  show ?thesis
  proof (cases "snd ?r")
    case None
    then show ?thesis
      by (cases "snd (snd ?m)") (simp_all add: apply_node_def case_prod_unfold Let_def sendMsg_instance)
  qed (simp add: apply_node_def case_prod_unfold Let_def)
qed

lemma sched_inv_Update:
  assumes "sched_inv sc" and "Update E zeroNode h ctx node (sc, w) = Some ((sc', w'), node', err)"
  shows "sched_inv sc'"
proof (cases "map_of (sc_components sc) (tn_Component node)")
  case None
  then show ?thesis using assms by (simp add: Update_def)
next
  case (Some cmp)
  obtain mc rn isNew where g: "get_or_create (e_codec E) zeroNode cmp node sc = Some ((mc, rn), isNew)"
    using assms(2) Some by (auto simp: Update_def split: option.splits)
  have "tn_Name (rn_node rn) = tn_Name node"
    using g sched_inv_node [OF assms(1)] by (auto simp: get_or_create_def split: option.splits)
  moreover have "rn_node (fst (fst (apply_node E h ctx node sc (mc, rn) isNew w))) \<in> {node, rn_node rn}"
    using apply_node_outcome [of E h ctx node sc mc rn isNew w] by (auto simp: Let_def)
  ultimately have "sched_inv (put_instance (tn_Name node) (mc, fst (fst (apply_node E h ctx node sc (mc, rn) isNew w))) sc)"
    by (intro sched_inv_put [OF assms(1)]) auto
  moreover have "sc' = put_instance (tn_Name node) (mc, fst (fst (apply_node E h ctx node sc (mc, rn) isNew w))) sc"
    using assms(2) Some g by (simp add: Update_def case_prod_unfold Let_def)
  ultimately show ?thesis by simp
qed

subsection \<open>Repeated settings\<close>

text \<open>The parts of a runner that decide whether a settings message is skipped.\<close>

definition same_cache :: "('s, 'v) runner \<Rightarrow> ('s, 'v) runner \<Rightarrow> bool" where
  "same_cache rn rn' = (rn_nodePorts rn' = rn_nodePorts rn \<and> rn_portMsg rn' = rn_portMsg rn \<and> rn_node rn' = rn_node rn)"

lemma writeStepRecord_cache: "same_cache rn (fst (writeStepRecord E ctx err (rn, w)))"
  by (simp add: writeStepRecord_def same_cache_def case_prod_unfold split: option.split)

lemma call_capability_cache: "same_cache rn (fst (call_capability cap data rn))"
  by (simp add: call_capability_def same_cache_def case_prod_unfold split: option.split)

lemma handle_settings_cache:
  "same_cache rn (fst (fst (handle_message E C h m SettingsPort data ctx (rn, w))))"
proof -
  let ?rn1 = "setGauge (e_started E div 10 ^ 9) (msg_EdgeID m) rn"
  let ?c = "call_capability (cp_OnSettings C) data ?rn1"
  have "fst (fst (handle_message E C h m SettingsPort data ctx (rn, w))) =
      fst (writeStepRecord E (case ctx of None \<Rightarrow> None | Some _ \<Rightarrow> ctx) (result_Err (snd ?c)) (clearGauge (msg_EdgeID m) (fst ?c), w))"
    by (cases ctx) (simp_all add: handle_message_def dispatchCapability_def case_prod_unfold Let_def)
  then show ?thesis
    using call_capability_cache [of ?rn1 "cp_OnSettings C" data]
      writeStepRecord_cache [of "clearGauge (msg_EdgeID m) (fst ?c)" E "case ctx of None \<Rightarrow> None | Some _ \<Rightarrow> ctx" "result_Err (snd ?c)" w]
    by (simp add: same_cache_def clearGauge_def setGauge_def split: if_splits)
qed

lemma getPorts_cached: "rn_nodePorts (fst (getPorts C rn)) = Some (snd (getPorts C rn))"
  by (simp add: getPorts_def getNodePorts_def Let_def split: option.split)

lemma port_data_node: "rn_node rn' = rn_node rn \<Longrightarrow> port_data E rn' m name conf = port_data E rn m name conf"
  by (simp add: port_data_def getPortConfig_def)

lemma settings_redelivered:
  assumes "msg_RunID m = []" "accepts E C ctx m (rn, w) = Some (SettingsPort, data, ctx1, rn2)"
    and "e_equal E data data" "\<not> e_hasSecret E data" "same_cache rn2 rn'"
  shows "MsgHandler E C h ctx m (rn', w') = ((rn', w'), ANil, None)"
proof -
  let ?rn1 = "fst (getPorts C rn)" and ?ports = "snd (getPorts C rn)"
  obtain np conf where p: "find_port SettingsPort ?ports = Some np" "pt_Configuration np = Some conf"
      "port_data E ?rn1 m SettingsPort conf = Inr data" "rn2 = remember_settings E ?rn1 SettingsPort data"
    and name: "snd (ParseFullPortName (msg_To m)) = SettingsPort"
    using assms(2) by (auto simp: accepts_def Let_def case_prod_unfold split: option.splits sum.splits if_splits)
  have "rn_nodePorts rn' = Some ?ports" "rn_node rn' = rn_node ?rn1" "map_of (rn_portMsg rn') SettingsPort = Some data"
    using assms(5) p(4) getPorts_cached [of C rn] by (simp_all add: same_cache_def remember_settings_def Let_def update_Some_unfold)
  then have "getPorts C rn' = (rn', ?ports)" "port_data E rn' m SettingsPort conf = Inr data" "settings_skip E rn' SettingsPort data"
    using p(3) assms(3,4) port_data_node [of rn' ?rn1 E m SettingsPort conf]
    by (simp_all add: getPorts_def [of C rn'] settings_skip_def)
  moreover have "run_identity E rn' w' ctx m SettingsPort = Some ctx"
    using assms(1) by (simp add: run_identity_def SettingsPort_def has_prefix_def)
  ultimately show ?thesis using p(1,2) name by (simp add: MsgHandler_def Let_def SettingsPort_def)
qed

subsection \<open>Tool calls\<close>

text \<open>The emissions of a program each of which is answered with success, and its result.\<close>

primrec rpc_trace :: "('s, 'v) prog \<Rightarrow> run option \<Rightarrow> ((string \<times> 'v any) list \<times> 'v result) option" where
  "rpc_trace (Ret s r) = (\<lambda>run. Some ([], r))"
| "rpc_trace (Emit s name data k) = (\<lambda>run. map_option (\<lambda>(es, r). ((name, data) # es, r)) (rpc_trace (k (Ok ANil)) run))"
| "rpc_trace (StartRun uuid subject target deadline k) = (\<lambda>run.
     (case BeginRunWithReply uuid run subject target deadline of (run', i) \<Rightarrow> rpc_trace (k i) run'))"
| "rpc_trace (Panic s e) = (\<lambda>run. None)"

definition captured_of :: "'v rpc_capture \<Rightarrow> (string \<times> 'v any) list \<Rightarrow> 'v rpc_capture" where
  "captured_of c es =
     (if rc_captured c then c
      else case find (\<lambda>e. fst e = rc_port c) es of None \<Rightarrow> c | Some e \<Rightarrow> c\<lparr>rc_payload := snd e, rc_captured := True\<rparr>)"

lemma run_rpc_trace:
  "run_rpc p (run, c) = map_option (\<lambda>(es, r). (captured_of c es, r)) (rpc_trace p run)"
proof (induction p arbitrary: run c)
  case (Emit s name data k)
  have k: "rpcCapture_handler name data c = (captured_of c [(name, data)], Ok ANil)"
    by (simp add: rpcCapture_handler_def captured_of_def)
  have "captured_of (captured_of c [(name, data)]) es = captured_of c ((name, data) # es)" for es
    by (auto simp: captured_of_def split: option.split)
  then show ?case
    using Emit.IH [OF rangeI, of "Ok ANil" run "captured_of c [(name, data)]"]
    by (simp add: k option.map_comp comp_def case_prod_unfold)
next
  case (StartRun uuid subject target deadline k)
  then show ?case by (simp add: case_prod_unfold)
qed (simp_all add: captured_of_def)

subsection \<open>Reachable schedulers\<close>

text \<open>
  The states a scheduler can reach through its operations, whatever messages, nodes and components it is
  given. The states polled while a message waits for its instance are reachable themselves.
\<close>

inductive sched_reach :: "'f float_ops \<Rightarrow> ('s, 'v) schedule \<times> 'w \<Rightarrow> bool" for F :: "'f float_ops" where
  initial: "sched_reach F (New, w)"
| wired: "sched_reach F (sc, w) \<Longrightarrow> sched_reach F (sc\<lparr>sc_hasClient := a, sc_js := b, sc_factory := f\<rparr>, w)"
| installed: "sched_reach F (sc, w) \<Longrightarrow> sched_reach F (fst (Install c sc), w)"
| uninstalled: "sched_reach F (sc, w) \<Longrightarrow> sched_reach F (fst (Uninstall name sc), w)"
| destroyed: "sched_reach F (sc, w) \<Longrightarrow> sched_reach F (fst (Destroy name sc), w)"
| updated: "sched_reach F (sc, w) \<Longrightarrow> e_floats E = F \<Longrightarrow> Update E zeroNode h ctx node (sc, w) = Some (st, node', err) \<Longrightarrow>
    sched_reach F st"
| handled: "sched_reach F (sc, w) \<Longrightarrow> e_floats E = F \<Longrightarrow> (\<forall>v \<in> set (views1 @ views2). sched_reach F (v, vw v)) \<Longrightarrow>
    Handle E zero h views1 views2 ctxErr ctx m (sc, w) = Some (st, out) \<Longrightarrow> sched_reach F st"
| stopped: "sched_reach F (sc, w) \<Longrightarrow> sched_reach F (fst (Start sc), w)"

lemma sched_inv_stop: "sched_inv (fst st) \<Longrightarrow> sched_inv (fst (fold stop_one names st))"
proof (induction names arbitrary: st)
  case (Cons n names)
  have "sched_inv (fst (stop_one n st))"
    using Cons.prems by (auto simp: stop_one_def sched_inv_def list_all_delete distinct_delete split: option.split)
  then show ?case by (simp add: Cons.IH)
qed simp

lemma sched_inv_Start: "sched_inv sc \<Longrightarrow> sched_inv (fst (Start sc))"
  by (simp add: Start_def sched_inv_stop)

lemma sched_reach_inv: "sched_reach F st \<Longrightarrow> sched_inv (fst st)"
proof (induction rule: sched_reach.induct)
  case (wired sc w a b f)
  then show ?case by (simp add: sched_inv_def)
next
  case (updated sc w E zeroNode h ctx node st node' err)
  then show ?case using sched_inv_Update [of sc E zeroNode h ctx node w "fst st" "snd st"] by simp
next
  case (handled sc w E views1 views2 vw zero h ctxErr ctx m st out)
  then have "list_all sched_inv views1" "list_all sched_inv views2" by (auto simp: list_all_iff)
  then show ?case using handled sched_inv_Handle [of sc views1 views2 E zero h ctxErr ctx m w "fst st" "snd st" out] by simp
qed (auto simp: sched_inv_New sched_inv_Install sched_inv_Uninstall sched_inv_Destroy sched_inv_Start)

subsection \<open>Properties\<close>

text \<open>A message cannot travel for ever. In any chain of deliveries, where each call of \<open>Handle\<close> gets a message
  that the call before it sent, however the nodes are connected and whatever the components do, there are
  at most 258 calls: 257 that deliver, and one that refuses. The refusal leaves the scheduler and the world
  alone, and its error is permanent, so the sender's retry loop does not repeat the hop.\<close>

theorem message_chains_bounded:
  assumes "chain slp kv zero h cs" and "cs \<noteq> []" and "0 \<le> msg_Depth (cl_msg (hd cs))"
  shows "length cs \<le> 258 \<and>
    (msg_Depth m > MaxMessageDepth \<longrightarrow>
       Handle E zero h' views1 views2 ctxErr ctx m st = Some (st, ANil, Some depth_error) \<and> \<not> retried policy depth_error)"
proof
  show "length cs \<le> 258"
  proof (rule ccontr)
    assume "\<not> length cs \<le> 258"
    then have l: "Suc 257 < length cs" by simp
    have "msg_Depth (cl_msg (cs ! 257)) \<le> MaxMessageDepth"
      using sent_depth [OF chain_sent [OF assms(1) l]] by simp
    moreover have "msg_Depth (cl_msg (cs ! 257)) = msg_Depth (cl_msg (hd cs)) + 257"
      using chain_depth [OF assms(1), of 257] l by simp
    ultimately show False using assms(3) by (simp add: MaxMessageDepth_def)
  qed
  show "msg_Depth m > MaxMessageDepth \<longrightarrow>
       Handle E zero h' views1 views2 ctxErr ctx m st = Some (st, ANil, Some depth_error) \<and> \<not> retried policy depth_error"
    by (auto simp: Handle_def case_prod_unfold retried_def depth_error_def ShouldRetry_def IsPermanent_def)
qed

text \<open>C10: an update of a node is applied or rolled back. For a registered component \<open>Update\<close> reports no error to its
  caller; afterwards the node has an instance, and either the instance runs the new node and the status is
  OK, or the status carries an error and an instance that was there before still runs the node it had. No
  other instance and no registration is touched.\<close>

theorem Update_applied_or_rolled_back:
  assumes "Update E zeroNode h ctx node (sc, w) = Some ((sc', w'), node', err)"
    and "map_of (sc_components sc) (tn_Component node) = Some cmp"
  shows "\<exists>mc rn'. map_of (sc_instances sc') (tn_Name node) = Some (mc, rn') \<and> err = None \<and>
      (rn_node rn' = node \<and> ns_Status (tn_Status node') = ''OK'' \<and> \<not> ns_Error (tn_Status node') \<or>
       ns_Error (tn_Status node') \<and>
         (\<forall>mc0 rn0. map_of (sc_instances sc) (tn_Name node) = Some (mc0, rn0) \<longrightarrow> mc = mc0 \<and> rn_node rn' = rn_node rn0)) \<and>
      (\<forall>k. k \<noteq> tn_Name node \<longrightarrow> map_of (sc_instances sc') k = map_of (sc_instances sc) k) \<and>
      sc_components sc' = sc_components sc"
proof -
  obtain mc rn isNew where g: "get_or_create (e_codec E) zeroNode cmp node sc = Some ((mc, rn), isNew)"
    using assms by (auto simp: Update_def split: option.splits)
  let ?a = "apply_node E h ctx node sc (mc, rn) isNew w"
  have u: "sc' = put_instance (tn_Name node) (mc, fst (fst ?a)) sc" "node' = snd ?a" "err = None"
    using assms g by (simp_all add: Update_def case_prod_unfold Let_def)
  have old: "map_of (sc_instances sc) (tn_Name node) = Some (mc0, rn0) \<Longrightarrow> mc = mc0 \<and> rn = rn0" for mc0 rn0
    using g by (simp add: get_or_create_def)
  show ?thesis
    using apply_node_outcome [of E h ctx node sc mc rn isNew w] old
    by (auto simp: u put_instance_def update_conv' Let_def)
qed

text \<open>C11: in every state a scheduler can reach, the instances are filed under the names of the nodes they run and the
  components under their own names, each name once and no component without a name.\<close>

theorem reachable_schedulers_consistent:
  "sched_reach F (sc, w) \<Longrightarrow> sched_inv sc"
  using sched_reach_inv by fastforce

text \<open>Withdrawing a component stops what runs it. After \<open>Uninstall\<close> reports a removal the component is no longer
  registered, no instance of a component of that name is left, and every other instance is as it was.\<close>

theorem Uninstall_stops_instances:
  assumes "sched_inv sc" and "Uninstall name sc = (sc', True)"
  shows "InstalledComponent sc' name = None \<and>
    map_of (sc_instances sc') k =
      (case map_of (sc_instances sc) k of
         Some i \<Rightarrow> if cp_Name (mc_comp (fst i)) = name then None else Some i
       | None \<Rightarrow> None)"
  using Uninstall_lookup [OF assms] by (simp add: InstalledComponent_def)

text \<open>A tool call answers with the first emission on the output port. For a registered tool whose input decodes, the
  reply is the error of the component's result if it has one, else the payload of the first emission on the
  output port, else the value of the result; the port names default to in and out.\<close>

theorem handleRPC_first_emit:
  assumes "msg_To m \<noteq> []" and "map_of (sc_components sc) (msg_To m) = Some c" and "mc_AgentTool c = Some (ip, op)"
    and "mc_Instance c = Some s" and "inputPort = (if ip = [] then ''in'' else ip)"
    and "portConfigurationType (cp_Ports (mc_comp c) s) inputPort = Inr conf"
    and "(if msg_Data m \<noteq> [] then e_unmarshal E conf (msg_Data m) else Inr (zero conf)) = Inr inp"
  shows "handleRPC E zero ctx m sc =
    (case rpc_trace (cp_Handle (mc_comp c) s ctx inputPort inp) ctx of
       None \<Rightarrow> None
     | Some (es, r) \<Rightarrow>
       Some (case result_Err r of
               Some err \<Rightarrow> (ANil, Some err)
             | None \<Rightarrow>
               (case find (\<lambda>e. fst e = (if op = [] then ''out'' else op)) es of
                  Some e \<Rightarrow> (snd e, None)
                | None \<Rightarrow> (result_Value r, None))))"
proof -
  let ?c = "\<lparr>rc_port = if op = [] then ''out'' else op, rc_captured = False, rc_payload = ANil\<rparr> :: 'a rpc_capture"
  have "handleRPC E zero ctx m sc =
      (case run_rpc (cp_Handle (mc_comp c) s ctx inputPort inp) (ctx, ?c) of
         None \<Rightarrow> None
       | Some (capture, result) \<Rightarrow>
         Some (case result_Err result of
                 Some err \<Rightarrow> (ANil, Some err)
               | None \<Rightarrow> if rc_captured capture then (rc_payload capture, None) else (result_Value result, None)))"
    unfolding handleRPC_def using assms by (simp add: Let_def)
  then show ?thesis
    by (cases "rpc_trace (cp_Handle (mc_comp c) s ctx inputPort inp) ctx")
      (auto simp: run_rpc_trace captured_of_def split: option.split)
qed


text \<open>A scheduler with one instance of the forwarding component, for the concrete cases below.\<close>

definition sample_module :: "(nat, string) module_component" where
  "sample_module =
     \<lparr>mc_comp = sample_component, mc_Instance = Some 0, mc_AgentTool = Some ([], []), mc_OnIdentity = None,
      mc_OnClient = None, mc_OnNATS = None, mc_OnState = None, mc_OnEmitter = None, mc_OnReconcile = None\<rparr>"

definition sample_schedule :: "(nat, string) schedule" where
  "sample_schedule =
     New\<lparr>sc_components := [(''echo'', sample_module)], sc_instances := [(''n'', (sample_module, sample_runner))]\<rparr>"

definition sample_call :: "(nat, bytes gomap, string, int) call" where
  "sample_call =
     \<lparr>cl_env = sample_env (unobserved_kv mem_kv) (unobserved no_sleep), cl_views1 = [], cl_views2 = [], cl_ctxErr = None,
      cl_ctx = None, cl_msg = sample_hop, cl_sched = sample_schedule, cl_world = []\<rparr>"

lemmas sample_delivery =
  sample_call_def sample_schedule_def sample_module_def New_def MaxMessageDepth_def HasInstance_def poll_port_def HasPort_def
  deliver_def sendMsg_def forward_def MsgHandler_def sample_hop_def edge_msg_def ParseFullPortName_def run_identity_def
  step_recorded_def sample_runner_def SetNode_def InvalidatePortCache_def NewRunner_def exec_handle_def
  sample_env_def unobserved_kv_def mem_kv_def JetStreamState_Get_def WithRun_def getPorts_def
  getNodePorts_def sample_component_def find_port_def port_data_def getPortConfig_def sample_node_def
  FromSignal_def settings_skip_def remember_settings_def SettingsPort_def handle_message_def
  setGauge_def dispatchCapability_def ControlPort_def ReconcilePort_def ClientPort_def IdentityPort_def
  DataHandler_def outputHandler_def sample_edge_def sendToEdgeWithRetry_def stamp_def
  NextStepKey_def NewRun_def max_attempts_def defaultMaxAttempts_def observed_def
  store_handler_def fan_in_def writeStepRecord_def RunFrom_def RecordEmit_def clearGauge_def
  JetStreamState_Set_def Ok_def Let_def NewPortConfig_def NewPortConfigWithSchema_def GetPortFullName_def

lemma sample_sent: "map msg_To (sent no_sleep mem_kv id store_handler sample_call) = [''x:in'']"
  by (simp add: sent_def Handle_def sample_delivery numeral_3_eq_3)

theorem message_chains_bounded_witness:
  "length [sample_call, sample_call\<lparr>cl_msg := hd (sent no_sleep mem_kv id store_handler sample_call)\<rparr>] \<le> 258 \<and>
   Handle (cl_env sample_call) id (observed store_handler) [] [] None None (sample_hop\<lparr>msg_Depth := 257\<rparr>) (sample_schedule, ([], []))
     = Some ((sample_schedule, ([], [])), ANil, Some depth_error) \<and> \<not> retried None depth_error"
proof -
  have "sent no_sleep mem_kv id store_handler sample_call \<noteq> []" using sample_sent by auto
  then have c: "chain no_sleep mem_kv id store_handler
      [sample_call, sample_call\<lparr>cl_msg := hd (sent no_sleep mem_kv id store_handler sample_call)\<rparr>]" by simp
  show ?thesis
    using message_chains_bounded [OF c, where m = "sample_hop\<lparr>msg_Depth := 257\<rparr>" and E = "cl_env sample_call"
        and h' = "observed store_handler" and st = "(sample_schedule, ([], []))" and policy = None]
    by (simp add: sample_call_def sample_hop_def edge_msg_def MaxMessageDepth_def)
qed

abbreviation sample_world_env :: "(bytes gomap, string, int) renv" where
  "sample_world_env \<equiv> sample_env mem_kv no_sleep"

lemma sample_schedule_inv: "sched_inv sample_schedule"
  by (simp add: sched_inv_def sample_schedule_def sample_module_def sample_component_def New_def sample_runner_def SetNode_def
      InvalidatePortCache_def Let_def)

lemma sample_Update_defined:
  "Update sample_world_env sample_node store_handler None (sample_node\<lparr>tn_Name := ''n''\<rparr>) (sample_schedule, []) \<noteq> None"
  by (simp add: Update_def get_or_create_def sample_schedule_def sample_node_def case_prod_unfold Let_def)

theorem Update_applied_or_rolled_back_witness:
  "let r = the (Update sample_world_env sample_node store_handler None (sample_node\<lparr>tn_Name := ''n''\<rparr>) (sample_schedule, []))
   in snd (snd r) = None \<and> map_of (sc_instances (fst (fst r))) ''n'' \<noteq> None"
proof -
  let ?u = "Update sample_world_env sample_node store_handler None (sample_node\<lparr>tn_Name := ''n''\<rparr>) (sample_schedule, [])"
  obtain sc' w' node' err where u: "?u = Some ((sc', w'), node', err)" using sample_Update_defined by auto
  have "map_of (sc_components sample_schedule) (tn_Component (sample_node\<lparr>tn_Name := ''n''\<rparr>)) = Some sample_module"
    by (simp add: sample_schedule_def sample_node_def)
  from Update_applied_or_rolled_back [OF u this] u show ?thesis by (auto simp: Let_def)
qed

theorem reachable_schedulers_consistent_witness:
  "sched_inv (fst (Uninstall ''echo'' (fst (Install sample_module New))))"
  by (rule reachable_schedulers_consistent [where F = int_floats and w = "()"]) (intro uninstalled installed initial)

theorem Uninstall_stops_instances_witness:
  "InstalledComponent (fst (Uninstall ''echo'' sample_schedule)) ''echo'' = None \<and>
   map_of (sc_instances (fst (Uninstall ''echo'' sample_schedule))) ''n'' = None"
proof -
  have "Uninstall ''echo'' sample_schedule = (fst (Uninstall ''echo'' sample_schedule), True)"
    by (simp add: Uninstall_def sample_schedule_def Let_def)
  from Uninstall_stops_instances [OF sample_schedule_inv this, of "''n''"] show ?thesis
    by (simp add: sample_schedule_def sample_module_def sample_component_def)
qed

theorem handleRPC_first_emit_witness:
  "handleRPC sample_world_env id None (sample_hop\<lparr>msg_To := ''echo''\<rparr>) sample_schedule = Some (AVal ''hello'', None)"
  by (subst handleRPC_first_emit [where c = sample_module and ip = "[]" and op = "[]" and s = 0 and inputPort = "''in''"
        and conf = "''{}''" and inp = "''hello''"])
    (simp_all add: sample_schedule_def sample_hop_def sample_module_def portConfigurationType_def find_port_def
      sample_component_def sample_env_def edge_msg_def Ok_def result_Err_def result_Value_def)

definition strict_component :: "(nat, string) component" where
  "strict_component = sample_component\<lparr>
     cp_Ports := (\<lambda>_. [\<lparr>pt_Name = SettingsPort, pt_Label = [], pt_Position = 0, pt_Source = False, pt_Schema = None,
         pt_Configuration = Some ''{}'', pt_ResponseConfiguration = None\<rparr>]),
     cp_OnSettings := Some (\<lambda>n v. (n, Some (ErrNew ''bad settings'')))\<rparr>"


end
