(* ===== verification/Message_Router.thy ===== *)
theory Message_Router
  imports Wire_Transport Scheduler_Model
begin

section \<open>The router of a module and the gRPC wire\<close>

text \<open>
  \<open>src/cli/run.go\<close>: the function the scheduler calls for every emitted message, which decides between the own
  scheduler, the NATS transport and the gRPC pool. \<open>src/internal/client/pool.go\<close> and \<open>src/internal/server/server.go\<close>:
  the gRPC wire, used when there is no broker. All the wires are instances of the locale \<open>wire\<close>; chains of
  deliveries over any of them are bounded by the depth limit of the scheduler.

  The gRPC library is the record \<open>grpc\<close>; a connection and the client made from it are one handle.
\<close>

subsection \<open>The address pool\<close>

record grpc_request =
  gq_From :: string
  gq_Payload :: bytes
  gq_EdgeID :: string
  gq_To :: string
  gq_Depth :: "string list"

record ('w, 'c) grpc =
  gr_NewClient :: "'w \<Rightarrow> string \<Rightarrow> 'w \<times> (go_error + 'c)"
  gr_Connect :: "'w \<Rightarrow> 'c \<Rightarrow> 'w"
  gr_Close :: "'w \<Rightarrow> 'c \<Rightarrow> 'w"
  gr_Message :: "'w \<Rightarrow> 'c \<Rightarrow> grpc_request \<Rightarrow> 'w \<times> (go_error + bytes option)"

record 'c pool =
  ap_addressTable :: "string gomap"
  ap_clients :: "'c gomap"
  ap_conns :: "'c gomap"
  ap_runCtx :: bool
  ap_closers :: "'c list"

definition NewPool :: "'c pool" where
  "NewPool = \<lparr>ap_addressTable = [], ap_clients = [], ap_conns = [], ap_runCtx = False, ap_closers = []\<rparr>"

text \<open>
  Registering sets the address. Warming the connection happens later and on its own: it is a call of \<open>getClient\<close>
  with the address, when the pool has been started.
\<close>

definition Register :: "string \<Rightarrow> string \<Rightarrow> 'c pool \<Rightarrow> 'c pool" where
  "Register moduleName addr p = p\<lparr>ap_addressTable := AList.update moduleName addr (ap_addressTable p)\<rparr>"

definition Deregister :: "('w, 'c) grpc \<Rightarrow> string \<Rightarrow> 'c pool \<times> 'w \<Rightarrow> 'c pool \<times> 'w" where
  "Deregister G moduleName st =
     (case st of (p, w) \<Rightarrow>
        (let p1 = p\<lparr>ap_addressTable := AList.delete moduleName (ap_addressTable p)\<rparr>
         in case map_of (ap_addressTable p) moduleName of
              None \<Rightarrow> (p1, w)
            | Some addr \<Rightarrow>
              if list_ex (\<lambda>(_, a). a = addr) (ap_addressTable p1) then (p1, w)
              else (case map_of (ap_conns p1) addr of
                      None \<Rightarrow> (p1, w)
                    | Some conn \<Rightarrow>
                      (p1\<lparr>ap_conns := AList.delete addr (ap_conns p1), ap_clients := AList.delete addr (ap_clients p1)\<rparr>,
                       gr_Close G w conn))))"

definition getClient :: "('w, 'c) grpc \<Rightarrow> string \<Rightarrow> 'c pool \<times> 'w \<Rightarrow> ('c pool \<times> 'w) \<times> (go_error + 'c)" where
  "getClient G addr st =
     (case st of (p, w) \<Rightarrow>
        (case map_of (ap_clients p) addr of
           Some client \<Rightarrow> (st, Inr client)
         | None \<Rightarrow>
           (case gr_NewClient G w addr of
              (w1, Inl err) \<Rightarrow> ((p, w1), Inl err)
            | (w1, Inr conn) \<Rightarrow>
              ((p\<lparr>ap_conns := AList.update addr conn (ap_conns p), ap_clients := AList.update addr conn (ap_clients p),
                  ap_closers := (if ap_runCtx p then ap_closers p @ [conn] else ap_closers p)\<rparr>,
                gr_Connect G w1 conn), Inr conn))))"

definition grpc_request_of :: "'v msg \<Rightarrow> grpc_request" where
  "grpc_request_of m =
     \<lparr>gq_From = msg_From m, gq_Payload = msg_Data m, gq_EdgeID = msg_EdgeID m, gq_To = msg_To m,
      gq_Depth = (if msg_Depth m > 0 then [itoa (msg_Depth m)] else [])\<rparr>"

definition AddressPool_Handler ::
  "('w, 'c) grpc \<Rightarrow> 'v msg \<Rightarrow> 'c pool \<times> 'w \<Rightarrow> ('c pool \<times> 'w) \<times> bytes option \<times> go_error option" where
  "AddressPool_Handler G m st =
     (case ParseFullName (msg_To m) of
        None \<Rightarrow> (st, None, Some (full_name_error (msg_To m)))
      | Some (moduleName, _) \<Rightarrow>
        (case map_of (ap_addressTable (fst st)) moduleName of
           None \<Rightarrow> (st, None, Some (ErrNew (moduleName @ '' module address is unknown'')))
         | Some addr \<Rightarrow>
           (case getClient G addr st of
              (st1, Inl err) \<Rightarrow> (st1, None, Some err)
            | ((p1, w1), Inr client) \<Rightarrow>
              (case gr_Message G w1 client (grpc_request_of m) of
                 (w2, Inl err) \<Rightarrow> ((p1, w2), None, Some err)
               | (w2, Inr data) \<Rightarrow> ((p1, w2), data, None)))))"

text \<open>When the context of the pool ends, every connection made while it ran is closed.\<close>

definition pool_Start :: "'c pool \<Rightarrow> 'c pool" where
  "pool_Start p = p\<lparr>ap_runCtx := True\<rparr>"

definition pool_Stop :: "('w, 'c) grpc \<Rightarrow> 'c pool \<times> 'w \<Rightarrow> 'c pool \<times> 'w" where
  "pool_Stop G st = (case st of (p, w) \<Rightarrow> (p\<lparr>ap_closers := []\<rparr>, fold (\<lambda>c w. gr_Close G w c) (ap_closers p) w))"

text \<open>The type of the response configuration of a message plays no role for the pool: it is \<open>unit\<close> here.\<close>

inductive pool_reach :: "('w, 'c) grpc \<Rightarrow> 'c pool \<times> 'w \<Rightarrow> bool" for G :: "('w, 'c) grpc" where
  pool_new: "pool_reach G (NewPool, w)"
| pool_registered: "pool_reach G (p, w) \<Longrightarrow> pool_reach G (Register moduleName addr p, w)"
| pool_deregistered: "pool_reach G st \<Longrightarrow> pool_reach G (Deregister G moduleName st)"
| pool_warmed: "pool_reach G st \<Longrightarrow> ap_runCtx (fst st) \<Longrightarrow> pool_reach G (fst (getClient G addr st))"
| pool_sent: "pool_reach G st \<Longrightarrow> pool_reach G (fst (AddressPool_Handler G (m :: unit msg) st))"
| pool_started: "pool_reach G (p, w) \<Longrightarrow> pool_reach G (pool_Start p, w)"
| pool_stopped: "pool_reach G st \<Longrightarrow> ap_runCtx (fst st) \<Longrightarrow> pool_reach G (pool_Stop G st)"

subsection \<open>The gRPC server\<close>

text \<open>
  \<open>cx_request\<close>, \<open>cx_server\<close> and \<open>cx_merged\<close> are the errors of the context of the request, of the server and of the
  two merged, as the world stands.
\<close>

record 'w contexts =
  cx_request :: "'w \<Rightarrow> go_error option"
  cx_server :: "'w \<Rightarrow> go_error option"
  cx_merged :: "'w \<Rightarrow> go_error option"

definition grpc_incoming :: "grpc_request \<Rightarrow> 'v msg" where
  "grpc_incoming q =
     \<lparr>msg_EdgeID = gq_EdgeID q, msg_From = gq_From q, msg_To = gq_To q, msg_Data = gq_Payload q,
      msg_Depth = (case gq_Depth q of [] \<Rightarrow> 0 | d # _ \<Rightarrow> fst (atoi d)), msg_Mode = [], msg_RunID = [], msg_StepKey = [],
      msg_ReplySubject = [], msg_ReplyTarget = [], msg_ReplyDeadline = 0, msg_Resp = None\<rparr>"

definition grpc_result :: "'v payload_ops \<Rightarrow> 'v any \<Rightarrow> go_error + bytes option" where
  "grpc_result P res =
     (case res of
        ANil \<Rightarrow> Inr None
      | AVal v \<Rightarrow>
        if po_isnil P v then Inr None
        else (case po_as_bytes P v of
                Some b \<Rightarrow> Inr (Some b)
              | None \<Rightarrow> (case po_marshal P res of Inl err \<Rightarrow> Inl err | Inr data \<Rightarrow> Inr (Some data)))
      | AErr e \<Rightarrow> (case po_marshal P res of Inl err \<Rightarrow> Inl err | Inr data \<Rightarrow> Inr (Some data)))"

definition grpc_serve ::
  "'v payload_ops \<Rightarrow> 'w contexts \<Rightarrow> ('w, 'v) handler \<Rightarrow> grpc_request \<Rightarrow> 'w \<Rightarrow> 'w \<times> (go_error + bytes option)" where
  "grpc_serve P X h q w =
     (case cx_request X w of
        Some err \<Rightarrow> (w, Inl err)
      | None \<Rightarrow>
        (case cx_server X w of
           Some err \<Rightarrow> (w, Inl err)
         | None \<Rightarrow>
           (case h w (grpc_incoming q) of
              (w', res, Some err) \<Rightarrow> (w', Inl err)
            | (w', res, None) \<Rightarrow>
              (case cx_merged X w' of Some err \<Rightarrow> (w', Inl err) | None \<Rightarrow> (w', grpc_result P res)))))"

subsection \<open>The router\<close>

definition GetNameSanitised :: "string \<Rightarrow> string" where
  "GetNameSanitised name = SanitizeResourceName name"

text \<open>
  \<open>rt_transport\<close> is the handler of the NATS transport when there is one, \<open>rt_pool\<close> that of the gRPC pool, \<open>rt_local\<close>
  the scheduler of this module. \<open>rt_raw\<close> is a \<open>[]byte\<close>, possibly nil, as a value, and \<open>rt_unmarshal\<close> decodes JSON into
  a new value of the type of its first argument.
\<close>

record ('w, 'v) router =
  rt_module :: string
  rt_transport :: "('v msg \<Rightarrow> 'w \<Rightarrow> 'w \<times> bytes option \<times> go_error option) option"
  rt_pool :: "'v msg \<Rightarrow> 'w \<Rightarrow> 'w \<times> bytes option \<times> go_error option"
  rt_local :: "('w, 'v) handler"
  rt_raw :: "bytes option \<Rightarrow> 'v"
  rt_unmarshal :: "'v \<Rightarrow> bytes \<Rightarrow> go_error + 'v"

definition read_response :: "('w, 'v) router \<Rightarrow> 'v msg \<Rightarrow> bytes option \<Rightarrow> 'v any \<times> go_error option" where
  "read_response R m resp =
     (case msg_Resp m of
        None \<Rightarrow> (AVal (rt_raw R resp), None)
      | Some conf \<Rightarrow>
        (case rt_unmarshal R conf (case resp of None \<Rightarrow> [] | Some b \<Rightarrow> b) of
           Inl err \<Rightarrow> (ANil, Some err)
         | Inr v \<Rightarrow> (AVal v, None)))"

definition route :: "('w, 'v) router \<Rightarrow> ('w, 'v) handler" where
  "route R w m =
     (case ParseFullName (msg_To m) of
        None \<Rightarrow> (w, ANil, Some (ErrNew (''parse destination error: '' @ err_msg (full_name_error (msg_To m)))))
      | Some (targetModule, _) \<Rightarrow>
        if targetModule = GetNameSanitised (rt_module R) then
          (case rt_transport R of
             Some send \<Rightarrow>
               if msg_RunID m \<noteq> [] then (case send m w of (w', resp, err) \<Rightarrow> (w', AVal (rt_raw R resp), err))
               else rt_local R w m
           | None \<Rightarrow> rt_local R w m)
        else
          (case (case rt_transport R of Some send \<Rightarrow> send m w | None \<Rightarrow> rt_pool R m w) of
             (w', _, Some err) \<Rightarrow> (w', ANil, Some err)
           | (w', resp, None) \<Rightarrow> (w', read_response R m resp)))"

subsection \<open>Chains of deliveries over the wires\<close>

lemma grpc_carries: "depth_ok m \<Longrightarrow> grpc_incoming (grpc_request_of m) = without_run m"
  by (auto simp: grpc_incoming_def grpc_request_of_def without_run_def on_wire_def depth_ok_def atoi_itoa_nonneg)

interpretation grpc_wire: wire "\<lambda>moduleName. grpc_request_of" grpc_incoming
  by unfold_locales (simp add: grpc_carries)

datatype wire_kind = Local | CoreWire | StreamWire string | DurableWire | GrpcWire

fun over_wire :: "wire_kind \<Rightarrow> string \<Rightarrow> 'v msg \<Rightarrow> 'v msg" where
  "over_wire Local moduleName m = m"
| "over_wire CoreWire moduleName m = core_incoming (core_request moduleName m)"
| "over_wire (StreamWire inbox) moduleName m = js_incoming (js_request moduleName inbox m)"
| "over_wire DurableWire moduleName m = js_incoming (durable_request moduleName m)"
| "over_wire GrpcWire moduleName m = grpc_incoming (grpc_request_of m)"

lemma over_wire_depth: "depth_ok m \<Longrightarrow> msg_Depth (over_wire k moduleName m) = msg_Depth m"
  by (cases k) (simp_all add: core_wire.arrives stream_wire.arrives durable_wire.arrives grpc_wire.arrives)

text \<open>
  A stage is one call of \<open>Handle\<close> in some module, with the wire its message came over. In a chain each stage got a
  message the stage before it sent; the modules have schedulers, stores and handlers of their own.
\<close>

record ('s, 'w, 'v, 'f) stage =
  sg_sleep :: "'w sleep"
  sg_kv :: "'w kv"
  sg_zero :: "'v \<Rightarrow> 'v"
  sg_handler :: "('w, 'v) handler"
  sg_call :: "('s, 'w, 'v, 'f) call"
  sg_wire :: wire_kind
  sg_module :: string

definition stage_sent :: "('s, 'w, 'v, 'f) stage \<Rightarrow> 'v msg list" where
  "stage_sent g = sent (sg_sleep g) (sg_kv g) (sg_zero g) (sg_handler g) (sg_call g)"

fun module_chain :: "('s, 'w, 'v, 'f) stage list \<Rightarrow> bool" where
  "module_chain (g # g' # gs) =
     (cl_msg (sg_call g') \<in> over_wire (sg_wire g') (sg_module g') ` set (stage_sent g) \<and> module_chain (g' # gs))"
| "module_chain _ = True"

lemma stage_sent_depth:
  assumes "m \<in> over_wire k moduleName ` set (stage_sent g)" "0 \<le> msg_Depth (cl_msg (sg_call g))"
  shows "msg_Depth m = msg_Depth (cl_msg (sg_call g)) + 1 \<and> msg_Depth (cl_msg (sg_call g)) \<le> MaxMessageDepth"
proof -
  obtain m' where m': "m' \<in> set (stage_sent g)" "m = over_wire k moduleName m'" using assms(1) by blast
  then have d: "msg_Depth m' = msg_Depth (cl_msg (sg_call g)) + 1 \<and> msg_Depth (cl_msg (sg_call g)) \<le> MaxMessageDepth"
    unfolding stage_sent_def by (blast dest: sent_depth)
  then have "depth_ok m'" using assms(2) by (simp add: depth_ok_def MaxMessageDepth_def max_int64_def)
  then show ?thesis using d m'(2) by (simp add: over_wire_depth)
qed

lemma module_chain_depth:
  assumes "module_chain gs" "i < length gs" "0 \<le> msg_Depth (cl_msg (sg_call (hd gs)))"
  shows "msg_Depth (cl_msg (sg_call (gs ! i))) = msg_Depth (cl_msg (sg_call (hd gs))) + int i \<and>
    (Suc i < length gs \<longrightarrow> msg_Depth (cl_msg (sg_call (gs ! i))) \<le> MaxMessageDepth)"
  using assms
proof (induction gs arbitrary: i rule: module_chain.induct)
  case (1 g g' gs)
  note step = stage_sent_depth [of "cl_msg (sg_call g')" "sg_wire g'" "sg_module g'" g]
  show ?case
  proof (cases i)
    case (Suc j)
    then show ?thesis using 1(1) [of j] 1(2-) step by auto
  qed (use 1 step in simp)
qed auto

subsection \<open>Properties\<close>

text \<open>C2: a message cannot travel for ever, in one module or across modules. In any chain of deliveries, where each
  call of \<open>Handle\<close> gets a message that the call before it sent, over whichever wire, there are at most 258 calls:
  257 that deliver and one that refuses. Every wire carries the depth, the refusal leaves the scheduler and
  the world alone, and its error is permanent, so the sender's retry loop does not repeat the hop.\<close>

theorem module_chains_bounded:
  assumes "module_chain gs" and "gs \<noteq> []" and "0 \<le> msg_Depth (cl_msg (sg_call (hd gs)))"
  shows "length gs \<le> 258 \<and>
    (msg_Depth m = MaxMessageDepth + 1 \<longrightarrow>
       Handle E zero h views1 views2 ctxErr ctx (over_wire k moduleName m) st = Some (st, ANil, Some depth_error) \<and>
       \<not> retried policy depth_error)"
proof
  show "length gs \<le> 258"
  proof (rule ccontr)
    assume "\<not> length gs \<le> 258"
    then show False using module_chain_depth [OF assms(1), of 257] assms(3) by (simp add: MaxMessageDepth_def)
  qed
  have "depth_ok m" if "msg_Depth m = MaxMessageDepth + 1"
    using that by (simp add: depth_ok_def MaxMessageDepth_def max_int64_def)
  then show "msg_Depth m = MaxMessageDepth + 1 \<longrightarrow>
       Handle E zero h views1 views2 ctxErr ctx (over_wire k moduleName m) st = Some (st, ANil, Some depth_error) \<and>
       \<not> retried policy depth_error"
    by (auto simp: Handle_def case_prod_unfold over_wire_depth retried_def depth_error_def ShouldRetry_def IsPermanent_def)
qed

text \<open>A durable hop never takes the in-process shortcut. With the durable transport, a hop that belongs to a run and
  is not its reply is stored in the stream of the target module, and nothing else happens to the world, even
  when the target is a node of this very module; the scheduler of this module is not called.\<close>

theorem durable_hops_stored:
  assumes "ParseFullName (msg_To m) = Some (moduleName, c)" and "msg_RunID m \<noteq> []" and "\<not> IsReplyHop m"
    and "rt_transport R = Some (JetStream_Handler B)"
  shows "fst (route R w m) = fst (bk_StreamPublish B w (durable_request moduleName m)) \<and>
    route (R\<lparr>rt_local := l\<rparr>) w m = route R w m"
  using assms by (simp add: route_def JetStream_Handler_def publishDurable_def case_prod_unfold read_response_def split: sum.split option.split)

text \<open>C21: a durable hop to another module can be stored and still be reported as failed. The call returns no bytes, and
  when the emitter asked for a typed response the router decodes them; decoding no bytes is an error of the
  JSON decoder, so the emission fails although the hop is in the stream. A hop inside the module is not
  decoded and reports success.\<close>

theorem stored_hop_reported_failed:
  assumes "ParseFullName (msg_To m) = Some (moduleName, c)" and "msg_RunID m \<noteq> []" and "\<not> IsReplyHop m"
    and "rt_transport R = Some (JetStream_Handler B)" and "msg_Resp m = Some conf"
    and "bk_StreamPublish B w (durable_request moduleName m) = (w', Inr False)"
    and no_bytes: "rt_unmarshal R conf [] = Inl err"
  shows "route R w m = (if moduleName = GetNameSanitised (rt_module R) then (w', AVal (rt_raw R None), None) else (w', ANil, Some err))"
  using assms by (auto simp: route_def JetStream_Handler_def publishDurable_def read_response_def)

subsection \<open>The pool\<close>

text \<open>The library connects a client to the address it was made for.\<close>

definition dials :: "('w, 'c) grpc \<Rightarrow> ('c \<Rightarrow> string) \<Rightarrow> bool" where
  "dials G dialled = (\<forall>w a w' c. gr_NewClient G w a = (w', Inr c) \<longrightarrow> dialled c = a)"

definition pool_inv :: "('c \<Rightarrow> string) \<Rightarrow> 'c pool \<Rightarrow> bool" where
  "pool_inv dialled p =
     ((\<forall>a. map_of (ap_clients p) a = map_of (ap_conns p) a) \<and> (\<forall>a c. map_of (ap_clients p) a = Some c \<longrightarrow> dialled c = a))"

lemma getClient_pool:
  assumes "pool_inv dialled p" and "dials G dialled"
  shows "pool_inv dialled (fst (fst (getClient G addr (p, w))))"
    and "ap_addressTable (fst (fst (getClient G addr (p, w)))) = ap_addressTable p"
    and "snd (getClient G addr (p, w)) = Inr c \<Longrightarrow> dialled c = addr"
  using assms by (auto simp: getClient_def dials_def pool_inv_def update_conv' split: option.splits prod.splits sum.splits)

lemma Handler_pool:
  assumes "pool_inv dialled (fst st)" and "dials G dialled"
  shows "pool_inv dialled (fst (fst (AddressPool_Handler G m st)))"
proof -
  obtain p w where st: "st = (p, w)" by fastforce
  have "pool_inv dialled (fst (fst (getClient G addr st)))" for addr
    using getClient_pool(1) [OF _ assms(2), of p addr w] assms(1) by (simp add: st)
  then show ?thesis using assms(1)
    by (simp add: AddressPool_Handler_def case_prod_unfold split: option.split sum.split)
qed

lemma Deregister_pool: "pool_inv dialled (fst st) \<Longrightarrow> pool_inv dialled (fst (Deregister G moduleName st))"
  by (auto simp: Deregister_def pool_inv_def delete_conv' Let_def split: option.splits prod.splits)

lemma pool_reach_inv:
  assumes "pool_reach G st" and dial: "dials G dialled"
  shows "pool_inv dialled (fst st)"
  using assms(1)
proof induction
  case (pool_warmed st addr)
  then show ?case using getClient_pool(1) [OF _ dial, of "fst st" addr "snd st"] by simp
next
  case (pool_sent st m)
  then show ?case by (simp add: Handler_pool [OF _ dial])
qed (simp_all add: Deregister_pool, auto simp: pool_inv_def NewPool_def Register_def pool_Start_def pool_Stop_def split: prod.splits)

text \<open>The pool follows the registry. In every reachable pool a message for a module goes over a connection made to
  the address the module was registered with last, carrying the message; when a module is removed and no other
  module shares its address, the pool keeps no connection to it, and a later message to the module is refused
  without touching the world.\<close>

theorem pool_follows_registry:
  assumes reach: "pool_reach G (p, w)"
    and dial: "dials G dialled"
    and to: "ParseFullName (msg_To m) = Some (moduleName, n)"
  shows "(case getClient G addr (Register moduleName addr p, w) of
        ((p1, w1), Inl err) \<Rightarrow> AddressPool_Handler G m (Register moduleName addr p, w) = ((p1, w1), None, Some err)
      | ((p1, w1), Inr c) \<Rightarrow> dialled c = addr \<and>
          snd (fst (AddressPool_Handler G m (Register moduleName addr p, w))) = fst (gr_Message G w1 c (grpc_request_of m))) \<and>
    (let st = Deregister G moduleName (p, w)
     in AddressPool_Handler G m st = (st, None, Some (ErrNew (moduleName @ '' module address is unknown''))) \<and>
        (\<forall>a. map_of (ap_addressTable p) moduleName = Some a \<longrightarrow> a \<in> snd ` set (ap_addressTable (fst st)) \<or> map_of (ap_clients (fst st)) a = None))"
proof -
  let ?r = "(Register moduleName addr p, w)"
  have inv: "pool_inv dialled p" using pool_reach_inv [OF reach dial] by simp
  have r: "pool_inv dialled (Register moduleName addr p)"
    using pool_reach_inv [OF pool_registered [OF reach] dial] by simp
  have a: "map_of (ap_addressTable (Register moduleName addr p)) moduleName = Some addr"
    by (simp add: Register_def update_conv')
  have "case getClient G addr ?r of
        ((p1, w1), Inl err) \<Rightarrow> AddressPool_Handler G m ?r = ((p1, w1), None, Some err)
      | ((p1, w1), Inr c) \<Rightarrow> dialled c = addr \<and>
          snd (fst (AddressPool_Handler G m ?r)) = fst (gr_Message G w1 c (grpc_request_of m))"
    using getClient_pool(3) [OF r dial, of addr w]
    by (auto simp: AddressPool_Handler_def to a split: prod.split sum.split)
  moreover have "map_of (ap_addressTable (fst (Deregister G moduleName (p, w)))) moduleName = None"
    by (simp add: Deregister_def delete_conv' Let_def split: option.split)
  then have "AddressPool_Handler G m (Deregister G moduleName (p, w)) =
      (Deregister G moduleName (p, w), None, Some (ErrNew (moduleName @ '' module address is unknown'')))"
    by (simp add: AddressPool_Handler_def to)
  moreover have "a \<in> snd ` set (ap_addressTable (fst (Deregister G moduleName (p, w)))) \<or>
      map_of (ap_clients (fst (Deregister G moduleName (p, w)))) a = None"
    if "map_of (ap_addressTable p) moduleName = Some a" for a
    using that inv by (force simp: Deregister_def pool_inv_def delete_conv' list_ex_iff Let_def split: option.splits)
  ultimately show ?thesis by (simp add: Let_def)
qed

subsection \<open>Examples\<close>

definition sample_stage :: "(nat, bytes gomap, string, int) stage" where
  "sample_stage =
     \<lparr>sg_sleep = no_sleep, sg_kv = mem_kv, sg_zero = id, sg_handler = store_handler, sg_call = sample_call,
      sg_wire = Local, sg_module = ''m''\<rparr>"

definition second_stage :: "(nat, bytes gomap, string, int) stage" where
  "second_stage =
     sample_stage\<lparr>sg_wire := CoreWire,
       sg_call := sample_call\<lparr>cl_msg := over_wire CoreWire ''m'' (hd (stage_sent sample_stage))\<rparr>\<rparr>"

theorem module_chains_bounded_witness:
  "length [sample_stage, second_stage] \<le> 258 \<and>
   Handle (cl_env sample_call) id (observed store_handler) [] [] None None
       (over_wire GrpcWire ''m'' (sample_hop\<lparr>msg_Depth := 257\<rparr>)) (sample_schedule, ([], []))
     = Some ((sample_schedule, ([], [])), ANil, Some depth_error) \<and> \<not> retried None depth_error"
proof -
  have "stage_sent sample_stage \<noteq> []" using sample_sent by (auto simp: stage_sent_def sample_stage_def)
  then have c: "module_chain [sample_stage, second_stage]" by (simp add: second_stage_def sample_stage_def del: over_wire.simps)
  show ?thesis
    using module_chains_bounded [OF c, where m = "sample_hop\<lparr>msg_Depth := 257\<rparr>" and E = "cl_env sample_call"
        and h = "observed store_handler" and st = "(sample_schedule, ([], []))" and policy = None]
    by (simp add: sample_stage_def sample_call_def sample_hop_def edge_msg_def MaxMessageDepth_def del: over_wire.simps)
qed

definition sample_router :: "(nat, string) router" where
  "sample_router =
     \<lparr>rt_module = ''m'', rt_transport = Some (JetStream_Handler quiet_broker), rt_pool = (\<lambda>m w. (w, None, None)), rt_local = accept_all,
      rt_raw = (\<lambda>b. case b of None \<Rightarrow> [] | Some b \<Rightarrow> b),
      rt_unmarshal = (\<lambda>conf b. if b = [] then Inl (ErrNew ''unexpected end of JSON input'') else Inr b)\<rparr>"

definition run_hop :: "string msg" where
  "run_hop = sample_wire_hop\<lparr>msg_To := ''f.x.n:in'', msg_ReplyTarget := ''f.m.s:response'', msg_Resp := Some ''conf''\<rparr>"

lemma run_hop_simps [simp]:
  "ParseFullName (msg_To run_hop) = Some (''x'', ''n:in'')" "msg_RunID run_hop = ''r1''" "\<not> IsReplyHop run_hop"
  "msg_Resp run_hop = Some ''conf''" "rt_transport sample_router = Some (JetStream_Handler quiet_broker)"
  by (simp_all add: run_hop_def sample_wire_hop_def edge_msg_def ParseFullName_def IsReplyHop_def sample_router_def)

theorem durable_hops_stored_witness:
  "fst (route sample_router 0 run_hop) = 1 \<and> route (sample_router\<lparr>rt_local := \<lambda>w m. (7, ANil, None)\<rparr>) 0 run_hop = route sample_router 0 run_hop"
  using durable_hops_stored [of run_hop "''x''" "''n:in''" sample_router quiet_broker 0] by (simp add: quiet_broker_def)

theorem stored_hop_reported_failed_witness:
  "route sample_router 0 run_hop = (1, ANil, Some (ErrNew ''unexpected end of JSON input''))"
proof -
  have "SanitizeResourceName ''m'' = ''m''" by code_simp
  then show ?thesis
    using stored_hop_reported_failed [of run_hop "''x''" "''n:in''" sample_router quiet_broker "''conf''" 0 1
        "ErrNew ''unexpected end of JSON input''"]
    by (simp add: quiet_broker_def sample_router_def GetNameSanitised_def)
qed

text \<open>A library whose handles are the addresses themselves and whose world lists what was sent where.\<close>

definition list_grpc :: "((string \<times> bytes) list, string) grpc" where
  "list_grpc =
     \<lparr>gr_NewClient = (\<lambda>w a. (w, Inr a)), gr_Connect = (\<lambda>w c. w), gr_Close = (\<lambda>w c. w),
      gr_Message = (\<lambda>w c q. (w @ [(c, gq_Payload q)], Inr None))\<rparr>"

theorem pool_follows_registry_witness:
  "snd (fst (AddressPool_Handler list_grpc run_hop (Register ''x'' ''a:1'' NewPool, []))) = [(''a:1'', ''hello'')] \<and>
   snd (snd (AddressPool_Handler list_grpc run_hop (Deregister list_grpc ''x'' (NewPool, [])))) =
     Some (ErrNew ''x module address is unknown'')"
  using pool_follows_registry [where G = list_grpc and p = NewPool and w = "[]" and dialled = id and m = run_hop
      and moduleName = "''x''" and n = "''n:in''" and addr = "''a:1''", OF pool_new]
  by (simp add: dials_def list_grpc_def getClient_def Register_def NewPool_def grpc_request_of_def run_hop_def sample_wire_hop_def
      edge_msg_def ParseFullName_def Let_def)

end
