(* ===== verification/Controllers.thy ===== *)
theory Controllers
  imports Message_Router
begin

section \<open>The controllers\<close>

text \<open>
  \<open>src/internal/controller\<close>: the reconcilers of nodes, of component definitions and of modules, each a function of the
  request and of the state it may change: the scheduler, the registry of runtimes, the address pool and the
  cluster. The Kubernetes client is a record of calls over a world of any type; a read gives the object or an
  error, a write gives back the object as the cluster stored it. The finalizer helpers and the test for a missing
  object belong to that library. The flag of the leader is read from the world at the moment the code reads it; the
  copy of it that the node reconciler puts on the context of a component is left out, as components do not read it here. A
  result is the wait until the next reconciliation, 0 for none, in seconds.
\<close>

record module_info =
  mi_Name :: string
  mi_Version :: string
  mi_SDKVersion :: string
  mi_Addr :: string

record ('w, 'o) kube =
  kb_Get :: "'w \<Rightarrow> string \<Rightarrow> string \<Rightarrow> go_error + 'o"
  kb_IsNotFound :: "go_error \<Rightarrow> bool"
  kb_Update :: "'w \<Rightarrow> 'o \<Rightarrow> 'w \<times> (go_error + 'o)"
  kb_WriteStatus :: "'w \<Rightarrow> 'o \<Rightarrow> 'o \<Rightarrow> 'w \<times> go_error option"
  kb_ContainsFinalizer :: "string list \<Rightarrow> string \<Rightarrow> bool"
  kb_AddFinalizer :: "string list \<Rightarrow> string \<Rightarrow> string list"
  kb_RemoveFinalizer :: "string list \<Rightarrow> string \<Rightarrow> string list"
  kb_IsLeader :: "'w \<Rightarrow> bool"
  kb_Now :: "'w \<Rightarrow> int"

subsection \<open>Nodes\<close>

record node_object =
  no_node :: tiny_node
  no_Deleting :: bool
  no_Finalizers :: "string list"
  no_Generation :: int
  no_ModuleVersion :: string
  no_ModuleName :: string
  no_ModuleSDKVersion :: string
  no_ObservedGeneration :: int
  no_LastUpdateTime :: "int option"

definition nodeFinalizer :: string where "nodeFinalizer = ''io.tinysystems/node-finalizer''"

definition set_status :: "string \<Rightarrow> bool \<Rightarrow> tiny_node \<Rightarrow> tiny_node" where
  "set_status s e node = node\<lparr>tn_Status := (tn_Status node)\<lparr>ns_Status := s, ns_Error := e\<rparr>\<rparr>"

definition delete_node ::
  "('w, node_object) kube \<Rightarrow> string \<Rightarrow> node_object \<Rightarrow> ('s, 'v) schedule \<times> 'w \<Rightarrow> (('s, 'v) schedule \<times> 'w) \<times> int \<times> go_error option" where
  "delete_node K name obj st =
     (case st of (sc, w) \<Rightarrow>
        if kb_ContainsFinalizer K (no_Finalizers obj) nodeFinalizer then
          (let sc' = fst (Destroy name sc);
               obj' = obj\<lparr>no_Finalizers := kb_RemoveFinalizer K (no_Finalizers obj) nodeFinalizer\<rparr>
           in case kb_Update K w obj' of
                (w', Inl err) \<Rightarrow> ((sc', w'), 0, Some (WrapError ''remove finalizer: '' err))
              | (w', Inr _) \<Rightarrow> ((sc', w'), 0, None))
        else (st, 0, None))"

definition ensure_node_finalizer :: "('w, node_object) kube \<Rightarrow> node_object \<Rightarrow> 'w \<Rightarrow> 'w \<times> (go_error + node_object)" where
  "ensure_node_finalizer K obj w =
     (if kb_ContainsFinalizer K (no_Finalizers obj) nodeFinalizer then (w, Inr obj)
      else kb_Update K w (obj\<lparr>no_Finalizers := kb_AddFinalizer K (no_Finalizers obj) nodeFinalizer\<rparr>))"

text \<open>What is published about a node after the scheduler has seen it.\<close>

definition published :: "module_info \<Rightarrow> node_object \<Rightarrow> tiny_node \<Rightarrow> go_error option \<Rightarrow> node_object" where
  "published info obj node schedulerErr =
     obj\<lparr>no_node := (case schedulerErr of None \<Rightarrow> node | Some err \<Rightarrow> set_status (err_msg err) True node),
         no_ModuleVersion := mi_Version info, no_ModuleName := mi_Name info, no_ModuleSDKVersion := mi_SDKVersion info,
         no_ObservedGeneration := no_Generation obj\<rparr>"

definition publish_node ::
  "('w, node_object) kube \<Rightarrow> module_info \<Rightarrow> node_object \<Rightarrow> tiny_node \<Rightarrow> go_error option \<Rightarrow> 'w \<Rightarrow> 'w \<times> int \<times> go_error option" where
  "publish_node K info origin node schedulerErr w =
     (if \<not> kb_IsLeader K w then (w, 60, None)
      else
        (let obj = (published info origin node schedulerErr)\<lparr>no_LastUpdateTime := Some (kb_Now K w)\<rparr>
         in case kb_WriteStatus K w obj origin of
              (w', Some err) \<Rightarrow> (w', 0, Some (WrapError ''patch status: '' err))
            | (w', None) \<Rightarrow>
              (case schedulerErr of
                 Some err \<Rightarrow> if \<not> IsPermanent (Some err) then (w', 0, Some (WrapError ''update scheduler: '' err)) else (w', 300, None)
               | None \<Rightarrow> (w', 300, None))))"

definition TinyNode_Reconcile ::
  "('w, 'v, 'f) renv \<Rightarrow> tiny_node \<Rightarrow> ('w, 'v) handler \<Rightarrow> ('w, node_object) kube \<Rightarrow> module_info \<Rightarrow> string \<Rightarrow> string
     \<Rightarrow> ('s, 'v) schedule \<times> 'w \<Rightarrow> ((('s, 'v) schedule \<times> 'w) \<times> int \<times> go_error option) option" where
  "TinyNode_Reconcile E zeroNode h K info ns name st =
     (case st of (sc, w) \<Rightarrow>
        (case ParseFullName name of
           None \<Rightarrow> Some (st, 0, None)
         | Some (m, _) \<Rightarrow>
           if \<not> NameMatches m (GetNameSanitised (mi_Name info)) then Some (st, 0, None)
           else
             (case kb_Get K w ns name of
                Inl err \<Rightarrow> Some (st, 0, if kb_IsNotFound K err then None else Some (WrapError ''get tinynode: '' err))
              | Inr obj \<Rightarrow>
                if no_Deleting obj then Some (delete_node K name obj st)
                else
                  (case ensure_node_finalizer K obj w of
                     (w1, Inl err) \<Rightarrow> Some ((sc, w1), 0, Some (WrapError ''add finalizer: '' err))
                   | (w1, Inr origin) \<Rightarrow>
                     (case Update E zeroNode h None (set_status ''OK'' False (no_node origin)) (sc, w1) of
                        None \<Rightarrow> None
                      | Some ((sc2, w2), node, schedulerErr) \<Rightarrow>
                        (case publish_node K info origin node schedulerErr w2 of (w3, out) \<Rightarrow> Some ((sc2, w3), out)))))))"

text \<open>
  The channel of leadership changes has room for one event and is made on first use; a second event before the
  first is read changes nothing. An event makes the controller queue every node of its module.
\<close>

type_synonym leadership_ch = "bool option"

definition ensureLeadershipCh :: "leadership_ch \<Rightarrow> leadership_ch" where
  "ensureLeadershipCh ch = (case ch of None \<Rightarrow> Some False | Some b \<Rightarrow> Some b)"

definition RequeueAllOnLeadershipChange :: "leadership_ch \<Rightarrow> leadership_ch" where
  "RequeueAllOnLeadershipChange ch = (case ensureLeadershipCh ch of Some False \<Rightarrow> Some True | c \<Rightarrow> c)"

definition leadership_requests :: "module_info \<Rightarrow> go_error + tiny_node list \<Rightarrow> (string \<times> string) list" where
  "leadership_requests info nodes =
     (case nodes of
        Inl _ \<Rightarrow> []
      | Inr items \<Rightarrow>
        map (\<lambda>node. (tn_Namespace node, tn_Name node))
          (filter (\<lambda>node. case ParseFullName (tn_Name node) of
                     None \<Rightarrow> False | Some (m, _) \<Rightarrow> NameMatches m (GetNameSanitised (mi_Name info))) items))"

text \<open>The filter on update events: a new generation, or different status metadata. A \<open>nil\<close> object is \<open>None\<close>.\<close>

definition GenerationOrMetadataChanged_Update :: "node_object option \<Rightarrow> node_object option \<Rightarrow> bool" where
  "GenerationOrMetadataChanged_Update old new =
     (case (old, new) of
        (Some a, Some b) \<Rightarrow>
          no_Generation a \<noteq> no_Generation b \<or> ns_Metadata (tn_Status (no_node a)) \<noteq> ns_Metadata (tn_Status (no_node b))
      | _ \<Rightarrow> False)"

subsection \<open>Component definitions\<close>

record component_definition =
  cd_Name :: string
  cd_Description :: string
  cd_Info :: string
  cd_Script :: string
  cd_InputSchema :: bytes
  cd_OutputSchema :: bytes
  cd_EnableErrorPort :: bool

record component_object =
  co_Component :: string
  co_Description :: string
  co_Info :: string
  co_Runtime :: string
  co_Script :: string
  co_Input :: string
  co_Output :: string
  co_EnableErrorPort :: bool
  co_Deleting :: bool
  co_Finalizers :: "string list"
  co_Generation :: int
  co_Installed :: bool
  co_Module :: string
  co_Reason :: string
  co_ObservedGeneration :: int

text \<open>\<open>registry.runtimeFactories\<close>: what compiles a definition, by the name of the runtime.\<close>

type_synonym ('s, 'v) runtimes = "(component_definition \<Rightarrow> go_error + ('s, 'v) module_component) gomap"

definition RegisterRuntime ::
  "string \<Rightarrow> (component_definition \<Rightarrow> go_error + ('s, 'v) module_component) option \<Rightarrow> ('s, 'v) runtimes \<Rightarrow> ('s, 'v) runtimes" where
  "RegisterRuntime runtime f rts = (case f of None \<Rightarrow> rts | Some g \<Rightarrow> if runtime = [] then rts else AList.update runtime g rts)"

definition componentFinalizer :: string where "componentFinalizer = ''io.tinysystems/component-finalizer''"
definition definedTag :: string where "definedTag = ''Defined''"

definition runtimeOf :: "component_object \<Rightarrow> string" where
  "runtimeOf def = (if co_Runtime def = [] then ''js'' else co_Runtime def)"

definition serves :: "('s, 'v) runtimes \<Rightarrow> component_object \<Rightarrow> bool" where
  "serves rts def = (map_of rts (runtimeOf def) \<noteq> None)"

definition hasTag :: "('s, 'v) module_component \<Rightarrow> string \<Rightarrow> bool" where
  "hasTag c tag = list_ex (\<lambda>t. t = tag) (cp_Tags (mc_comp c))"

definition definition_of :: "component_object \<Rightarrow> component_definition" where
  "definition_of def =
     \<lparr>cd_Name = co_Component def, cd_Description = co_Description def, cd_Info = co_Info def, cd_Script = co_Script def,
      cd_InputSchema = co_Input def, cd_OutputSchema = co_Output def, cd_EnableErrorPort = co_EnableErrorPort def\<rparr>"

definition install_definition ::
  "('s, 'v) runtimes \<Rightarrow> component_object \<Rightarrow> ('s, 'v) schedule \<Rightarrow> ('s, 'v) schedule \<times> bool \<times> string" where
  "install_definition rts def sc =
     (let name = co_Component def; rt = runtimeOf def
      in if name = [] then (sc, False, ''spec.component is empty'')
         else
           (case map_of rts rt of
              None \<Rightarrow> (sc, False, ''no module here implements runtime '' @ quoted rt)
            | Some factory \<Rightarrow>
              if (case InstalledComponent sc name of None \<Rightarrow> False | Some existing \<Rightarrow> \<not> hasTag existing definedTag)
              then (sc, False, quoted name @ '' is already a compiled component in this module'')
              else
                (case factory (definition_of def) of
                   Inl err \<Rightarrow> (sc, False, err_msg err)
                 | Inr cmp \<Rightarrow>
                   (case Install cmp sc of
                      (sc', Some err) \<Rightarrow> (sc', False, ''install: '' @ err_msg err)
                    | (sc', None) \<Rightarrow> (sc', True, [])))))"

definition delete_definition ::
  "('w, component_object) kube \<Rightarrow> ('s, 'v) runtimes \<Rightarrow> component_object \<Rightarrow> ('s, 'v) schedule \<times> 'w
     \<Rightarrow> (('s, 'v) schedule \<times> 'w) \<times> int \<times> go_error option" where
  "delete_definition K rts def st =
     (case st of (sc, w) \<Rightarrow>
        if kb_ContainsFinalizer K (co_Finalizers def) componentFinalizer then
          (let sc' = (if serves rts def then fst (Uninstall (co_Component def) sc) else sc);
               def' = def\<lparr>co_Finalizers := kb_RemoveFinalizer K (co_Finalizers def) componentFinalizer\<rparr>
           in case kb_Update K w def' of
                (w', Inl err) \<Rightarrow> ((sc', w'), 0, Some (WrapError ''remove finalizer: '' err))
              | (w', Inr _) \<Rightarrow> ((sc', w'), 0, None))
        else (st, 0, None))"

definition ensure_component_finalizer ::
  "('w, component_object) kube \<Rightarrow> ('s, 'v) runtimes \<Rightarrow> component_object \<Rightarrow> 'w \<Rightarrow> 'w \<times> (go_error + component_object)" where
  "ensure_component_finalizer K rts def w =
     (if serves rts def \<and> \<not> kb_ContainsFinalizer K (co_Finalizers def) componentFinalizer
      then kb_Update K w (def\<lparr>co_Finalizers := kb_AddFinalizer K (co_Finalizers def) componentFinalizer\<rparr>)
      else (w, Inr def))"

definition TinyComponent_Reconcile ::
  "('w, component_object) kube \<Rightarrow> ('s, 'v) runtimes \<Rightarrow> module_info \<Rightarrow> string \<Rightarrow> string
     \<Rightarrow> ('s, 'v) schedule \<times> 'w \<Rightarrow> (('s, 'v) schedule \<times> 'w) \<times> int \<times> go_error option" where
  "TinyComponent_Reconcile K rts info ns name st =
     (case st of (sc, w) \<Rightarrow>
        (case kb_Get K w ns name of
           Inl err \<Rightarrow> (st, 0, if kb_IsNotFound K err then None else Some (WrapError ''get tinycomponent: '' err))
         | Inr def0 \<Rightarrow>
           if co_Deleting def0 then delete_definition K rts def0 st
           else
             (case ensure_component_finalizer K rts def0 w of
                (w1, Inl err) \<Rightarrow> ((sc, w1), 0, Some (WrapError ''add finalizer: '' err))
              | (w1, Inr def) \<Rightarrow>
                (case install_definition rts def sc of
                   (sc', installed, reason) \<Rightarrow>
                     if \<not> kb_IsLeader K w1 then ((sc', w1), 60, None)
                     else
                       (case kb_WriteStatus K w1
                               (def\<lparr>co_Installed := installed, co_Reason := reason, co_ObservedGeneration := co_Generation def,
                                   co_Module := (if installed then mi_Name info else [])\<rparr>) def of
                          (w2, Some err) \<Rightarrow> ((sc', w2), 0, Some (WrapError ''patch status: '' err))
                        | (w2, None) \<Rightarrow> ((sc', w2), 300, None))))))"

subsection \<open>Modules\<close>

record module_port =
  mp_Name :: string
  mp_Label :: string
  mp_Source :: bool
  mp_Position :: int
  mp_Schema :: "bytes option"

record module_component_status =
  ms_Name :: string
  ms_Description :: string
  ms_Info :: string
  ms_Tags :: "string list"
  ms_Ports :: "module_port list"

record module_object =
  mo_Addr :: string
  mo_Name :: string
  mo_Version :: string
  mo_SDKVersion :: string
  mo_Components :: "module_component_status list"

text \<open>A port whose schema cannot be generated or marshalled is published without one.\<close>

definition buildComponentPorts :: "('v \<Rightarrow> bytes option) \<Rightarrow> 'v port list \<Rightarrow> module_port list" where
  "buildComponentPorts createSchema ports =
     map (\<lambda>p. \<lparr>mp_Name = pt_Name p, mp_Label = pt_Label p, mp_Source = pt_Source p, mp_Position = pt_Position p,
              mp_Schema = (case pt_Configuration p of None \<Rightarrow> None | Some conf \<Rightarrow> createSchema conf)\<rparr>)
       (filter (\<lambda>p. pt_Name p \<noteq> ReconcilePort \<and> pt_Name p \<noteq> ClientPort \<and> pt_Name p \<noteq> IdentityPort) ports)"

text \<open>The registered components, each with the state its \<open>Ports\<close> are read from.\<close>

definition buildComponentStatus ::
  "('v \<Rightarrow> bytes option) \<Rightarrow> (('s, 'v) component \<times> 's) list \<Rightarrow> module_component_status list" where
  "buildComponentStatus createSchema components =
     map (\<lambda>(c, s). \<lparr>ms_Name = cp_Name c, ms_Description = cp_Description c, ms_Info = cp_Info c, ms_Tags = cp_Tags c,
              ms_Ports = buildComponentPorts createSchema (cp_Ports c s)\<rparr>) components"

definition TinyModule_Reconcile ::
  "('w, module_object) kube \<Rightarrow> ('w, 'c) grpc \<Rightarrow> ('v \<Rightarrow> bytes option) \<Rightarrow> (('s, 'v) component \<times> 's) list \<Rightarrow> module_info
     \<Rightarrow> string \<Rightarrow> string \<Rightarrow> 'c pool \<times> 'w \<Rightarrow> ('c pool \<times> 'w) \<times> int \<times> go_error option" where
  "TinyModule_Reconcile K G createSchema components info ns name st =
     (case st of (p, w) \<Rightarrow>
        (case kb_Get K w ns name of
           Inl err \<Rightarrow> if kb_IsNotFound K err then (Deregister G name (p, w), 0, None) else (st, 0, Some err)
         | Inr instance0 \<Rightarrow>
           if name \<noteq> GetNameSanitised (mi_Name info) then
             ((if mo_Addr instance0 \<noteq> [] then Register name (mo_Addr instance0) p else p, w), 0, None)
           else if \<not> kb_IsLeader K w then (st, 5, None)
           else
             (let obj = instance0\<lparr>mo_Addr := mi_Addr info, mo_Version := mi_Version info, mo_Name := mi_Name info,
                          mo_SDKVersion := mi_SDKVersion info, mo_Components := buildComponentStatus createSchema components\<rparr>
              in case kb_WriteStatus K w obj instance0 of
                   (w', Some err) \<Rightarrow> ((p, w'), 0, Some err)
                 | (w', None) \<Rightarrow> ((p, w'), 0, None))))"

subsection \<open>Properties\<close>

lemma write_irrelevant [simp]:
  "delete_node (K\<lparr>kb_WriteStatus := f\<rparr>) = delete_node K"
  "ensure_node_finalizer (K\<lparr>kb_WriteStatus := f\<rparr>) = ensure_node_finalizer K"
  "delete_definition (Kc\<lparr>kb_WriteStatus := g\<rparr>) = delete_definition Kc"
  "ensure_component_finalizer (Kc\<lparr>kb_WriteStatus := g\<rparr>) = ensure_component_finalizer Kc"
  by (intro ext, simp add: delete_node_def ensure_node_finalizer_def delete_definition_def ensure_component_finalizer_def
      case_prod_unfold Let_def)+

lemma publish_node_follower: "(\<And>w. \<not> kb_IsLeader K w) \<Longrightarrow> publish_node K info origin node err = (\<lambda>w. (w, 60, None))"
  by (intro ext) (simp add: publish_node_def)

text \<open>C18: only the leader writes a status. While no moment finds the pod leading, the three reconcilers do exactly the
  same whatever a status write would do: the scheduler, the pool and the cluster end up the same, and so do the
  wait and the error.\<close>

theorem status_written_by_leader:
  assumes "\<And>w. \<not> kb_IsLeader Kn w" and "\<And>w. \<not> kb_IsLeader Kc w" and "\<And>w. \<not> kb_IsLeader Km w"
  shows "TinyNode_Reconcile E zeroNode h (Kn\<lparr>kb_WriteStatus := f\<rparr>) info ns name st = TinyNode_Reconcile E zeroNode h Kn info ns name st \<and>
    TinyComponent_Reconcile (Kc\<lparr>kb_WriteStatus := g\<rparr>) rts info ns name st = TinyComponent_Reconcile Kc rts info ns name st \<and>
    TinyModule_Reconcile (Km\<lparr>kb_WriteStatus := k\<rparr>) G createSchema components info ns name pst =
      TinyModule_Reconcile Km G createSchema components info ns name pst"
  using assms
  by (simp add: TinyNode_Reconcile_def TinyComponent_Reconcile_def TinyModule_Reconcile_def publish_node_follower case_prod_unfold
      split: option.split sum.split)

lemma Update_missing:
  "map_of (sc_components sc) (tn_Component node) = None \<Longrightarrow>
   Update E zeroNode h ctx node (sc, w) =
     Some ((sc, w), node, Some (PermanentError (ErrNew (''component '' @ tn_Component node @ '' is not registered''))))"
  by (simp add: Update_def NewPermanentError_def)

text \<open>A node whose component is not installed says so. The leader publishes a status with the error flag, the reason and the
  generation it saw, leaves the scheduler alone, and looks again in five minutes instead of failing: the
  condition does not go away by retrying.\<close>

theorem missing_component_published:
  assumes "ParseFullName name = Some (m, c)" and "NameMatches m (GetNameSanitised (mi_Name info))"
    and "kb_Get K w ns name = Inr obj" and "\<not> no_Deleting obj" and "kb_ContainsFinalizer K (no_Finalizers obj) nodeFinalizer"
    and "map_of (sc_components sc) (tn_Component (no_node obj)) = None" and "kb_IsLeader K w"
  shows "\<exists>obj'. TinyNode_Reconcile E zeroNode h K info ns name (sc, w) =
      Some ((sc, fst (kb_WriteStatus K w obj' obj)),
            (case snd (kb_WriteStatus K w obj' obj) of None \<Rightarrow> (300, None) | Some err \<Rightarrow> (0, Some (WrapError ''patch status: '' err)))) \<and>
    ns_Error (tn_Status (no_node obj')) \<and> no_ObservedGeneration obj' = no_Generation obj \<and>
    ns_Status (tn_Status (no_node obj')) = ''component '' @ tn_Component (no_node obj) @ '' is not registered''"
proof -
  let ?err = "PermanentError (ErrNew (''component '' @ tn_Component (no_node obj) @ '' is not registered''))"
  let ?obj = "(published info obj (set_status ''OK'' False (no_node obj)) (Some ?err))\<lparr>no_LastUpdateTime := Some (kb_Now K w)\<rparr>"
  have u: "Update E zeroNode h None (set_status ''OK'' False (no_node obj)) (sc, w) =
      Some ((sc, w), set_status ''OK'' False (no_node obj), Some ?err)"
    using Update_missing [of sc "set_status ''OK'' False (no_node obj)"] assms(6) by (simp add: set_status_def)
  have "TinyNode_Reconcile E zeroNode h K info ns name (sc, w) =
      Some ((sc, fst (kb_WriteStatus K w ?obj obj)),
            (case snd (kb_WriteStatus K w ?obj obj) of None \<Rightarrow> (300, None) | Some err \<Rightarrow> (0, Some (WrapError ''patch status: '' err))))"
    using assms u
    by (simp add: TinyNode_Reconcile_def ensure_node_finalizer_def publish_node_def IsPermanent_def case_prod_unfold split: option.split)
  then show ?thesis by (auto simp: published_def set_status_def)
qed

text \<open>C19: deleting a definition that was refused takes the compiled component away. A definition whose name belongs to a
  compiled component is refused and leaves the scheduler alone, as intended; but its deletion uninstalls
  whatever has the name, so the compiled component is gone and so are its instances.\<close>

theorem refused_definition_withdraws_compiled:
  assumes live: "kb_Get K w ns name = Inr def" "\<not> co_Deleting def" "kb_ContainsFinalizer K (co_Finalizers def) componentFinalizer"
    and deleted: "kb_Get K w' ns name = Inr (def\<lparr>co_Deleting := True\<rparr>)"
    and served: "serves rts def" "co_Component def \<noteq> []"
    and compiled: "InstalledComponent sc (co_Component def) = Some existing" "\<not> hasTag existing definedTag"
    and inv: "sched_inv sc" and inst: "map_of (sc_instances sc) n = Some (mc, rn)" "cp_Name (mc_comp mc) = co_Component def"
  shows "fst (fst (TinyComponent_Reconcile K rts info ns name (sc, w))) = sc \<and>
    (let sc' = fst (fst (TinyComponent_Reconcile K rts info ns name (sc, w')))
     in InstalledComponent sc' (co_Component def) = None \<and> map_of (sc_instances sc') n = None)"
proof
  show "fst (fst (TinyComponent_Reconcile K rts info ns name (sc, w))) = sc"
    using live compiled served
    by (simp add: TinyComponent_Reconcile_def ensure_component_finalizer_def install_definition_def serves_def case_prod_unfold Let_def
        split: option.split)
  obtain sc' where u: "Uninstall (co_Component def) sc = (sc', True)"
    using compiled(1) served(2) by (auto simp: Uninstall_def InstalledComponent_def Let_def)
  have "serves rts (def\<lparr>co_Deleting := True\<rparr>)" using served(1) by (auto simp: serves_def runtimeOf_def)
  then have "fst (fst (TinyComponent_Reconcile K rts info ns name (sc, w'))) = sc'"
    using deleted live(3) u by (simp add: TinyComponent_Reconcile_def delete_definition_def case_prod_unfold Let_def split: sum.split)
  moreover have "InstalledComponent sc' (co_Component def) = None \<and> map_of (sc_instances sc') n = None"
    using Uninstall_lookup [OF inv u] inst by (simp add: InstalledComponent_def)
  ultimately show "let sc' = fst (fst (TinyComponent_Reconcile K rts info ns name (sc, w')))
     in InstalledComponent sc' (co_Component def) = None \<and> map_of (sc_instances sc') n = None" by simp
qed


text \<open>Editing a definition does not change the nodes that already run it. The new code is registered, but an instance keeps the
  component it was made from through every later update of its node.\<close>

theorem edited_definition_keeps_instance:
  assumes "map_of (sc_instances sc) (tn_Name node) = Some (mc, rn)"
    and "Update E zeroNode h ctx node (fst (install_definition rts def sc), w) = Some ((sc', w'), node', err)"
  shows "\<exists>rn'. map_of (sc_instances sc') (tn_Name node) = Some (mc, rn')"
proof -
  let ?sc = "fst (install_definition rts def sc)"
  have "sc_instances ?sc = sc_instances sc"
    by (simp add: install_definition_def Install_def Let_def split: option.split sum.split)
  then have "get_or_create (e_codec E) zeroNode cmp node ?sc = Some ((mc, rn), False)" for cmp
    using assms(1) by (simp add: get_or_create_def)
  then show ?thesis using assms
    by (auto simp: Update_def put_instance_def case_prod_unfold Let_def update_conv' \<open>sc_instances ?sc = sc_instances sc\<close>
        split: option.splits)
qed

subsection \<open>Examples\<close>

text \<open>A cluster that lists its writes, in which nobody leads or everybody does.\<close>

definition recording :: "'o \<Rightarrow> bool \<Rightarrow> (bytes gomap, 'o) kube" where
  "recording obj leader =
     \<lparr>kb_Get = (\<lambda>w ns name. Inr obj), kb_IsNotFound = (\<lambda>e. False), kb_Update = (\<lambda>w x. (w @ [(''update'', [])], Inr x)),
      kb_WriteStatus = (\<lambda>w x y. (w @ [(''status'', [])], None)), kb_ContainsFinalizer = (\<lambda>fs f. f \<in> set fs),
      kb_AddFinalizer = (\<lambda>fs f. fs @ [f]), kb_RemoveFinalizer = (\<lambda>fs f. removeAll f fs), kb_IsLeader = (\<lambda>w. leader),
      kb_Now = (\<lambda>w. 0)\<rparr>"

definition sample_info :: module_info where
  "sample_info = \<lparr>mi_Name = ''http'', mi_Version = ''1.0.0'', mi_SDKVersion = ''0.1.0'', mi_Addr = ''http:50051''\<rparr>"

definition sample_module_object :: module_object where
  "sample_module_object = \<lparr>mo_Addr = [], mo_Name = [], mo_Version = [], mo_SDKVersion = [], mo_Components = []\<rparr>"

definition sample_node_object :: node_object where
  "sample_node_object =
     \<lparr>no_node = sample_node\<lparr>tn_Name := ''f.acme-http.n'', tn_Component := ''gone''\<rparr>, no_Deleting = False, no_Finalizers = [nodeFinalizer],
      no_Generation = 7, no_ModuleVersion = [], no_ModuleName = [], no_ModuleSDKVersion = [], no_ObservedGeneration = 0,
      no_LastUpdateTime = None\<rparr>"

definition sample_definition :: component_object where
  "sample_definition =
     \<lparr>co_Component = ''echo'', co_Description = [], co_Info = [], co_Runtime = [], co_Script = ''x'', co_Input = [], co_Output = [],
      co_EnableErrorPort = False, co_Deleting = False, co_Finalizers = [componentFinalizer], co_Generation = 1, co_Installed = False,
      co_Module = [], co_Reason = [], co_ObservedGeneration = 0\<rparr>"

definition sample_runtimes :: "(nat, string) runtimes" where
  "sample_runtimes = [(''js'', \<lambda>d. Inr (sample_module\<lparr>mc_comp := sample_component\<lparr>cp_Tags := [definedTag]\<rparr>\<rparr>))]"

lemma http_name [simp]: "SanitizeResourceName ''http'' = ''http''"
  by code_simp

lemma http_claimed: "NameMatches ''acme-http'' ''http''"
  by code_simp


theorem status_written_by_leader_witness:
  "TinyNode_Reconcile sample_world_env sample_node store_handler
       ((recording sample_node_object False)\<lparr>kb_WriteStatus := \<lambda>w x y. ([], Some CtxCanceled)\<rparr>) sample_info ''ns'' ''f.http.n'' (sample_schedule, [])
     = TinyNode_Reconcile sample_world_env sample_node store_handler (recording sample_node_object False) sample_info ''ns'' ''f.http.n'' (sample_schedule, [])"
  by (rule status_written_by_leader [where Kc = "recording sample_definition False" and Km = "recording sample_module_object False", THEN conjunct1])
    (simp_all add: recording_def)

theorem missing_component_published_witness:
  "TinyNode_Reconcile sample_world_env sample_node store_handler (recording sample_node_object True) sample_info ''ns'' ''f.acme-http.n''
     (sample_schedule, []) = Some ((sample_schedule, [(''status'', [])]), 300, None)"
  using missing_component_published [of "''f.acme-http.n''" "''acme-http''" "''n''" sample_info "recording sample_node_object True" "[]" "''ns''"
      sample_node_object sample_schedule sample_world_env sample_node store_handler] http_claimed
  by (simp add: recording_def sample_info_def GetNameSanitised_def sample_node_object_def sample_schedule_def ParseFullName_def)

definition sample_cluster :: "(bytes gomap, component_object) kube" where
  "sample_cluster =
     (recording sample_definition True)\<lparr>kb_Get := \<lambda>w ns name. Inr (if w = [] then sample_definition else sample_definition\<lparr>co_Deleting := True\<rparr>)\<rparr>"

theorem refused_definition_withdraws_compiled_witness:
  "fst (fst (TinyComponent_Reconcile sample_cluster sample_runtimes sample_info ''ns'' ''d'' (sample_schedule, []))) = sample_schedule \<and>
   InstalledComponent (fst (fst (TinyComponent_Reconcile sample_cluster sample_runtimes sample_info ''ns'' ''d'' (sample_schedule, [(''x'', [])])))) ''echo'' = None"
proof -
  have "kb_Get sample_cluster [] ''ns'' ''d'' = Inr sample_definition"
    "kb_Get sample_cluster [(''x'', [])] ''ns'' ''d'' = Inr (sample_definition\<lparr>co_Deleting := True\<rparr>)"
    "kb_ContainsFinalizer sample_cluster (co_Finalizers sample_definition) componentFinalizer" "\<not> co_Deleting sample_definition"
    "serves sample_runtimes sample_definition" "co_Component sample_definition = ''echo''"
    by (simp_all add: sample_cluster_def recording_def sample_definition_def serves_def runtimeOf_def sample_runtimes_def)
  moreover have "InstalledComponent sample_schedule ''echo'' = Some sample_module" "\<not> hasTag sample_module definedTag"
    "map_of (sc_instances sample_schedule) ''n'' = Some (sample_module, sample_runner)" "cp_Name (mc_comp sample_module) = ''echo''"
    by (simp_all add: InstalledComponent_def sample_schedule_def hasTag_def sample_module_def sample_component_def)
  ultimately show ?thesis
    using refused_definition_withdraws_compiled [of sample_cluster "[]" "''ns''" "''d''" sample_definition "[(''x'', [])]" sample_runtimes
        sample_schedule sample_module "''n''" sample_module sample_runner sample_info] sample_schedule_inv
    by (simp add: Let_def)
qed


theorem edited_definition_keeps_instance_witness:
  "\<exists>sc' w' node' err rn'.
     Update sample_world_env sample_node store_handler None (sample_node\<lparr>tn_Name := ''n''\<rparr>)
       (fst (install_definition sample_runtimes (sample_definition\<lparr>co_Component := ''other''\<rparr>) sample_schedule), []) = Some ((sc', w'), node', err) \<and>
     map_of (sc_instances sc') ''n'' = Some (sample_module, rn')"
proof -
  let ?node = "sample_node\<lparr>tn_Name := ''n''\<rparr>"
  let ?def = "sample_definition\<lparr>co_Component := ''other''\<rparr>"
  let ?u = "Update sample_world_env sample_node store_handler None ?node (fst (install_definition sample_runtimes ?def sample_schedule), [])"
  have i: "map_of (sc_instances sample_schedule) (tn_Name ?node) = Some (sample_module, sample_runner)"
    by (simp add: sample_schedule_def)
  have "?u \<noteq> None"
    by (simp add: Update_def get_or_create_def install_definition_def InstalledComponent_def sample_runtimes_def sample_definition_def runtimeOf_def
        Install_def sample_schedule_def sample_node_def sample_component_def case_prod_unfold Let_def split: option.split)
  then obtain sc' w' node' err where u: "?u = Some ((sc', w'), node', err)" by auto
  from edited_definition_keeps_instance [OF i u] u show ?thesis by auto
qed

end
