(* ===== verification/Resource_Manager.thy ===== *)
theory Resource_Manager
  imports Controllers
begin

section \<open>The resource manager\<close>

text \<open>
  \<open>src/pkg/resource/manager.go\<close>: what the editor and the runtime ask of the cluster. The Kubernetes client is a record of
  calls for each kind of object, over a world of any type: a read gives the object or an error, a write gives the
  object as the cluster stored it, with the name it was given. Label selectors are built by that library and may
  be refused; the test for a missing or existing object and the polling loop belong to it too. A nil map
  that is written to is told from an empty one. An operation that may panic gives \<open>None\<close> then.
  The exposure of ports is in its own theory.
\<close>

subsection \<open>Objects\<close>

record owner_reference =
  or_APIVersion :: string
  or_Kind :: string
  or_Name :: string
  or_UID :: string
  or_Controller :: "bool option"

record object_meta =
  om_APIVersion :: string
  om_Kind :: string
  om_Name :: string
  om_GenerateName :: string
  om_Namespace :: string
  om_UID :: string
  om_Labels :: "string gomap"
  om_Annotations :: "string gomap option"
  om_OwnerReferences :: "owner_reference list"

type_synonym tiny_flow = object_meta

record tiny_project = object_meta +
  tp_Description :: string

record tiny_widget =
  tw_Port :: string
  tw_Name :: string
  tw_SchemaPatch :: bytes
  tw_GridX :: int
  tw_GridY :: int
  tw_GridW :: int
  tw_GridH :: int

record widget_page = object_meta +
  wp_Widgets :: "tiny_widget list"

record tiny_scenario = object_meta +
  ts_Ports :: "(string \<times> bytes) list"

record tiny_module = object_meta +
  tm_Image :: string
  tm_Status :: module_object

record cluster_node = node_object +
  cn_APIVersion :: string
  cn_Kind :: string
  cn_OwnerReferences :: "owner_reference list"

subsection \<open>The client\<close>

record ('w, 'l, 'o) client =
  kc_Get :: "'w \<Rightarrow> string \<Rightarrow> string \<Rightarrow> go_error + 'o"
  kc_List :: "'w \<Rightarrow> 'l option \<Rightarrow> string \<Rightarrow> go_error + 'o list"
  kc_Create :: "'w \<Rightarrow> 'o \<Rightarrow> 'w \<times> (go_error + 'o)"
  kc_Update :: "'w \<Rightarrow> 'o \<Rightarrow> 'w \<times> (go_error + 'o)"
  kc_PatchStatus :: "'w \<Rightarrow> 'o \<Rightarrow> 'o \<Rightarrow> 'w \<times> go_error option"
  kc_Delete :: "'w \<Rightarrow> string \<Rightarrow> string \<Rightarrow> 'w \<times> go_error option"
  kc_DeleteAllOf :: "'w \<Rightarrow> 'l \<Rightarrow> string \<Rightarrow> 'w \<times> go_error option"

record ('w, 'l) manager =
  mg_nodes :: "('w, 'l, cluster_node) client"
  mg_flows :: "('w, 'l, tiny_flow) client"
  mg_projects :: "('w, 'l, tiny_project) client"
  mg_pages :: "('w, 'l, widget_page) client"
  mg_scenarios :: "('w, 'l, tiny_scenario) client"
  mg_modules :: "('w, 'l, tiny_module) client"
  mg_Selector :: "string gomap \<Rightarrow> go_error + 'l"
  mg_IsNotFound :: "go_error \<Rightarrow> bool"
  mg_IsAlreadyExists :: "go_error \<Rightarrow> bool"
  mg_Poll :: "int \<Rightarrow> int \<Rightarrow> ('w \<Rightarrow> go_error + bool) \<Rightarrow> 'w \<Rightarrow> 'w \<times> go_error option"
  mg_namespace :: string

definition GroupVersion :: string where "GroupVersion = ''operator.tinysystems.io/v1alpha1''"
definition ProjectNameAnnotation :: string where "ProjectNameAnnotation = ''tinysystems.io/project-name''"
definition FlowDescriptionAnnotation :: string where "FlowDescriptionAnnotation = ''tinysystems.io/flow-description''"
definition PageTitleAnnotation :: string where "PageTitleAnnotation = ''tinysystems.io/page-name''"
definition PageSortIdxAnnotation :: string where "PageSortIdxAnnotation = ''tinysystems.io/page-sort-idx''"
definition ScenarioNameAnnotation :: string where "ScenarioNameAnnotation = ''tinysystems.io/scenario-name''"

text \<open>The object \<open>kind\<close> reads, with version and kind set for owner references when the client left them empty.\<close>

definition with_type :: "string \<Rightarrow> 'a object_meta_scheme \<Rightarrow> 'a object_meta_scheme" where
  "with_type kind obj =
     obj\<lparr>om_APIVersion := (if om_APIVersion obj = [] then GroupVersion else om_APIVersion obj),
         om_Kind := (if om_Kind obj = [] then kind else om_Kind obj)\<rparr>"

text \<open>The reference every created object carries to the object it belongs to.\<close>

definition owned_by :: "'a object_meta_scheme \<Rightarrow> owner_reference list" where
  "owned_by obj =
     [\<lparr>or_APIVersion = om_APIVersion obj, or_Kind = om_Kind obj, or_Name = om_Name obj, or_UID = om_UID obj,
       or_Controller = Some True\<rparr>]"

definition new_meta :: "string \<Rightarrow> string \<Rightarrow> string gomap \<Rightarrow> string gomap \<Rightarrow> object_meta" where
  "new_meta ns generateName labels annotations =
     \<lparr>om_APIVersion = [], om_Kind = [], om_Name = [], om_GenerateName = generateName, om_Namespace = ns, om_UID = [],
      om_Labels = labels, om_Annotations = Some annotations, om_OwnerReferences = []\<rparr>"

subsection \<open>Reading\<close>

definition GetNode :: "('w, 'l) manager \<Rightarrow> string \<Rightarrow> string \<Rightarrow> 'w \<Rightarrow> go_error + cluster_node" where
  "GetNode M name ns w =
     (case kc_Get (mg_nodes M) w ns name of
        Inl err \<Rightarrow> Inl err
      | Inr node \<Rightarrow>
        Inr (node\<lparr>cn_APIVersion := (if cn_APIVersion node = [] then GroupVersion else cn_APIVersion node),
                  cn_Kind := (if cn_Kind node = [] then ''TinyNode'' else cn_Kind node)\<rparr>))"

definition GetFLow :: "('w, 'l) manager \<Rightarrow> string \<Rightarrow> string \<Rightarrow> 'w \<Rightarrow> go_error + tiny_flow" where
  "GetFLow M name ns w = map_sum (\<lambda>err. err) (with_type ''TinyFlow'') (kc_Get (mg_flows M) w ns name)"

definition GetProject :: "('w, 'l) manager \<Rightarrow> string \<Rightarrow> string \<Rightarrow> 'w \<Rightarrow> go_error + tiny_project" where
  "GetProject M name ns w = map_sum (\<lambda>err. err) (with_type ''TinyProject'') (kc_Get (mg_projects M) w ns name)"

definition GetScenario :: "('w, 'l) manager \<Rightarrow> string \<Rightarrow> string \<Rightarrow> 'w \<Rightarrow> go_error + tiny_scenario" where
  "GetScenario M name ns w = kc_Get (mg_scenarios M) w ns name"

text \<open>A list of the objects with the given labels; \<open>wrapped\<close> is what the caller makes of the error of the list call.\<close>

definition labelled ::
  "('w, 'l) manager \<Rightarrow> ('w, 'l, 'o) client \<Rightarrow> (go_error \<Rightarrow> go_error) \<Rightarrow> (go_error \<Rightarrow> go_error) \<Rightarrow> string gomap \<Rightarrow> 'w \<Rightarrow> go_error + 'o list" where
  "labelled M C refused wrapped labels w =
     (case mg_Selector M labels of
        Inl err \<Rightarrow> Inl (refused err)
      | Inr sel \<Rightarrow> map_sum wrapped (\<lambda>xs. xs) (kc_List C w (Some sel) (mg_namespace M)))"

definition errorf :: "string \<Rightarrow> go_error \<Rightarrow> go_error" where
  "errorf text err = ErrNew (text @ err_msg err)"

definition GetProjectList :: "('w, 'l) manager \<Rightarrow> 'w \<Rightarrow> go_error + tiny_project list" where
  "GetProjectList M w = map_sum (errorf ''service list error: '') (\<lambda>xs. xs) (kc_List (mg_projects M) w None (mg_namespace M))"

definition GetFlowList :: "('w, 'l) manager \<Rightarrow> string \<Rightarrow> 'w \<Rightarrow> go_error + tiny_flow list" where
  "GetFlowList M projectName w =
     labelled M (mg_flows M) (errorf ''build selector error: '') (errorf ''service list error: '') [(ProjectNameLabel, projectName)] w"

definition GetProjectScenarios :: "('w, 'l) manager \<Rightarrow> string \<Rightarrow> 'w \<Rightarrow> go_error + tiny_scenario list" where
  "GetProjectScenarios M projectName w =
     labelled M (mg_scenarios M) (WrapError ''build selector error: '') (\<lambda>err. err) [(ProjectNameLabel, projectName)] w"

definition GetProjectFlowNodes :: "('w, 'l) manager \<Rightarrow> string \<Rightarrow> string \<Rightarrow> 'w \<Rightarrow> go_error + cluster_node list" where
  "GetProjectFlowNodes M projectName flowName w =
     labelled M (mg_nodes M) (errorf ''build selector error: '') (\<lambda>err. err)
       [(ProjectNameLabel, projectName), (FlowNameLabel, flowName)] w"

definition GetProjectNodes :: "('w, 'l) manager \<Rightarrow> string \<Rightarrow> 'w \<Rightarrow> go_error + cluster_node list" where
  "GetProjectNodes M projectName w =
     labelled M (mg_nodes M) (errorf ''build selector error: '') (\<lambda>err. err) [(ProjectNameLabel, projectName)] w"

definition GetProjectPageWidgets :: "('w, 'l) manager \<Rightarrow> string \<Rightarrow> 'w \<Rightarrow> go_error + widget_page list" where
  "GetProjectPageWidgets M projectName w =
     labelled M (mg_pages M) (errorf ''build selector error: '') (\<lambda>err. err) [(ProjectNameLabel, projectName)] w"

record component_info =
  ci_Name :: string
  ci_Description :: string
  ci_Info :: string
  ci_Tags :: "string list"

record installed_info = module_info +
  ii_Components :: "component_info list"

definition GetInstalledComponents :: "('w, 'l) manager \<Rightarrow> 'w \<Rightarrow> go_error + installed_info list" where
  "GetInstalledComponents M w =
     (case kc_List (mg_modules M) w None (mg_namespace M) of
        Inl err \<Rightarrow> Inl (errorf ''nodes list error: '' err)
      | Inr items \<Rightarrow>
        Inr (map (\<lambda>v. \<lparr>mi_Name = mo_Name (tm_Status v), mi_Version = mo_Version (tm_Status v), mi_SDKVersion = [], mi_Addr = [],
                      ii_Components = map (\<lambda>c. \<lparr>ci_Name = ms_Name c, ci_Description = ms_Description c, ci_Info = ms_Info c, ci_Tags = ms_Tags c\<rparr>)
                        (mo_Components (tm_Status v))\<rparr>) items))"

subsection \<open>Creating\<close>

text \<open>The error of a write, without the object.\<close>

definition written :: "'w \<times> (go_error + 'o) \<Rightarrow> 'w \<times> go_error option" where
  "written r = (case r of (w, Inl err) \<Rightarrow> (w, Some err) | (w, Inr _) \<Rightarrow> (w, None))"

text \<open>\<open>CreateNode\<close> gives the stored node too: the caller reads its name from the object it passed in.\<close>

definition CreateNode :: "('w, 'l) manager \<Rightarrow> cluster_node \<Rightarrow> 'w \<Rightarrow> 'w \<times> (go_error + cluster_node)" where
  "CreateNode M node w =
     (let flowName = get_label (tn_Labels (no_node node)) FlowNameLabel
      in if flowName \<noteq> [] then
           (case GetFLow M flowName (tn_Namespace (no_node node)) w of
              Inl err \<Rightarrow> (w, Inl (WrapError ''failed to get flow for owner reference: '' err))
            | Inr flow \<Rightarrow> kc_Create (mg_nodes M) w (node\<lparr>cn_OwnerReferences := owned_by flow\<rparr>))
         else kc_Create (mg_nodes M) w node)"

definition UpdateNode :: "('w, 'l) manager \<Rightarrow> cluster_node \<Rightarrow> 'w \<Rightarrow> 'w \<times> go_error option" where
  "UpdateNode M node w = written (kc_Update (mg_nodes M) w node)"

definition GetNameAndVersion :: "'a module_info_scheme \<Rightarrow> string" where
  "GetNameAndVersion i = mi_Name i @ '':'' @ mi_Version i"

definition CreateModule :: "('w, 'l) manager \<Rightarrow> 'a module_info_scheme \<Rightarrow> 'w \<Rightarrow> 'w \<times> go_error option" where
  "CreateModule M info w =
     (let meta = (new_meta (mg_namespace M) [] [] [])\<lparr>om_Name := GetNameSanitised (mi_Name info)\<rparr>;
          node = object_meta.extend meta (tiny_module.fields (GetNameAndVersion info)
             \<lparr>mo_Addr = [], mo_Name = [], mo_Version = [], mo_SDKVersion = [], mo_Components = []\<rparr>)
      in case written (kc_Create (mg_modules M) w node) of
           (w', Some err) \<Rightarrow> (w', if mg_IsAlreadyExists M err then None else Some err)
         | (w', None) \<Rightarrow> (w', None))"

definition CreateFlow :: "('w, 'l) manager \<Rightarrow> string \<Rightarrow> string \<Rightarrow> string \<Rightarrow> 'w \<Rightarrow> 'w \<times> (go_error + string)" where
  "CreateFlow M ns projectName name w =
     (if projectName = [] then (w, Inl (ErrNew ''project name is required''))
      else
        (case GetProject M projectName ns w of
           Inl err \<Rightarrow> (w, Inl (WrapError ''failed to get project for owner reference: '' err))
         | Inr project \<Rightarrow>
           (let flow = (new_meta ns (SanitizeResourceName name) [(ProjectNameLabel, projectName)] [(FlowDescriptionAnnotation, name)])
                  \<lparr>om_OwnerReferences := owned_by project\<rparr>
            in case kc_Create (mg_flows M) w flow of
                 (w', Inl err) \<Rightarrow> (w', Inl (errorf ''unable to create project '' err))
               | (w', Inr stored) \<Rightarrow> (w', Inr (om_Name stored)))))"

definition CreateProject :: "('w, 'l) manager \<Rightarrow> string \<Rightarrow> string \<Rightarrow> 'w \<Rightarrow> 'w \<times> (go_error + tiny_project)" where
  "CreateProject M ns name w =
     (let proj = object_meta.extend (new_meta ns (SanitizeResourceName name) [] [(ProjectNameAnnotation, name)]) (tiny_project.fields [])
      in case kc_Create (mg_projects M) w proj of
           (w', Inl err) \<Rightarrow> (w', Inl (errorf ''unable to create project '' err))
         | (w', Inr stored) \<Rightarrow> (w', Inr stored))"

definition CreatePage :: "('w, 'l) manager \<Rightarrow> string \<Rightarrow> string \<Rightarrow> string \<Rightarrow> int \<Rightarrow> 'w \<Rightarrow> 'w \<times> (go_error + string)" where
  "CreatePage M requestedPageMame projectName ns idx w =
     (case GetProject M projectName ns w of
        Inl err \<Rightarrow> (w, Inl (WrapError ''failed to get project for owner reference: '' err))
      | Inr project \<Rightarrow>
        (let meta = (new_meta ns (SanitizeResourceName requestedPageMame) [(ProjectNameLabel, projectName)]
                      [(PageTitleAnnotation, requestedPageMame), (PageSortIdxAnnotation, itoa idx)])
               \<lparr>om_OwnerReferences := owned_by project\<rparr>
         in case kc_Create (mg_pages M) w (object_meta.extend meta (widget_page.fields [])) of
              (w', Inl err) \<Rightarrow> (w', Inl err)
            | (w', Inr stored) \<Rightarrow> (w', Inr (om_Name stored))))"

definition CreateScenario :: "('w, 'l) manager \<Rightarrow> string \<Rightarrow> string \<Rightarrow> 'w \<Rightarrow> 'w \<times> (go_error + tiny_scenario)" where
  "CreateScenario M scenarioName projectName w =
     (case GetProject M projectName (mg_namespace M) w of
        Inl err \<Rightarrow> (w, Inl (WrapError ''failed to get project for owner reference: '' err))
      | Inr project \<Rightarrow>
        (let meta = (new_meta (mg_namespace M) (SanitizeResourceName scenarioName) [(ProjectNameLabel, projectName)]
                      [(ScenarioNameAnnotation, scenarioName)])\<lparr>om_OwnerReferences := owned_by project\<rparr>
         in case kc_Create (mg_scenarios M) w (object_meta.extend meta (tiny_scenario.fields [])) of
              (w', Inl err) \<Rightarrow> (w', Inl (WrapError ''failed to create scenario: '' err))
            | (w', Inr stored) \<Rightarrow> (w', Inr stored)))"

subsection \<open>Changing\<close>

text \<open>The status of a node, all of its fields.\<close>

definition status_fields :: "cluster_node \<Rightarrow> node_status \<times> string \<times> string \<times> string \<times> int \<times> int option" where
  "status_fields n = (tn_Status (no_node n), no_ModuleVersion n, no_ModuleName n, no_ModuleSDKVersion n, no_ObservedGeneration n, no_LastUpdateTime n)"

text \<open>An updater gives an error or the node it changed in place.\<close>

definition PatchNode ::
  "('w, 'l) manager \<Rightarrow> cluster_node \<Rightarrow> (cluster_node \<Rightarrow> go_error + cluster_node) \<Rightarrow> 'w \<Rightarrow> 'w \<times> go_error option" where
  "PatchNode M node updater w =
     (case kc_Get (mg_nodes M) w (tn_Namespace (no_node node)) (tn_Name (no_node node)) of
        Inl err \<Rightarrow> (w, Some err)
      | Inr baseNode \<Rightarrow>
        (case updater baseNode of
           Inl err \<Rightarrow> (w, Some err)
         | Inr findNode \<Rightarrow>
           if status_fields findNode = status_fields baseNode then (w, None)
           else kc_PatchStatus (mg_nodes M) w findNode baseNode))"

definition UpdatePage :: "('w, 'l) manager \<Rightarrow> widget_page \<Rightarrow> 'w \<Rightarrow> 'w \<times> go_error option" where
  "UpdatePage M page w = written (kc_Update (mg_pages M) w page)"

definition UpdateScenario :: "('w, 'l) manager \<Rightarrow> tiny_scenario \<Rightarrow> 'w \<Rightarrow> 'w \<times> go_error option" where
  "UpdateScenario M scenario w = written (kc_Update (mg_scenarios M) w scenario)"

text \<open>Writing into the nil map of a flow without annotations panics.\<close>

definition RenameFlow :: "('w, 'l) manager \<Rightarrow> string \<Rightarrow> string \<Rightarrow> string \<Rightarrow> 'w \<Rightarrow> ('w \<times> go_error option) option" where
  "RenameFlow M name ns newName w =
     (case kc_Get (mg_flows M) w ns name of
        Inl err \<Rightarrow> Some (w, Some err)
      | Inr flow \<Rightarrow>
        (case om_Annotations flow of
           None \<Rightarrow> None
         | Some a \<Rightarrow>
           Some (written (kc_Update (mg_flows M) w (flow\<lparr>om_Annotations := Some (AList.update FlowDescriptionAnnotation newName a)\<rparr>)))))"

definition RenameProject :: "('w, 'l) manager \<Rightarrow> string \<Rightarrow> string \<Rightarrow> string \<Rightarrow> 'w \<Rightarrow> 'w \<times> go_error option" where
  "RenameProject M name ns newName w =
     (case kc_Get (mg_projects M) w ns name of
        Inl err \<Rightarrow> (w, Some err)
      | Inr project \<Rightarrow>
        (let a = (case om_Annotations project of None \<Rightarrow> [] | Some a \<Rightarrow> a)
         in written (kc_Update (mg_projects M) w (project\<lparr>om_Annotations := Some (AList.update ProjectNameAnnotation newName a)\<rparr>))))"

definition UpdateProjectDescription :: "('w, 'l) manager \<Rightarrow> string \<Rightarrow> string \<Rightarrow> string \<Rightarrow> 'w \<Rightarrow> 'w \<times> go_error option" where
  "UpdateProjectDescription M name ns description w =
     (case kc_Get (mg_projects M) w ns name of
        Inl err \<Rightarrow> (w, Some err)
      | Inr project \<Rightarrow> written (kc_Update (mg_projects M) w (project\<lparr>tp_Description := description\<rparr>)))"

subsection \<open>Deleting\<close>

definition DeleteNode :: "('w, 'l) manager \<Rightarrow> cluster_node \<Rightarrow> 'w \<Rightarrow> 'w \<times> go_error option" where
  "DeleteNode M n w = kc_Delete (mg_nodes M) w (tn_Namespace (no_node n)) (tn_Name (no_node n))"

definition DeletePage :: "('w, 'l) manager \<Rightarrow> widget_page \<Rightarrow> 'w \<Rightarrow> 'w \<times> go_error option" where
  "DeletePage M page w = kc_Delete (mg_pages M) w (om_Namespace page) (om_Name page)"

definition DeleteScenario :: "('w, 'l) manager \<Rightarrow> tiny_scenario \<Rightarrow> 'w \<Rightarrow> 'w \<times> go_error option" where
  "DeleteScenario M scenario w = kc_Delete (mg_scenarios M) w (om_Namespace scenario) (om_Name scenario)"

definition DeleteFlow :: "('w, 'l) manager \<Rightarrow> string \<Rightarrow> 'w \<Rightarrow> 'w \<times> go_error option" where
  "DeleteFlow M flowResourceName w = kc_Delete (mg_flows M) w (mg_namespace M) flowResourceName"

definition DeleteProject :: "('w, 'l) manager \<Rightarrow> string \<Rightarrow> 'w \<Rightarrow> 'w \<times> go_error option" where
  "DeleteProject M projectName w = kc_Delete (mg_projects M) w (mg_namespace M) projectName"

definition DeleteFlowNodes :: "('w, 'l) manager \<Rightarrow> string \<Rightarrow> string \<Rightarrow> 'w \<Rightarrow> 'w \<times> go_error option" where
  "DeleteFlowNodes M projectResourceName flowResourceName w =
     (case mg_Selector M [(ProjectNameLabel, projectResourceName), (FlowNameLabel, flowResourceName)] of
        Inl err \<Rightarrow> (w, Some err)
      | Inr sel \<Rightarrow> kc_DeleteAllOf (mg_nodes M) w sel (mg_namespace M))"

text \<open>The loops of the clean-ups; an update that fails is logged and skipped.\<close>

fun clean_nodes :: "('w, 'l) manager \<Rightarrow> string \<Rightarrow> cluster_node list \<Rightarrow> 'w \<Rightarrow> 'w" where
  "clean_nodes M deleted [] w = w"
| "clean_nodes M deleted (n # nodes) w =
     (if tn_Name (no_node n) = deleted then clean_nodes M deleted nodes w
      else
        (case RemoveNodeReferences (no_node n) deleted of
           (changed, node) \<Rightarrow>
             clean_nodes M deleted nodes (if changed then fst (UpdateNode M (n\<lparr>no_node := node\<rparr>) w) else w)))"

definition CleanupNodeReferences :: "('w, 'l) manager \<Rightarrow> string \<Rightarrow> string \<Rightarrow> 'w \<Rightarrow> 'w \<times> go_error option" where
  "CleanupNodeReferences M projectName deletedNodeName w =
     (case GetProjectNodes M projectName w of
        Inl err \<Rightarrow> (w, Some (WrapError ''get project nodes: '' err))
      | Inr nodes \<Rightarrow> (clean_nodes M deletedNodeName nodes w, None))"

fun clean_pages :: "('w, 'l) manager \<Rightarrow> string list \<Rightarrow> widget_page list \<Rightarrow> 'w \<Rightarrow> 'w" where
  "clean_pages M starts [] w = w"
| "clean_pages M starts (p # pages) w =
     (let filtered = filter (\<lambda>v. \<not> list_ex (has_prefix (tw_Port v)) starts) (wp_Widgets p)
      in clean_pages M starts pages
           (if length filtered \<noteq> length (wp_Widgets p) then fst (UpdatePage M (p\<lparr>wp_Widgets := filtered\<rparr>) w) else w))"

definition CleanupWidgetReferences :: "('w, 'l) manager \<Rightarrow> string \<Rightarrow> string \<Rightarrow> 'w \<Rightarrow> 'w \<times> go_error option" where
  "CleanupWidgetReferences M projectName deletedNodeName w =
     (case GetProjectPageWidgets M projectName w of
        Inl err \<Rightarrow> (w, Some (WrapError ''get widget pages: '' err))
      | Inr pages \<Rightarrow> (clean_pages M [deletedNodeName @ '':''] pages w, None))"

definition CleanupFlowWidgetReferences :: "('w, 'l) manager \<Rightarrow> string \<Rightarrow> string \<Rightarrow> 'w \<Rightarrow> 'w \<times> go_error option" where
  "CleanupFlowWidgetReferences M projectName flowResourceName w =
     (case labelled M (mg_nodes M) (WrapError ''build selector: '') (WrapError ''list flow nodes: '')
             [(ProjectNameLabel, projectName), (FlowNameLabel, flowResourceName)] w of
        Inl err \<Rightarrow> (w, Some err)
      | Inr [] \<Rightarrow> (w, None)
      | Inr items \<Rightarrow>
        (case GetProjectPageWidgets M projectName w of
           Inl err \<Rightarrow> (w, Some (WrapError ''get widget pages: '' err))
         | Inr pages \<Rightarrow> (clean_pages M (map (\<lambda>n. tn_Name (no_node n) @ '':'') items) pages w, None)))"

subsection \<open>Waiting for the controller\<close>

text \<open>Times are in milliseconds.\<close>

definition DefaultSyncTimeout :: int where "DefaultSyncTimeout = 30000"
definition DefaultSyncPollInterval :: int where "DefaultSyncPollInterval = 500"

definition isNodeSynced :: "cluster_node \<Rightarrow> bool" where
  "isNodeSynced n =
     (no_ModuleName n \<noteq> [] \<and> ns_Status (tn_Status (no_node n)) = ''OK'' \<and> \<not> ns_Error (tn_Status (no_node n)) \<and>
      no_Generation n \<le> no_ObservedGeneration n)"

definition sync_condition :: "('w, 'l) manager \<Rightarrow> string \<Rightarrow> string \<Rightarrow> 'w \<Rightarrow> go_error + bool" where
  "sync_condition M name ns w =
     (case GetNode M name ns w of
        Inl err \<Rightarrow> if mg_IsNotFound M err then Inr False else Inl err
      | Inr n \<Rightarrow>
        if no_Generation n \<le> no_ObservedGeneration n then
          (if ns_Error (tn_Status (no_node n)) then Inr True else Inr (isNodeSynced n))
        else Inr False)"

definition WaitForNodeSync :: "('w, 'l) manager \<Rightarrow> string \<Rightarrow> string \<Rightarrow> int \<Rightarrow> 'w \<Rightarrow> 'w \<times> go_error option" where
  "WaitForNodeSync M name ns timeout w =
     mg_Poll M DefaultSyncPollInterval (if timeout = 0 then DefaultSyncTimeout else timeout) (sync_condition M name ns) w"

definition update_condition :: "('w, 'l) manager \<Rightarrow> string \<Rightarrow> string \<Rightarrow> int \<Rightarrow> 'w \<Rightarrow> go_error + bool" where
  "update_condition M name ns prevGeneration w =
     (case GetNode M name ns w of
        Inl err \<Rightarrow> Inl err
      | Inr n \<Rightarrow>
        if prevGeneration < no_Generation n \<and> isNodeSynced n then Inr True
        else if isNodeSynced n then Inr True else Inr False)"

definition waitForNodeSyncWithGeneration ::
  "('w, 'l) manager \<Rightarrow> string \<Rightarrow> string \<Rightarrow> int \<Rightarrow> int \<Rightarrow> 'w \<Rightarrow> 'w \<times> go_error option" where
  "waitForNodeSyncWithGeneration M name ns prevGeneration timeout w =
     mg_Poll M DefaultSyncPollInterval timeout (update_condition M name ns prevGeneration) w"

definition CreateNodeSync :: "('w, 'l) manager \<Rightarrow> cluster_node \<Rightarrow> int \<Rightarrow> 'w \<Rightarrow> 'w \<times> go_error option" where
  "CreateNodeSync M node timeout0 w =
     (let timeout = (if timeout0 = 0 then DefaultSyncTimeout else timeout0)
      in case CreateNode M node w of
           (w', Inl err) \<Rightarrow> (w', Some err)
         | (w', Inr stored) \<Rightarrow> WaitForNodeSync M (tn_Name (no_node stored)) (tn_Namespace (no_node stored)) timeout w')"

definition UpdateNodeSync :: "('w, 'l) manager \<Rightarrow> cluster_node \<Rightarrow> int \<Rightarrow> 'w \<Rightarrow> 'w \<times> go_error option" where
  "UpdateNodeSync M node timeout0 w =
     (let timeout = (if timeout0 = 0 then DefaultSyncTimeout else timeout0);
          name = tn_Name (no_node node); ns = tn_Namespace (no_node node)
      in case GetNode M name ns w of
           Inl err \<Rightarrow> (w, Some (WrapError ''failed to get current node: '' err))
         | Inr currentNode \<Rightarrow>
           (case UpdateNode M node w of
              (w', Some err) \<Rightarrow> (w', Some err)
            | (w', None) \<Rightarrow> waitForNodeSyncWithGeneration M name ns (no_Generation currentNode) timeout w'))"

definition deletion_condition :: "('w, 'l) manager \<Rightarrow> string \<Rightarrow> string \<Rightarrow> 'w \<Rightarrow> go_error + bool" where
  "deletion_condition M name ns w =
     (case GetNode M name ns w of
        Inl err \<Rightarrow> if mg_IsNotFound M err then Inr True else Inl err
      | Inr _ \<Rightarrow> Inr False)"

definition WaitForNodeDeletion :: "('w, 'l) manager \<Rightarrow> string \<Rightarrow> string \<Rightarrow> int \<Rightarrow> 'w \<Rightarrow> 'w \<times> go_error option" where
  "WaitForNodeDeletion M name ns timeout w =
     mg_Poll M DefaultSyncPollInterval (if timeout = 0 then DefaultSyncTimeout else timeout) (deletion_condition M name ns) w"

subsection \<open>Clean-up\<close>

text \<open>Both loops update the listed objects one after the other.\<close>

definition sweep :: "('o \<Rightarrow> 'w \<Rightarrow> 'w) \<Rightarrow> ('o \<Rightarrow> bool) \<Rightarrow> ('o \<Rightarrow> 'o) \<Rightarrow> 'o list \<Rightarrow> 'w \<Rightarrow> 'w" where
  "sweep upd touched change = fold (\<lambda>x w. if touched x then upd (change x) w else w)"

text \<open>
  What the clean-ups rely on: an update of a listed object under its key and labels is accepted, and afterwards the
  same list has the stored object in its place. The stored object shows the view of the object that was sent:
  of a node everything but the generation, which the cluster counts up.
\<close>

definition lists_updates :: "('w, 'l, 'o) client \<Rightarrow> ('o \<Rightarrow> 'v) \<Rightarrow> ('v \<Rightarrow> 'k) \<Rightarrow> ('v \<Rightarrow> 'm) \<Rightarrow> bool" where
  "lists_updates C view key labels \<longleftrightarrow>
     (\<forall>w obj sel ns xs x. kc_List C w sel ns = Inr xs \<longrightarrow> x \<in> set xs \<longrightarrow> key (view x) = key (view obj) \<longrightarrow> labels (view x) = labels (view obj) \<longrightarrow>
        (\<exists>w' obj'. kc_Update C w obj = (w', Inr obj') \<and> view obj' = view obj \<and>
           kc_List C w' sel ns = Inr (map (\<lambda>y. if key (view y) = key (view obj) then obj' else y) xs)))"

lemma sweep_lists:
  assumes law: "lists_updates C view key labels"
    and change: "\<And>x. key (view (change x)) = key (view x)" "\<And>x. labels (view (change x)) = labels (view x)"
  shows "kc_List C w sel ns = Inr (ds @ xs) \<Longrightarrow> distinct (map (\<lambda>x. key (view x)) (ds @ xs)) \<Longrightarrow>
    \<exists>ys. kc_List C (sweep (\<lambda>obj w. fst (kc_Update C w obj)) touched change xs w) sel ns = Inr (ds @ ys) \<and>
      list_all2 (\<lambda>x y. view y = view (if touched x then change x else x)) xs ys"
proof (induction xs arbitrary: ds w)
  case (Cons x xs)
  show ?case
  proof (cases "touched x")
    case True
    obtain w' obj' where u: "kc_Update C w (change x) = (w', Inr obj')" "view obj' = view (change x)"
      and l: "kc_List C w' sel ns = Inr (map (\<lambda>y. if key (view y) = key (view (change x)) then obj' else y) (ds @ x # xs))"
      using law [unfolded lists_updates_def, rule_format, OF Cons.prems(1), of x "change x"] by (auto simp: change)
    have ne: "key (view y) \<noteq> key (view x)" if "y \<in> set ds \<or> y \<in> set xs" for y
      using Cons.prems(2) that by (auto simp: rev_image_eqI)
    have "map (\<lambda>y. if key (view y) = key (view (change x)) then obj' else y) (ds @ x # xs) = (ds @ [obj']) @ xs"
      using ne by (auto simp: change(1) intro!: map_idI)
    with l have "kc_List C w' sel ns = Inr ((ds @ [obj']) @ xs)" by simp
    moreover have "distinct (map (\<lambda>x. key (view x)) ((ds @ [obj']) @ xs))"
      using Cons.prems(2) by (simp add: u(2) change(1))
    ultimately show ?thesis using Cons.IH [of w' "ds @ [obj']"] u True by (auto simp: sweep_def)
  next
    case False
    with Cons.IH [of w "ds @ [x]"] Cons.prems show ?thesis by (auto simp: sweep_def)
  qed
qed (simp add: sweep_def)

lemma sweep_frame:
  "(\<And>w obj. f (upd obj w) = f w) \<Longrightarrow> f (sweep upd touched change xs w) = f w"
  by (induction xs arbitrary: w) (simp_all add: sweep_def)

definition refers :: "string \<Rightarrow> tiny_node \<Rightarrow> bool" where
  "refers gone node \<longleftrightarrow> (\<exists>e \<in> set (tn_Edges node). edge_targets gone e) \<or> (\<exists>pc \<in> set (tn_Ports node). config_from gone pc)"

definition without_references :: "string \<Rightarrow> tiny_node \<Rightarrow> tiny_node" where
  "without_references gone node =
     (if tn_Name node = gone then node
      else node\<lparr>tn_Edges := filter (\<lambda>e. \<not> edge_targets gone e) (tn_Edges node), tn_Ports := filter (\<lambda>pc. \<not> config_from gone pc) (tn_Ports node)\<rparr>)"

definition without_widgets :: "string list \<Rightarrow> widget_page \<Rightarrow> widget_page" where
  "without_widgets starts p = p\<lparr>wp_Widgets := filter (\<lambda>v. \<not> list_ex (has_prefix (tw_Port v)) starts) (wp_Widgets p)\<rparr>"

lemma RemoveNodeReferences_cleaned:
  "tn_Name node \<noteq> gone \<Longrightarrow> RemoveNodeReferences node gone = (refers gone node, if refers gone node then without_references gone node else node)"
  by (auto simp: RemoveNodeReferences_def without_references_def refers_def list_ex_iff Let_def)

lemma without_references_kept [simp]:
  "tn_Name (without_references gone n) = tn_Name n" "tn_Namespace (without_references gone n) = tn_Namespace n"
  "tn_Labels (without_references gone n) = tn_Labels n"
  by (simp_all add: without_references_def)

lemma without_widgets_kept [simp]:
  "om_Name (without_widgets starts p) = om_Name p" "om_Namespace (without_widgets starts p) = om_Namespace p"
  "om_Labels (without_widgets starts p) = om_Labels p"
  by (simp_all add: without_widgets_def)

lemma without_references_clean: "tn_Name node = gone \<or> \<not> refers gone node \<Longrightarrow> without_references gone node = node"
  by (auto simp: without_references_def refers_def intro!: tiny_node.equality filter_True)

lemma clean_nodes_sweep:
  "clean_nodes M gone nodes =
     sweep (\<lambda>obj w. fst (kc_Update (mg_nodes M) w obj)) (\<lambda>n. tn_Name (no_node n) \<noteq> gone \<and> refers gone (no_node n))
       (\<lambda>n. n\<lparr>no_node := without_references gone (no_node n)\<rparr>) nodes"
  by (intro ext, induction nodes) (auto simp: sweep_def RemoveNodeReferences_cleaned UpdateNode_def written_def split: prod.split sum.split)

lemma clean_pages_sweep:
  "clean_pages M starts pages =
     sweep (\<lambda>obj w. fst (kc_Update (mg_pages M) w obj)) (\<lambda>p. without_widgets starts p \<noteq> p) (without_widgets starts) pages"
proof (intro ext, induction pages)
  case (Cons p pages)
  have "length (filter Q (wp_Widgets p)) \<noteq> length (wp_Widgets p) \<longleftrightarrow> p\<lparr>wp_Widgets := filter Q (wp_Widgets p)\<rparr> \<noteq> p" for Q
    by (metis filter_id_conv length_filter_less order_less_irrefl widget_page.surjective widget_page.update_convs(1) widget_page.select_convs(1))
  with Cons show ?case by (auto simp: sweep_def without_widgets_def UpdatePage_def written_def Let_def split: prod.split sum.split)
qed (simp add: sweep_def)

text \<open>The key and the labels of a node and of a page.\<close>

definition node_key :: "tiny_node \<Rightarrow> string \<times> string" where "node_key n = (tn_Namespace n, tn_Name n)"
definition page_key :: "widget_page \<Rightarrow> string \<times> string" where "page_key p = (om_Namespace p, om_Name p)"

lemma page_key_kept [simp]: "page_key (without_widgets starts p) = page_key p"
  by (simp add: page_key_def)

definition cluster_lists :: "('w, 'l) manager \<Rightarrow> bool" where
  "cluster_lists M \<longleftrightarrow>
     lists_updates (mg_nodes M) no_node node_key tn_Labels \<and> lists_updates (mg_pages M) (\<lambda>p. p) page_key om_Labels \<and>
     (\<forall>w obj. kc_List (mg_pages M) (fst (kc_Update (mg_nodes M) w obj)) = kc_List (mg_pages M) w) \<and>
     (\<forall>w obj. kc_List (mg_nodes M) (fst (kc_Update (mg_pages M) w obj)) = kc_List (mg_nodes M) w)"

lemma labelled_list:
  assumes "labelled M C refused wrapped labels w = Inr xs"
  obtains sel where "mg_Selector M labels = Inr sel" "kc_List C w (Some sel) (mg_namespace M) = Inr xs"
proof (cases "mg_Selector M labels")
  case (Inr sel)
  with assms show thesis by (cases "kc_List C w (Some sel) (mg_namespace M)") (auto simp: labelled_def intro: that)
qed (use assms in \<open>simp add: labelled_def\<close>)

lemma labelled_cong: "kc_List C w = kc_List C w' \<Longrightarrow> labelled M C refused wrapped labels w = labelled M C refused wrapped labels w'"
  by (simp add: labelled_def split: sum.split)

lemma GetProject_cong:
  "kc_List (mg_nodes M) w = kc_List (mg_nodes M) w' \<Longrightarrow> GetProjectNodes M project w = GetProjectNodes M project w'"
  "kc_List (mg_pages M) w = kc_List (mg_pages M) w' \<Longrightarrow> GetProjectPageWidgets M project w = GetProjectPageWidgets M project w'"
  by (simp_all add: GetProjectNodes_def GetProjectPageWidgets_def cong: labelled_cong)

lemma clean_nodes_listed:
  assumes "cluster_lists M" "GetProjectNodes M project w = Inr nodes" "distinct (map (node_key \<circ> no_node) nodes)"
  shows "\<exists>nodes'. GetProjectNodes M project (clean_nodes M gone nodes w) = Inr nodes' \<and>
    map no_node nodes' = map (without_references gone \<circ> no_node) nodes"
proof -
  obtain sel where s: "mg_Selector M [(ProjectNameLabel, project)] = Inr sel" "kc_List (mg_nodes M) w (Some sel) (mg_namespace M) = Inr nodes"
    using assms(2) unfolding GetProjectNodes_def by (rule labelled_list)
  obtain ys where "kc_List (mg_nodes M) (clean_nodes M gone nodes w) (Some sel) (mg_namespace M) = Inr ys"
    and all: "list_all2 (\<lambda>x y. no_node y = no_node (if tn_Name (no_node x) \<noteq> gone \<and> refers gone (no_node x)
       then x\<lparr>no_node := without_references gone (no_node x)\<rparr> else x)) nodes ys"
    using sweep_lists [of "mg_nodes M" no_node node_key tn_Labels "\<lambda>n. n\<lparr>no_node := without_references gone (no_node n)\<rparr>" w "Some sel" "mg_namespace M" "[]" nodes
        "\<lambda>n. tn_Name (no_node n) \<noteq> gone \<and> refers gone (no_node n)"] assms(1,3) s(2)
    by (auto simp: cluster_lists_def clean_nodes_sweep node_key_def o_def)
  moreover have "map no_node ys = map (without_references gone \<circ> no_node) nodes"
    using all by (induction rule: list_all2_induct) (auto simp: without_references_clean)
  ultimately show ?thesis using s(1) by (auto simp: GetProjectNodes_def labelled_def)
qed

lemma clean_pages_listed:
  assumes "cluster_lists M" "GetProjectPageWidgets M project w = Inr pages" "distinct (map page_key pages)"
  shows "GetProjectPageWidgets M project (clean_pages M starts pages w) = Inr (map (without_widgets starts) pages)"
proof -
  obtain sel where s: "mg_Selector M [(ProjectNameLabel, project)] = Inr sel" "kc_List (mg_pages M) w (Some sel) (mg_namespace M) = Inr pages"
    using assms(2) unfolding GetProjectPageWidgets_def by (rule labelled_list)
  obtain ys where "kc_List (mg_pages M) (clean_pages M starts pages w) (Some sel) (mg_namespace M) = Inr ys"
    and all: "list_all2 (\<lambda>x y. y = (if without_widgets starts x \<noteq> x then without_widgets starts x else x)) pages ys"
    using sweep_lists [of "mg_pages M" "\<lambda>p. p" page_key om_Labels "without_widgets starts" w "Some sel" "mg_namespace M" "[]" pages "\<lambda>p. without_widgets starts p \<noteq> p"]
      assms(1,3) s(2)
    by (auto simp: cluster_lists_def clean_pages_sweep)
  moreover have "ys = map (without_widgets starts) pages"
    using all by (induction rule: list_all2_induct) auto
  ultimately show ?thesis using s(1) by (simp add: GetProjectPageWidgets_def labelled_def)
qed

text \<open>C29: the clean-up after the deletion of a node leaves nothing that refers to it. When the cluster accepts the updates, no edge, port
  configuration or widget of the project names the deleted node any more, and nothing else has changed: every other edge,
  configuration and widget is still there, in order.\<close>

theorem deletion_leaves_no_reference:
  assumes "cluster_lists M" "GetProjectNodes M project w = Inr nodes" "distinct (map (node_key \<circ> no_node) nodes)"
    and "GetProjectPageWidgets M project w = Inr pages" "distinct (map page_key pages)"
    and "gone \<noteq> []" "CleanupNodeReferences M project gone w = (w1, err1)" "CleanupWidgetReferences M project gone w1 = (w2, err2)"
  shows "err1 = None \<and> err2 = None \<and>
    (\<exists>nodes'. GetProjectNodes M project w2 = Inr nodes' \<and> map no_node nodes' = map (without_references gone \<circ> no_node) nodes \<and>
       (\<forall>n \<in> set nodes'. tn_Name (no_node n) \<noteq> gone \<longrightarrow> \<not> refers gone (no_node n))) \<and>
    GetProjectPageWidgets M project w2 = Inr (map (without_widgets [gone @ '':'']) pages) \<and>
    (\<forall>p \<in> set pages. \<forall>v \<in> set (wp_Widgets (without_widgets [gone @ '':''] p)). \<forall>port. tw_Port v \<noteq> GetPortFullName gone port)"
proof -
  have w1: "err1 = None" "w1 = clean_nodes M gone nodes w" using assms(2,7) by (auto simp: CleanupNodeReferences_def)
  have "kc_List (mg_pages M) w1 = kc_List (mg_pages M) w"
    using assms(1) unfolding w1 clean_nodes_sweep cluster_lists_def by (intro sweep_frame) blast
  then have p1: "GetProjectPageWidgets M project w1 = Inr pages"
    using assms(4) GetProject_cong(2) by metis
  then have w2: "err2 = None" "w2 = clean_pages M [gone @ '':''] pages w1" using assms(8) by (auto simp: CleanupWidgetReferences_def)
  have "kc_List (mg_nodes M) w2 = kc_List (mg_nodes M) w1"
    using assms(1) unfolding w2 clean_pages_sweep cluster_lists_def by (intro sweep_frame) blast
  moreover obtain nodes' where n: "GetProjectNodes M project w1 = Inr nodes'" "map no_node nodes' = map (without_references gone \<circ> no_node) nodes"
    using clean_nodes_listed [OF assms(1-3)] w1(2) by blast
  ultimately have n2: "GetProjectNodes M project w2 = Inr nodes'" using GetProject_cong(1) by metis
  have "\<not> refers gone (no_node n)" if "n \<in> set nodes'" "tn_Name (no_node n) \<noteq> gone" for n
  proof -
    have "no_node n \<in> set (map (without_references gone \<circ> no_node) nodes)" using that(1) by (simp flip: n(2))
    then show ?thesis using that(2) by (auto simp: without_references_def refers_def split: if_splits)
  qed
  moreover have "tw_Port v \<noteq> GetPortFullName gone port" if "v \<in> set (wp_Widgets (without_widgets [gone @ '':''] p))" for v p port
    using that assms(6) by (auto simp: without_widgets_def has_prefix_def GetPortFullName_def)
  moreover have "GetProjectPageWidgets M project w2 = Inr (map (without_widgets [gone @ '':'']) pages)"
    using clean_pages_listed [OF assms(1) p1 assms(5)] w2(2) by simp
  ultimately show ?thesis using w1(1) w2(1) n2 n(2) by blast
qed

subsection \<open>A cluster\<close>

text \<open>A client over a list of objects, the first of a key being the one that counts.\<close>

fun first_by :: "('o \<Rightarrow> 'k) \<Rightarrow> 'o list \<Rightarrow> 'o list" where
  "first_by key [] = []"
| "first_by key (x # xs) = x # filter (\<lambda>y. key y \<noteq> key x) (first_by key xs)"

definition has_labels :: "string gomap option \<Rightarrow> string gomap \<Rightarrow> bool" where
  "has_labels sel labels = (case sel of None \<Rightarrow> True | Some l \<Rightarrow> list_all (\<lambda>(k, v). map_of labels k = Some v) l)"

definition list_client ::
  "('w \<Rightarrow> 'o list) \<Rightarrow> ('o list \<Rightarrow> 'w \<Rightarrow> 'w) \<Rightarrow> ('o \<Rightarrow> string \<times> string) \<Rightarrow> ('o \<Rightarrow> string gomap) \<Rightarrow> ('w, string gomap, 'o) client" where
  "list_client read write key labels =
     \<lparr>kc_Get = \<lambda>w ns name. (case find (\<lambda>x. key x = (ns, name)) (read w) of None \<Rightarrow> Inl (ErrNew ''not found'') | Some x \<Rightarrow> Inr x),
      kc_List = \<lambda>w sel ns. Inr (filter (\<lambda>x. fst (key x) = ns \<and> has_labels sel (labels x)) (first_by key (read w))),
      kc_Create = \<lambda>w x. (write (read w @ [x]) w, Inr x),
      kc_Update = \<lambda>w x. (write (map (\<lambda>y. if key y = key x then x else y) (first_by key (read w))) w, Inr x),
      kc_PatchStatus = \<lambda>w x _. (write (map (\<lambda>y. if key y = key x then x else y) (read w)) w, None),
      kc_Delete = \<lambda>w ns name. (write (filter (\<lambda>x. key x \<noteq> (ns, name)) (read w)) w, None),
      kc_DeleteAllOf = \<lambda>w sel ns. (write (filter (\<lambda>x. \<not> (fst (key x) = ns \<and> has_labels (Some sel) (labels x))) (read w)) w, None)\<rparr>"

lemma first_by_distinct: "distinct (map key (first_by key xs))"
proof (induction xs)
  case (Cons x xs)
  then show ?case by (auto simp: distinct_map_filter)
qed simp

lemma first_by_id: "distinct (map key xs) \<Longrightarrow> first_by key xs = xs"
  by (induction xs) (auto intro!: filter_True simp: rev_image_eqI)

lemma first_by_update: "first_by key (map (\<lambda>y. if key y = key x then x else y) (first_by key xs)) = map (\<lambda>y. if key y = key x then x else y) (first_by key xs)"
proof (rule first_by_id)
  have "map key (map (\<lambda>y. if key y = key x then x else y) (first_by key xs)) = map key (first_by key xs)" by simp
  then show "distinct (map key (map (\<lambda>y. if key y = key x then x else y) (first_by key xs)))" by (simp only: first_by_distinct)
qed

lemma list_client_lists:
  assumes "\<And>xs w. read (write xs w) = xs"
  shows "lists_updates (list_client read write (\<lambda>x. key (view x)) (\<lambda>x. labels (view x))) view key labels"
  unfolding lists_updates_def
proof (intro allI impI)
  fix w obj sel ns xs x
  let ?C = "list_client read write (\<lambda>x. key (view x)) (\<lambda>x. labels (view x))"
  let ?P = "\<lambda>x. fst (key (view x)) = ns \<and> has_labels sel (labels (view x))"
  let ?L = "first_by (\<lambda>x. key (view x)) (read w)"
  let ?u = "\<lambda>y. if key (view y) = key (view obj) then obj else y"
  assume l: "kc_List ?C w sel ns = Inr xs" and x: "x \<in> set xs" "key (view x) = key (view obj)" "labels (view x) = labels (view obj)"
  have xs: "xs = filter ?P ?L" using l by (simp add: list_client_def)
  have "?P (?u y) = ?P y" if "y \<in> set ?L" for y
  proof (cases "key (view y) = key (view obj)")
    case True
    moreover have "x \<in> set ?L" using x(1) xs by simp
    ultimately have "y = x" using that x(2) inj_onD [OF distinct_map [THEN iffD1, OF first_by_distinct, THEN conjunct2]] by metis
    with True x show ?thesis by simp
  qed simp
  then have "filter ?P (map ?u ?L) = map ?u (filter ?P ?L)" by (simp add: filter_map o_def cong: filter_cong)
  then show "\<exists>w' obj'. kc_Update ?C w obj = (w', Inr obj') \<and> view obj' = view obj \<and>
      kc_List ?C w' sel ns = Inr (map (\<lambda>y. if key (view y) = key (view obj) then obj' else y) xs)"
    by (simp add: list_client_def assms first_by_update [where key = "\<lambda>x. key (view x)"] xs)
qed

record cluster =
  cl_nodes :: "cluster_node list"
  cl_flows :: "tiny_flow list"
  cl_projects :: "tiny_project list"
  cl_pages :: "widget_page list"
  cl_scenarios :: "tiny_scenario list"
  cl_modules :: "tiny_module list"

definition meta_key :: "'a object_meta_scheme \<Rightarrow> string \<times> string" where "meta_key x = (om_Namespace x, om_Name x)"

text \<open>A manager whose polling loop looks at the cluster once.\<close>

definition list_manager :: "('z cluster_scheme, string gomap) manager" where
  "list_manager =
     \<lparr>mg_nodes = list_client cl_nodes (\<lambda>xs w. w\<lparr>cl_nodes := xs\<rparr>) (\<lambda>n. node_key (no_node n)) (\<lambda>n. tn_Labels (no_node n)),
      mg_flows = list_client cl_flows (\<lambda>xs w. w\<lparr>cl_flows := xs\<rparr>) meta_key om_Labels,
      mg_projects = list_client cl_projects (\<lambda>xs w. w\<lparr>cl_projects := xs\<rparr>) meta_key om_Labels,
      mg_pages = list_client cl_pages (\<lambda>xs w. w\<lparr>cl_pages := xs\<rparr>) page_key om_Labels,
      mg_scenarios = list_client cl_scenarios (\<lambda>xs w. w\<lparr>cl_scenarios := xs\<rparr>) meta_key om_Labels,
      mg_modules = list_client cl_modules (\<lambda>xs w. w\<lparr>cl_modules := xs\<rparr>) meta_key om_Labels,
      mg_Selector = Inr, mg_IsNotFound = (\<lambda>e. e = ErrNew ''not found''), mg_IsAlreadyExists = (\<lambda>_. False),
      mg_Poll = \<lambda>_ _ c w. (w, case c w of Inl e \<Rightarrow> Some e | Inr b \<Rightarrow> if b then None else Some (ErrNew ''context deadline exceeded'')),
      mg_namespace = ''ns''\<rparr>"

lemma list_manager_lists: "cluster_lists list_manager"
proof -
  have "lists_updates (mg_nodes list_manager) no_node node_key tn_Labels"
    unfolding list_manager_def manager.simps by (rule list_client_lists) simp
  moreover have "lists_updates (mg_pages list_manager) (\<lambda>p. p) page_key om_Labels"
    unfolding list_manager_def manager.simps by (rule list_client_lists) simp
  ultimately show ?thesis by (simp add: cluster_lists_def list_manager_def list_client_def)
qed

definition sample_object :: "tiny_node \<Rightarrow> cluster_node" where
  "sample_object node =
     \<lparr>no_node = node, no_Deleting = False, no_Finalizers = [], no_Generation = 1, no_ModuleVersion = [], no_ModuleName = [],
      no_ModuleSDKVersion = [], no_ObservedGeneration = 0, no_LastUpdateTime = None, cn_APIVersion = [], cn_Kind = [], cn_OwnerReferences = []\<rparr>"

definition sample_widget :: "string \<Rightarrow> tiny_widget" where
  "sample_widget port = \<lparr>tw_Port = port, tw_Name = [], tw_SchemaPatch = [], tw_GridX = 0, tw_GridY = 0, tw_GridW = 1, tw_GridH = 1\<rparr>"

definition project_cluster :: cluster where
  "project_cluster =
     \<lparr>cl_nodes = [sample_object (sample_node\<lparr>tn_Labels := [(ProjectNameLabel, ''p'')]\<rparr>)], cl_flows = [],
      cl_projects = [object_meta.extend ((new_meta ''ns'' [] [] [])\<lparr>om_Name := ''p'', om_UID := ''u1''\<rparr>) (tiny_project.fields [])],
      cl_pages = [object_meta.extend (new_meta ''ns'' ''page'' [(ProjectNameLabel, ''p'')] [])
        (widget_page.fields [sample_widget ''f.mod.a:_control'', sample_widget ''f.mod.b:_control''])],
      cl_scenarios = [], cl_modules = []\<rparr>"

theorem deletion_leaves_no_reference_witness:
  "map (map tw_Port \<circ> wp_Widgets) (cl_pages (fst (CleanupWidgetReferences list_manager ''p'' ''f.mod.b''
      (fst (CleanupNodeReferences list_manager ''p'' ''f.mod.b'' project_cluster))))) = [[''f.mod.a:_control'']] \<and>
   (\<exists>nodes'. GetProjectNodes list_manager ''p'' (fst (CleanupWidgetReferences list_manager ''p'' ''f.mod.b''
      (fst (CleanupNodeReferences list_manager ''p'' ''f.mod.b'' project_cluster)))) = Inr nodes' \<and> length nodes' = 1 \<and>
      (\<forall>n \<in> set nodes'. tn_Name (no_node n) \<noteq> ''f.mod.b'' \<longrightarrow> \<not> refers ''f.mod.b'' (no_node n)))"
proof
  let ?w1 = "CleanupNodeReferences list_manager ''p'' ''f.mod.b'' project_cluster"
  have l: "GetProjectNodes list_manager ''p'' project_cluster = Inr (cl_nodes project_cluster)"
    "distinct (map (node_key \<circ> no_node) (cl_nodes project_cluster))"
    "GetProjectPageWidgets list_manager ''p'' project_cluster = Inr (cl_pages project_cluster)" "distinct (map page_key (cl_pages project_cluster))"
    by code_simp+
  from deletion_leaves_no_reference [OF list_manager_lists l, of "''f.mod.b''" "fst ?w1" "snd ?w1"]
  have "\<exists>nodes'. GetProjectNodes list_manager ''p'' (fst (CleanupWidgetReferences list_manager ''p'' ''f.mod.b'' (fst ?w1))) = Inr nodes' \<and>
      map no_node nodes' = map (without_references ''f.mod.b'' \<circ> no_node) (cl_nodes project_cluster) \<and>
      (\<forall>n \<in> set nodes'. tn_Name (no_node n) \<noteq> ''f.mod.b'' \<longrightarrow> \<not> refers ''f.mod.b'' (no_node n))"
    by (cases "CleanupWidgetReferences list_manager ''p'' ''f.mod.b'' (fst ?w1)") auto
  moreover have "length (cl_nodes project_cluster) = 1" by code_simp
  ultimately show "\<exists>nodes'. GetProjectNodes list_manager ''p'' (fst (CleanupWidgetReferences list_manager ''p'' ''f.mod.b'' (fst ?w1))) = Inr nodes' \<and>
      length nodes' = 1 \<and> (\<forall>n \<in> set nodes'. tn_Name (no_node n) \<noteq> ''f.mod.b'' \<longrightarrow> \<not> refers ''f.mod.b'' (no_node n))"
    by (metis length_map)
  show "map (map tw_Port \<circ> wp_Widgets) (cl_pages (fst (CleanupWidgetReferences list_manager ''p'' ''f.mod.b'' (fst ?w1)))) = [[''f.mod.a:_control'']]"
    by code_simp
qed

subsection \<open>Waiting\<close>

text \<open>What a poll says of the states it looks at, one after the other, before the deadline.\<close>

fun observed :: "go_error \<Rightarrow> ('w \<Rightarrow> go_error + bool) \<Rightarrow> 'w list \<Rightarrow> go_error option" where
  "observed deadline c [] = Some deadline"
| "observed deadline c (w # ws) = (case c w of Inl err \<Rightarrow> Some err | Inr done \<Rightarrow> if done then None else observed deadline c ws)"

definition polls :: "('w, 'l) manager \<Rightarrow> (int \<Rightarrow> int \<Rightarrow> 'w \<Rightarrow> 'w list) \<Rightarrow> go_error \<Rightarrow> bool" where
  "polls M ticks deadline \<longleftrightarrow> (\<forall>i t c w. snd (mg_Poll M i t c w) = observed deadline c (ticks i t w))"

lemma observed_None:
  "observed deadline c ws = None \<Longrightarrow> \<exists>x \<in> set ws. c x = Inr True"
  by (induction ws) (auto split: sum.splits if_splits)

lemma observed_done:
  "x \<in> set ws \<Longrightarrow> c x = Inr True \<Longrightarrow> (\<And>y. y \<in> set ws \<Longrightarrow> \<exists>b. c y = Inr b) \<Longrightarrow> observed deadline c ws = None"
proof (induction ws)
  case (Cons y ws)
  from Cons.prems(3) [of y] obtain b where "c y = Inr b" by auto
  with Cons show ?case by (cases b) auto
qed simp

lemma observed_never: "(\<And>y. y \<in> set ws \<Longrightarrow> c y = Inr False) \<Longrightarrow> observed deadline c ws = Some deadline"
  by (induction ws) simp_all

text \<open>The node a read of a state gives shows what the controller published after the scheduler answered.\<close>

definition shows_published :: "('w, 'l) manager \<Rightarrow> string \<Rightarrow> string \<Rightarrow> module_info \<Rightarrow> go_error option \<Rightarrow> 'w \<Rightarrow> bool" where
  "shows_published M name ns info schedulerErr w \<longleftrightarrow>
     (\<exists>n obj node. GetNode M name ns w = Inr n \<and> node_object.truncate n = (published info obj node schedulerErr)\<lparr>no_LastUpdateTime := no_LastUpdateTime n\<rparr> \<and>
        (schedulerErr = None \<longrightarrow> ns_Status (tn_Status node) = ''OK'' \<and> \<not> ns_Error (tn_Status node)))"

lemma shows_published_fields:
  assumes "shows_published M name ns info schedulerErr w"
  obtains n where "GetNode M name ns w = Inr n" "no_Generation n = no_ObservedGeneration n" "no_ModuleName n = mi_Name info"
    "ns_Error (tn_Status (no_node n)) \<longleftrightarrow> schedulerErr \<noteq> None" "schedulerErr = None \<Longrightarrow> ns_Status (tn_Status (no_node n)) = ''OK''"
proof -
  from assms obtain n obj node where n: "GetNode M name ns w = Inr n"
    and t: "node_object.truncate n = (published info obj node schedulerErr)\<lparr>no_LastUpdateTime := no_LastUpdateTime n\<rparr>"
    and ok: "schedulerErr = None \<longrightarrow> ns_Status (tn_Status node) = ''OK'' \<and> \<not> ns_Error (tn_Status node)"
    unfolding shows_published_def by blast
  have "no_node n = no_node (node_object.truncate n)" "no_Generation n = no_Generation (node_object.truncate n)"
    "no_ObservedGeneration n = no_ObservedGeneration (node_object.truncate n)" "no_ModuleName n = no_ModuleName (node_object.truncate n)"
    by (simp_all add: node_object.defs)
  with t ok show thesis
    by (intro that [OF n]) (auto simp: published_def set_status_def split: option.splits)
qed

lemma sync_done:
  assumes "polls M ticks deadline" "mi_Name info \<noteq> []" "x \<in> set (ticks DefaultSyncPollInterval DefaultSyncTimeout w)"
    "shows_published M name ns info schedulerErr x"
    "\<forall>y \<in> set (ticks DefaultSyncPollInterval DefaultSyncTimeout w). \<forall>err. GetNode M name ns y = Inl err \<longrightarrow> mg_IsNotFound M err"
  shows "snd (WaitForNodeSync M name ns 0 w) = None"
proof -
  have "sync_condition M name ns x = Inr True"
    using assms(2,4) by (auto elim!: shows_published_fields simp: sync_condition_def isNodeSynced_def)
  moreover have "\<exists>b. sync_condition M name ns y = Inr b" if "y \<in> set (ticks DefaultSyncPollInterval DefaultSyncTimeout w)" for y
    using assms(5) that by (auto simp: sync_condition_def split: sum.split)
  ultimately show ?thesis
    using assms(1,3) by (simp add: WaitForNodeSync_def polls_def observed_done)
qed

lemma sync_sound:
  assumes "polls M ticks deadline" "snd (WaitForNodeSync M name ns 0 w) = None"
  shows "\<exists>x \<in> set (ticks DefaultSyncPollInterval DefaultSyncTimeout w). \<exists>n. GetNode M name ns x = Inr n \<and>
    no_Generation n \<le> no_ObservedGeneration n \<and> (ns_Error (tn_Status (no_node n)) \<or> isNodeSynced n)"
proof -
  from assms obtain x where x: "x \<in> set (ticks DefaultSyncPollInterval DefaultSyncTimeout w)" "sync_condition M name ns x = Inr True"
    by (auto simp: WaitForNodeSync_def polls_def dest: observed_None)
  then show ?thesis by (intro bexI [OF _ x(1)]) (auto simp: sync_condition_def split: sum.splits if_splits)
qed

lemma update_times_out:
  assumes "polls M ticks deadline" "\<forall>x \<in> set (ticks DefaultSyncPollInterval t w). shows_published M name ns info (Some err) x"
  shows "snd (waitForNodeSyncWithGeneration M name ns g t w) = Some deadline"
proof -
  have "update_condition M name ns g x = Inr False" if "shows_published M name ns info (Some err) x" for x
    using that by (auto elim!: shows_published_fields simp: update_condition_def isNodeSynced_def)
  then show ?thesis using assms by (simp add: waitForNodeSyncWithGeneration_def polls_def observed_never)
qed

text \<open>C30: a wait for a node ends when the controller has published it, and not before. Whether the scheduler accepted the node or not,
  once a look finds what the leader published and no look fails, the wait that follows a creation returns without an
  error; and when it returns so, a look has found a node whose current generation the controller had seen. The
  wait that follows an update instead runs into the deadline when the scheduler reports an error.\<close>

theorem sync_follows_controller:
  assumes "polls M ticks deadline" "mi_Name info \<noteq> []" "looks = set (ticks DefaultSyncPollInterval DefaultSyncTimeout w)"
  shows "((\<exists>x \<in> looks. shows_published M name ns info schedulerErr x) \<and>
      (\<forall>y \<in> looks. \<forall>err. GetNode M name ns y = Inl err \<longrightarrow> mg_IsNotFound M err) \<longrightarrow>
      snd (WaitForNodeSync M name ns 0 w) = None) \<and>
    (snd (WaitForNodeSync M name ns 0 w) = None \<longrightarrow>
      (\<exists>x \<in> looks. \<exists>n. GetNode M name ns x = Inr n \<and> no_Generation n \<le> no_ObservedGeneration n \<and>
         (ns_Error (tn_Status (no_node n)) \<or> isNodeSynced n))) \<and>
    ((\<forall>x \<in> looks. shows_published M name ns info (Some err) x) \<longrightarrow>
      snd (waitForNodeSyncWithGeneration M name ns g DefaultSyncTimeout w) = Some deadline)"
  unfolding assms(3) using sync_done [OF assms(1,2)] sync_sound [OF assms(1)] update_times_out [OF assms(1)] by blast

definition failed_object :: cluster_node where
  "failed_object = node_object.extend (published \<lparr>mi_Name = ''mod'', mi_Version = [], mi_SDKVersion = [], mi_Addr = []\<rparr>
      (node_object.truncate (sample_object sample_node)) sample_node (Some (ErrNew ''no such component'')))
    (cluster_node.fields GroupVersion ''TinyNode'' [])"

theorem sync_follows_controller_witness:
  "snd (WaitForNodeSync list_manager ''f.mod.a'' ''ns'' 0 (project_cluster\<lparr>cl_nodes := [failed_object]\<rparr>)) = None \<and>
   snd (waitForNodeSyncWithGeneration list_manager ''f.mod.a'' ''ns'' 1 DefaultSyncTimeout (project_cluster\<lparr>cl_nodes := [failed_object]\<rparr>)) =
     Some (ErrNew ''context deadline exceeded'')"
proof -
  let ?w = "project_cluster\<lparr>cl_nodes := [failed_object]\<rparr>"
  let ?info = "\<lparr>mi_Name = ''mod'', mi_Version = [], mi_SDKVersion = [], mi_Addr = []\<rparr>"
  have p: "polls list_manager (\<lambda>_ _ w. [w]) (ErrNew ''context deadline exceeded'')"
    by (simp add: polls_def list_manager_def split: sum.split)
  have g: "GetNode list_manager ''f.mod.a'' ''ns'' ?w = Inr failed_object"
    by (simp add: GetNode_def list_manager_def list_client_def failed_object_def node_object.defs cluster_node.defs published_def
        set_status_def node_key_def sample_node_def GroupVersion_def)
  have "shows_published list_manager ''f.mod.a'' ''ns'' ?info (Some (ErrNew ''no such component'')) ?w"
    unfolding shows_published_def
    by (rule exI [of _ failed_object], rule exI [of _ "node_object.truncate (sample_object sample_node)"], rule exI [of _ sample_node])
      (use g in \<open>simp add: failed_object_def node_object.defs cluster_node.defs sample_object_def published_def\<close>)
  with sync_follows_controller [OF p _ refl, of ?info ?w "''f.mod.a''" "''ns''" "Some (ErrNew ''no such component'')"
      "ErrNew ''no such component''" 1] g
  show ?thesis by auto
qed

subsection \<open>Ownership\<close>

text \<open>An object that was created can be read under the name it was given, with the owners and labels it was sent with.\<close>

definition stores_created :: "('w, 'l, 'a object_meta_scheme) client \<Rightarrow> bool" where
  "stores_created C \<longleftrightarrow>
     (\<forall>w obj w' obj'. kc_Create C w obj = (w', Inr obj') \<longrightarrow>
        kc_Get C w' (om_Namespace obj) (om_Name obj') = Inr obj' \<and> om_Namespace obj' = om_Namespace obj \<and>
        om_OwnerReferences obj' = om_OwnerReferences obj \<and> om_Labels obj' = om_Labels obj)"

text \<open>What is created belongs to its project. A flow that is created refers to its project as its controller, by name, kind, version and
  unique identifier; a node created in that flow afterwards reaches the cluster with a reference to the stored flow, so a deletion of the
  project reaches the node through the flow; and no flow or node is sent to the cluster when its owner cannot be read.\<close>

theorem created_nodes_owned:
  assumes "stores_created (mg_flows M)" "CreateFlow M ns project name w = (w', r)"
    and "tn_Namespace (no_node node) = ns"
  shows "(\<forall>flow. r = Inr flow \<longrightarrow> flow \<noteq> [] \<longrightarrow> get_label (tn_Labels (no_node node)) FlowNameLabel = flow \<longrightarrow>
      (\<exists>p f. GetProject M project ns w = Inr p \<and> kc_Get (mg_flows M) w' ns flow = Inr f \<and> om_OwnerReferences f = owned_by p \<and>
         om_APIVersion p \<noteq> [] \<and> om_Kind p \<noteq> [] \<and> get_label (om_Labels f) ProjectNameLabel = project \<and>
         CreateNode M node w' = kc_Create (mg_nodes M) w' (node\<lparr>cn_OwnerReferences := owned_by (with_type ''TinyFlow'' f)\<rparr>))) \<and>
    ((\<exists>err. GetProject M project ns w = Inl err) \<longrightarrow> w' = w \<and> (\<exists>err. r = Inl err))"
proof (intro conjI allI impI)
  fix flow assume r: "r = Inr flow" and ne: "flow \<noteq> []" and l: "get_label (tn_Labels (no_node node)) FlowNameLabel = flow"
  let ?obj = "\<lambda>p. (new_meta ns (SanitizeResourceName name) [(ProjectNameLabel, project)] [(FlowDescriptionAnnotation, name)])
                  \<lparr>om_OwnerReferences := owned_by p\<rparr>"
  from assms(2) r obtain p f where p: "GetProject M project ns w = Inr p" and c: "kc_Create (mg_flows M) w (?obj p) = (w', Inr f)" "om_Name f = flow"
    by (auto simp: CreateFlow_def Let_def split: if_splits sum.splits prod.splits)
  have f: "kc_Get (mg_flows M) w' ns flow = Inr f" "om_OwnerReferences f = owned_by p" "om_Labels f = [(ProjectNameLabel, project)]"
    using assms(1) [unfolded stores_created_def, rule_format, OF c(1)] c(2) by (auto simp: new_meta_def)
  obtain p0 where "p = with_type ''TinyProject'' p0"
    using p by (cases "kc_Get (mg_projects M) w ns project") (auto simp: GetProject_def)
  then have "om_APIVersion p \<noteq> []" "om_Kind p \<noteq> []" by (auto simp: with_type_def GroupVersion_def)
  moreover have "CreateNode M node w' = kc_Create (mg_nodes M) w' (node\<lparr>cn_OwnerReferences := owned_by (with_type ''TinyFlow'' f)\<rparr>)"
    using l ne f(1) assms(3) by (simp add: CreateNode_def GetFLow_def)
  ultimately show "\<exists>p f. GetProject M project ns w = Inr p \<and> kc_Get (mg_flows M) w' ns flow = Inr f \<and> om_OwnerReferences f = owned_by p \<and>
         om_APIVersion p \<noteq> [] \<and> om_Kind p \<noteq> [] \<and> get_label (om_Labels f) ProjectNameLabel = project \<and>
         CreateNode M node w' = kc_Create (mg_nodes M) w' (node\<lparr>cn_OwnerReferences := owned_by (with_type ''TinyFlow'' f)\<rparr>)"
    using p f by (auto simp: get_label_def)
qed (use assms(2) in \<open>auto simp: CreateFlow_def split: if_splits\<close>)

text \<open>A client that gives a new object its name and refuses a name that is taken.\<close>

definition naming_client :: "('w \<Rightarrow> 'a object_meta_scheme list) \<Rightarrow> ('a object_meta_scheme list \<Rightarrow> 'w \<Rightarrow> 'w) \<Rightarrow> ('w, string gomap, 'a object_meta_scheme) client" where
  "naming_client read write = (list_client read write meta_key om_Labels)
     \<lparr>kc_Create := \<lambda>w x.
        (let x' = x\<lparr>om_Name := (if om_Name x = [] then om_GenerateName x @ itoa (int (length (read w))) else om_Name x)\<rparr>
         in if list_ex (\<lambda>y. meta_key y = meta_key x') (read w) then (w, Inl (ErrNew ''already exists'')) else (write (read w @ [x']) w, Inr x'))\<rparr>"

lemma find_append: "find P (xs @ ys) = (case find P xs of None \<Rightarrow> find P ys | Some x \<Rightarrow> Some x)"
  by (induction xs) auto

lemma naming_client_stores:
  assumes "\<And>xs w. read (write xs w) = xs"
  shows "stores_created (naming_client read write)"
  by (auto simp: stores_created_def naming_client_def Let_def list_client_def assms find_append find_None_iff meta_key_def list_ex_iff
      find_Some_iff split: if_splits option.splits)

theorem created_nodes_owned_witness:
  "\<exists>w' f. CreateFlow (list_manager\<lparr>mg_flows := naming_client cl_flows (\<lambda>xs w. w\<lparr>cl_flows := xs\<rparr>)\<rparr>) ''ns'' ''p'' ''Orders'' project_cluster = (w', Inr ''orders0'') \<and>
     kc_Get (naming_client cl_flows (\<lambda>xs w. w\<lparr>cl_flows := xs\<rparr>)) w' ''ns'' ''orders0'' = Inr f \<and> map or_UID (om_OwnerReferences f) = [''u1'']"
proof -
  let ?C = "naming_client cl_flows (\<lambda>xs w. w\<lparr>cl_flows := xs\<rparr>)"
  let ?M = "list_manager\<lparr>mg_flows := ?C\<rparr>"
  let ?r = "CreateFlow ?M ''ns'' ''p'' ''Orders'' project_cluster"
  let ?n = "sample_object (sample_node\<lparr>tn_Labels := [(FlowNameLabel, ''orders0'')]\<rparr>)"
  have r: "snd ?r = Inr ''orders0''" by code_simp
  then have r': "?r = (fst ?r, Inr ''orders0'')" by (metis prod.collapse)
  have p: "map_sum (\<lambda>_. ()) om_UID (GetProject ?M ''p'' ''ns'' project_cluster) = Inr ''u1''" by code_simp
  have "stores_created (mg_flows ?M)" by (simp add: naming_client_stores)
  moreover have "tn_Namespace (no_node ?n) = ''ns''" "get_label (tn_Labels (no_node ?n)) FlowNameLabel = ''orders0''" by code_simp+
  ultimately obtain pr f where "GetProject ?M ''p'' ''ns'' project_cluster = Inr pr" "kc_Get ?C (fst ?r) ''ns'' ''orders0'' = Inr f" "om_OwnerReferences f = owned_by pr"
    using created_nodes_owned [OF _ r', of ?n] by auto
  then show ?thesis using p r' by (auto simp: owned_by_def)
qed

end
