(* ===== verification/Port_Exposure.thy ===== *)
theory Port_Exposure
  imports Resource_Manager
begin

section \<open>Exposed ports\<close>

text \<open>
  The part of \<open>src/pkg/resource/manager.go\<close> that opens a port of a module to the outside: a port of the service of the
  release, and a rule and a certificate of its ingress for each host name. Port numbers are 32 bits wide and a Go
  \<open>int\<close> is cut down to them. A backend that is not a service is a nil pointer the code follows, so an operation may
  panic and then gives \<open>None\<close>. The lock of the manager makes an operation one step of the world; the name of the pod
  is the value of the variable \<open>HOSTNAME\<close>.
\<close>

record service_port =
  sp_Name :: string
  sp_Port :: "32 word"
  sp_TargetPort :: "32 word"

record service = object_meta +
  sv_Ports :: "service_port list"

record ingress_path =
  ip_Path :: string
  ip_PathType :: "string option"
  ip_Service :: "(string \<times> 32 word) option"

record ingress_rule =
  ir_Host :: string
  ir_HTTP :: "ingress_path list option"

record ingress_tls =
  it_Hosts :: "string list"
  it_SecretName :: string

record ingress = object_meta +
  in_Rules :: "ingress_rule list"
  in_TLS :: "ingress_tls list"

record ('w, 'l) port_manager = "('w, 'l) manager" +
  pm_pods :: "('w, 'l, object_meta) client"
  pm_services :: "('w, 'l, service) client"
  pm_ingresses :: "('w, 'l, ingress) client"
  pm_HOSTNAME :: string

definition IngressHostNameSuffixAnnotation :: string where
  "IngressHostNameSuffixAnnotation = ''tinysystems.io/ingress-hostname-suffix''"

definition int32 :: "int \<Rightarrow> 32 word" where "int32 = word_of_int"

subsection \<open>Finding the release\<close>

definition getReleaseNameByPodName :: "('w, 'l) port_manager \<Rightarrow> string \<Rightarrow> 'w \<Rightarrow> go_error + string" where
  "getReleaseNameByPodName M podName w =
     (case kc_Get (pm_pods M) w (mg_namespace M) podName of
        Inl err \<Rightarrow> Inl (errorf ''unable to find current pod: '' err)
      | Inr pod \<Rightarrow>
        (let releaseName = get_label (om_Labels pod) ''app.kubernetes.io/instance''
         in if releaseName = [] then Inl (ErrNew ''release name label not found'') else Inr releaseName))"

definition the_only :: "string \<Rightarrow> string \<Rightarrow> go_error + 'o list \<Rightarrow> go_error + 'o" where
  "the_only missing ambiguous r =
     (case r of
        Inl err \<Rightarrow> Inl err
      | Inr [] \<Rightarrow> Inl (ErrNew missing)
      | Inr [x] \<Rightarrow> Inr x
      | Inr _ \<Rightarrow> Inl (ErrNew ambiguous))"

definition service_labels :: "string \<Rightarrow> string gomap" where
  "service_labels releaseName =
     [(''app.kubernetes.io/instance'', releaseName), (''app.kubernetes.io/name'', ''tinysystems-operator''), (''app.kubernetes.io/component'', ''manager'')]"

definition ingress_labels :: "string \<Rightarrow> string gomap" where
  "ingress_labels releaseName =
     [(''app.kubernetes.io/instance'', releaseName), (''app.kubernetes.io/name'', ''tinysystems-operator'')]"

definition getReleaseService :: "('w, 'l) port_manager \<Rightarrow> string \<Rightarrow> 'w \<Rightarrow> go_error + service" where
  "getReleaseService M releaseName w =
     the_only ''unable to find manager service'' ''service is ambigous''
       (labelled (manager.truncate M) (pm_services M) (errorf ''build service selector error: '') (errorf ''service list error: '') (service_labels releaseName) w)"

definition getReleaseIngress :: "('w, 'l) port_manager \<Rightarrow> string \<Rightarrow> 'w \<Rightarrow> go_error + ingress" where
  "getReleaseIngress M releaseName w =
     the_only ''unable to find manager ingress'' ''ingress is ambigous''
       (labelled (manager.truncate M) (pm_ingresses M) (errorf ''build ingress selector error: '') (errorf ''service list error: '') (ingress_labels releaseName) w)"

definition getIngressAutoHostnamePrefix :: "ingress \<Rightarrow> string" where
  "getIngressAutoHostnamePrefix ingr =
     (case om_Annotations ingr of None \<Rightarrow> [] | Some a \<Rightarrow> get_label a IngressHostNameSuffixAnnotation)"

subsection \<open>The service\<close>

definition exposeServicePort :: "('w, 'l) port_manager \<Rightarrow> service \<Rightarrow> int \<Rightarrow> 'w \<Rightarrow> 'w \<times> go_error option" where
  "exposeServicePort M svc port w =
     (if list_ex (\<lambda>p. sp_Port p = int32 port) (sv_Ports svc) then (w, None)
      else written (kc_Update (pm_services M) w
        (svc\<lparr>sv_Ports := sv_Ports svc @ [\<lparr>sp_Name = ''port'' @ itoa port, sp_Port = int32 port, sp_TargetPort = int32 port\<rparr>]\<rparr>)))"

definition discloseServicePort :: "('w, 'l) port_manager \<Rightarrow> service \<Rightarrow> int \<Rightarrow> 'w \<Rightarrow> 'w \<times> go_error option" where
  "discloseServicePort M svc port w =
     written (kc_Update (pm_services M) w (svc\<lparr>sv_Ports := filter (\<lambda>p. sp_Port p \<noteq> int32 port) (sv_Ports svc)\<rparr>))"

subsection \<open>The ingress\<close>

definition service_rule :: "string \<Rightarrow> int \<Rightarrow> ingress_path list" where
  "service_rule svcName port = [\<lparr>ip_Path = ''/'', ip_PathType = Some ''Prefix'', ip_Service = Some (svcName, int32 port)\<rparr>]"

fun set_host_rule :: "string \<Rightarrow> ingress_path list \<Rightarrow> ingress_rule list \<Rightarrow> ingress_rule list" where
  "set_host_rule host paths [] = [\<lparr>ir_Host = host, ir_HTTP = Some paths\<rparr>]"
| "set_host_rule host paths (r # rules) =
     (if ir_Host r \<noteq> host then r # set_host_rule host paths rules else r\<lparr>ir_HTTP := Some paths\<rparr> # rules)"

definition new_hosts :: "ingress_tls list \<Rightarrow> string list \<Rightarrow> string list" where
  "new_hosts tls hostnames = filter (\<lambda>h. \<not> list_ex (\<lambda>t. list_ex (\<lambda>th. th = h) (it_Hosts t)) tls) hostnames"

definition with_rules :: "ingress \<Rightarrow> string \<Rightarrow> string list \<Rightarrow> int \<Rightarrow> ingress" where
  "with_rules ingr svcName hostnames port =
     ingr\<lparr>in_Rules := fold (\<lambda>h. set_host_rule h (service_rule svcName port)) hostnames (in_Rules ingr),
          in_TLS := in_TLS ingr @ map (\<lambda>h. \<lparr>it_Hosts = [h], it_SecretName = h @ ''-tls''\<rparr>) (new_hosts (in_TLS ingr) hostnames)\<rparr>"

definition addRulesIngress ::
  "('w, 'l) port_manager \<Rightarrow> ingress \<Rightarrow> service \<Rightarrow> string list \<Rightarrow> int \<Rightarrow> 'w \<Rightarrow> 'w \<times> (go_error + string list)" where
  "addRulesIngress M ingr svc hostnames port w =
     (if hostnames = [] then (w, Inl (ErrNew ''no hostnames provided''))
      else
        (case kc_Update (pm_ingresses M) w (with_rules ingr (om_Name svc) hostnames port) of
           (w', Inl err) \<Rightarrow> (w', Inl err)
         | (w', Inr _) \<Rightarrow> (w', Inr hostnames)))"

text \<open>
  The loop over the paths of a rule: the copies of the rule that are kept, and whether it ended at a path to the port.
  A rule is appended once for each path before that one.
\<close>

fun keep_paths :: "string \<Rightarrow> 32 word \<Rightarrow> ingress_rule \<Rightarrow> ingress_path list \<Rightarrow> (ingress_rule list \<times> bool) option" where
  "keep_paths svcName port rule [] = Some ([], False)"
| "keep_paths svcName port rule (p # paths) =
     (case ip_Service p of
        None \<Rightarrow> None
      | Some (name, number) \<Rightarrow>
        if number = port \<and> name = svcName then Some ([], True)
        else map_option (\<lambda>(rules, found). (rule # rules, found)) (keep_paths svcName port rule paths))"

fun keep_rules :: "string \<Rightarrow> 32 word \<Rightarrow> ingress_rule list \<Rightarrow> (ingress_rule list \<times> string list) option" where
  "keep_rules svcName port [] = Some ([], [])"
| "keep_rules svcName port (r # rules) =
     (case ir_HTTP r of
        None \<Rightarrow> keep_rules svcName port rules
      | Some paths \<Rightarrow>
        (case keep_paths svcName port r paths of
           None \<Rightarrow> None
         | Some (kept, found) \<Rightarrow>
           map_option (\<lambda>(rs, hosts). (kept @ rs, (if found then [ir_Host r] else []) @ hosts)) (keep_rules svcName port rules)))"

definition without_rules :: "ingress \<Rightarrow> string \<Rightarrow> int \<Rightarrow> ingress option" where
  "without_rules ingr svcName port =
     (case keep_rules svcName (int32 port) (in_Rules ingr) of
        None \<Rightarrow> None
      | Some (rules, deletedHostnames) \<Rightarrow>
        Some (ingr\<lparr>in_TLS := filter (\<lambda>t. \<not> list_ex (\<lambda>h. list_ex (\<lambda>host. h = host) deletedHostnames) (it_Hosts t)) (in_TLS ingr), in_Rules := rules\<rparr>))"

definition removeRulesIngress :: "('w, 'l) port_manager \<Rightarrow> ingress \<Rightarrow> service \<Rightarrow> int \<Rightarrow> 'w \<Rightarrow> ('w \<times> go_error option) option" where
  "removeRulesIngress M ingr svc port w =
     map_option (\<lambda>ingr'. written (kc_Update (pm_ingresses M) w ingr')) (without_rules ingr (om_Name svc) port)"

subsection \<open>The two operations\<close>

definition ExposePort :: "('w, 'l) port_manager \<Rightarrow> string \<Rightarrow> string list \<Rightarrow> int \<Rightarrow> 'w \<Rightarrow> 'w \<times> (go_error + string list)" where
  "ExposePort M autoHostName hostnames port w =
     (if pm_HOSTNAME M = [] then (w, Inl (ErrNew ''unable to determine the current pod's name''))
      else if hostnames = [] \<and> autoHostName = [] then (w, Inl (ErrNew ''empty hostnames provided''))
      else
        (case getReleaseNameByPodName M (pm_HOSTNAME M) w of
           Inl err \<Rightarrow> (w, Inl (errorf ''unable to find release name: '' err))
         | Inr releaseName \<Rightarrow>
           (case getReleaseService M releaseName w of
              Inl err \<Rightarrow> (w, Inl (errorf ''unable to get service: '' err))
            | Inr svc \<Rightarrow>
              (case getReleaseIngress M releaseName w of
                 Inl _ \<Rightarrow> (w, Inl (ErrNew ''no ingress''))
               | Inr ingr \<Rightarrow>
                 (case exposeServicePort M svc port w of
                    (w', Some err) \<Rightarrow> (w', Inl err)
                  | (w', None) \<Rightarrow>
                    (let suffix = getIngressAutoHostnamePrefix ingr;
                         hosts = (if suffix \<noteq> [] \<and> autoHostName \<noteq> [] then hostnames @ [autoHostName @ ''-'' @ suffix] else hostnames)
                     in addRulesIngress M ingr svc hosts port w'))))))"

definition DisclosePort :: "('w, 'l) port_manager \<Rightarrow> int \<Rightarrow> 'w \<Rightarrow> ('w \<times> go_error option) option" where
  "DisclosePort M port w =
     (if pm_HOSTNAME M = [] then Some (w, None)
      else
        (case getReleaseNameByPodName M (pm_HOSTNAME M) w of
           Inl err \<Rightarrow> Some (w, Some (errorf ''unable to find release name: '' err))
         | Inr releaseName \<Rightarrow>
           (case getReleaseService M releaseName w of
              Inl err \<Rightarrow> Some (w, Some (errorf ''unable to get service: '' err))
            | Inr svc \<Rightarrow>
              (case getReleaseIngress M releaseName w of
                 Inl _ \<Rightarrow> Some (w, Some (ErrNew ''no ingress''))
               | Inr ingr \<Rightarrow>
                 (case discloseServicePort M svc port w of
                    (w', Some err) \<Rightarrow> Some (w', Some err)
                  | (w', None) \<Rightarrow> removeRulesIngress M ingr svc port w')))))"

subsection \<open>What is kept of the rules\<close>

definition leads :: "string \<Rightarrow> int \<Rightarrow> ingress_path \<Rightarrow> bool" where
  "leads svcName port p \<longleftrightarrow> ip_Service p = Some (svcName, int32 port)"

definition copies :: "string \<Rightarrow> int \<Rightarrow> ingress_rule \<Rightarrow> nat" where
  "copies svcName port r = (case ir_HTTP r of None \<Rightarrow> 0 | Some paths \<Rightarrow> length (takeWhile (\<lambda>p. \<not> leads svcName port p) paths))"

definition service_backed :: "ingress_rule \<Rightarrow> bool" where
  "service_backed r \<longleftrightarrow> (\<forall>paths. ir_HTTP r = Some paths \<longrightarrow> (\<forall>p \<in> set paths. ip_Service p \<noteq> None))"

definition leads_rule :: "string \<Rightarrow> int \<Rightarrow> ingress_rule \<Rightarrow> bool" where
  "leads_rule svcName port r = (case ir_HTTP r of None \<Rightarrow> False | Some paths \<Rightarrow> list_ex (leads svcName port) paths)"

lemma keep_paths_copies:
  "\<forall>p \<in> set paths. ip_Service p \<noteq> None \<Longrightarrow>
   keep_paths svcName (int32 port) r paths =
     Some (replicate (length (takeWhile (\<lambda>p. \<not> leads svcName port p) paths)) r, list_ex (leads svcName port) paths)"
  by (induction paths) (auto simp: leads_def split: option.split)

lemma keep_rules_copies:
  "\<forall>r \<in> set rules. service_backed r \<Longrightarrow>
   keep_rules svcName (int32 port) rules =
     Some (concat (map (\<lambda>r. replicate (copies svcName port r) r) rules), map ir_Host (filter (leads_rule svcName port) rules))"
proof (induction rules)
  case (Cons r rules)
  show ?case
  proof (cases "ir_HTTP r")
    case (Some paths)
    then have "\<forall>p \<in> set paths. ip_Service p \<noteq> None" using Cons.prems by (auto simp: service_backed_def)
    from keep_paths_copies [OF this] Some Cons show ?thesis by (simp add: copies_def leads_rule_def)
  qed (use Cons in \<open>simp add: copies_def leads_rule_def\<close>)
qed simp

lemma count_copies: "count_list (concat (map (\<lambda>r. replicate (k r) r) rules)) x = count_list rules x * k x"
proof (induction rules)
  case (Cons r rules)
  have "count_list (replicate n r) x = (if r = x then n else 0)" for n by (induction n) auto
  with Cons show ?case by simp
qed simp

text \<open>C32: closing a port rewrites the other rules of the ingress. A rule is kept once for each of its paths before the first that leads to
  the port: one with a single path is kept or removed as it should be, but one without paths is dropped, one with several paths is
  multiplied, and one that leads to the port by a later path stays, so the port can remain reachable.\<close>

theorem disclosed_rules:
  assumes "\<forall>r \<in> set (in_Rules ingr). service_backed r"
  shows "\<exists>ingr'. without_rules ingr svcName port = Some ingr' \<and>
    (\<forall>r. count_list (in_Rules ingr') r = count_list (in_Rules ingr) r * copies svcName port r) \<and>
    ((\<exists>r \<in> set (in_Rules ingr'). leads_rule svcName port r) \<longleftrightarrow>
       (\<exists>r \<in> set (in_Rules ingr). \<exists>p paths. ir_HTTP r = Some (p # paths) \<and> \<not> leads svcName port p \<and> (\<exists>q \<in> set paths. leads svcName port q)))"
proof -
  let ?rules = "concat (map (\<lambda>r. replicate (copies svcName port r) r) (in_Rules ingr))"
  have "leads_rule svcName port r \<and> copies svcName port r \<noteq> 0 \<longleftrightarrow>
      (\<exists>p paths. ir_HTTP r = Some (p # paths) \<and> \<not> leads svcName port p \<and> (\<exists>q \<in> set paths. leads svcName port q))" for r
  proof (cases "ir_HTTP r")
    case (Some ps)
    then show ?thesis by (cases ps) (auto simp: leads_rule_def copies_def list_ex_iff)
  qed (simp add: leads_rule_def)
  moreover have "r \<in> set ?rules \<longleftrightarrow> r \<in> set (in_Rules ingr) \<and> copies svcName port r \<noteq> 0" for r by (auto simp: in_set_replicate)
  ultimately have "(\<exists>r \<in> set ?rules. leads_rule svcName port r) \<longleftrightarrow>
       (\<exists>r \<in> set (in_Rules ingr). \<exists>p paths. ir_HTTP r = Some (p # paths) \<and> \<not> leads svcName port p \<and> (\<exists>q \<in> set paths. leads svcName port q))"
    by blast
  then show ?thesis using keep_rules_copies [OF assms] by (simp add: without_rules_def count_copies)
qed

definition two_path_rule :: ingress_rule where
  "two_path_rule = \<lparr>ir_Host = ''a.example'', ir_HTTP = Some
     [\<lparr>ip_Path = ''/x'', ip_PathType = None, ip_Service = Some (''other'', 80)\<rparr>, \<lparr>ip_Path = ''/'', ip_PathType = None, ip_Service = Some (''svc'', 8080)\<rparr>]\<rparr>"

definition sample_ingress :: "ingress_rule list \<Rightarrow> ingress" where
  "sample_ingress rules =
     object_meta.extend ((new_meta ''ns'' [] (ingress_labels ''rel'') [])\<lparr>om_Name := ''ing''\<rparr>) (ingress.fields rules [])"

theorem disclosed_rules_witness:
  "\<exists>ingr'. without_rules (sample_ingress [two_path_rule]) ''svc'' 8080 = Some ingr' \<and> (\<exists>r \<in> set (in_Rules ingr'). leads_rule ''svc'' 8080 r)"
proof -
  have "in_Rules (sample_ingress [two_path_rule]) = [two_path_rule]" by (simp add: sample_ingress_def ingress.defs object_meta.defs)
  moreover have "service_backed two_path_rule" by (simp add: service_backed_def two_path_rule_def)
  ultimately show ?thesis
    using disclosed_rules [of "sample_ingress [two_path_rule]" "''svc''" 8080]
    by (auto simp: two_path_rule_def leads_def int32_def)
qed

subsection \<open>Opening and closing\<close>

lemma set_host_rule_fresh: "host \<notin> ir_Host ` set rules \<Longrightarrow> set_host_rule host paths rules = rules @ [\<lparr>ir_Host = host, ir_HTTP = Some paths\<rparr>]"
  by (induction rules) auto

lemma set_host_rules_fresh:
  "distinct hosts \<Longrightarrow> set hosts \<inter> ir_Host ` set rules = {} \<Longrightarrow>
   fold (\<lambda>h. set_host_rule h paths) hosts rules = rules @ map (\<lambda>h. \<lparr>ir_Host = h, ir_HTTP = Some paths\<rparr>) hosts"
  by (induction hosts arbitrary: rules) (auto simp: set_host_rule_fresh)

lemma leads_service_rule: "leads_rule svcName port \<lparr>ir_Host = h, ir_HTTP = Some (service_rule svcName port)\<rparr>"
  by (simp add: leads_rule_def service_rule_def leads_def)

text \<open>An ingress the exposure of a port can be undone on: its rules have one path to some other backend, and neither a rule nor
  a certificate has one of the new host names.\<close>

definition untouched :: "string \<Rightarrow> int \<Rightarrow> string list \<Rightarrow> ingress \<Rightarrow> bool" where
  "untouched svcName port hosts ingr \<longleftrightarrow>
     (\<forall>r \<in> set (in_Rules ingr). ir_Host r \<notin> set hosts \<and> (\<exists>p. ir_HTTP r = Some [p] \<and> ip_Service p \<noteq> None \<and> \<not> leads svcName port p)) \<and>
     (\<forall>t \<in> set (in_TLS ingr). set (it_Hosts t) \<inter> set hosts = {})"

lemma with_rules_fresh:
  assumes "distinct hosts" "untouched svcName port hosts ingr"
  shows "fold (\<lambda>h. set_host_rule h (service_rule svcName port)) hosts (in_Rules ingr) =
    in_Rules ingr @ map (\<lambda>h. \<lparr>ir_Host = h, ir_HTTP = Some (service_rule svcName port)\<rparr>) hosts"
  using assms by (intro set_host_rules_fresh) (auto simp: untouched_def)

lemma hosts_lead:
  assumes "distinct hosts" "untouched svcName port hosts ingr"
  shows "\<forall>h \<in> set hosts. \<exists>r \<in> set (in_Rules (with_rules ingr svcName hosts port)). ir_Host r = h \<and> leads_rule svcName port r"
proof
  fix h assume "h \<in> set hosts"
  then show "\<exists>r \<in> set (in_Rules (with_rules ingr svcName hosts port)). ir_Host r = h \<and> leads_rule svcName port r"
    by (intro bexI [of _ "\<lparr>ir_Host = h, ir_HTTP = Some (service_rule svcName port)\<rparr>"])
      (simp_all add: with_rules_def with_rules_fresh [OF assms] leads_service_rule)
qed

lemma rules_roundtrip:
  assumes "distinct hosts" "untouched svcName port hosts ingr"
  shows "without_rules (with_rules ingr svcName hosts port) svcName port = Some ingr"
proof -
  let ?new = "map (\<lambda>h. \<lparr>ir_Host = h, ir_HTTP = Some (service_rule svcName port)\<rparr>) hosts"
  note f = with_rules_fresh [OF assms]
  have n: "new_hosts (in_TLS ingr) hosts = hosts"
    using assms(2) by (auto simp: new_hosts_def untouched_def list_ex_iff filter_id_conv)
  have lead: "leads svcName port p" if "p \<in> set (service_rule svcName port)" for p using that by (simp add: service_rule_def leads_def)
  have one: "copies svcName port r = 1 \<and> \<not> leads_rule svcName port r \<and> service_backed r" if "r \<in> set (in_Rules ingr)" for r
  proof -
    from assms(2) that obtain p where "ir_HTTP r = Some [p]" "ip_Service p \<noteq> None" "\<not> leads svcName port p"
      unfolding untouched_def by blast
    then show ?thesis by (auto simp: copies_def leads_rule_def service_backed_def)
  qed
  have none: "copies svcName port r = 0 \<and> leads_rule svcName port r \<and> service_backed r" if "r \<in> set ?new" for r
    using that by (auto simp: copies_def leads_rule_def service_backed_def service_rule_def leads_def)
  have "concat (map (\<lambda>r. replicate (copies svcName port r) r) rs) = rs" if "\<forall>r \<in> set rs. copies svcName port r = 1" for rs
    using that by (induction rs) auto
  then have "concat (map (\<lambda>r. replicate (copies svcName port r) r) (in_Rules ingr)) = in_Rules ingr" using one by blast
  moreover have "concat (map (\<lambda>r. replicate (copies svcName port r) r) ?new) = []" using none by simp
  ultimately have c: "concat (map (\<lambda>r. replicate (copies svcName port r) r) (in_Rules ingr @ ?new)) = in_Rules ingr"
    by (simp only: map_append concat_append append_Nil2)
  have "filter (leads_rule svcName port) (in_Rules ingr @ ?new) = ?new" using one none by (simp add: filter_empty_conv filter_id_conv)
  moreover have "\<forall>r \<in> set (in_Rules ingr @ ?new). service_backed r" using one none by (simp only: set_append) blast
  ultimately have "keep_rules svcName (int32 port) (in_Rules ingr @ ?new) = Some (in_Rules ingr, hosts)"
    using keep_rules_copies [of "in_Rules ingr @ ?new" svcName port] c by (simp add: o_def del: map_append concat_append)
  moreover have "filter (\<lambda>t. \<not> list_ex (\<lambda>h. list_ex (\<lambda>host. h = host) hosts) (it_Hosts t)) (in_TLS ingr @ map (\<lambda>h. \<lparr>it_Hosts = [h], it_SecretName = h @ ''-tls''\<rparr>) hosts) = in_TLS ingr"
    using assms(2) by (auto simp: untouched_def list_ex_iff filter_id_conv filter_empty_conv)
  ultimately show ?thesis by (simp add: without_rules_def with_rules_def f n)
qed

definition exposure_lists :: "('w, 'l) port_manager \<Rightarrow> bool" where
  "exposure_lists M \<longleftrightarrow>
     lists_updates (pm_services M) (\<lambda>s. s) meta_key om_Labels \<and> lists_updates (pm_ingresses M) (\<lambda>i. i) meta_key om_Labels \<and>
     (\<forall>w obj. kc_List (pm_ingresses M) (fst (kc_Update (pm_services M) w obj)) = kc_List (pm_ingresses M) w \<and>
              kc_Get (pm_pods M) (fst (kc_Update (pm_services M) w obj)) = kc_Get (pm_pods M) w) \<and>
     (\<forall>w obj. kc_List (pm_services M) (fst (kc_Update (pm_ingresses M) w obj)) = kc_List (pm_services M) w \<and>
              kc_Get (pm_pods M) (fst (kc_Update (pm_ingresses M) w obj)) = kc_Get (pm_pods M) w)"

lemma the_only_single: "the_only missing ambiguous r = Inr x \<longleftrightarrow> r = Inr [x]"
  by (auto simp: the_only_def split: sum.splits list.splits)

lemma labelled_update:
  assumes "lists_updates C (\<lambda>x. x) key labels" "labelled M C refused wrapped l w = Inr [x]" "key x' = key x" "labels x' = labels x"
  obtains w' where "kc_Update C w x' = (w', Inr x')" "labelled M C refused wrapped l w' = Inr [x']"
proof -
  obtain sel where s: "mg_Selector M l = Inr sel" "kc_List C w (Some sel) (mg_namespace M) = Inr [x]"
    using assms(2) by (rule labelled_list)
  with assms(1) [unfolded lists_updates_def, rule_format, OF s(2), of x x'] assms(3,4) that show thesis
    by (auto simp: labelled_def)
qed

lemma release_frame:
  assumes "exposure_lists M"
  shows "kc_Update (pm_services M) w svc = (w', r) \<Longrightarrow>
     getReleaseIngress M rel w' = getReleaseIngress M rel w \<and> getReleaseNameByPodName M pod w' = getReleaseNameByPodName M pod w"
    and "kc_Update (pm_ingresses M) w ingr = (w', r') \<Longrightarrow>
     getReleaseService M rel w' = getReleaseService M rel w \<and> getReleaseNameByPodName M pod w' = getReleaseNameByPodName M pod w"
proof -
  assume "kc_Update (pm_services M) w svc = (w', r)"
  then have "kc_List (pm_ingresses M) w' = kc_List (pm_ingresses M) w" "kc_Get (pm_pods M) w' = kc_Get (pm_pods M) w"
    using assms unfolding exposure_lists_def by (metis fst_conv)+
  from labelled_cong [OF this(1)] this(2)
  show "getReleaseIngress M rel w' = getReleaseIngress M rel w \<and> getReleaseNameByPodName M pod w' = getReleaseNameByPodName M pod w"
    by (simp add: getReleaseIngress_def getReleaseNameByPodName_def)
next
  assume "kc_Update (pm_ingresses M) w ingr = (w', r')"
  then have "kc_List (pm_services M) w' = kc_List (pm_services M) w" "kc_Get (pm_pods M) w' = kc_Get (pm_pods M) w"
    using assms unfolding exposure_lists_def by (metis fst_conv)+
  from labelled_cong [OF this(1)] this(2)
  show "getReleaseService M rel w' = getReleaseService M rel w \<and> getReleaseNameByPodName M pod w' = getReleaseNameByPodName M pod w"
    by (simp add: getReleaseService_def getReleaseNameByPodName_def)
qed

lemma service_updated:
  assumes "exposure_lists M" "getReleaseService M rel w = Inr svc"
  obtains w' where "kc_Update (pm_services M) w (svc\<lparr>sv_Ports := ports\<rparr>) = (w', Inr (svc\<lparr>sv_Ports := ports\<rparr>))"
    "getReleaseService M rel w' = Inr (svc\<lparr>sv_Ports := ports\<rparr>)"
  using assms unfolding exposure_lists_def getReleaseService_def the_only_single
  by (elim conjE labelled_update [where x' = "svc\<lparr>sv_Ports := ports\<rparr>"]) (simp_all add: meta_key_def)

lemma ingress_updated:
  assumes "exposure_lists M" "getReleaseIngress M rel w = Inr ingr"
  obtains w' where "kc_Update (pm_ingresses M) w (ingr\<lparr>in_Rules := rules, in_TLS := tls\<rparr>) = (w', Inr (ingr\<lparr>in_Rules := rules, in_TLS := tls\<rparr>))"
    "getReleaseIngress M rel w' = Inr (ingr\<lparr>in_Rules := rules, in_TLS := tls\<rparr>)"
  using assms unfolding exposure_lists_def getReleaseIngress_def the_only_single
  by (elim conjE labelled_update [where x' = "ingr\<lparr>in_Rules := rules, in_TLS := tls\<rparr>"]) (simp_all add: meta_key_def)

text \<open>C31: closing a port undoes its opening on an ingress of single-path rules. Assume the release, its service and its ingress are found and
  the cluster stores what it is given; the service does not have the port yet; there is a new host name, the new ones are distinct and
  none of them occurs in a rule or a certificate of the ingress; and every rule the ingress already has consists of exactly one path,
  which is backed by a service and does not lead to the port. Then both operations succeed, the opened port is found at the service
  and every host name leads to it, and after the closing the service and the ingress are as they were. Existing rules with no
  path or with several are not restored: \<open>disclosed_rules\<close> says what becomes of them.\<close>

theorem expose_disclose_roundtrip:
  assumes "exposure_lists M" "pm_HOSTNAME M \<noteq> []" "getReleaseNameByPodName M (pm_HOSTNAME M) w = Inr rel"
    and "getReleaseService M rel w = Inr svc" "getReleaseIngress M rel w = Inr ingr"
    and "\<not> list_ex (\<lambda>p. sp_Port p = int32 port) (sv_Ports svc)"
    and "hosts = hostnames @ (if getIngressAutoHostnamePrefix ingr \<noteq> [] \<and> autoHostName \<noteq> [] then [autoHostName @ ''-'' @ getIngressAutoHostnamePrefix ingr] else [])"
    and "hosts \<noteq> []" "distinct hosts" "untouched (om_Name svc) port hosts ingr"
  shows "\<exists>w1 svc1 ingr1 w2. ExposePort M autoHostName hostnames port w = (w1, Inr hosts) \<and>
    getReleaseService M rel w1 = Inr svc1 \<and> list_ex (\<lambda>p. sp_Port p = int32 port) (sv_Ports svc1) \<and>
    getReleaseIngress M rel w1 = Inr ingr1 \<and> (\<forall>h \<in> set hosts. \<exists>r \<in> set (in_Rules ingr1). ir_Host r = h \<and> leads_rule (om_Name svc) port r) \<and>
    DisclosePort M port w1 = Some (w2, None) \<and> getReleaseService M rel w2 = Inr svc \<and> getReleaseIngress M rel w2 = Inr ingr"
proof -
  let ?svc1 = "svc\<lparr>sv_Ports := sv_Ports svc @ [\<lparr>sp_Name = ''port'' @ itoa port, sp_Port = int32 port, sp_TargetPort = int32 port\<rparr>]\<rparr>"
  let ?ingr1 = "with_rules ingr (om_Name svc) hosts port"
  note frame = release_frame [OF assms(1)]
  obtain w0 where u0: "kc_Update (pm_services M) w ?svc1 = (w0, Inr ?svc1)" "getReleaseService M rel w0 = Inr ?svc1"
    using assms(1,4) by (rule service_updated)
  then have i0: "getReleaseIngress M rel w0 = Inr ingr" using frame(1) assms(5) by metis
  then obtain w1 where u1: "kc_Update (pm_ingresses M) w0 ?ingr1 = (w1, Inr ?ingr1)" "getReleaseIngress M rel w1 = Inr ?ingr1"
    unfolding with_rules_def by (rule ingress_updated [OF assms(1)])
  then have s1: "getReleaseService M rel w1 = Inr ?svc1" using frame(2) u0(2) by metis
  have "hostnames \<noteq> [] \<or> autoHostName \<noteq> []" using assms(7,8) by (auto split: if_splits)
  then have expose: "ExposePort M autoHostName hostnames port w = (w1, Inr hosts)"
    using assms(2-8) u0(1) u1(1) by (auto simp: ExposePort_def exposeServicePort_def written_def addRulesIngress_def Let_def)
  have p1: "getReleaseNameByPodName M (pm_HOSTNAME M) w1 = Inr rel" using frame u0(1) u1(1) assms(3) by metis
  have same: "?svc1\<lparr>sv_Ports := filter (\<lambda>p. sp_Port p \<noteq> int32 port) (sv_Ports ?svc1)\<rparr> = svc"
    using assms(6) by (auto simp: list_ex_iff filter_id_conv intro!: service.equality)
  obtain w2 where u2: "kc_Update (pm_services M) w1 svc = (w2, Inr svc)" "getReleaseService M rel w2 = Inr svc"
    using service_updated [OF assms(1) s1, of "filter (\<lambda>p. sp_Port p \<noteq> int32 port) (sv_Ports ?svc1)"] unfolding same by blast
  have i2: "getReleaseIngress M rel w2 = Inr ?ingr1" using frame(1) u2(1) u1(2) by metis
  have "?ingr1\<lparr>in_Rules := in_Rules ingr, in_TLS := in_TLS ingr\<rparr> = ingr" by (simp add: with_rules_def)
  then obtain w3 where u3: "kc_Update (pm_ingresses M) w2 ingr = (w3, Inr ingr)" "getReleaseIngress M rel w3 = Inr ingr"
    using ingress_updated [OF assms(1) i2, where rules = "in_Rules ingr" and tls = "in_TLS ingr"] by metis
  have s3: "getReleaseService M rel w3 = Inr svc" using frame(2) u3(1) u2(2) by metis
  have "discloseServicePort M ?svc1 port w1 = (w2, None)" unfolding discloseServicePort_def same using u2(1) by (simp add: written_def)
  moreover have "removeRulesIngress M ?ingr1 ?svc1 port w2 = Some (w3, None)"
    using rules_roundtrip [OF assms(9,10)] u3(1) by (simp add: removeRulesIngress_def written_def)
  ultimately have disclose: "DisclosePort M port w1 = Some (w3, None)"
    using assms(2) p1 s1 u1(2) by (simp add: DisclosePort_def)
  from hosts_lead [OF assms(9,10)] show ?thesis using expose s1 u1(2) disclose s3 u3(2) by (intro exI conjI) (assumption | simp)+
qed

record port_cluster = cluster +
  cl_pods :: "object_meta list"
  cl_services :: "service list"
  cl_ingresses :: "ingress list"

definition list_port_manager :: "(port_cluster, string gomap) port_manager" where
  "list_port_manager = manager.extend list_manager (port_manager.fields
     (list_client cl_pods (\<lambda>xs w. w\<lparr>cl_pods := xs\<rparr>) meta_key om_Labels)
     (list_client cl_services (\<lambda>xs w. w\<lparr>cl_services := xs\<rparr>) meta_key om_Labels)
     (list_client cl_ingresses (\<lambda>xs w. w\<lparr>cl_ingresses := xs\<rparr>) meta_key om_Labels) ''pod'')"

definition release_cluster :: port_cluster where
  "release_cluster = cluster.extend project_cluster (port_cluster.fields
     [(new_meta ''ns'' [] [(''app.kubernetes.io/instance'', ''rel'')] [])\<lparr>om_Name := ''pod''\<rparr>]
     [object_meta.extend ((new_meta ''ns'' [] (service_labels ''rel'') [])\<lparr>om_Name := ''svc''\<rparr>) (service.fields [])]
     [sample_ingress []])"

lemma list_port_manager_lists: "exposure_lists list_port_manager"
proof -
  have "lists_updates (pm_services list_port_manager) (\<lambda>s. s) meta_key om_Labels"
    unfolding list_port_manager_def manager.defs port_manager.defs port_manager.simps by (rule list_client_lists) simp
  moreover have "lists_updates (pm_ingresses list_port_manager) (\<lambda>s. s) meta_key om_Labels"
    unfolding list_port_manager_def manager.defs port_manager.defs port_manager.simps by (rule list_client_lists) simp
  ultimately show ?thesis by (simp add: exposure_lists_def list_port_manager_def manager.defs port_manager.defs list_client_def)
qed

theorem expose_disclose_roundtrip_witness:
  "\<exists>w1 w2. ExposePort list_port_manager [] [''a.example''] 8080 release_cluster = (w1, Inr [''a.example'']) \<and>
     DisclosePort list_port_manager 8080 w1 = Some (w2, None) \<and>
     getReleaseIngress list_port_manager ''rel'' w2 = Inr (sample_ingress [])"
proof -
  let ?M = list_port_manager
  let ?svc = "object_meta.extend ((new_meta ''ns'' [] (service_labels ''rel'') [])\<lparr>om_Name := ''svc''\<rparr>) (service.fields [])"
  have r: "pm_HOSTNAME ?M \<noteq> []" "getReleaseNameByPodName ?M (pm_HOSTNAME ?M) release_cluster = Inr ''rel''"
    "getReleaseService ?M ''rel'' release_cluster = Inr ?svc" "getReleaseIngress ?M ''rel'' release_cluster = Inr (sample_ingress [])"
    "\<not> list_ex (\<lambda>p. sp_Port p = int32 8080) (sv_Ports ?svc)"
    "[''a.example''] = [''a.example''] @ (if getIngressAutoHostnamePrefix (sample_ingress []) \<noteq> [] \<and> [] \<noteq> ([] :: string)
       then [[] @ ''-'' @ getIngressAutoHostnamePrefix (sample_ingress [])] else [])"
    by code_simp+
  have "untouched (om_Name ?svc) 8080 [''a.example''] (sample_ingress [])"
    by (simp add: untouched_def sample_ingress_def ingress.defs object_meta.defs)
  from expose_disclose_roundtrip [OF list_port_manager_lists r _ _ this] show ?thesis by auto
qed

end
