(* ===== verification/Go_Values.thy ===== *)
theory Go_Values
  imports Redaction Error_Contract
begin

section \<open>Typed values: declared secrets and secret placeholders\<close>

text \<open>
  \<open>src/pkg/redact/declared.go\<close> and \<open>src/pkg/secret/secret.go\<close>, which walk Go values by reflection. A
  value is a \<open>govalue\<close> that carries what the walks look at: the kind, the static types that decide
  assignability, the exported flag and the tags of struct fields. \<open>VNil t\<close> is the nil pointer,
  interface, map or slice of type \<open>t\<close>. A walk that panics returns \<open>None\<close>. \<open>Resolve\<close> mutates in
  place, so its result is the value as it stands when the walk returns, with the error if there was
  one; the flag \<open>can\<close> is \<open>CanSet\<close>. The Kubernetes client is the argument \<open>client\<close>.

  The types are structural: a named string, map or slice type is the type it is built from, and every
  interface is \<open>any\<close>. A masked copy of a named slice type is of the unnamed type in Go, so storing it
  in an interface with methods would panic; such interfaces have no counterpart here.
\<close>

record gofield =
  fd_Name :: string
  fd_Exported :: bool
  fd_format :: string
  fd_secret :: string
  fd_writeOnly :: string

datatype gotype =
    TStr
  | TOpaque string
  | TStruct "(gofield \<times> gotype) list"
  | TPtr gotype
  | TIface
  | TMap gotype
  | TSlice gotype
  | TArray gotype

datatype govalue =
    VStr string
  | VOpaque string string
  | VStruct "(gofield \<times> govalue) list"
  | VPtr govalue
  | VIface govalue
  | VMap gotype "(string \<times> govalue) list"
  | VSlice gotype "govalue list"
  | VArray gotype "govalue list"
  | VNil gotype

lemma govalue_member_size [termination_simp]:
  "f \<in> set fs \<Longrightarrow> size (snd f) < Suc (size_list (size_prod (\<lambda>x. 0) size) fs)"
  by (induction fs) auto

fun type_of :: "govalue \<Rightarrow> gotype" where
  "type_of (VStr s) = TStr"
| "type_of (VOpaque t r) = TOpaque t"
| "type_of (VStruct fs) = TStruct (map (\<lambda>f. (fst f, type_of (snd f))) fs)"
| "type_of (VPtr v) = TPtr (type_of v)"
| "type_of (VIface v) = TIface"
| "type_of (VMap t ms) = TMap t"
| "type_of (VSlice t vs) = TSlice t"
| "type_of (VArray t vs) = TArray t"
| "type_of (VNil t) = t"

text \<open>Storing a value where the static type is \<open>t\<close>: \<open>None\<close> if it is not assignable.\<close>

definition assign :: "gotype \<Rightarrow> govalue \<Rightarrow> govalue option" where
  "assign t v = (if type_of v = t then Some v else if t = TIface then Some (VIface v) else None)"

subsection \<open>redact.Declared\<close>

definition isSecretField :: "gofield \<Rightarrow> bool" where
  "isSecretField f =
     (equal_fold (fd_format f) ''password'' \<or> equal_fold (fd_secret f) ''true'' \<or> equal_fold (fd_writeOnly f) ''true'')"

text \<open>The walk of one field, given the walk of its value.\<close>

definition walk_field ::
  "(govalue \<times> bool) option \<Rightarrow> gofield \<times> govalue \<Rightarrow> ((gofield \<times> govalue) \<times> bool) option" where
  "walk_field walked ff =
     (case ff of (f, fv) \<Rightarrow>
        if \<not> fd_Exported f then Some ((f, fv), False)
        else if isSecretField f then
          (case fv of
             VStr s \<Rightarrow> if s \<noteq> [] then Some ((f, VStr Value), True) else Some ((f, fv), False)
           | _ \<Rightarrow> Some ((f, fv), False))
        else (case walked of
                None \<Rightarrow> None
              | Some (copied, c) \<Rightarrow>
                if \<not> c then Some ((f, fv), False)
                else (case assign (type_of fv) copied of
                        Some x \<Rightarrow> Some ((f, x), True)
                      | None \<Rightarrow> Some ((f, fv), True))))"

text \<open>The walk of one map value or slice element of static type \<open>t\<close>; storing the copy may panic.\<close>

definition walk_elem :: "gotype \<Rightarrow> (govalue \<times> bool) option \<Rightarrow> govalue \<Rightarrow> (govalue \<times> bool) option" where
  "walk_elem t walked v =
     (case walked of
        None \<Rightarrow> None
      | Some (copied, c) \<Rightarrow>
        if \<not> c then Some (v, False)
        else (case assign t copied of Some x \<Rightarrow> Some (x, True) | None \<Rightarrow> None))"

definition all_some :: "'a option list \<Rightarrow> 'a list option" where
  "all_some xs = (if None \<in> set xs then None else Some (map the xs))"

fun walk :: "govalue \<Rightarrow> (govalue \<times> bool) option" where
  "walk (VPtr v) =
     (case walk v of None \<Rightarrow> None | Some (copied, c) \<Rightarrow> if \<not> c then Some (VPtr v, False) else Some (copied, True))"
| "walk (VIface v) =
     (case walk v of None \<Rightarrow> None | Some (copied, c) \<Rightarrow> if \<not> c then Some (VIface v, False) else Some (copied, True))"
| "walk (VStruct fs) =
     (case all_some (map (\<lambda>ff. walk_field (walk (snd ff)) ff) fs) of
        None \<Rightarrow> None
      | Some rs \<Rightarrow> Some (VStruct (map fst rs), list_ex snd rs))"
| "walk (VMap t ms) =
     (case all_some (map (\<lambda>kv. map_option (\<lambda>(x, c). ((fst kv, x), c)) (walk_elem t (walk (snd kv)) (snd kv))) ms) of
        None \<Rightarrow> None
      | Some rs \<Rightarrow> if list_ex snd rs then Some (VMap t (map fst rs), True) else Some (VMap t ms, False))"
| "walk (VSlice t vs) =
     (case all_some (map (\<lambda>v. walk_elem t (walk v) v) vs) of
        None \<Rightarrow> None
      | Some rs \<Rightarrow> if list_ex snd rs then Some (VSlice t (map fst rs), True) else Some (VSlice t vs, False))"
| "walk (VArray t vs) =
     (case all_some (map (\<lambda>v. walk_elem t (walk v) v) vs) of
        None \<Rightarrow> None
      | Some rs \<Rightarrow> if list_ex snd rs then Some (VSlice t (map fst rs), True) else Some (VArray t vs, False))"
| "walk v = Some (v, False)"

definition Declared :: "govalue \<Rightarrow> (govalue \<times> bool) option" where
  "Declared v =
     (case walk v of None \<Rightarrow> None | Some (out, c) \<Rightarrow> if \<not> c then Some (v, False) else Some (out, True))"

subsection \<open>secret.Resolve and ContainsPlaceholder\<close>

definition placeholder_char :: "char \<Rightarrow> bool" where
  "placeholder_char c = (is_alnum c \<or> c = CHR ''.'' \<or> c = CHR ''_'' \<or> c = CHR ''-'')"

text \<open>\<open>placeholderRe.FindStringSubmatch\<close>: the name and the key.\<close>

definition placeholderRe :: "string \<Rightarrow> (string \<times> string) option" where
  "placeholderRe s =
     (if has_prefix s ''[[secret:'' \<and> has_suffix s '']]'' \<and> 11 \<le> length s then
        (case split_char (CHR ''/'') (take (length s - 11) (drop 9 s)) of
           [n, k] \<Rightarrow> if n \<noteq> [] \<and> k \<noteq> [] \<and> list_all placeholder_char n \<and> list_all placeholder_char k
                     then Some (n, k) else None
         | _ \<Rightarrow> None)
      else None)"

record k8s_client =
  kc_namespace :: string
  kc_get :: "string \<Rightarrow> string \<Rightarrow> go_error + bytes gomap"

definition fetch :: "k8s_client \<Rightarrow> string \<Rightarrow> string \<Rightarrow> go_error + string" where
  "fetch client name key =
     (let ns = kc_namespace client
      in if ns = [] then Inl (ErrNew ''secret.Resolve: K8sClient.GetNamespace returned empty'')
         else (case kc_get client ns name of
                 Inl err \<Rightarrow> Inl (WrapError (''secret.Resolve: get Secret '' @ ns @ ''/'' @ name @ '': '') err)
               | Inr data \<Rightarrow>
                 (case map_of data key of
                    None \<Rightarrow> Inl (ErrNew (''secret.Resolve: key '' @ key @ '' not found in Secret '' @ ns @ ''/'' @ name))
                  | Some raw \<Rightarrow> Inr raw)))"

text \<open>Walking a list of elements in order, stopping at the first error.\<close>

fun walk_list :: "('a \<Rightarrow> 'a \<times> go_error option) \<Rightarrow> 'a list \<Rightarrow> 'a list \<times> go_error option" where
  "walk_list f [] = ([], None)"
| "walk_list f (x # xs) =
     (case f x of
        (y, Some e) \<Rightarrow> (y # xs, Some e)
      | (y, None) \<Rightarrow> (let (ys, e) = walk_list f xs in (y # ys, e)))"

lemma walk_list_cong [fundef_cong]:
  "xs = ys \<Longrightarrow> (\<And>x. x \<in> set ys \<Longrightarrow> f x = g x) \<Longrightarrow> walk_list f xs = walk_list g ys"
proof (induction ys arbitrary: xs)
  case (Cons y ys)
  then show ?case by (simp split: prod.splits option.splits)
qed simp

definition resolve_string :: "k8s_client \<Rightarrow> string \<Rightarrow> string \<times> go_error option" where
  "resolve_string client s =
     (case placeholderRe s of
        None \<Rightarrow> (s, None)
      | Some (name, key) \<Rightarrow>
        (case fetch client name key of Inl err \<Rightarrow> (s, Some err) | Inr v \<Rightarrow> (v, None)))"

text \<open>A map value behind its interface, and a new content put back behind it.\<close>

fun unwrap :: "govalue \<Rightarrow> govalue" where
  "unwrap (VIface v) = v"
| "unwrap v = v"

fun rewrap :: "govalue \<Rightarrow> govalue \<Rightarrow> govalue" where
  "rewrap (VIface v) x = VIface x"
| "rewrap v x = x"

fun is_string :: "govalue \<Rightarrow> bool" where
  "is_string (VStr s) = True"
| "is_string _ = False"

fun string_of :: "govalue \<Rightarrow> string" where
  "string_of (VStr s) = s"
| "string_of _ = []"

fun is_container :: "govalue \<Rightarrow> bool" where
  "is_container (VMap t ms) = True"
| "is_container (VSlice t vs) = True"
| "is_container (VStruct fs) = True"
| "is_container _ = False"

lemma unwrap_size: "size (unwrap v) \<le> size v"
  by (cases v) auto

lemma unwrap_member_size [termination_simp]:
  "(a, b) \<in> set ms \<Longrightarrow> size (unwrap b) < Suc (size_list (\<lambda>x. Suc (size (snd x))) ms)"
proof (induction ms)
  case (Cons m ms)
  then show ?case using unwrap_size [of b] by (auto simp: less_Suc_eq_le intro: le_trans)
qed simp

fun resolve_walk :: "k8s_client \<Rightarrow> bool \<Rightarrow> govalue \<Rightarrow> govalue \<times> go_error option" where
  "resolve_walk client can (VStr s) =
     (if \<not> can then (VStr s, None)
      else (case resolve_string client s of (v, e) \<Rightarrow> (VStr v, e)))"
| "resolve_walk client can (VStruct fs) =
     (case walk_list (\<lambda>ff. if \<not> (can \<and> fd_Exported (fst ff)) then (ff, None)
            else (case resolve_walk client True (snd ff) of (v, e) \<Rightarrow> ((fst ff, v), e))) fs of
        (fs', e) \<Rightarrow> (VStruct fs', e))"
| "resolve_walk client can (VPtr v) = (case resolve_walk client True v of (v', e) \<Rightarrow> (VPtr v', e))"
| "resolve_walk client can (VIface v) = (case resolve_walk client False v of (v', e) \<Rightarrow> (VIface v', e))"
| "resolve_walk client can (VSlice t vs) =
     (case walk_list (resolve_walk client True) vs of (vs', e) \<Rightarrow> (VSlice t vs', e))"
| "resolve_walk client can (VArray t vs) =
     (case walk_list (resolve_walk client can) vs of (vs', e) \<Rightarrow> (VArray t vs', e))"
| "resolve_walk client can (VMap t ms) =
     (case walk_list (\<lambda>kv.
            (let actual = unwrap (snd kv)
             in if is_string actual then
                  (case resolve_string client (string_of actual) of
                     (v, e) \<Rightarrow> ((fst kv, rewrap (snd kv) (VStr v)), e))
                else if is_container actual then
                  (case resolve_walk client True actual of (v, e) \<Rightarrow> ((fst kv, rewrap (snd kv) v), e))
                else (kv, None))) ms of
        (ms', e) \<Rightarrow> (VMap t ms', e))"
| "resolve_walk client can v = (v, None)"

definition Resolve :: "k8s_client option \<Rightarrow> govalue \<Rightarrow> govalue \<times> go_error option" where
  "Resolve client settings =
     (case client of
        None \<Rightarrow> (settings, Some (ErrNew ''secret.Resolve: K8sClient is nil''))
      | Some c \<Rightarrow>
        (case settings of
           VPtr v \<Rightarrow> (case resolve_walk c True v of (v', e) \<Rightarrow> (VPtr v', e))
         | _ \<Rightarrow> (settings, Some (ErrNew ''secret.Resolve: settings must be a non-nil pointer''))))"

fun ContainsPlaceholder :: "govalue \<Rightarrow> bool" where
  "ContainsPlaceholder (VStr s) = (placeholderRe s \<noteq> None)"
| "ContainsPlaceholder (VPtr v) = ContainsPlaceholder v"
| "ContainsPlaceholder (VIface v) = ContainsPlaceholder v"
| "ContainsPlaceholder (VStruct fs) = list_ex (\<lambda>f. ContainsPlaceholder (snd f)) fs"
| "ContainsPlaceholder (VSlice t vs) = list_ex ContainsPlaceholder vs"
| "ContainsPlaceholder (VArray t vs) = list_ex ContainsPlaceholder vs"
| "ContainsPlaceholder (VMap t ms) = list_ex (\<lambda>kv. ContainsPlaceholder (snd kv)) ms"
| "ContainsPlaceholder v = False"

subsection \<open>Lemmas on declared secrets\<close>

text \<open>Every string that is not empty inside a value, whatever its kind.\<close>

fun strings_in :: "govalue \<Rightarrow> string list" where
  "strings_in (VStr s) = (if s = [] then [] else [s])"
| "strings_in (VStruct fs) = concat (map (\<lambda>f. strings_in (snd f)) fs)"
| "strings_in (VPtr v) = strings_in v"
| "strings_in (VIface v) = strings_in v"
| "strings_in (VMap t ms) = concat (map (\<lambda>kv. strings_in (snd kv)) ms)"
| "strings_in (VSlice t vs) = concat (map strings_in vs)"
| "strings_in (VArray t vs) = concat (map strings_in vs)"
| "strings_in _ = []"

text \<open>The strings inside exported fields that are declared secret, of whatever kind the field is.\<close>

fun exposed :: "govalue \<Rightarrow> string list" where
  "exposed (VStruct fs) =
     concat (map (\<lambda>f. if \<not> fd_Exported (fst f) then []
       else if isSecretField (fst f) then strings_in (snd f)
       else exposed (snd f)) fs)"
| "exposed (VPtr v) = exposed v"
| "exposed (VIface v) = exposed v"
| "exposed (VMap t ms) = concat (map (\<lambda>kv. exposed (snd kv)) ms)"
| "exposed (VSlice t vs) = concat (map exposed vs)"
| "exposed (VArray t vs) = concat (map exposed vs)"
| "exposed _ = []"

fun is_iface :: "govalue \<Rightarrow> bool" where
  "is_iface (VIface v) = True"
| "is_iface _ = False"

text \<open>Every exported field that is declared secret is of string kind.\<close>

fun string_secrets :: "govalue \<Rightarrow> bool" where
  "string_secrets (VStruct fs) =
     list_all (\<lambda>f. (fd_Exported (fst f) \<longrightarrow> isSecretField (fst f) \<longrightarrow> is_string (snd f)) \<and> string_secrets (snd f)) fs"
| "string_secrets (VPtr v) = string_secrets v"
| "string_secrets (VIface v) = string_secrets v"
| "string_secrets (VMap t ms) = list_all (\<lambda>kv. string_secrets (snd kv)) ms"
| "string_secrets (VSlice t vs) = list_all string_secrets vs"
| "string_secrets (VArray t vs) = list_all string_secrets vs"
| "string_secrets v = True"

text \<open>Well-typed values without pointers and arrays: structs, maps, slices and interfaces.\<close>

fun tame :: "govalue \<Rightarrow> bool" where
  "tame (VStruct fs) = list_all (\<lambda>f. tame (snd f)) fs"
| "tame (VPtr v) = False"
| "tame (VIface v) = (tame v \<and> \<not> is_iface v)"
| "tame (VMap t ms) = list_all (\<lambda>kv. type_of (snd kv) = t \<and> tame (snd kv)) ms"
| "tame (VSlice t vs) = list_all (\<lambda>v. type_of v = t \<and> tame v) vs"
| "tame (VArray t vs) = False"
| "tame v = True"

definition walk_spec :: "govalue \<Rightarrow> (govalue \<times> bool) option \<Rightarrow> bool" where
  "walk_spec v r =
     (\<exists>v' c. r = Some (v', c) \<and> (\<not> c \<longrightarrow> v' = v \<and> exposed v = []) \<and>
        (c \<longrightarrow> set (exposed v') \<subseteq> {Value}) \<and> (is_iface v \<or> type_of v' = type_of v))"

text \<open>Once a copy is stored in its place it has the static type of the place.\<close>

definition stored_spec :: "govalue \<Rightarrow> (govalue \<times> bool) option \<Rightarrow> bool" where
  "stored_spec v r =
     (\<exists>v' c. r = Some (v', c) \<and> (\<not> c \<longrightarrow> v' = v \<and> exposed v = []) \<and>
        (c \<longrightarrow> set (exposed v') \<subseteq> {Value}) \<and> type_of v' = type_of v)"

lemma assign_iface: "\<exists>x. assign TIface v = Some x \<and> type_of x = TIface \<and> exposed x = exposed v"
  by (auto simp: assign_def)

lemma is_iface_type: "is_iface v \<Longrightarrow> type_of v = TIface"
  by (cases v) auto

lemma assign_masked:
  assumes "is_iface v \<or> type_of v' = type_of v"
  shows "\<exists>x. assign (type_of v) v' = Some x \<and> type_of x = type_of v \<and> exposed x = exposed v'"
  using assms assign_iface [of v'] by (auto simp: is_iface_type assign_def)

lemma walk_elem_spec: "walk_spec v r \<Longrightarrow> type_of v = t \<Longrightarrow> stored_spec v (walk_elem t r v)"
proof -
  assume a: "walk_spec v r" "type_of v = t"
  then obtain v' c where r: "r = Some (v', c)" "\<not> c \<longrightarrow> v' = v \<and> exposed v = []"
    "c \<longrightarrow> set (exposed v') \<subseteq> {Value}" "is_iface v \<or> type_of v' = type_of v"
    by (auto simp: walk_spec_def)
  obtain x where x: "assign (type_of v) v' = Some x" "type_of x = type_of v" "exposed x = exposed v'"
    using assign_masked [OF r(4)] by blast
  show ?thesis using r(1,2,3) x a(2) by (cases c) (auto simp: stored_spec_def walk_elem_def)
qed

definition exposed_field :: "gofield \<times> govalue \<Rightarrow> string list" where
  "exposed_field f = (if \<not> fd_Exported (fst f) then []
     else if isSecretField (fst f) then strings_in (snd f)
     else exposed (snd f))"

lemma walk_field_spec:
  assumes "walk_spec (snd f) r" and "fd_Exported (fst f) \<Longrightarrow> isSecretField (fst f) \<Longrightarrow> is_string (snd f)"
  shows "\<exists>x c. walk_field r f = Some ((fst f, x), c) \<and> (\<not> c \<longrightarrow> x = snd f \<and> exposed_field f = []) \<and>
     (c \<longrightarrow> set (exposed_field (fst f, x)) \<subseteq> {Value}) \<and> type_of x = type_of (snd f)"
proof -
  obtain fd fv where f: "f = (fd, fv)" by (cases f)
  obtain v' c where r: "r = Some (v', c)" "\<not> c \<longrightarrow> v' = fv \<and> exposed fv = []"
    "c \<longrightarrow> set (exposed v') \<subseteq> {Value}" "is_iface fv \<or> type_of v' = type_of fv"
    using assms(1) f by (auto simp: walk_spec_def)
  obtain x where x: "assign (type_of fv) v' = Some x" "type_of x = type_of fv" "exposed x = exposed v'"
    using assign_masked [OF r(4)] by blast
  consider (hidden) "\<not> fd_Exported fd" | (secret) "fd_Exported fd" "isSecretField fd"
    | (plain) "fd_Exported fd" "\<not> isSecretField fd" by blast
  then show ?thesis
  proof cases
    case hidden
    then show ?thesis by (intro exI [of _ fv] exI [of _ False]) (simp add: f walk_field_def exposed_field_def)
  next
    case secret
    then obtain t where "fv = VStr t" using assms(2) f by (cases fv) auto
    with secret show ?thesis by (auto simp: f walk_field_def exposed_field_def Value_plain)
  next
    case plain
    then show ?thesis using r(1,2,3) x by (cases c) (auto simp: f walk_field_def exposed_field_def)
  qed
qed

lemma all_some_map: "(\<And>x. x \<in> set xs \<Longrightarrow> f x = Some (g x)) \<Longrightarrow> all_some (map f xs) = Some (map g xs)"
  by (auto simp: all_some_def)

lemma set_concat_subset: "(\<And>x. x \<in> set xs \<Longrightarrow> set (f x) \<subseteq> A) \<Longrightarrow> set (concat (map f xs)) \<subseteq> A"
  by auto

lemma walk_tame: "tame v \<Longrightarrow> string_secrets v \<Longrightarrow> walk_spec v (walk v)"
proof (induction v rule: walk.induct)
  case (2 v)
  then show ?case by (auto simp: walk_spec_def)
next
  case (3 fs)
  have "\<exists>x c. walk_field (walk (snd f)) f = Some ((fst f, x), c) \<and> (\<not> c \<longrightarrow> x = snd f \<and> exposed_field f = []) \<and>
     (c \<longrightarrow> set (exposed_field (fst f, x)) \<subseteq> {Value}) \<and> type_of x = type_of (snd f)" if "f \<in> set fs" for f
    using walk_field_spec 3 that by (auto simp: list_all_iff)
  then obtain x c where xc: "\<And>f. f \<in> set fs \<Longrightarrow> walk_field (walk (snd f)) f = Some ((fst f, x f), c f) \<and>
     (\<not> c f \<longrightarrow> x f = snd f \<and> exposed_field f = []) \<and>
     (c f \<longrightarrow> set (exposed_field (fst f, x f)) \<subseteq> {Value}) \<and> type_of (x f) = type_of (snd f)" by metis
  have w: "walk (VStruct fs) = Some (VStruct (map (\<lambda>f. (fst f, x f)) fs), list_ex c fs)"
    using all_some_map [of fs "\<lambda>f. walk_field (walk (snd f)) f" "\<lambda>f. ((fst f, x f), c f)"] xc
    by (simp add: comp_def list_ex_iff)
  have e: "exposed (VStruct gs) = concat (map exposed_field gs)" for gs
    by (simp add: exposed_field_def [abs_def])
  have sub: "set (exposed_field (fst f, x f)) \<subseteq> {Value}" if "f \<in> set fs" for f
    using xc [OF that] by (cases "c f") auto
  have "set (exposed (VStruct (map (\<lambda>f. (fst f, x f)) fs))) \<subseteq> {Value}"
    unfolding e map_map by (rule set_concat_subset) (simp add: sub)
  moreover have "VStruct (map (\<lambda>f. (fst f, x f)) fs) = VStruct fs \<and> exposed (VStruct fs) = []"
    if "\<not> list_ex c fs"
    unfolding e using that xc by (auto simp: list_ex_iff intro!: map_idI)
  moreover have "type_of (VStruct (map (\<lambda>f. (fst f, x f)) fs)) = type_of (VStruct fs)" using xc by simp
  ultimately show ?case unfolding walk_spec_def w by blast
next
  case (4 t ms)
  have "stored_spec (snd m) (walk_elem t (walk (snd m)) (snd m))" if "m \<in> set ms" for m
    using 4 that by (intro walk_elem_spec) (auto simp: list_all_iff)
  then obtain x c where xc: "\<And>m. m \<in> set ms \<Longrightarrow> walk_elem t (walk (snd m)) (snd m) = Some (x m, c m) \<and>
     (\<not> c m \<longrightarrow> x m = snd m \<and> exposed (snd m) = []) \<and> (c m \<longrightarrow> set (exposed (x m)) \<subseteq> {Value})"
    unfolding stored_spec_def by metis
  have "all_some (map (\<lambda>kv. map_option (\<lambda>(x, c). ((fst kv, x), c)) (walk_elem t (walk (snd kv)) (snd kv))) ms) =
      Some (map (\<lambda>m. ((fst m, x m), c m)) ms)" by (rule all_some_map) (use xc in auto)
  then have w: "walk (VMap t ms) = (if list_ex c ms then Some (VMap t (map (\<lambda>m. (fst m, x m)) ms), True)
      else Some (VMap t ms, False))" by (simp add: comp_def list_ex_iff)
  have "set (exposed (x m)) \<subseteq> {Value}" if "m \<in> set ms" for m using xc [OF that] by (cases "c m") auto
  then have "set (exposed (VMap t (map (\<lambda>m. (fst m, x m)) ms))) \<subseteq> {Value}"
    unfolding exposed.simps map_map by (intro set_concat_subset) simp
  moreover have "exposed (VMap t ms) = []" if "\<not> list_ex c ms" using that xc by (auto simp: list_ex_iff)
  ultimately show ?case unfolding walk_spec_def w by (cases "list_ex c ms") (auto simp del: exposed.simps)
next
  case (5 t vs)
  have "stored_spec v (walk_elem t (walk v) v)" if "v \<in> set vs" for v
    using 5 that by (intro walk_elem_spec) (auto simp: list_all_iff)
  then obtain x c where xc: "\<And>v. v \<in> set vs \<Longrightarrow> walk_elem t (walk v) v = Some (x v, c v) \<and>
     (\<not> c v \<longrightarrow> x v = v \<and> exposed v = []) \<and> (c v \<longrightarrow> set (exposed (x v)) \<subseteq> {Value})"
    unfolding stored_spec_def by metis
  have "all_some (map (\<lambda>v. walk_elem t (walk v) v) vs) = Some (map (\<lambda>v. (x v, c v)) vs)"
    by (rule all_some_map) (use xc in auto)
  then have w: "walk (VSlice t vs) = (if list_ex c vs then Some (VSlice t (map x vs), True)
      else Some (VSlice t vs, False))" by (simp add: comp_def list_ex_iff)
  have "set (exposed (x v)) \<subseteq> {Value}" if "v \<in> set vs" for v using xc [OF that] by (cases "c v") auto
  then have "set (exposed (VSlice t (map x vs))) \<subseteq> {Value}"
    unfolding exposed.simps map_map by (intro set_concat_subset) simp
  moreover have "exposed (VSlice t vs) = []" if "\<not> list_ex c vs" using that xc by (auto simp: list_ex_iff)
  ultimately show ?case unfolding walk_spec_def w by (cases "list_ex c vs") (auto simp del: exposed.simps)
qed (auto simp: walk_spec_def)

subsection \<open>Lemmas on placeholders\<close>

text \<open>Values in which the resolver can reach every string: no interface, only exported fields.\<close>

fun reachable_strings :: "govalue \<Rightarrow> bool" where
  "reachable_strings (VStruct fs) = list_all (\<lambda>f. fd_Exported (fst f) \<and> reachable_strings (snd f)) fs"
| "reachable_strings (VPtr v) = reachable_strings v"
| "reachable_strings (VIface v) = False"
| "reachable_strings (VMap t ms) = list_all (\<lambda>kv. reachable_strings (snd kv) \<and>
     (case snd kv of VPtr _ \<Rightarrow> False | VArray _ _ \<Rightarrow> False | _ \<Rightarrow> True)) ms"
| "reachable_strings (VSlice t vs) = list_all reachable_strings vs"
| "reachable_strings (VArray t vs) = list_all reachable_strings vs"
| "reachable_strings v = True"

text \<open>The cluster's secrets are not themselves placeholders.\<close>

definition secrets_literal :: "k8s_client \<Rightarrow> bool" where
  "secrets_literal client = (\<forall>name key v. fetch client name key = Inr v \<longrightarrow> placeholderRe v = None)"

lemma walk_list_ok:
  "walk_list f xs = (ys, None) \<Longrightarrow> list_all2 (\<lambda>x y. f x = (y, None)) xs ys"
proof (induction xs arbitrary: ys)
  case (Cons x xs)
  then show ?case by (auto split: prod.splits option.splits)
qed simp

lemma walk_list_all:
  assumes "walk_list f xs = (ys, None)" "\<And>x y. x \<in> set xs \<Longrightarrow> f x = (y, None) \<Longrightarrow> \<not> P y"
  shows "\<not> list_ex P ys"
proof -
  have "list_all2 (\<lambda>x y. f x = (y, None)) xs ys" by (rule walk_list_ok [OF assms(1)])
  then have "\<exists>x \<in> set xs. f x = (y, None)" if "y \<in> set ys" for y
    using that by (induction rule: list_all2_induct) auto
  then show ?thesis using assms(2) by (auto simp: list_ex_iff)
qed

lemma resolve_string_ok:
  "secrets_literal client \<Longrightarrow> resolve_string client s = (v, None) \<Longrightarrow> placeholderRe v = None"
  by (auto simp: resolve_string_def secrets_literal_def split: option.splits sum.splits prod.splits)

lemma resolve_walk_complete:
  "secrets_literal client \<Longrightarrow> can \<Longrightarrow> reachable_strings v \<Longrightarrow> resolve_walk client can v = (v', None) \<Longrightarrow>
   \<not> ContainsPlaceholder v'"
proof (induction client can v arbitrary: v' rule: resolve_walk.induct)
  case (1 client can s)
  then show ?case using resolve_string_ok by (auto split: prod.splits)
next
  case (2 client can fs)
  let ?f = "\<lambda>ff. if \<not> (can \<and> fd_Exported (fst ff)) then (ff, None)
            else (case resolve_walk client True (snd ff) of (v, e) \<Rightarrow> ((fst ff, v), e))"
  obtain fs' where fs': "walk_list ?f fs = (fs', None)" "v' = VStruct fs'"
    using 2(5) by (auto split: prod.splits)
  have "\<not> list_ex (\<lambda>f. ContainsPlaceholder (snd f)) fs'"
  proof (rule walk_list_all [OF fs'(1)])
    fix x y assume x: "x \<in> set fs" "?f x = (y, None)"
    then have "resolve_walk client True (snd x) = (snd y, None)"
      using 2(3,4) by (auto simp: list_all_iff split: prod.splits if_splits)
    then show "\<not> ContainsPlaceholder (snd y)" using 2(1) [OF x(1)] 2(2,3,4) x(1) by (auto simp: list_all_iff)
  qed
  then show ?case using fs'(2) by simp
next
  case (3 client can v)
  then show ?case by (auto split: prod.splits)
next
  case (5 client can t vs)
  obtain vs' where vs': "walk_list (resolve_walk client True) vs = (vs', None)" "v' = VSlice t vs'"
    using 5(5) by (auto split: prod.splits)
  have "\<not> list_ex ContainsPlaceholder vs'"
    by (rule walk_list_all [OF vs'(1)]) (use 5(1,2,4) in \<open>auto simp: list_all_iff\<close>)
  then show ?case using vs'(2) by simp
next
  case (6 client can t vs)
  obtain vs' where vs': "walk_list (resolve_walk client can) vs = (vs', None)" "v' = VArray t vs'"
    using 6(5) by (auto split: prod.splits)
  have "\<not> list_ex ContainsPlaceholder vs'"
    by (rule walk_list_all [OF vs'(1)]) (use 6(1,2,3,4) in \<open>auto simp: list_all_iff\<close>)
  then show ?case using vs'(2) by simp
next
  case (7 client can t ms)
  let ?f = "\<lambda>kv. let actual = unwrap (snd kv)
      in if is_string actual then
           (case resolve_string client (string_of actual) of (v, e) \<Rightarrow> ((fst kv, rewrap (snd kv) (VStr v)), e))
         else if is_container actual then
           (case resolve_walk client True actual of (v, e) \<Rightarrow> ((fst kv, rewrap (snd kv) v), e))
         else (kv, None)"
  obtain ms' where ms': "walk_list ?f ms = (ms', None)" "v' = VMap t ms'"
    using 7(5) by (auto simp del: Let_def split: prod.splits)
  have "\<not> list_ex (\<lambda>kv. ContainsPlaceholder (snd kv)) ms'"
  proof (rule walk_list_all [OF ms'(1)])
    fix x y assume x: "x \<in> set ms" "?f x = (y, None)"
    have r: "reachable_strings (snd x)" "case snd x of VPtr _ \<Rightarrow> False | VArray _ _ \<Rightarrow> False | _ \<Rightarrow> True"
      using 7(4) x(1) by (auto simp: list_all_iff)
    have u: "unwrap (snd x) = snd x" "rewrap (snd x) z = z" for z using r(1) by (cases "snd x"; simp)+
    consider (str) s where "snd x = VStr s" | (con) "is_container (snd x)" "\<not> is_string (snd x)"
      | (other) "\<not> is_container (snd x)" "\<not> is_string (snd x)" "\<not> ContainsPlaceholder (snd x)"
      using r by (cases "snd x") auto
    then show "\<not> ContainsPlaceholder (snd y)"
    proof cases
      case str
      then show ?thesis using x(2) resolve_string_ok [OF 7(2)] by (auto split: prod.splits)
    next
      case con
      then have "resolve_walk client True (snd x) = (snd y, None)"
        using x(2) by (auto simp: u Let_def split: prod.splits)
      then show ?thesis using 7(1) [OF x(1) refl] con 7(2) r(1) by (simp add: u)
    next
      case other
      then show ?thesis using x(2) by (simp add: u Let_def)
    qed
  qed
  then show ?case using ms'(2) by simp
qed (auto split: prod.splits)

subsection \<open>Properties\<close>

text \<open>C16: a credential declared in a string field never reaches a trace, for well-typed values built of structs,
  maps, slices and interfaces, not themselves of interface kind, in which every exported field that is declared secret is of string kind.
  \<open>Declared\<close> returns, the value it returns has the type it was given, and every exported field
  declared secret holds the marker or nothing, at any depth. Declared fields of another kind, and
  pointers and arrays, are outside the claim: the walk does not mask them.\<close>

theorem Declared_masks:
  assumes "tame v" and "\<not> is_iface v" and "string_secrets v"
  shows "\<exists>v' c. Declared v = Some (v', c) \<and> type_of v' = type_of v \<and> set (exposed v') \<subseteq> {Value} \<and>
     (\<not> c \<longrightarrow> v' = v)"
proof -
  obtain v' c where w: "walk v = Some (v', c)" "\<not> c \<longrightarrow> v' = v \<and> exposed v = []"
    "c \<longrightarrow> set (exposed v') \<subseteq> {Value}" "is_iface v \<or> type_of v' = type_of v"
    using walk_tame [OF assms(1,3)] by (auto simp: walk_spec_def)
  then show ?thesis using assms(2) by (cases c) (auto simp: Declared_def)
qed

definition plain_field :: "string \<Rightarrow> gofield" where
  "plain_field n = \<lparr>fd_Name = n, fd_Exported = True, fd_format = [], fd_secret = [], fd_writeOnly = []\<rparr>"

definition secret_field :: "string \<Rightarrow> gofield" where
  "secret_field n = (plain_field n)\<lparr>fd_format := ''password''\<rparr>"

definition auth_struct :: govalue where
  "auth_struct = VStruct [(secret_field ''Token'', VStr ''s3cr3t'')]"

theorem Declared_masks_witness:
  "\<exists>v' c. Declared (VStruct [(plain_field ''Context'', VIface auth_struct)]) = Some (v', c) \<and>
     type_of v' = type_of (VStruct [(plain_field ''Context'', VIface auth_struct)]) \<and> set (exposed v') \<subseteq> {Value} \<and>
     (\<not> c \<longrightarrow> v' = VStruct [(plain_field ''Context'', VIface auth_struct)])"
  by (rule Declared_masks; code_simp)

text \<open>A declared credential of another kind is never masked: a struct field declared secret that is not
  a string is returned as it is, with every string in it, whether it is an interface, a list or a map.\<close>

lemma Declared_skips_other_kinds:
  assumes "fd_Exported f" "isSecretField f" "\<not> is_string fv"
  shows "Declared (VStruct [(f, fv)]) = Some (VStruct [(f, fv)], False) \<and> exposed (VStruct [(f, fv)]) = strings_in fv"
  using assms by (cases fv) (simp_all add: Declared_def walk_field_def all_some_def)

text \<open>Pointers defeat the masking of declared credentials. A struct that holds a pointer to a
  struct with a declared credential comes back marked as changed and with the credential in clear, and
  a slice of such pointers makes the walk panic, because the masked copy of a pointer is not a pointer
  and cannot be stored in its place.\<close>

theorem Declared_pointer_escape:
  "Declared (VStruct [(plain_field ''Auth'', VPtr auth_struct)]) =
     Some (VStruct [(plain_field ''Auth'', VPtr auth_struct)], True) \<and>
   exposed (VStruct [(plain_field ''Auth'', VPtr auth_struct)]) = [''s3cr3t''] \<and>
   Declared (VSlice (TPtr (type_of auth_struct)) [VPtr auth_struct]) = None"
  by code_simp

text \<open>Resolution is complete for typed settings. For settings without interfaces and with exported
  fields only, a call of \<open>Resolve\<close> that returns no error leaves no placeholder anywhere in them.\<close>

theorem Resolve_complete:
  assumes "secrets_literal client" and "reachable_strings v"
    and "Resolve (Some client) (VPtr v) = (v', None)"
  shows "\<not> ContainsPlaceholder v'"
  using assms resolve_walk_complete [OF assms(1) _ assms(2)]
  by (auto simp: Resolve_def split: prod.splits)

definition sample_client :: k8s_client where
  "sample_client = \<lparr>kc_namespace = ''ns'', kc_get = (\<lambda>ns name. Inr [(''key'', ''value'')])\<rparr>"

lemma sample_client_literal: "secrets_literal sample_client"
proof -
  have "placeholderRe ''value'' = None" by code_simp
  then show ?thesis by (auto simp: secrets_literal_def fetch_def sample_client_def split: if_splits)
qed

theorem Resolve_complete_witness:
  "\<not> ContainsPlaceholder (fst (Resolve (Some sample_client)
     (VPtr (VStruct [(plain_field ''Token'', VStr ''[[secret:cred/key]]'')]))))"
proof -
  let ?r = "Resolve (Some sample_client) (VPtr (VStruct [(plain_field ''Token'', VStr ''[[secret:cred/key]]'')]))"
  have "snd ?r = None" by code_simp
  then have "?r = (fst ?r, None)" by (metis prod.collapse)
  then show ?thesis
    by (rule Resolve_complete [OF sample_client_literal, rotated]) (simp add: plain_field_def)
qed

text \<open>A placeholder inside an untyped list or directly in an untyped field is left in place, with no
  error, because the content of an interface cannot be set; the runner still sees it as a placeholder.\<close>

theorem Resolve_skips_interfaces:
  "Resolve (Some sample_client) (VPtr (VStruct [(plain_field ''Items'', VSlice TIface [VIface (VStr ''[[secret:cred/key]]'')])])) =
     (VPtr (VStruct [(plain_field ''Items'', VSlice TIface [VIface (VStr ''[[secret:cred/key]]'')])]), None) \<and>
   Resolve (Some sample_client) (VPtr (VStruct [(plain_field ''Context'', VIface (VStr ''[[secret:cred/key]]''))])) =
     (VPtr (VStruct [(plain_field ''Context'', VIface (VStr ''[[secret:cred/key]]''))]), None) \<and>
   ContainsPlaceholder (VStruct [(plain_field ''Items'', VSlice TIface [VIface (VStr ''[[secret:cred/key]]'')])])"
  by code_simp

end
