(* ===== verification/Run_Reconciler.thy ===== *)
theory Run_Reconciler
  imports Edge_Dispatch State_Backends
begin

section \<open>The run reconciler\<close>

text \<open>
  \<open>src/internal/scheduler/reconciler.go\<close>: one pass reads the step ledger from the execution bucket,
  computes the frontier of every run, re-publishes the frontier hops of stalled runs and collects
  finished runs. The bucket is the record \<open>kv\<close> over the world, the transport is \<open>h\<close>, the JSON
  library is the pair of \<open>dec\<close> and \<open>enc\<close> on step records, and \<open>now\<close> is the clock in nanoseconds.
  A Go map is a list of pairs whose order stands for the iteration order; it follows the order in which
  the bucket lists its keys, which is arbitrary. The zero \<open>time.Time\<close> of a ledger without records is
  \<open>None\<close>.
\<close>

definition defaultStaleAfter :: int where "defaultStaleAfter = 6 * 60 * 10 ^ 9"
definition defaultGCAfter :: int where "defaultGCAfter = 24 * 60 * 60 * 10 ^ 9"
definition maxRedrives :: int where "maxRedrives = 3"
definition redrivePrefix :: string where "redrivePrefix = ''redrive/''"

record run_ledger =
  rl_records :: "step_record gomap"
  rl_keys :: "string list"
  rl_latest :: "int option"

record rec_codec =
  rc_enc :: "step_record \<Rightarrow> bytes option"
  rc_dec :: "bytes \<Rightarrow> step_record option"

definition empty_ledger :: run_ledger where
  "empty_ledger = \<lparr>rl_records = [], rl_keys = [], rl_latest = None\<rparr>"

definition ledger_of :: "run_ledger gomap \<Rightarrow> string \<Rightarrow> run_ledger" where
  "ledger_of runs runID = (case map_of runs runID of Some l \<Rightarrow> l | None \<Rightarrow> empty_ledger)"

definition since :: "int \<Rightarrow> int option \<Rightarrow> int" where
  "since now latest = (case latest of None \<Rightarrow> max_int64 | Some t \<Rightarrow> now - t)"

definition later :: "int \<Rightarrow> int option \<Rightarrow> int option" where
  "later t latest = (case latest of None \<Rightarrow> Some t | Some u \<Rightarrow> if t > u then Some t else Some u)"

text \<open>What one key of the bucket adds to the ledgers.\<close>

definition read_key :: "'w kv \<Rightarrow> rec_codec \<Rightarrow> 'w \<Rightarrow> string \<Rightarrow> run_ledger gomap \<Rightarrow> run_ledger gomap" where
  "read_key kv cod w k runs =
     (case split_char_n 4 (CHR ''/'') k of
        [p0, runID, p2, stepKey] \<Rightarrow>
          if p0 \<noteq> ''exec'' then runs
          else if p2 = ''redrive'' then
            (let l = ledger_of runs runID in AList.update runID (l\<lparr>rl_keys := rl_keys l @ [k]\<rparr>) runs)
          else if p2 \<noteq> ''step'' then runs
          else (case kv_get kv w k of
                  Inl err \<Rightarrow> runs
                | Inr b \<Rightarrow>
                  (case rc_dec cod b of
                     None \<Rightarrow> runs
                   | Some rec \<Rightarrow>
                     (let l = ledger_of runs runID
                      in AList.update runID
                           (l\<lparr>rl_records := AList.update stepKey rec (rl_records l), rl_keys := rl_keys l @ [k],
                              rl_latest := later (sr_CompletedAt rec) (rl_latest l)\<rparr>) runs)))
      | _ \<Rightarrow> runs)"

definition readLedger :: "'w kv \<Rightarrow> rec_codec \<Rightarrow> 'w \<Rightarrow> go_error + run_ledger gomap" where
  "readLedger kv cod w =
     (case kv_keys kv w of
        Inl ErrNoKeysFound \<Rightarrow> Inr []
      | Inl err \<Rightarrow> Inl (kv_err err)
      | Inr keys \<Rightarrow> Inr (fold (read_key kv cod w) keys []))"

definition frontierOf :: "run_ledger \<Rightarrow> emit_record list" where
  "frontierOf l =
     concat (map (\<lambda>r. filter (\<lambda>e. map_of (rl_records l) (er_StepKey e) = None) (sr_Emits (snd r))) (rl_records l))"

definition redriveKey :: "string \<Rightarrow> string \<Rightarrow> string" where
  "redriveKey runID stepKey = ''exec/'' @ runID @ ''/'' @ redrivePrefix @ stepKey"

definition redriveAttempts :: "'w kv \<Rightarrow> 'w \<Rightarrow> string \<Rightarrow> string \<Rightarrow> int" where
  "redriveAttempts kv w runID stepKey =
     (case kv_get kv w (redriveKey runID stepKey) of
        Inl err \<Rightarrow> 0
      | Inr b \<Rightarrow> (case atoi b of (n, ok) \<Rightarrow> if ok then n else 0))"

definition recordRedrive :: "'w kv \<Rightarrow> 'w \<Rightarrow> string \<Rightarrow> string \<Rightarrow> int \<Rightarrow> 'w" where
  "recordRedrive kv w runID stepKey attempts = fst (kv_put kv w (redriveKey runID stepKey) (itoa attempts))"

definition failed_record :: "int \<Rightarrow> emit_record \<Rightarrow> int \<Rightarrow> step_record" where
  "failed_record now hop attempts =
     \<lparr>sr_Node = er_To hop, sr_Status = StepFailed,
      sr_Error = ''re-drive limit reached after '' @ itoa attempts @ '' attempts ''
        @ [CHR 0xE2, CHR 0x80, CHR 0x94]
        @ '' hop never completed (is the target module on an SDK >= v0.11 with durable support?)'',
      sr_Emits = [], sr_StartedAt = 0, sr_CompletedAt = now, sr_DurationMs = 0\<rparr>"

definition failStep :: "'w kv \<Rightarrow> rec_codec \<Rightarrow> int \<Rightarrow> 'w \<Rightarrow> string \<Rightarrow> emit_record \<Rightarrow> int \<Rightarrow> 'w" where
  "failStep kv cod now w runID hop attempts =
     (case rc_enc cod (failed_record now hop attempts) of
        None \<Rightarrow> w
      | Some b \<Rightarrow> fst (kv_put kv w (''exec/'' @ runID @ ''/step/'' @ er_StepKey hop) b))"

definition redrive_msg :: "string \<Rightarrow> emit_record \<Rightarrow> 'v msg" where
  "redrive_msg runID hop =
     \<lparr>msg_EdgeID = er_EdgeID hop, msg_From = er_From hop, msg_To = er_To hop, msg_Data = er_Data hop,
      msg_Depth = 0, msg_Mode = [], msg_RunID = runID, msg_StepKey = er_StepKey hop,
      msg_ReplySubject = er_ReplySubject hop, msg_ReplyTarget = er_ReplyTarget hop,
      msg_ReplyDeadline = er_ReplyDeadline hop, msg_Resp = None\<rparr>"

text \<open>One frontier hop of a stalled run: the world after it and whether it was re-driven.\<close>

definition redrive_hop ::
  "('w, 'v) handler \<Rightarrow> 'w kv \<Rightarrow> rec_codec \<Rightarrow> int \<Rightarrow> string \<Rightarrow> emit_record \<Rightarrow> 'w \<Rightarrow> 'w \<times> bool" where
  "redrive_hop h kv cod now runID hop w =
     (let attempts = redriveAttempts kv w runID (er_StepKey hop)
      in if attempts \<ge> maxRedrives then (failStep kv cod now w runID hop attempts, False)
         else (case h w (redrive_msg runID hop) of
                 (w1, _, Some err) \<Rightarrow> (w1, False)
               | (w1, _, None) \<Rightarrow> (recordRedrive kv w1 runID (er_StepKey hop) (attempts + 1), True)))"

fun redrive_hops ::
  "('w, 'v) handler \<Rightarrow> 'w kv \<Rightarrow> rec_codec \<Rightarrow> int \<Rightarrow> string \<Rightarrow> emit_record list \<Rightarrow> 'w \<Rightarrow> 'w \<times> emit_record list" where
  "redrive_hops h kv cod now runID [] w = (w, [])"
| "redrive_hops h kv cod now runID (hop # hops) w =
     (let (w1, sent) = redrive_hop h kv cod now runID hop w;
          (w2, redriven) = redrive_hops h kv cod now runID hops w1
      in (w2, if sent then hop # redriven else redriven))"

definition reconcile_run ::
  "('w, 'v) handler \<Rightarrow> 'w kv \<Rightarrow> rec_codec \<Rightarrow> int \<Rightarrow> int \<Rightarrow> int \<Rightarrow> string \<times> run_ledger \<Rightarrow> 'w \<Rightarrow> 'w \<times> emit_record list" where
  "reconcile_run h kv cod now staleAfter gcAfter rl w =
     (case rl of (runID, l) \<Rightarrow>
        (let frontier = frontierOf l
         in if frontier = [] then
              (if since now (rl_latest l) > gcAfter then (fold (\<lambda>k w. fst (kv_delete kv w k)) (rl_keys l) w, [])
               else (w, []))
            else if since now (rl_latest l) < staleAfter then (w, [])
            else redrive_hops h kv cod now runID frontier w))"

fun reconcile_all ::
  "('w, 'v) handler \<Rightarrow> 'w kv \<Rightarrow> rec_codec \<Rightarrow> int \<Rightarrow> int \<Rightarrow> int \<Rightarrow> run_ledger gomap \<Rightarrow> 'w \<Rightarrow> 'w \<times> emit_record list" where
  "reconcile_all h kv cod now staleAfter gcAfter [] w = (w, [])"
| "reconcile_all h kv cod now staleAfter gcAfter (rl # rls) w =
     (let (w1, a) = reconcile_run h kv cod now staleAfter gcAfter rl w;
          (w2, b) = reconcile_all h kv cod now staleAfter gcAfter rls w1
      in (w2, a @ b))"

text \<open>A pass; a configured duration of zero stands for the default.\<close>

definition reconcileRuns ::
  "('w, 'v) handler \<Rightarrow> 'w kv \<Rightarrow> rec_codec \<Rightarrow> int \<Rightarrow> int \<Rightarrow> int \<Rightarrow> 'w \<Rightarrow> 'w \<times> (go_error + emit_record list)" where
  "reconcileRuns h kv cod now stale gc w =
     (case readLedger kv cod w of
        Inl err \<Rightarrow> (w, Inl err)
      | Inr runs \<Rightarrow>
        (let (w', redriven) = reconcile_all h kv cod now
               (if stale = 0 then defaultStaleAfter else stale) (if gc = 0 then defaultGCAfter else gc) runs w
         in (w', Inr redriven)))"

subsection \<open>Lemmas\<close>

lemma step_parts:
  assumes "CHR ''/'' \<notin> set r" "CHR ''/'' \<notin> set p"
  shows "split_char_n 4 (CHR ''/'') (''exec/'' @ r @ ''/'' @ p @ ''/'' @ k) = [''exec'', r, p, k]"
proof -
  have "split_char_n (Suc (Suc (Suc (Suc 0)))) (CHR ''/'') (''exec'' @ CHR ''/'' # r @ CHR ''/'' # p @ CHR ''/'' # k) =
      [''exec'', r, p, k]"
    by (subst split_char_n_step; (subst split_char_n_step)?; (subst split_char_n_step)?) (simp_all add: assms)
  then show ?thesis by (simp add: numeral_eq_Suc)
qed

lemma max_redrives_small: "n \<le> maxRedrives \<Longrightarrow> 0 \<le> n \<Longrightarrow> atoi (itoa n) = (n, True)"
  by (rule atoi_itoa) (simp_all add: maxRedrives_def max_int64_def)

text \<open>The key of a step record, and the record stored under it.\<close>

definition step_store_key :: "string \<Rightarrow> string \<Rightarrow> string" where
  "step_store_key r k = ''exec/'' @ r @ ''/step/'' @ k"

definition stored_record :: "'w kv \<Rightarrow> rec_codec \<Rightarrow> 'w \<Rightarrow> string list \<Rightarrow> string \<Rightarrow> string \<Rightarrow> step_record option" where
  "stored_record kv cod w keys r k =
     (if step_store_key r k \<in> set keys
      then (case kv_get kv w (step_store_key r k) of Inr b \<Rightarrow> rc_dec cod b | Inl _ \<Rightarrow> None) else None)"

lemma cut_at:
  assumes "d \<in> set s"
  shows "s = takeWhile (\<lambda>c. c \<noteq> d) s @ d # tl (dropWhile (\<lambda>c. c \<noteq> d) s)" "d \<notin> set (takeWhile (\<lambda>c. c \<noteq> d) s)"
proof -
  have ne: "dropWhile (\<lambda>c. c \<noteq> d) s \<noteq> []" using assms by auto
  moreover have "hd (dropWhile (\<lambda>c. c \<noteq> d) s) = d" using hd_dropWhile [OF ne] by simp
  ultimately show "s = takeWhile (\<lambda>c. c \<noteq> d) s @ d # tl (dropWhile (\<lambda>c. c \<noteq> d) s)"
    by (metis list.collapse takeWhile_dropWhile_id)
  show "d \<notin> set (takeWhile (\<lambda>c. c \<noteq> d) s)" by (auto dest: set_takeWhileD)
qed

lemma split_char_n_ConsD:
  "split_char_n (Suc (Suc n)) d s = a # b # rest \<Longrightarrow>
   \<exists>t. s = a @ d # t \<and> d \<notin> set a \<and> split_char_n (Suc n) d t = b # rest"
  using cut_at [of d s] by (auto split: if_splits)

lemma split_four:
  assumes "split_char_n 4 d s = [a, b, c, e]"
  shows "s = a @ d # b @ d # c @ d # e \<and> d \<notin> set b"
proof -
  have "split_char_n (Suc (Suc (Suc (Suc 0)))) d s = [a, b, c, e]" using assms by (simp add: numeral_eq_Suc)
  from split_char_n_ConsD [OF this] obtain t where t: "s = a @ d # t" "split_char_n (Suc (Suc (Suc 0))) d t = [b, c, e]"
    by blast
  from split_char_n_ConsD [OF t(2)] obtain u where u: "t = b @ d # u" "d \<notin> set b"
    "split_char_n (Suc (Suc 0)) d u = [c, e]" by blast
  from split_char_n_ConsD [OF u(3)] obtain v where "u = c @ d # v" "split_char_n (Suc 0) d v = [e]" by blast
  then show ?thesis using t u by simp
qed

definition distinct_records :: "run_ledger gomap \<Rightarrow> bool" where
  "distinct_records runs = (\<forall>r. distinct (map fst (rl_records (ledger_of runs r))))"

lemma ledger_of_update: "ledger_of (AList.update r l runs) r' = (if r' = r then l else ledger_of runs r')"
  by (simp add: ledger_of_def update_conv')

lemma read_key_records:
  assumes r: "CHR ''/'' \<notin> set r"
  shows "map_of (rl_records (ledger_of (read_key kv cod w key runs) r)) k =
    (if key = step_store_key r k \<and> stored_record kv cod w [key] r k \<noteq> None then stored_record kv cod w [key] r k
     else map_of (rl_records (ledger_of runs r)) k)"
proof (cases "\<exists>r' k'. split_char_n 4 (CHR ''/'') key = [''exec'', r', ''step'', k']")
  case True
  then obtain r' k' where sp: "split_char_n 4 (CHR ''/'') key = [''exec'', r', ''step'', k']" by blast
  then have key: "key = step_store_key r' k'" "CHR ''/'' \<notin> set r'"
    using split_four [OF sp] by (simp_all add: step_store_key_def)
  have eq: "key = step_store_key r k \<longleftrightarrow> r' = r \<and> k' = k"
  proof
    assume "key = step_store_key r k"
    then have "split_char_n 4 (CHR ''/'') key = [''exec'', r, ''step'', k]"
      using step_parts [OF r, of "''step''" k] by (simp add: step_store_key_def)
    then show "r' = r \<and> k' = k" using sp by simp
  qed (simp add: key(1))
  show ?thesis
    by (simp add: read_key_def sp stored_record_def eq Let_def ledger_of_update update_conv' split: sum.split option.split)
      (auto simp: key(1))
next
  case False
  have "key \<noteq> step_store_key r k"
  proof
    assume "key = step_store_key r k"
    then have "split_char_n 4 (CHR ''/'') key = [''exec'', r, ''step'', k]"
      using step_parts [OF r, of "''step''" k] by (simp add: step_store_key_def)
    then show False using False by blast
  qed
  moreover have "rl_records (ledger_of (read_key kv cod w key runs) r) = rl_records (ledger_of runs r)"
    using False by (auto simp: read_key_def Let_def ledger_of_update split: list.split)
  ultimately show ?thesis by simp
qed

lemma read_key_distinct: "distinct_records runs \<Longrightarrow> distinct_records (read_key kv cod w key runs)"
  by (auto simp: distinct_records_def read_key_def Let_def ledger_of_update distinct_update
      split: list.split sum.split option.split)

lemma fold_read_key:
  assumes "CHR ''/'' \<notin> set r"
  shows "map_of (rl_records (ledger_of (fold (read_key kv cod w) keys runs) r)) k =
    (case stored_record kv cod w keys r k of Some rec \<Rightarrow> Some rec | None \<Rightarrow> map_of (rl_records (ledger_of runs r)) k)"
proof (induction keys arbitrary: runs)
  case (Cons key keys)
  show ?case
    using read_key_records [OF assms, of kv cod w key runs k]
    by (auto simp: Cons stored_record_def split: option.split)
qed (simp add: stored_record_def)

lemma fold_read_key_distinct: "distinct_records runs \<Longrightarrow> distinct_records (fold (read_key kv cod w) keys runs)"
  by (induction keys arbitrary: runs) (auto intro: read_key_distinct)

text \<open>The state of a hop that never completes, after \<open>n\<close> passes: \<open>min n 3\<close> messages sent, as many counted.\<close>

definition redrive_state ::
  "'w kv \<Rightarrow> rec_codec \<Rightarrow> int \<Rightarrow> string \<Rightarrow> emit_record \<Rightarrow> nat \<Rightarrow> ('v msg \<times> go_error option) list \<times> 'w \<Rightarrow> bool" where
  "redrive_state kv cod now r hop n s =
     (fst s = replicate (min n 3) (redrive_msg r hop, None) \<and>
      redriveAttempts kv (snd s) r (er_StepKey hop) = int (min n 3) \<and>
      (4 \<le> n \<longrightarrow> Some (kv_get kv (snd s) (step_store_key r (er_StepKey hop))) =
         map_option Inr (rc_enc cod (failed_record now hop 3))))"

text \<open>A transport that accepts every message and leaves the bucket alone.\<close>

definition bucket_apart :: "('w, 'v) handler \<Rightarrow> 'w kv \<Rightarrow> bool" where
  "bucket_apart h kv = (\<forall>w m k. snd (snd (h w m)) = None \<and> kv_get kv (fst (h w m)) k = kv_get kv w k)"

lemma keys_differ: "redriveKey r k \<noteq> step_store_key r k"
  by (simp add: redriveKey_def step_store_key_def redrivePrefix_def)

lemma redrive_state_step:
  assumes "kv_stores kv" "bucket_apart h kv" "rc_enc cod (failed_record now hop 3) = Some b"
    and inv: "redrive_state kv cod now r hop n s"
  shows "redrive_state kv cod now r hop (Suc n)
    (fst (redrive_hop (observed h) (unobserved_kv kv) cod now r hop s))"
proof -
  obtain log w where s: "s = (log, w)" by (cases s)
  note law = kv_lawfulD [OF conjunct1 [OF assms(1) [unfolded kv_stores_def]]]
  have put: "kv_put kv u key v = (fst (kv_put kv u key v), None)" for u key v
    using assms(1) by (simp add: kv_stores_def prod_eq_iff)
  let ?m = "redrive_msg r hop"
  have att: "redriveAttempts (unobserved_kv kv) s r (er_StepKey hop) = int (min n 3)"
    using inv by (simp add: redrive_state_def redriveAttempts_def unobserved_kv_def)
  show ?thesis
  proof (cases "3 \<le> n")
    case True
    let ?w1 = "fst (kv_put kv w (step_store_key r (er_StepKey hop)) b)"
    have "fst (redrive_hop (observed h) (unobserved_kv kv) cod now r hop s) = (log, ?w1)"
      using att True assms(3)
      by (simp add: redrive_hop_def maxRedrives_def failStep_def unobserved_kv_def s step_store_key_def)
    moreover have "kv_get kv ?w1 (redriveKey r (er_StepKey hop)) = kv_get kv w (redriveKey r (er_StepKey hop))"
      by (rule law(2) [OF put keys_differ])
    moreover have "kv_get kv ?w1 (step_store_key r (er_StepKey hop)) = Inr b" by (rule law(1) [OF put])
    ultimately show ?thesis using inv True assms(3)
      by (simp add: redrive_state_def redriveAttempts_def s)
  next
    case False
    then have mn: "min n 3 = n" "min (Suc n) 3 = Suc n" by simp_all
    let ?w0 = "fst (h w ?m)"
    let ?w1 = "fst (kv_put kv ?w0 (redriveKey r (er_StepKey hop)) (itoa (int n + 1)))"
    have ok: "snd (snd (h w ?m)) = None" using assms(2) by (simp add: bucket_apart_def)
    have "fst (redrive_hop (observed h) (unobserved_kv kv) cod now r hop s) = (log @ [(?m, None)], ?w1)"
      using att False ok mn
      by (cases "h w ?m") (simp add: redrive_hop_def maxRedrives_def recordRedrive_def unobserved_kv_def observed_def s)
    moreover have "kv_get kv ?w1 (redriveKey r (er_StepKey hop)) = Inr (itoa (int n + 1))" by (rule law(1) [OF put])
    moreover have "atoi (itoa (int n + 1)) = (int n + 1, True)"
      using False by (intro max_redrives_small) (simp_all add: maxRedrives_def)
    ultimately show ?thesis using inv False mn
      by (simp add: redrive_state_def redriveAttempts_def s replicate_append_same del: replicate_Suc)
        (simp add: replicate_append_same)
  qed
qed

subsection \<open>Properties\<close>

text \<open>C4: the frontier is exactly the outstanding work the ledger shows. For a run identifier without a
  slash, the hops that a pass considers are those that some readable record of the run lists among its
  emits and for which no readable record is stored under the hop's own step key.\<close>

theorem frontier_outstanding:
  assumes "CHR ''/'' \<notin> set r" and "kv_keys kv w = Inr keys" and "readLedger kv cod w = Inr runs"
  shows "set (frontierOf (ledger_of runs r)) =
     {e. \<exists>k rec. stored_record kv cod w keys r k = Some rec \<and> e \<in> set (sr_Emits rec) \<and>
        stored_record kv cod w keys r (er_StepKey e) = None}"
proof -
  have runs: "runs = fold (read_key kv cod w) keys []" using assms(2,3) by (simp add: readLedger_def)
  have look: "map_of (rl_records (ledger_of runs r)) k = stored_record kv cod w keys r k" for k
    unfolding runs fold_read_key [OF assms(1)] by (simp add: ledger_of_def empty_ledger_def split: option.split)
  have "distinct_records runs"
    unfolding runs by (rule fold_read_key_distinct) (simp add: distinct_records_def ledger_of_def empty_ledger_def)
  then have "distinct (map fst (rl_records (ledger_of runs r)))" by (simp add: distinct_records_def)
  then have "(k, rec) \<in> set (rl_records (ledger_of runs r)) \<longleftrightarrow> stored_record kv cod w keys r k = Some rec" for k rec
    by (metis look map_of_eq_Some_iff)
  then show ?thesis by (force simp: frontierOf_def look)
qed

text \<open>C5: a hop that never completes is re-driven three times and then fails. Over a bucket that stores what
  it is given and a transport that accepts every message, \<open>n\<close> passes over such a hop send exactly \<open>min n 3\<close>
  messages, all of them the same message with the hop's own step key; from the fourth pass on a failed
  record is stored under that step key, so the hop has left the frontier.\<close>

theorem redrive_bounded:
  assumes "kv_stores kv" and "bucket_apart h kv" and "rc_enc cod (failed_record now hop 3) = Some b"
    and "kv_get kv w (redriveKey r (er_StepKey hop)) = Inl ErrKeyNotFound"
  shows "redrive_state kv cod now r hop n
    (((\<lambda>s. fst (redrive_hop (observed h) (unobserved_kv kv) cod now r hop s)) ^^ n) ([], w))"
proof (induction n)
  case 0
  then show ?case by (simp add: redrive_state_def redriveAttempts_def assms(4))
next
  case (Suc n)
  then show ?case using redrive_state_step [OF assms(1-3) Suc] by simp
qed

definition sample_emit :: emit_record where
  "sample_emit = \<lparr>er_To = ''x:in'', er_From = ''n:out'', er_EdgeID = ''e1'', er_StepKey = ''r1.k'', er_Data = ''{}'',
     er_ReplySubject = [], er_ReplyTarget = [], er_ReplyDeadline = 0\<rparr>"

definition sample_rec :: step_record where
  "sample_rec = \<lparr>sr_Node = ''n'', sr_Status = StepDone, sr_Error = [], sr_Emits = [sample_emit], sr_StartedAt = 0,
     sr_CompletedAt = 1, sr_DurationMs = 0\<rparr>"

definition sample_rec_codec :: rec_codec where
  "sample_rec_codec = \<lparr>rc_enc = (\<lambda>r. Some ''rec''), rc_dec = (\<lambda>b. Some sample_rec)\<rparr>"

definition deaf_handler :: "(bytes gomap, string) handler" where
  "deaf_handler w m = (w, ANil, None)"

theorem frontier_outstanding_witness:
  "set (frontierOf (ledger_of (fold (read_key mem_kv sample_rec_codec [(''exec/r1/step/r1.root'', ''rec'')])
      [''exec/r1/step/r1.root''] []) ''r1'')) =
   {e. \<exists>k rec. stored_record mem_kv sample_rec_codec [(''exec/r1/step/r1.root'', ''rec'')] [''exec/r1/step/r1.root''] ''r1'' k
      = Some rec \<and> e \<in> set (sr_Emits rec) \<and>
      stored_record mem_kv sample_rec_codec [(''exec/r1/step/r1.root'', ''rec'')] [''exec/r1/step/r1.root''] ''r1''
        (er_StepKey e) = None}"
  by (rule frontier_outstanding) (simp_all add: mem_kv_def readLedger_def)

theorem redrive_bounded_witness:
  "redrive_state mem_kv sample_rec_codec 0 ''r1'' sample_emit 5
    (((\<lambda>s. fst (redrive_hop (observed deaf_handler) (unobserved_kv mem_kv) sample_rec_codec 0 ''r1'' sample_emit s)) ^^ 5)
      ([], []))"
  by (rule redrive_bounded [OF mem_kv_stores])
    (simp_all add: bucket_apart_def deaf_handler_def sample_rec_codec_def mem_kv_def)

end
