(* ===== verification/Receiver_Supervisor.thy ===== *)
theory Receiver_Supervisor
  imports Wire_Transport
begin

section \<open>Receivers and their supervision\<close>

text \<open>
  \<open>src/internal/transport/jetstream.go\<close>: the streams, the consumer configurations of the two receivers, and the loop
  that keeps a consumer alive across restarts of the broker. \<open>src/internal/transport/nats.go\<close>: the subscriptions
  of the core wire.

  The broker library and the clock are the record \<open>supervised\<close>, over a world of any type: what \<open>select\<close> wakes up
  to, and whether a wait is cut short, is read off the world. The loop is a step function over its program
  points. \<open>sv_open\<close> lists the consumers that were started and not stopped; the code does not have it.
\<close>

datatype retention = LimitsPolicy | WorkQueuePolicy
datatype deliver_policy = DeliverAllPolicy | DeliverNewPolicy

record stream_config =
  str_Name :: string
  str_Subjects :: "string list"
  str_Retention :: retention
  str_MaxAge :: int
  str_Duplicates :: int

record consumer_config =
  cc_Durable :: string
  cc_FilterSubject :: string
  cc_DeliverPolicy :: deliver_policy
  cc_AckWait :: int
  cc_MaxDeliver :: nat
  cc_InactiveThreshold :: int

definition Second :: int where "Second = 1000000000"

definition EdgeStreamName :: string where "EdgeStreamName = ''module-edges''"
definition EdgeStreamSubjects :: string where "EdgeStreamSubjects = ''tinymodule.*.msg''"
definition SysStreamName :: string where "SysStreamName = ''module-sysmsgs''"
definition SysStreamSubjects :: string where "SysStreamSubjects = ''tinymodule.*.sysmsg''"
definition sysStreamMaxAge :: int where "sysStreamMaxAge = 3600 * Second"
definition sysConsumerInactiveThreshold :: int where "sysConsumerInactiveThreshold = 300 * Second"
definition edgeAckWait :: int where "edgeAckWait = 30 * Second"

definition edge_stream :: stream_config where
  "edge_stream =
     \<lparr>str_Name = EdgeStreamName, str_Subjects = [EdgeStreamSubjects], str_Retention = WorkQueuePolicy,
      str_MaxAge = 3600 * Second, str_Duplicates = 120 * Second\<rparr>"

definition sysmsg_stream :: stream_config where
  "sysmsg_stream =
     \<lparr>str_Name = SysStreamName, str_Subjects = [SysStreamSubjects], str_Retention = LimitsPolicy,
      str_MaxAge = sysStreamMaxAge, str_Duplicates = 120 * Second\<rparr>"

datatype wake = CtxDone | ConsumeError go_error | Tick

record ('w, 'k, 'c) supervised =
  su_CreateOrUpdateStream :: "'w \<Rightarrow> stream_config \<Rightarrow> 'w \<times> go_error option"
  su_CreateOrUpdateConsumer :: "'w \<Rightarrow> string \<Rightarrow> consumer_config \<Rightarrow> 'w \<times> (go_error + 'k)"
  su_Consume :: "'w \<Rightarrow> 'k \<Rightarrow> 'w \<times> (go_error + 'c)"
  su_Stop :: "'w \<Rightarrow> 'c \<Rightarrow> 'w"
  su_Consumer :: "'w \<Rightarrow> string \<Rightarrow> string \<Rightarrow> 'w \<times> go_error option"
  su_gone :: "go_error list"
  su_ctxDone :: "'w \<Rightarrow> bool"
  su_sleep :: "'w \<Rightarrow> 'w \<times> bool"
  su_select :: "'w \<Rightarrow> 'w \<times> wake"

definition EnsureEdgeStream :: "('w, 'k, 'c) supervised \<Rightarrow> 'w \<Rightarrow> 'w \<times> go_error option" where
  "EnsureEdgeStream J w =
     (case su_CreateOrUpdateStream J w edge_stream of
        (w', Some err) \<Rightarrow> (w', Some (WrapError ''ensure edge stream: '' err)) | (w', None) \<Rightarrow> (w', None))"

definition EnsureSysmsgStream :: "('w, 'k, 'c) supervised \<Rightarrow> 'w \<Rightarrow> 'w \<times> go_error option" where
  "EnsureSysmsgStream J w =
     (case su_CreateOrUpdateStream J w sysmsg_stream of
        (w', Some err) \<Rightarrow> (w', Some (WrapError ''ensure sysmsg stream: '' err)) | (w', None) \<Rightarrow> (w', None))"

text \<open>\<open>errors.Is\<close> against the sentinels of the library for a missing consumer, a missing stream and a deleted consumer.\<close>

definition isConsumerGone :: "go_error list \<Rightarrow> go_error option \<Rightarrow> bool" where
  "isConsumerGone sentinels err =
     (case err of None \<Rightarrow> False | Some e \<Rightarrow> list_ex (\<lambda>x. x \<in> set sentinels) (err_chain e))"

datatype 'c sup_loc = AtTop | Watching 'c | Backoff | Returned

record ('w, 'c) sup =
  sv_loc :: "'c sup_loc"
  sv_world :: 'w
  sv_open :: "'c list"

definition connect ::
  "('w, 'k, 'c) supervised \<Rightarrow> string \<Rightarrow> ('w \<Rightarrow> 'w \<times> go_error option) \<Rightarrow> consumer_config \<Rightarrow> 'w \<Rightarrow> 'w \<times> 'c option" where
  "connect J streamName ensureStream cfg w =
     (case ensureStream w of
        (w1, Some _) \<Rightarrow> (w1, None)
      | (w1, None) \<Rightarrow>
        (case su_CreateOrUpdateConsumer J w1 streamName cfg of
           (w2, Inl _) \<Rightarrow> (w2, None)
         | (w2, Inr consumer) \<Rightarrow>
           (case su_Consume J w2 consumer of (w3, Inl _) \<Rightarrow> (w3, None) | (w3, Inr cc) \<Rightarrow> (w3, Some cc))))"

definition stop_consumer :: "('w, 'k, 'c) supervised \<Rightarrow> 'c \<Rightarrow> 'c sup_loc \<Rightarrow> 'w \<Rightarrow> ('w, 'c) sup \<Rightarrow> ('w, 'c) sup" where
  "stop_consumer J cc loc w s = s\<lparr>sv_loc := loc, sv_world := su_Stop J w cc, sv_open := remove1 cc (sv_open s)\<rparr>"

definition superviseConsumer ::
  "('w, 'k, 'c) supervised \<Rightarrow> string \<Rightarrow> ('w \<Rightarrow> 'w \<times> go_error option) \<Rightarrow> consumer_config \<Rightarrow> ('w, 'c) sup \<Rightarrow> ('w, 'c) sup" where
  "superviseConsumer J streamName ensureStream cfg s =
     (case sv_loc s of
        AtTop \<Rightarrow>
          if su_ctxDone J (sv_world s) then s\<lparr>sv_loc := Returned\<rparr>
          else (case connect J streamName ensureStream cfg (sv_world s) of
                  (w, None) \<Rightarrow> s\<lparr>sv_loc := Backoff, sv_world := w\<rparr>
                | (w, Some cc) \<Rightarrow> s\<lparr>sv_loc := Watching cc, sv_world := w, sv_open := cc # sv_open s\<rparr>)
      | Watching cc \<Rightarrow>
          (case su_select J (sv_world s) of
             (w, CtxDone) \<Rightarrow> stop_consumer J cc Returned w s
           | (w, ConsumeError err) \<Rightarrow>
               if isConsumerGone (su_gone J) (Some err) then stop_consumer J cc Backoff w s else s\<lparr>sv_world := w\<rparr>
           | (w, Tick) \<Rightarrow>
               (case su_Consumer J w streamName (cc_Durable cfg) of
                  (w', err) \<Rightarrow>
                    if isConsumerGone (su_gone J) err then stop_consumer J cc Backoff w' s else s\<lparr>sv_world := w'\<rparr>))
      | Backoff \<Rightarrow>
          (case su_sleep J (sv_world s) of (w, elapsed) \<Rightarrow> s\<lparr>sv_loc := (if elapsed then AtTop else Returned), sv_world := w\<rparr>)
      | Returned \<Rightarrow> s)"

text \<open>The receivers: the stream, its creation and the consumer each one supervises.\<close>

definition receiver_config :: "string \<Rightarrow> consumer_config" where
  "receiver_config moduleName =
     \<lparr>cc_Durable = moduleName, cc_FilterSubject = SubjectFor moduleName, cc_DeliverPolicy = DeliverAllPolicy,
      cc_AckWait = edgeAckWait, cc_MaxDeliver = edgeMaxDeliver, cc_InactiveThreshold = 0\<rparr>"

definition sysport_config :: "string \<Rightarrow> string \<Rightarrow> consumer_config" where
  "sysport_config moduleName podName =
     \<lparr>cc_Durable = moduleName @ ''-sys-'' @ podName, cc_FilterSubject = SubjectForSystem moduleName,
      cc_DeliverPolicy = DeliverNewPolicy, cc_AckWait = edgeAckWait, cc_MaxDeliver = edgeMaxDeliver,
      cc_InactiveThreshold = sysConsumerInactiveThreshold\<rparr>"

definition JetStream_StartReceiver :: "('w, 'k, 'c) supervised \<Rightarrow> string \<Rightarrow> nat \<Rightarrow> 'w \<Rightarrow> ('w, 'c) sup" where
  "JetStream_StartReceiver J moduleName n w =
     (superviseConsumer J EdgeStreamName (EnsureEdgeStream J) (receiver_config moduleName) ^^ n)
       \<lparr>sv_loc = AtTop, sv_world = w, sv_open = []\<rparr>"

definition JetStream_StartSystemPortReceiver ::
  "('w, 'k, 'c) supervised \<Rightarrow> string \<Rightarrow> string \<Rightarrow> nat \<Rightarrow> 'w \<Rightarrow> go_error + ('w, 'c) sup" where
  "JetStream_StartSystemPortReceiver J moduleName podName n w =
     (if podName = [] then Inl (ErrNew ''podName is required for fan-out consumer naming'')
      else Inr ((superviseConsumer J SysStreamName (EnsureSysmsgStream J) (sysport_config moduleName podName) ^^ n)
             \<lparr>sv_loc = AtTop, sv_world = w, sv_open = []\<rparr>))"

text \<open>The core wire subscribes once and drains the subscription when its context ends.\<close>

record ('w, 'c) core_subs =
  cs_QueueSubscribe :: "'w \<Rightarrow> string \<Rightarrow> string \<Rightarrow> 'w \<times> (go_error + 'c)"
  cs_Subscribe :: "'w \<Rightarrow> string \<Rightarrow> 'w \<times> (go_error + 'c)"
  cs_waitDone :: "'w \<Rightarrow> 'w"
  cs_Drain :: "'w \<Rightarrow> 'c \<Rightarrow> 'w \<times> go_error option"

definition receive_until_done :: "('w, 'c) core_subs \<Rightarrow> string \<Rightarrow> 'w \<times> (go_error + 'c) \<Rightarrow> 'w \<times> go_error option" where
  "receive_until_done S subject r =
     (case r of
        (w, Inl err) \<Rightarrow> (w, Some (WrapError (''subscribe '' @ subject @ '': '') err))
      | (w, Inr sub) \<Rightarrow> (fst (cs_Drain S (cs_waitDone S w) sub), None))"

definition NATS_StartReceiver :: "('w, 'c) core_subs \<Rightarrow> string \<Rightarrow> 'w \<Rightarrow> 'w \<times> go_error option" where
  "NATS_StartReceiver S moduleName w =
     receive_until_done S (SubjectFor moduleName) (cs_QueueSubscribe S w (SubjectFor moduleName) moduleName)"

definition NATS_StartSystemPortReceiver :: "('w, 'c) core_subs \<Rightarrow> string \<Rightarrow> string \<Rightarrow> 'w \<Rightarrow> 'w \<times> go_error option" where
  "NATS_StartSystemPortReceiver S moduleName podName w =
     receive_until_done S (SubjectForSystem moduleName) (cs_Subscribe S w (SubjectForSystem moduleName))"

subsection \<open>Properties\<close>

definition sup_inv :: "('w, 'c) sup \<Rightarrow> bool" where
  "sup_inv s = (sv_open s = (case sv_loc s of Watching cc \<Rightarrow> [cc] | _ \<Rightarrow> []))"

lemma superviseConsumer_inv: "sup_inv s \<Longrightarrow> sup_inv (superviseConsumer J streamName ens cfg s)"
  by (cases "sv_loc s")
    (auto simp: sup_inv_def superviseConsumer_def stop_consumer_def split: prod.split option.split wake.split)

lemma superviseConsumer_pow_inv: "sup_inv s \<Longrightarrow> sup_inv ((superviseConsumer J streamName ens cfg ^^ n) s)"
  by (induction n) (simp_all add: superviseConsumer_inv)

text \<open>The world never cancels: neither the context nor a wait nor a \<open>select\<close>.\<close>

definition never_cancelled :: "('w, 'k, 'c) supervised \<Rightarrow> bool" where
  "never_cancelled J = (\<forall>w. \<not> su_ctxDone J w \<and> snd (su_sleep J w) \<and> snd (su_select J w) \<noteq> CtxDone)"

lemma superviseConsumer_continues:
  "never_cancelled J \<Longrightarrow> sv_loc s \<noteq> Returned \<Longrightarrow> sv_loc (superviseConsumer J streamName ens cfg s) \<noteq> Returned"
  by (cases "sv_loc s")
    (auto simp: never_cancelled_def superviseConsumer_def stop_consumer_def case_prod_unfold split: option.split wake.split)

lemma superviseConsumer_pow_continues:
  "never_cancelled J \<Longrightarrow> sv_loc s \<noteq> Returned \<Longrightarrow> sv_loc ((superviseConsumer J streamName ens cfg ^^ n) s) \<noteq> Returned"
  by (induction n) (simp_all add: superviseConsumer_continues)

text \<open>At every moment a receiver has the one consumer it watches, and none while it waits or after it has returned, so
  no rebuild and no shutdown leaves a consumer behind; it returns only when it was cancelled.\<close>

theorem receiver_single_consumer:
  fixes J :: "('w, 'k, 'c) supervised"
  shows "sv_open (JetStream_StartReceiver J moduleName n w) =
      (case sv_loc (JetStream_StartReceiver J moduleName n w) of Watching cc \<Rightarrow> [cc] | _ \<Rightarrow> []) \<and>
    (never_cancelled J \<longrightarrow> sv_loc (JetStream_StartReceiver J moduleName n w) \<noteq> Returned)"
  using superviseConsumer_pow_inv [of "\<lparr>sv_loc = AtTop, sv_world = w, sv_open = []\<rparr>"]
    superviseConsumer_pow_continues [of J "\<lparr>sv_loc = AtTop, sv_world = w, sv_open = []\<rparr>"]
  by (simp add: JetStream_StartReceiver_def sup_inv_def)

text \<open>The worlds at the successive attempts to connect, when all before have failed and every wait ran its time.\<close>

fun attempt_world ::
  "('w, 'k, 'c) supervised \<Rightarrow> string \<Rightarrow> ('w \<Rightarrow> 'w \<times> go_error option) \<Rightarrow> consumer_config \<Rightarrow> nat \<Rightarrow> 'w \<Rightarrow> 'w" where
  "attempt_world J streamName ens cfg 0 w = w"
| "attempt_world J streamName ens cfg (Suc i) w = fst (su_sleep J (fst (connect J streamName ens cfg (attempt_world J streamName ens cfg i w))))"

lemma attempts:
  assumes "never_cancelled J" "\<And>i. i < k \<Longrightarrow> snd (connect J streamName ens cfg (attempt_world J streamName ens cfg i w)) = None"
  shows "(superviseConsumer J streamName ens cfg ^^ (2 * k)) \<lparr>sv_loc = AtTop, sv_world = w, sv_open = []\<rparr> =
    \<lparr>sv_loc = AtTop, sv_world = attempt_world J streamName ens cfg k w, sv_open = []\<rparr>"
  using assms(2)
proof (induction k)
  case (Suc k)
  let ?w = "attempt_world J streamName ens cfg k w"
  have "\<not> su_ctxDone J v" "snd (su_sleep J v)" for v using assms(1) by (auto simp: never_cancelled_def)
  then have "superviseConsumer J streamName ens cfg (superviseConsumer J streamName ens cfg \<lparr>sv_loc = AtTop, sv_world = ?w, sv_open = []\<rparr>) =
      \<lparr>sv_loc = AtTop, sv_world = attempt_world J streamName ens cfg (Suc k) w, sv_open = []\<rparr>"
    using Suc.prems [of k] by (simp add: superviseConsumer_def case_prod_unfold)
  then show ?case using Suc by simp
qed simp

text \<open>C17: a receiver heals. When the health check finds that the consumer is gone, the receiver stops it, and as soon as the
  stream, the consumer and the subscription can be made again, at the attempt after \<open>k\<close> failed ones, it watches
  the new consumer: after the check, one wait, and \<open>k\<close> attempts with their waits.\<close>

theorem receiver_heals:
  fixes J :: "('w, 'k, 'c) supervised" and moduleName :: string
  defines "ens \<equiv> EnsureEdgeStream J" and "cfg \<equiv> receiver_config moduleName"
  assumes run: "never_cancelled J"
    and lost: "su_select J w = (w1, Tick)" "su_Consumer J w1 EdgeStreamName moduleName = (w2, Some err)"
      "isConsumerGone (su_gone J) (Some err)"
    and w0: "w0 = fst (su_sleep J (su_Stop J w2 cc))"
    and fails: "\<And>i. i < k \<Longrightarrow> snd (connect J EdgeStreamName ens cfg (attempt_world J EdgeStreamName ens cfg i w0)) = None"
    and again: "connect J EdgeStreamName ens cfg (attempt_world J EdgeStreamName ens cfg k w0) = (w', Some cc')"
  shows "(superviseConsumer J EdgeStreamName ens cfg ^^ (2 * k + 3)) \<lparr>sv_loc = Watching cc, sv_world = w, sv_open = [cc]\<rparr> =
    \<lparr>sv_loc = Watching cc', sv_world = w', sv_open = [cc']\<rparr>"
proof -
  let ?s = "superviseConsumer J EdgeStreamName ens cfg"
  have nc: "\<not> su_ctxDone J v" "snd (su_sleep J v)" for v using run by (auto simp: never_cancelled_def)
  have "?s (?s \<lparr>sv_loc = Watching cc, sv_world = w, sv_open = [cc]\<rparr>) = \<lparr>sv_loc = AtTop, sv_world = w0, sv_open = []\<rparr>"
    using lost by (simp add: superviseConsumer_def stop_consumer_def cfg_def receiver_config_def case_prod_unfold nc w0)
  moreover have "(?s ^^ (2 * k + 3)) s = ?s ((?s ^^ (2 * k)) (?s (?s s)))" for s
    by (simp add: numeral_3_eq_3 funpow_swap1)
  moreover have "?s \<lparr>sv_loc = AtTop, sv_world = attempt_world J EdgeStreamName ens cfg k w0, sv_open = []\<rparr> =
      \<lparr>sv_loc = Watching cc', sv_world = w', sv_open = [cc']\<rparr>"
    using again by (simp add: superviseConsumer_def nc)
  ultimately show ?thesis using attempts [OF run fails] by simp
qed

text \<open>A broker that has lost everything: the consumer is missing until the world has counted to two.\<close>

definition missing_consumer :: go_error where "missing_consumer = ErrNew ''nats: consumer not found''"

definition blip :: "(nat, nat, nat) supervised" where
  "blip =
     \<lparr>su_CreateOrUpdateStream = (\<lambda>w c. (w, if w < 2 then Some (ErrNew ''no responders'') else None)),
      su_CreateOrUpdateConsumer = (\<lambda>w s c. (w, Inr w)), su_Consume = (\<lambda>w k. (w, Inr k)), su_Stop = (\<lambda>w c. w),
      su_Consumer = (\<lambda>w s d. (w, Some missing_consumer)), su_gone = [missing_consumer], su_ctxDone = (\<lambda>w. False),
      su_sleep = (\<lambda>w. (Suc w, True)), su_select = (\<lambda>w. (w, Tick))\<rparr>"

lemma blip_runs: "never_cancelled blip"
  by (simp add: never_cancelled_def blip_def)

theorem receiver_single_consumer_witness:
  "sv_loc (JetStream_StartReceiver blip ''m'' 100 0) \<noteq> Returned"
  using receiver_single_consumer [of blip "''m''" 100 0] blip_runs by simp

theorem receiver_heals_witness:
  "(superviseConsumer blip EdgeStreamName (EnsureEdgeStream blip) (receiver_config ''m'') ^^ 5)
     \<lparr>sv_loc = Watching 9, sv_world = 0, sv_open = [9]\<rparr> = \<lparr>sv_loc = Watching 2, sv_world = 2, sv_open = [2]\<rparr>"
  using receiver_heals [OF blip_runs, of 0 0 "''m''" 0 missing_consumer 1 9 1 2 2]
  by (simp add: blip_def isConsumerGone_def missing_consumer_def connect_def EnsureEdgeStream_def)

end
