(* ===== verification/Spec2Isabelle.thy ===== *)
theory Spec2Isabelle
  imports Edit_Flow Solution_Rules Publish_Redaction Eval_Checks Rbac_Check Flow_Issues Edge_Validation Port_Exposure Credential_Shapes Go_Values Naming Run_Reconciler Scheduler_Model Message_Router Receiver_Supervisor Controllers
begin

text \<open>
  A verification of the runtime and of the authoring tools of tiny-systems modules (the Go code under \<open>src/\<close>).

  \<^bold>\<open>The program.\<close> A module is a process that runs components. A flow is a graph of nodes, each an instance of a component, joined by edges that
  map the data of an output port to an input port by expressions. A message that reaches a node is routed by the module (\<open>cli/run.go\<close>) to the scheduler
  (\<open>internal/scheduler\<close>), which hands it to the runner of the node (\<open>internal/scheduler/runner\<close>); the runner evaluates the configuration of the edge, calls the
  component, and dispatches what the component emits along the edges of the node, inside the process, over gRPC or over NATS and JetStream
  (\<open>internal/transport\<close>, \<open>pkg/wire\<close>). A durable run keeps a ledger of its steps in a key-value store, which the run reconciler reads to drive lost hops again. Controllers
  (\<open>internal/controller\<close>) keep the scheduler in step with the cluster; the resource manager (\<open>pkg/resource\<close>) writes the cluster on behalf of a project. Around this,
  \<open>pkg/utils\<close>, \<open>pkg/tools\<close>, \<open>pkg/solution\<close> and \<open>pkg/evals\<close> import, check, simulate, redact and publish flows.

  \<^bold>\<open>How the model is written.\<close> A struct is a record, a Go map a list of members in one order of iteration, a nil map or pointer that the code
  tells from an empty one an option, an error a value of \<open>go_error\<close>; an operation that changes state returns the new state. Integers are unbounded where no
  operation can overflow, and wrap (\<open>wrap64\<close>) where it can. Code outside the repository is an argument: the Kubernetes client, the broker, the JSON, JSON-path, JSON-schema,
  YAML and fake-data libraries, the clock, and the platform behind the tools. What a theorem needs of it is a hypothesis, and each such theorem has a witness.

  \<^bold>\<open>The runtime.\<close>
  \<^item> \<open>Tiny_Prelude\<close>, \<open>Json_Values\<close>: strings, numbers and documents, with the lemmas every theory shares.
  \<^item> \<open>Error_Contract\<close> (\<open>module/errors.go\<close>, \<open>module/result.go\<close>, \<open>pkg/errors\<close>): one predicate decides what is retried.
  \<^item> \<open>Durable_Run\<close> (\<open>module/run.go\<close>, \<open>ledger.go\<close>, \<open>usage.go\<close>): step keys are those of the ordinals of each edge, in whatever order the edges are served.
  \<^item> \<open>Node_Model\<close>, \<open>Naming\<close> (\<open>api/v1alpha1\<close>, \<open>module/info.go\<close>, \<open>pkg/utils/naming.go\<close>): nodes, edges, port names and resource names.
  \<^item> \<open>State_Backends\<close> (\<open>pkg/state\<close>): the overlay over the metadata of a node and the JetStream scope, both interpreted as the locale \<open>state_backend\<close>; a write is read back for
    the five seconds of the overlay, whatever the cache answers.
  \<^item> \<open>Expression_Eval\<close>, \<open>Edge_Dispatch\<close>, \<open>Debounce\<close>, \<open>Runner_Model\<close> (\<open>pkg/evaluator\<close>, \<open>runner\<close>): evaluation, the retry loop of an edge, the fan-out, the debouncer as a step
    relation, and the handler of a message. A durable hop runs at most once; no update of a node is lost before its patch.
  \<^item> \<open>Scheduler_Model\<close>, \<open>Run_Reconciler\<close> (\<open>internal/scheduler\<close>): a reachable scheduler is consistent, a failed update is rolled back, the frontier of a
    run is what is outstanding, and a lost hop is driven a bounded number of times.
  \<^item> \<open>Wire_Transport\<close>, \<open>Receiver_Supervisor\<close>, \<open>Message_Router\<close> (\<open>internal/transport\<close>, \<open>pkg/wire\<close>, \<open>cli/run.go\<close>, \<open>internal/client\<close>, \<open>internal/server\<close>): every wire carries a hop
    unchanged up to the fields it has no header for (the locale \<open>wire\<close>, interpreted for the core wire, the stream, durable hops and gRPC), a receiver heals, and a chain of messages in a module ends.
  \<^item> \<open>Controllers\<close>, \<open>Resource_Manager\<close>, \<open>Port_Exposure\<close> (\<open>internal/controller\<close>, \<open>pkg/resource/manager.go\<close>): only the leader writes a status, a deletion leaves no
    reference behind, a wait for the controller follows it, and closing an exposed port restores the service and an ingress whose rules have one path each; what becomes of other rules is
    stated too.
  \<^item> \<open>Redaction\<close>, \<open>Credential_Shapes\<close>, \<open>Go_Values\<close> (\<open>pkg/redact\<close>, \<open>pkg/secret\<close>): secrets by name, by shape (the locale \<open>local_shape\<close>, one interpretation per shape) and by
    declaration on a string field.

  \<^bold>\<open>The authoring side.\<close>
  \<^item> \<open>Flow_Elements\<close>, \<open>Graph_Import\<close>, \<open>Import_Validation\<close> (\<open>pkg/utils\<close>): the nodes and the \<open>tinyEdge\<close> edges of a validated import all land; other elements it lets pass are ignored.
  \<^item> \<open>Data_Generator\<close>, \<open>Port_Simulation\<close>, \<open>Edge_Validation\<close> (\<open>pkg/jsonschemagenerator\<close>, \<open>pkg/utils\<close>): sample data, simulation along the edges, the verdict on an edge.
  \<^item> \<open>Publish_Redaction\<close> (\<open>pkg/tools/graph_redact.go\<close>, \<open>scenario_capture.go\<close>): the configurations of a published graph are scrubbed; the list defaults of a schema are not.
  \<^item> \<open>Eval_Checks\<close> (\<open>pkg/evals\<close>): the verdict does not depend on the order of Go maps, and every missing variable is named.
  \<^item> \<open>Rbac_Check\<close> (\<open>cli/rbaccheck.go\<close>): the findings are exactly the demanded verbs that the declared rules do not grant.
  \<^item> \<open>Flow_Issues\<close> (\<open>pkg/tools/flow_validate.go\<close>, \<open>signal_readiness.go\<close>, \<open>position_tracker.go\<close>): a graph without reported faults is sound; the wait before a flow is fired is bounded.
  \<^item> \<open>Scenario_Scaffold\<close>, \<open>Derived_Schemas\<close> (\<open>pkg/tools/build_flow_scenarios.go\<close>, \<open>scenario_scaffold_live.go\<close>, \<open>schema_required.go\<close>, \<open>edit_flow_lookup.go\<close>): a scaffolded sample has every path the
    edges read; every configurable field with data gets a schema, and which values a derived schema accepts.
  \<^item> \<open>Solution_Rules\<close> (\<open>pkg/solution\<close>): the verdict on dashboard widgets is exact.
  \<^item> \<open>Edit_Flow\<close> (\<open>pkg/tools/edit_flow.go\<close>): the actions of the edit tool over the platform; no edge is made to a port known to be missing.

  This theory holds the properties that span components: a retry asked of the broker that the ledger swallows, and the agreement of the reconciler with the runners on the
  key of a step.

  \<^bold>\<open>Loops and bounds.\<close> Every definition is total. The generator and the simulation take fuel: a generator that is not recursive returns with
  \<open>R * (size + 1) + size\<close> for \<open>R\<close> layers of definitions, and the simulation with a depth above the number of sources of edges; both are proved. A schema that
  needs a definition that needs itself never yields a value, for any fuel. The readiness wait polls at most 30 times, a stored message is delivered at most three times, a chain of messages has at most \<open>MaxMessageDepth\<close> hops, and a
  placeholder descends at most six levels of a schema.

  \<^bold>\<open>Not modelled.\<close> Process start, flags and the server loops; tracing and metrics; watches and Helm releases, which are calls of libraries; port forwarding; the reflection that
  makes a schema of a Go type; the views of nodes for the editor, exports and statistics; the tools that only pass a request to the platform, and their prompt texts; generated code.
  Of the runner, the panic of a masked copy outside the wrapper, the log of orphaned configuration keys, emissions outside a call of the component and
  emissions on the context from before a run was begun are left out, and so is the leader flag on the context of a component; goroutines of a fan-out are sequences in any order. Samples of a scaffold
  share no objects. The values of message headers are
  assumed to arrive unchanged.
\<close>

section \<open>Properties of the whole\<close>

subsection \<open>The transport and the runner\<close>

text \<open>The runner of a node as the handler of a receiver: its state is part of the world.\<close>

definition node_receiver ::
  "('w, 'v, 'f) renv \<Rightarrow> ('s, 'v) component \<Rightarrow> ('w, 'v) handler option \<Rightarrow> (('s, 'v) runner \<times> 'w, 'v) handler" where
  "node_receiver E C h st m = MsgHandler E C h None m st"

text \<open>C14: a retry asked of the broker never runs. A stored hop of a durable run whose component fails with a retryable error is
  answered with a negative acknowledgement, so the broker delivers it again; but the failure was recorded in the
  ledger, so the second delivery is skipped as done and acknowledged. The component has run once and the message
  is gone.\<close>

theorem durable_retry_lost:
  assumes "kv_stores (e_kv E)" and "e_has_kv E" and "\<And>rec. e_encode_record E rec \<noteq> None"
    and "rn_state rn = Some RouterHandle"
    and "msg_RunID m \<noteq> []" and "msg_StepKey m \<noteq> []"
    and "accepts E C None m (rn, w) = Some acc"
    and "snd (snd (MsgHandler E C h None m (rn, w))) = Some err" and "ShouldRetry (Some err)"
    and "js_incoming n = m" and "header_Get (nm_Header n) headerReplyInbox = []"
  shows "deliveries P B (node_receiver E C h) n edgeMaxDeliver (rn, w) = (fst (MsgHandler E C h None m (rn, w)), [Nak, Ack])"
proof -
  obtain name data ctx1 rn2 where a: "acc = (name, data, ctx1, rn2)" by (cases acc)
  obtain rn' w' res where mh: "MsgHandler E C h None m (rn, w) = ((rn', w'), res, Some err)"
    using assms(8) by (metis prod.collapse)
  have "MsgHandler E C h None m (rn', w') = ((rn', w'), ANil, None)"
    using delivered_hop_recorded [OF assms(1-6) assms(7) [unfolded a] refl assms(2) mh] assms(5) by (blast intro: MsgHandler_recorded)
  then show ?thesis
    using mh assms(9-11) by (simp add: edgeMaxDeliver_def numeral_3_eq_3 JetStream_handleIncoming_def node_receiver_def)
qed

subsection \<open>The reconciler and the runner\<close>

text \<open>The reconciler and the runners agree on the key of a step.\<close>

lemma ledger_key:
  assumes "list_all key_char runID" "list_all key_char stepKey"
  shows "full_key (newExecState runID) (StepLedgerKey stepKey) = ''exec/'' @ runID @ ''/step/'' @ stepKey"
proof -
  have "list_all key_char ''exec/''" "list_all key_char ''/''" "list_all key_char ''step/''" by code_simp+
  then have "sanitizeKey (''exec/'' @ runID @ ''/'') = ''exec/'' @ runID @ ''/''" "sanitizeKey (''step/'' @ stepKey) = ''step/'' @ stepKey"
    using assms by (auto intro!: sanitizeKey_id)
  then show ?thesis by (simp add: full_key_def newExecState_def StepLedgerKey_def)
qed

text \<open>A hop the reconciler has given up stays given up. Once the attempts are used up, the reconciler writes a failed record
  under the key the runners look at, so a delivery of the hop that still arrives is skipped by its runner. A run is
  re-driven only after more time than the stream remembers message identifiers, so a re-driven hop is never
  dropped as a duplicate of the lost one.\<close>

theorem given_up_hop_skipped:
  assumes "kv_stores (e_kv E)" and "e_has_kv E" and "rn_state rn = Some RouterHandle"
    and "list_all key_char runID" and "list_all key_char (er_StepKey hop)" and "runID \<noteq> []" and "er_StepKey hop \<noteq> []"
    and "snd (ParseFullPortName (er_To hop)) \<noteq> []"
    and "redriveAttempts (e_kv E) w runID (er_StepKey hop) \<ge> maxRedrives" and "\<And>r. rc_enc cod r \<noteq> None"
  shows "MsgHandler E C h ctx (redrive_msg runID hop) (rn, fst (redrive_hop g (e_kv E) cod now runID hop w)) =
      ((rn, fst (redrive_hop g (e_kv E) cod now runID hop w)), ANil, None) \<and>
    str_Duplicates edge_stream < defaultStaleAfter"
proof
  let ?k = "''exec/'' @ runID @ ''/step/'' @ er_StepKey hop"
  let ?w = "fst (redrive_hop g (e_kv E) cod now runID hop w)"
  let ?a = "redriveAttempts (e_kv E) w runID (er_StepKey hop)"
  obtain b where b: "rc_enc cod (failed_record now hop ?a) = Some b" using assms(10) by blast
  obtain w' where w': "kv_put (e_kv E) w ?k b = (w', None)" using assms(1) unfolding kv_stores_def by (metis prod.collapse)
  have "?w = w'" using assms(9) b w' by (simp add: redrive_hop_def failStep_def Let_def)
  moreover have "kv_get (e_kv E) w' ?k = Inr b" using kv_lawfulD(1) [OF _ w'] assms(1) by (simp add: kv_stores_def)
  ultimately have "step_recorded E rn ?w (redrive_msg runID hop)"
    using assms(2-7)
    by (simp add: step_recorded_def redrive_msg_def exec_handle_router JetStreamState_Get_def ledger_key del: append_Cons)
  then show "MsgHandler E C h ctx (redrive_msg runID hop) (rn, ?w) = ((rn, ?w), ANil, None)"
    using assms(6,8) by (intro MsgHandler_recorded) (simp_all add: redrive_msg_def)
  show "str_Duplicates edge_stream < defaultStaleAfter"
    by (simp add: edge_stream_def defaultStaleAfter_def Second_def)
qed

subsection \<open>Examples\<close>

definition silent_broker :: "'w broker" where
  "silent_broker = \<lparr>bk_Request = (\<lambda>w m. (w, Inr m)), bk_Publish = (\<lambda>w m. (w, None)), bk_Subscribe = (\<lambda>w s. (w, None)),
     bk_Await = (\<lambda>w s. (w, Inl CtxDeadlineExceeded)), bk_StreamPublish = (\<lambda>w m. (w, Inr False)), bk_NewInbox = (\<lambda>w. ''_INBOX.2'')\<rparr>"

definition busy_component :: "(nat, string) component" where
  "busy_component =
     sample_component\<lparr>cp_Handle := (\<lambda>n ctx name v. Ret (n + 1) (Fail (Some (RetryError (ErrNew ''busy'') True))))\<rparr>"

theorem durable_retry_lost_witness:
  "snd (deliveries sample_payloads silent_broker (node_receiver sample_world_env busy_component (Some store_handler))
     (durable_request ''m'' sample_hop) edgeMaxDeliver (sample_runner, [])) = [Nak, Ack]"
proof -
  let ?E = "sample_world_env"
  let ?m = "on_wire sample_hop"
  have "accepts ?E busy_component None ?m (sample_runner, []) \<noteq> None" by code_simp
  then obtain acc where a: "accepts ?E busy_component None ?m (sample_runner, []) = Some acc" by blast
  have e: "snd (snd (MsgHandler ?E busy_component (Some store_handler) None ?m (sample_runner, []))) = Some (RetryError (ErrNew ''busy'') True)"
    by code_simp
  have "sendable sample_hop" "reply_on_wire sample_hop = sample_hop"
    by (simp_all add: sample_hop_def edge_msg_def sendable_def depth_ok_def max_int64_def reply_on_wire_def)
  then have j: "js_incoming (durable_request ''m'' sample_hop) = ?m" by (simp add: durable_request_incoming)
  have i: "header_Get (nm_Header (durable_request ''m'' sample_hop)) headerReplyInbox = []"
    by (simp add: durable_request_def durable_headers_def hop_headers_def set_depth_def Let_def wire_simps)
  have "deliveries sample_payloads silent_broker (node_receiver ?E busy_component (Some store_handler)) (durable_request ''m'' sample_hop)
      edgeMaxDeliver (sample_runner, []) = (fst (MsgHandler ?E busy_component (Some store_handler) None ?m (sample_runner, [])), [Nak, Ack])"
    by (rule durable_retry_lost [OF _ _ _ _ _ _ a e _ j i])
      (simp_all add: sample_env_def mem_kv_stores sample_runner_def sample_hop_def edge_msg_def on_wire_def ShouldRetry_def IsPermanent_def IsRetryable_def)
  then show ?thesis by simp
qed

definition sample_hop_record :: emit_record where
  "sample_hop_record =
     \<lparr>er_To = ''n:in'', er_From = ''m:out'', er_EdgeID = ''e0'', er_StepKey = ''k1'', er_Data = ''hello'', er_ReplySubject = [],
      er_ReplyTarget = [], er_ReplyDeadline = 0\<rparr>"

theorem given_up_hop_skipped_witness:
  "MsgHandler sample_world_env sample_component (Some store_handler) None (redrive_msg ''r1'' sample_hop_record)
     (sample_runner, fst (redrive_hop store_handler mem_kv \<lparr>rc_enc = (\<lambda>r. Some ''rec''), rc_dec = (\<lambda>b. None)\<rparr> 0 ''r1'' sample_hop_record
        (recordRedrive mem_kv [] ''r1'' ''k1'' maxRedrives))) =
   ((sample_runner, fst (redrive_hop store_handler mem_kv \<lparr>rc_enc = (\<lambda>r. Some ''rec''), rc_dec = (\<lambda>b. None)\<rparr> 0 ''r1'' sample_hop_record
        (recordRedrive mem_kv [] ''r1'' ''k1'' maxRedrives))), ANil, None)"
proof -
  have "redriveAttempts mem_kv (recordRedrive mem_kv [] ''r1'' ''k1'' maxRedrives) ''r1'' ''k1'' \<ge> maxRedrives" by code_simp
  moreover have "list_all key_char ''r1''" "list_all key_char ''k1''" by code_simp+
  ultimately show ?thesis
    using given_up_hop_skipped [of sample_world_env sample_runner "''r1''" sample_hop_record "recordRedrive mem_kv [] ''r1'' ''k1'' maxRedrives"
        "\<lparr>rc_enc = (\<lambda>r. Some ''rec''), rc_dec = (\<lambda>b. None)\<rparr>" sample_component "Some store_handler" None store_handler 0]
    by (simp add: sample_env_def mem_kv_stores sample_runner_def sample_hop_record_def ParseFullPortName_def)
qed

end
